(* ===== verification/Prelude.thy ===== *)
theory Prelude
  imports Main "HOL-Library.Word" "HOL-Library.AList"
begin

text \<open>
  What the component theories share: the names of the model's machine types,
  the result type of Rust's \<open>Result\<close> with its \<open>?\<close> operator, big- and
  little-endian byte encodings of machine words, decimal and hexadecimal
  rendering used by \<open>format!\<close>, and generic lemmas on lists and association
  lists.  Four collections of rewrite rules are declared here and filled by
  the components: \<open>result_simps\<close> (the result type), \<open>codec_simps\<close> (byte
  encodings), \<open>smonad_simps\<close> (stateful computations) and \<open>state_defs\<close>
  (unfolding of a component's operations).
\<close>

named_theorems result_simps \<open>rewriting of computations in the result type\<close>
named_theorems codec_simps \<open>byte-level encoders and decoders\<close>
named_theorems state_defs \<open>definitions of the operations of a component\<close>

unbundle bit_operations_syntax

type_synonym u8 = "8 word"
type_synonym u16 = "16 word"
type_synonym u32 = "32 word"
type_synonym u64 = "64 word"
type_synonym bytes = "u8 list"

section \<open>Results\<close>

text \<open>
  \<open>rbind m f\<close> is \<open>let x = m?; f x\<close>; \<open>ok_or\<close> and \<open>map_err\<close> are the methods of
  the same names; \<open>guard_err b e\<close> is \<open>if b { return Err(e) }\<close>.
\<close>

fun rbind :: "'e + 'a \<Rightarrow> ('a \<Rightarrow> 'e + 'b) \<Rightarrow> 'e + 'b" where
  "rbind (Inl e) f = Inl e"
| "rbind (Inr x) f = f x"

fun ok_or :: "'e \<Rightarrow> 'a option \<Rightarrow> 'e + 'a" where
  "ok_or e None = Inl e"
| "ok_or e (Some x) = Inr x"

fun map_err :: "('e \<Rightarrow> 'f) \<Rightarrow> 'e + 'a \<Rightarrow> 'f + 'a" where
  "map_err g (Inl e) = Inl (g e)"
| "map_err g (Inr x) = Inr x"

definition guard_err :: "bool \<Rightarrow> 'e \<Rightarrow> 'e + unit" where
  "guard_err b e = (if b then Inl e else Inr ())"

fun is_ok :: "'e + 'a \<Rightarrow> bool" where
  "is_ok (Inl e) = False"
| "is_ok (Inr x) = True"

lemma rbind_eq_Inr [result_simps]:
  "rbind m f = Inr y \<longleftrightarrow> (\<exists>x. m = Inr x \<and> f x = Inr y)"
  by (cases m) auto

lemma rbind_eq_Inl:
  "rbind m f = Inl e \<longleftrightarrow> m = Inl e \<or> (\<exists>x. m = Inr x \<and> f x = Inl e)"
  by (cases m) auto

lemma ok_or_eq_Inr [result_simps]: "ok_or e m = Inr x \<longleftrightarrow> m = Some x"
  by (cases m) auto

lemma ok_or_eq_Inl: "ok_or e m = Inl e' \<longleftrightarrow> m = None \<and> e' = e"
  by (cases m) auto

lemma map_err_eq_Inr [result_simps]: "map_err g m = Inr x \<longleftrightarrow> m = Inr x"
  by (cases m) auto

lemma guard_err_eq_Inr [result_simps]: "guard_err b e = Inr u \<longleftrightarrow> \<not> b"
  by (simp add: guard_err_def)

lemma guard_err_True [simp]: "guard_err True e = Inl e"
  by (simp add: guard_err_def)

lemma guard_err_False [simp]: "guard_err False e = Inr ()"
  by (simp add: guard_err_def)

lemma rbind_guard_err [result_simps]:
  "rbind (guard_err b e) f = (if b then Inl e else f ())"
  by (simp add: guard_err_def)

lemma is_ok_iff: "is_ok m \<longleftrightarrow> (\<exists>x. m = Inr x)"
  by (cases m) auto

section \<open>Stateful computations that may fail\<close>

text \<open>
  A computation over a state \<open>'s\<close>: \<open>sbind m f\<close> is \<open>let x = m?; f x\<close> where \<open>m\<close>
  also changes the state, and the state reached is kept when it fails.
\<close>

type_synonym ('s, 'e, 'a) smonad = "'s \<Rightarrow> ('e + 'a) \<times> 's"

definition sreturn :: "'a \<Rightarrow> ('s, 'e, 'a) smonad" where
  "sreturn x s = (Inr x, s)"

definition sfail :: "'e \<Rightarrow> ('s, 'e, 'a) smonad" where
  "sfail e s = (Inl e, s)"

definition slift :: "'e + 'a \<Rightarrow> ('s, 'e, 'a) smonad" where
  "slift r s = (r, s)"

definition sbind :: "('s, 'e, 'a) smonad \<Rightarrow> ('a \<Rightarrow> ('s, 'e, 'b) smonad) \<Rightarrow> ('s, 'e, 'b) smonad" where
  "sbind m f s = (case m s of (Inl e, s) \<Rightarrow> (Inl e, s) | (Inr x, s) \<Rightarrow> f x s)"

named_theorems smonad_simps \<open>running stateful computations\<close>

lemma sreturn_run [smonad_simps]: "sreturn x s = (Inr x, s)"
  by (simp add: sreturn_def)

lemma sfail_run [smonad_simps]: "sfail e s = (Inl e, s)"
  by (simp add: sfail_def)

lemma slift_run [smonad_simps]: "slift r s = (r, s)"
  by (simp add: slift_def)

lemma sbind_Inr [smonad_simps]: "m s = (Inr x, s') \<Longrightarrow> sbind m f s = f x s'"
  by (simp add: sbind_def)

lemma sbind_Inl [smonad_simps]: "m s = (Inl e, s') \<Longrightarrow> sbind m f s = (Inl e, s')"
  by (simp add: sbind_def)

lemma sbind_eq_Inr:
  "sbind m f s = (Inr y, t) \<longleftrightarrow> (\<exists>x s'. m s = (Inr x, s') \<and> f x s' = (Inr y, t))"
  by (auto simp: sbind_def split: prod.splits sum.splits)

section \<open>Byte encodings of machine words\<close>

fun be_nat :: "nat \<Rightarrow> nat \<Rightarrow> bytes" where
  "be_nat 0 v = []"
| "be_nat (Suc n) v = be_nat n (v div 256) @ [word_of_nat (v mod 256)]"

definition be_val :: "bytes \<Rightarrow> nat" where
  "be_val bs = foldl (\<lambda>a b. a * 256 + unat b) 0 bs"

fun le_nat :: "nat \<Rightarrow> nat \<Rightarrow> bytes" where
  "le_nat 0 v = []"
| "le_nat (Suc n) v = word_of_nat (v mod 256) # le_nat n (v div 256)"

fun le_val :: "bytes \<Rightarrow> nat" where
  "le_val [] = 0"
| "le_val (b # bs) = unat b + 256 * le_val bs"

lemma length_be_nat [simp]: "length (be_nat n v) = n"
  by (induction n arbitrary: v) auto

lemma length_le_nat [simp]: "length (le_nat n v) = n"
  by (induction n arbitrary: v) auto

lemma unat_lt2p: "unat (w :: 'a::len word) < 2 ^ LENGTH('a)"
  by (rule unsigned_less)

lemma unat_byte_mod [simp]: "unat (word_of_nat (v mod 256) :: u8) = v mod 256"
  by (simp add: unat_of_nat)

lemma unat_byte_less [simp]: "unat (b :: u8) < 256"
  using unat_lt2p [of b] by simp

lemma be_val_Nil [simp]: "be_val [] = 0"
  by (simp add: be_val_def)

lemma be_val_snoc [simp]: "be_val (bs @ [b]) = be_val bs * 256 + unat b"
  by (simp add: be_val_def)

lemma be_val_be_nat [codec_simps]: "be_val (be_nat n v) = v mod 256 ^ n"
proof (induction n arbitrary: v)
  case 0
  then show ?case by simp
next
  case (Suc n)
  have "be_val (be_nat (Suc n) v) = (v div 256) mod 256 ^ n * 256 + v mod 256"
    using Suc by simp
  also have "\<dots> = v mod (256 * 256 ^ n)"
    by (simp add: mod_mult2_eq)
  finally show ?case by simp
qed

lemma be_val_less: "be_val bs < 256 ^ length bs"
proof (induction bs rule: rev_induct)
  case Nil
  then show ?case by simp
next
  case (snoc b bs)
  have "be_val bs * 256 + unat b < (be_val bs + 1) * 256" by simp
  also have "\<dots> \<le> 256 ^ length bs * 256" using snoc by simp
  finally show ?case by simp
qed

lemma be_nat_be_val [codec_simps]: "be_nat (length bs) (be_val bs) = bs"
  by (induction bs rule: rev_induct) auto

lemma le_val_le_nat [codec_simps]: "le_val (le_nat n v) = v mod 256 ^ n"
  by (induction n arbitrary: v) (simp_all add: mod_mult2_eq)

lemma le_nat_le_val [codec_simps]: "le_nat (length bs) (le_val bs) = bs"
proof (induction bs)
  case Nil
  then show ?case by simp
next
  case (Cons b bs)
  have "(unat b + 256 * le_val bs) div 256 = le_val bs"
    and "(unat b + 256 * le_val bs) mod 256 = unat b" by simp_all
  then show ?case using Cons by simp
qed

text \<open>The \<open>to_be_bytes\<close>/\<open>from_be_bytes\<close> pairs of the integer types.\<close>

definition u16_to_be :: "u16 \<Rightarrow> bytes" where "u16_to_be w = be_nat 2 (unat w)"
definition u32_to_be :: "u32 \<Rightarrow> bytes" where "u32_to_be w = be_nat 4 (unat w)"
definition u64_to_be :: "u64 \<Rightarrow> bytes" where "u64_to_be w = be_nat 8 (unat w)"
definition u16_from_be :: "bytes \<Rightarrow> u16" where "u16_from_be bs = word_of_nat (be_val bs)"
definition u32_from_be :: "bytes \<Rightarrow> u32" where "u32_from_be bs = word_of_nat (be_val bs)"
definition u64_from_be :: "bytes \<Rightarrow> u64" where "u64_from_be bs = word_of_nat (be_val bs)"
definition u16_to_le :: "u16 \<Rightarrow> bytes" where "u16_to_le w = le_nat 2 (unat w)"
definition u32_to_le :: "u32 \<Rightarrow> bytes" where "u32_to_le w = le_nat 4 (unat w)"
definition u64_to_le :: "u64 \<Rightarrow> bytes" where "u64_to_le w = le_nat 8 (unat w)"
definition u16_from_le :: "bytes \<Rightarrow> u16" where "u16_from_le bs = word_of_nat (le_val bs)"
definition u32_from_le :: "bytes \<Rightarrow> u32" where "u32_from_le bs = word_of_nat (le_val bs)"
definition u64_from_le :: "bytes \<Rightarrow> u64" where "u64_from_le bs = word_of_nat (le_val bs)"

lemma length_word_bytes [simp]:
  "length (u16_to_be a) = 2" "length (u32_to_be b) = 4" "length (u64_to_be c) = 8"
  "length (u16_to_le a) = 2" "length (u32_to_le b) = 4" "length (u64_to_le c) = 8"
  by (simp_all add: u16_to_be_def u32_to_be_def u64_to_be_def
      u16_to_le_def u32_to_le_def u64_to_le_def)

lemma unat_mod_width:
  "unat (a :: u16) mod 65536 = unat a" "unat (b :: u32) mod 4294967296 = unat b"
  "unat (c :: u64) mod 18446744073709551616 = unat c"
  using unat_lt2p [of a] unat_lt2p [of b] unat_lt2p [of c] by simp_all

lemma from_to_be [simp, codec_simps]:
  "u16_from_be (u16_to_be a) = a" "u32_from_be (u32_to_be b) = b"
  "u64_from_be (u64_to_be c) = c"
  by (simp_all add: u16_from_be_def u16_to_be_def u32_from_be_def u32_to_be_def
      u64_from_be_def u64_to_be_def be_val_be_nat unat_mod_width)

lemma from_to_le [simp, codec_simps]:
  "u16_from_le (u16_to_le a) = a" "u32_from_le (u32_to_le b) = b"
  "u64_from_le (u64_to_le c) = c"
  by (simp_all add: u16_from_le_def u16_to_le_def u32_from_le_def u32_to_le_def
      u64_from_le_def u64_to_le_def le_val_le_nat unat_mod_width)

lemma unat_of_be_val:
  "length bs = 2 \<Longrightarrow> unat (word_of_nat (be_val bs) :: u16) = be_val bs"
  "length bs = 4 \<Longrightarrow> unat (word_of_nat (be_val bs) :: u32) = be_val bs"
  "length bs = 8 \<Longrightarrow> unat (word_of_nat (be_val bs) :: u64) = be_val bs"
  using be_val_less [of bs] by (simp_all add: unat_of_nat)

lemma to_from_be [codec_simps]:
  "length bs = 2 \<Longrightarrow> u16_to_be (u16_from_be bs) = bs"
  "length bs = 4 \<Longrightarrow> u32_to_be (u32_from_be bs) = bs"
  "length bs = 8 \<Longrightarrow> u64_to_be (u64_from_be bs) = bs"
  using be_nat_be_val [of bs]
  by (simp_all add: u16_from_be_def u16_to_be_def u32_from_be_def u32_to_be_def
      u64_from_be_def u64_to_be_def unat_of_be_val)

lemma to_be_inject [simp]:
  "u16_to_be a = u16_to_be a' \<longleftrightarrow> a = a'" "u32_to_be b = u32_to_be b' \<longleftrightarrow> b = b'"
  "u64_to_be c = u64_to_be c' \<longleftrightarrow> c = c'"
  by (metis from_to_be)+

lemma to_le_inject [simp]:
  "u16_to_le a = u16_to_le a' \<longleftrightarrow> a = a'" "u32_to_le b = u32_to_le b' \<longleftrightarrow> b = b'"
  "u64_to_le c = u64_to_le c' \<longleftrightarrow> c = c'"
  by (metis from_to_le)+

section \<open>Rendering of numbers\<close>

text \<open>\<open>dec n\<close> is \<open>format!("{n}")\<close>; \<open>hex02 b\<close> is \<open>format!("{b:#04x}")\<close> of a byte.\<close>

definition digit_char :: "nat \<Rightarrow> char" where
  "digit_char d = (if d < 10 then char_of (48 + d) else char_of (87 + d))"

fun dec :: "nat \<Rightarrow> string" where
  "dec n = (if n < 10 then [digit_char n] else dec (n div 10) @ [digit_char (n mod 10)])"

declare dec.simps [simp del]

definition hex02 :: "u8 \<Rightarrow> string" where
  "hex02 b = ''0x'' @ [digit_char (unat b div 16), digit_char (unat b mod 16)]"

text \<open>The long dash of the messages, in UTF-8.\<close>

definition em_dash :: string where "em_dash = [CHR 0xE2, CHR 0x80, CHR 0x94]"

text \<open>The bytes of a string literal.\<close>

definition str_bytes :: "string \<Rightarrow> bytes" where
  "str_bytes s = map (\<lambda>c. word_of_nat (of_char c)) s"

lemma length_str_bytes [simp]: "length (str_bytes s) = length s"
  by (simp add: str_bytes_def)

lemma str_bytes_append: "str_bytes (s @ t) = str_bytes s @ str_bytes t"
  by (simp add: str_bytes_def)

lemma str_bytes_inject [simp]: "str_bytes s = str_bytes t \<longleftrightarrow> s = t"
proof
  have inj: "inj (\<lambda>c. word_of_nat (of_char c) :: u8)"
  proof (rule injI)
    fix c d :: char
    assume "(word_of_nat (of_char c) :: u8) = word_of_nat (of_char d)"
    then have "unat (word_of_nat (of_char c) :: u8) = unat (word_of_nat (of_char d) :: u8)"
      by simp
    then have "(of_char c :: nat) mod 256 = of_char d mod 256" by (simp add: unat_of_nat)
    then have "(of_char c :: nat) = of_char d" by simp
    then show "c = d" by simp
  qed
  assume "str_bytes s = str_bytes t"
  then show "s = t" unfolding str_bytes_def using inj by (simp add: inj_map_eq_map)
qed simp

definition chars :: "bytes \<Rightarrow> string" where
  "chars bs = map (\<lambda>b. char_of (unat b)) bs"

lemma chars_str_bytes [simp]: "chars (str_bytes s) = s"
  by (simp add: chars_def str_bytes_def unat_of_nat comp_def)

lemma length_chars [simp]: "length (chars bs) = length bs"
  by (simp add: chars_def)

section \<open>Lists and association lists\<close>

lemma append_eq_same_length:
  "length xs = length ys \<Longrightarrow> xs @ us = ys @ vs \<longleftrightarrow> xs = ys \<and> us = vs"
  by simp

lemma take_append_exact [simp]: "n = length xs \<Longrightarrow> take n (xs @ ys) = xs"
  by simp

lemma drop_append_exact [simp]: "n = length xs \<Longrightarrow> drop n (xs @ ys) = ys"
  by simp

lemma drop_two: "Suc i < length b \<Longrightarrow> drop i b = [b ! i, b ! Suc i] @ drop (i + 2) b"
  by (simp add: Cons_nth_drop_Suc)

lemma drop_split: "drop i b = take k (drop i b) @ drop (i + k) b"
  by (metis append_take_drop_id add.commute drop_drop)

lemma length_2_conv: "length xs = 2 \<longleftrightarrow> (\<exists>a b. xs = [a, b])"
  by (auto simp: length_Suc_conv numeral_2_eq_2)

lemma length_alist_update:
  "length (AList.update k v al) = (if k \<in> fst ` set al then length al else Suc (length al))"
  by (induction al) auto

lemma alist_update_notin: "k \<notin> fst ` set al \<Longrightarrow> AList.update k v al = al @ [(k, v)]"
  by (induction al) auto

lemma length_alist_delete:
  "distinct (map fst al) \<Longrightarrow>
   length (AList.delete k al) = (if k \<in> fst ` set al then length al - 1 else length al)"
proof (induction al)
  case Nil
  then show ?case by simp
next
  case (Cons p al)
  obtain a b where p: "p = (a, b)" by (cases p)
  show ?case
  proof (cases "a = k")
    case True
    then have "k \<notin> fst ` set al" using Cons.prems p by auto
    then have "AList.delete k al = al" by (simp add: AList.delete_notin_dom dom_map_of_conv_image_fst)
    then show ?thesis using p True by simp
  next
    case False
    moreover have "0 < length al" if "k \<in> fst ` set al" using that by (cases al) auto
    ultimately show ?thesis using Cons p by (auto simp: Suc_diff_Suc)
  qed
qed

end
