(* ===== verification/Core.thy ===== *)
theory Core
  imports Prelude "HOL-Library.Char_ord" "HOL-Library.List_Lexorder"
    "HOL-Library.Product_Lexorder"
begin

text \<open>
  The crate \<open>ullm-core\<close>: error codes and errors (\<open>error.rs\<close>), identifiers and
  counters (\<open>ids.rs\<close>), protocol constants and cipher-suite identifiers
  (\<open>version.rs\<close>) and the wall clock (\<open>clock.rs\<close>).
\<close>

section \<open>error.rs\<close>

datatype ErrorCode =
    EC_BadVersion | EC_BadCipherSuite | EC_AttestationFailed | EC_Replay | EC_SeqGap
  | EC_Decrypt | EC_StaleAttestation | EC_QuotaExceeded | EC_Unauthorized
  | EC_ModelUnavailable | EC_Oom | EC_ContentPolicy | EC_TeeOutOfDate | EC_Internal

fun ErrorCode_as_u16 :: "ErrorCode \<Rightarrow> u16" where
  "ErrorCode_as_u16 EC_BadVersion = 0x0001"
| "ErrorCode_as_u16 EC_BadCipherSuite = 0x0002"
| "ErrorCode_as_u16 EC_AttestationFailed = 0x0003"
| "ErrorCode_as_u16 EC_Replay = 0x0004"
| "ErrorCode_as_u16 EC_SeqGap = 0x0005"
| "ErrorCode_as_u16 EC_Decrypt = 0x0006"
| "ErrorCode_as_u16 EC_StaleAttestation = 0x0007"
| "ErrorCode_as_u16 EC_QuotaExceeded = 0x0008"
| "ErrorCode_as_u16 EC_Unauthorized = 0x0009"
| "ErrorCode_as_u16 EC_ModelUnavailable = 0x000A"
| "ErrorCode_as_u16 EC_Oom = 0x000B"
| "ErrorCode_as_u16 EC_ContentPolicy = 0x000C"
| "ErrorCode_as_u16 EC_TeeOutOfDate = 0x000D"
| "ErrorCode_as_u16 EC_Internal = 0x00FF"

definition ErrorCode_from_u16 :: "u16 \<Rightarrow> ErrorCode option" where
  "ErrorCode_from_u16 v =
    (if v = 0x0001 then Some EC_BadVersion
     else if v = 0x0002 then Some EC_BadCipherSuite
     else if v = 0x0003 then Some EC_AttestationFailed
     else if v = 0x0004 then Some EC_Replay
     else if v = 0x0005 then Some EC_SeqGap
     else if v = 0x0006 then Some EC_Decrypt
     else if v = 0x0007 then Some EC_StaleAttestation
     else if v = 0x0008 then Some EC_QuotaExceeded
     else if v = 0x0009 then Some EC_Unauthorized
     else if v = 0x000A then Some EC_ModelUnavailable
     else if v = 0x000B then Some EC_Oom
     else if v = 0x000C then Some EC_ContentPolicy
     else if v = 0x000D then Some EC_TeeOutOfDate
     else if v = 0x00FF then Some EC_Internal
     else None)"

datatype Error =
    BadVersion (got: u8) (expected: u8)
  | BadCipherSuite
  | AttestationFailed string
  | StaleAttestation (ttl_sec: u64)
  | Replay u64
  | SeqGap u64
  | Decrypt
  | ShortFrame nat
  | LongFrame nat
  | BadFrameType u8
  | BadHandshake
  | BadReceipt
  | Transport string
  | Serde string
  | Other string

type_synonym 'a result = "Error + 'a"

fun Error_code :: "Error \<Rightarrow> ErrorCode" where
  "Error_code (BadVersion _ _) = EC_BadVersion"
| "Error_code BadCipherSuite = EC_BadCipherSuite"
| "Error_code (AttestationFailed _) = EC_AttestationFailed"
| "Error_code (StaleAttestation _) = EC_StaleAttestation"
| "Error_code (Replay _) = EC_Replay"
| "Error_code (SeqGap _) = EC_SeqGap"
| "Error_code Decrypt = EC_Decrypt"
| "Error_code _ = EC_Internal"

text \<open>The \<open>Display\<close> implementation.\<close>

fun Error_display :: "Error \<Rightarrow> string" where
  "Error_display (BadVersion g e) =
    ''bad protocol version: got '' @ hex02 g @ '', expected '' @ hex02 e"
| "Error_display BadCipherSuite = ''unsupported cipher suite''"
| "Error_display (AttestationFailed s) = ''attestation verification failed: '' @ s"
| "Error_display (StaleAttestation t) =
    ''attestation evidence is stale (older than '' @ dec (unat t) @ ''s)''"
| "Error_display (Replay s) = ''frame replay detected at seq='' @ dec (unat s)"
| "Error_display (SeqGap g) = ''sequence number gap of '' @ dec (unat g) @ '' exceeds replay window''"
| "Error_display Decrypt = ''AEAD decryption failed''"
| "Error_display (ShortFrame n) = ''frame too short: '' @ dec n @ '' bytes''"
| "Error_display (LongFrame n) = ''frame too long: '' @ dec n @ '' bytes''"
| "Error_display (BadFrameType t) = ''invalid frame type '' @ hex02 t"
| "Error_display BadHandshake = ''invalid handshake message''"
| "Error_display BadReceipt = ''invalid receipt signature''"
| "Error_display (Transport s) = ''transport error: '' @ s"
| "Error_display (Serde s) = ''serialization error: '' @ s"
| "Error_display (Other s) = s"

section \<open>ids.rs\<close>

text \<open>
  \<open>SessionId\<close> and the counters are transparent wrappers; \<open>TenantId\<close> derives
  \<open>Ord\<close>, the byte-wise lexicographic order of the wrapped string.
\<close>

type_synonym SessionId = bytes
type_synonym Epoch = u32
type_synonym Seq = u64

datatype TenantId = TenantId (tenant_str: string)

instantiation TenantId :: linorder
begin

definition less_eq_TenantId :: "TenantId \<Rightarrow> TenantId \<Rightarrow> bool" where
  "less_eq_TenantId a b \<longleftrightarrow> tenant_str a \<le> tenant_str b"

definition less_TenantId :: "TenantId \<Rightarrow> TenantId \<Rightarrow> bool" where
  "less_TenantId a b \<longleftrightarrow> tenant_str a < tenant_str b"

instance
  by standard
    (auto simp: less_eq_TenantId_def less_TenantId_def intro: TenantId.expand)

end

definition Seq_next :: "Seq \<Rightarrow> Seq" where
  "Seq_next s = s + 1"

text \<open>
  \<open>getrandom_compat\<close> fills the buffer from a linear congruential generator; the
  initial seed (clock in nanoseconds XOR the buffer's address) is an argument.
\<close>

fun getrandom_compat :: "nat \<Rightarrow> u64 \<Rightarrow> bytes" where
  "getrandom_compat 0 seed = []"
| "getrandom_compat (Suc n) seed =
    (let seed = seed * 6364136223846793005 + 1442695040888963407
     in ucast (drop_bit 56 seed) # getrandom_compat n seed)"

definition SessionId_random :: "u64 \<Rightarrow> SessionId" where
  "SessionId_random seed = getrandom_compat 16 seed"

section \<open>version.rs\<close>

definition PROTOCOL_VERSION :: u8 where "PROTOCOL_VERSION = 0x03"
definition PROTOCOL_ID :: string where "PROTOCOL_ID = ''ULLM-v1''"
definition MAX_PLAINTEXT_PER_RECORD :: nat where "MAX_PLAINTEXT_PER_RECORD = 16 * 1024"
definition NONCE_TTL_DEFAULT_SEC :: u64 where "NONCE_TTL_DEFAULT_SEC = 60"
definition SESSION_TTL_DEFAULT_SEC :: u64 where "SESSION_TTL_DEFAULT_SEC = 300"
definition ATTESTATION_CACHE_TTL_HOURS :: u64 where "ATTESTATION_CACHE_TTL_HOURS = 24"
definition MAX_WS_MESSAGE_BYTES :: nat where "MAX_WS_MESSAGE_BYTES = 256 * 1024"
definition ML_KEM_768_EK_LEN :: nat where "ML_KEM_768_EK_LEN = 1184"
definition MAX_ATTESTATION_EVIDENCE_LEN :: nat where
  "MAX_ATTESTATION_EVIDENCE_LEN = 8 * 1024"

datatype KemId = X25519MlKem768
datatype AeadId = XChaCha20Poly1305 | Aes256GcmSiv
datatype HashId = Sha256 | Sha384

fun KemId_as_u16 :: "KemId \<Rightarrow> u16" where
  "KemId_as_u16 X25519MlKem768 = 0x11EC"

fun AeadId_as_u8 :: "AeadId \<Rightarrow> u8" where
  "AeadId_as_u8 XChaCha20Poly1305 = 0x01"
| "AeadId_as_u8 Aes256GcmSiv = 0x02"

fun HashId_as_u8 :: "HashId \<Rightarrow> u8" where
  "HashId_as_u8 Sha256 = 0x01"
| "HashId_as_u8 Sha384 = 0x02"

definition KemId_from_u16 :: "u16 \<Rightarrow> KemId option" where
  "KemId_from_u16 v = (if v = 0x11EC then Some X25519MlKem768 else None)"

definition AeadId_from_u8 :: "u8 \<Rightarrow> AeadId option" where
  "AeadId_from_u8 v =
    (if v = 0x01 then Some XChaCha20Poly1305 else if v = 0x02 then Some Aes256GcmSiv else None)"

definition HashId_from_u8 :: "u8 \<Rightarrow> HashId option" where
  "HashId_from_u8 v =
    (if v = 0x01 then Some Sha256 else if v = 0x02 then Some Sha384 else None)"

section \<open>clock.rs\<close>

text \<open>
  The argument is what \<open>SystemTime::now()\<close> reads, in nanoseconds relative to the
  UNIX epoch; \<open>as_secs\<close> is the whole seconds, a \<open>u64\<close>.
\<close>

definition now_unix :: "int \<Rightarrow> u64 result" where
  "now_unix t =
    (if t < 0
     then Inl (Other (''system clock before UNIX epoch (second time provided was later than self)''
            @ '' '' @ em_dash @ '' refusing to issue/verify timestamp''))
     else Inr (word_of_int (t div 1000000000)))"

definition now_unix_or_zero :: "int \<Rightarrow> u64" where
  "now_unix_or_zero t = (if t < 0 then 0 else word_of_int (t div 1000000000))"

section \<open>Lemmas\<close>

lemma ErrorCode_from_as_u16 [simp]: "ErrorCode_from_u16 (ErrorCode_as_u16 c) = Some c"
  by (cases c) (simp_all add: ErrorCode_from_u16_def)

lemma ErrorCode_from_u16_Some: "ErrorCode_from_u16 v = Some c \<Longrightarrow> ErrorCode_as_u16 c = v"
  by (auto simp: ErrorCode_from_u16_def split: if_splits)

lemma AeadId_from_as_u8 [simp]: "AeadId_from_u8 (AeadId_as_u8 a) = Some a"
  by (cases a) (simp_all add: AeadId_from_u8_def)

lemma HashId_from_as_u8 [simp]: "HashId_from_u8 (HashId_as_u8 a) = Some a"
  by (cases a) (simp_all add: HashId_from_u8_def)

lemma KemId_from_as_u16 [simp]: "KemId_from_u16 (KemId_as_u16 a) = Some a"
  by (cases a) (simp_all add: KemId_from_u16_def)

lemma length_getrandom_compat [simp]: "length (getrandom_compat n seed) = n"
  by (induction n arbitrary: seed) (simp_all add: Let_def)

lemma now_unix_ok_iff: "is_ok (now_unix t) \<longleftrightarrow> 0 \<le> t"
  by (simp add: now_unix_def)

lemma now_unix_or_zero_eq: "now_unix t = Inr s \<Longrightarrow> now_unix_or_zero t = s"
  by (simp add: now_unix_def now_unix_or_zero_def split: if_splits)

end
