(* ===== verification/Primitives.thy ===== *)
theory Primitives
  imports Core
begin

text \<open>
  The third-party cryptographic crates the program calls are a record of
  functions, one field per entry point the sources use: HKDF-SHA-256
  (\<open>hkdf\<close>), XChaCha20-Poly1305 (\<open>chacha20poly1305\<close>), AES-256-GCM-SIV
  (\<open>aes-gcm-siv\<close>), X25519 (\<open>x25519-dalek\<close>), ML-KEM-768 (\<open>ml-kem\<close>), SHA-2
  (\<open>sha2\<close>), Ed25519 (\<open>ed25519-dalek\<close>) and the random generator
  (\<open>rand_core\<close>, state \<open>'r\<close>).  Keys and ciphertexts are represented by their
  byte encodings; \<open>ed25519_valid\<close> says that \<open>VerifyingKey::from_bytes\<close> accepts
  an encoding.  The predicates below name what these crates document;
  theorems take them as hypotheses.  The last section gives one concrete
  instance of the record, with the named laws proved of it, which is what
  witnesses evaluate.
\<close>

record 'r prims =
  hkdf_extract :: "bytes \<Rightarrow> bytes \<Rightarrow> bytes"
  hkdf_expand :: "bytes \<Rightarrow> bytes \<Rightarrow> nat \<Rightarrow> bytes"
  xchacha_encrypt :: "bytes \<Rightarrow> bytes \<Rightarrow> bytes \<Rightarrow> bytes \<Rightarrow> bytes"
  xchacha_decrypt :: "bytes \<Rightarrow> bytes \<Rightarrow> bytes \<Rightarrow> bytes \<Rightarrow> bytes option"
  gcmsiv_encrypt :: "bytes \<Rightarrow> bytes \<Rightarrow> bytes \<Rightarrow> bytes \<Rightarrow> bytes"
  gcmsiv_decrypt :: "bytes \<Rightarrow> bytes \<Rightarrow> bytes \<Rightarrow> bytes \<Rightarrow> bytes option"
  x25519_public :: "bytes \<Rightarrow> bytes"
  x25519_dh :: "bytes \<Rightarrow> bytes \<Rightarrow> bytes"
  x25519_random :: "'r \<Rightarrow> bytes \<times> 'r"
  mlkem_generate :: "'r \<Rightarrow> (bytes \<times> bytes) \<times> 'r"
  mlkem_encapsulate :: "bytes \<Rightarrow> 'r \<Rightarrow> (bytes \<times> bytes) \<times> 'r"
  mlkem_decapsulate :: "bytes \<Rightarrow> bytes \<Rightarrow> bytes option"
  sha256 :: "bytes \<Rightarrow> bytes"
  sha512 :: "bytes \<Rightarrow> bytes"
  ed25519_public :: "bytes \<Rightarrow> bytes"
  ed25519_sign :: "bytes \<Rightarrow> bytes \<Rightarrow> bytes"
  ed25519_verify :: "bytes \<Rightarrow> bytes \<Rightarrow> bytes \<Rightarrow> bool"
  ed25519_valid :: "bytes \<Rightarrow> bool"
  rng_fill :: "nat \<Rightarrow> 'r \<Rightarrow> bytes \<times> 'r"

section \<open>Documented behaviour\<close>

definition hkdf_law :: "'r prims \<Rightarrow> bool" where
  "hkdf_law P \<longleftrightarrow>
    (\<forall>s k. length (hkdf_extract P s k) = 32) \<and>
    (\<forall>k i n. n \<le> 255 * 32 \<longrightarrow> length (hkdf_expand P k i n) = n)"

text \<open>
  Encryption is deterministic in key, nonce, associated data and message, the
  ciphertext is the message plus a 16-byte tag, and decryption accepts a
  ciphertext iff it is the encryption of what it returns.
\<close>

definition xchacha_law :: "'r prims \<Rightarrow> bool" where
  "xchacha_law P \<longleftrightarrow>
    (\<forall>k n a c p. xchacha_decrypt P k n a c = Some p \<longleftrightarrow> c = xchacha_encrypt P k n a p) \<and>
    (\<forall>k n a p. length (xchacha_encrypt P k n a p) = length p + 16)"

definition gcmsiv_law :: "'r prims \<Rightarrow> bool" where
  "gcmsiv_law P \<longleftrightarrow>
    (\<forall>k n a c p. gcmsiv_decrypt P k n a c = Some p \<longleftrightarrow> c = gcmsiv_encrypt P k n a p) \<and>
    (\<forall>k n a p. length (gcmsiv_encrypt P k n a p) = length p + 16)"

definition x25519_law :: "'r prims \<Rightarrow> bool" where
  "x25519_law P \<longleftrightarrow>
    (\<forall>a b. x25519_dh P a (x25519_public P b) = x25519_dh P b (x25519_public P a)) \<and>
    (\<forall>a. length (x25519_public P a) = 32) \<and>
    (\<forall>a b. length (x25519_dh P a b) = 32)"

text \<open>A key pair is one that \<open>generate\<close> can return.\<close>

definition mlkem_pair :: "'r prims \<Rightarrow> bytes \<Rightarrow> bytes \<Rightarrow> bool" where
  "mlkem_pair P sk pk \<longleftrightarrow> (\<exists>r. fst (mlkem_generate P r) = (sk, pk))"

definition mlkem_law :: "'r prims \<Rightarrow> bool" where
  "mlkem_law P \<longleftrightarrow>
    (\<forall>sk pk r ct ss r'. mlkem_pair P sk pk \<longrightarrow> mlkem_encapsulate P pk r = ((ct, ss), r') \<longrightarrow>
       mlkem_decapsulate P sk ct = Some ss \<and> length ct = 1088 \<and> length ss = 32) \<and>
    (\<forall>sk pk. mlkem_pair P sk pk \<longrightarrow> length pk = 1184)"

definition sha2_law :: "'r prims \<Rightarrow> bool" where
  "sha2_law P \<longleftrightarrow> (\<forall>m. length (sha256 P m) = 32) \<and> (\<forall>m. length (sha512 P m) = 64)"

definition ed25519_law :: "'r prims \<Rightarrow> bool" where
  "ed25519_law P \<longleftrightarrow>
    (\<forall>sk m. ed25519_verify P (ed25519_public P sk) m (ed25519_sign P sk m)) \<and>
    (\<forall>sk m. length (ed25519_sign P sk m) = 64) \<and>
    (\<forall>sk. length (ed25519_public P sk) = 32) \<and>
    (\<forall>sk. ed25519_valid P (ed25519_public P sk))"

definition rng_law :: "'r prims \<Rightarrow> bool" where
  "rng_law P \<longleftrightarrow> (\<forall>n r. length (fst (rng_fill P n r)) = n)"

section \<open>A concrete instance\<close>

definition pad :: "nat \<Rightarrow> bytes \<Rightarrow> bytes" where
  "pad n bs = take n (bs @ replicate n 0)"

definition xor_bytes :: "bytes \<Rightarrow> bytes \<Rightarrow> bytes" where
  "xor_bytes as bs = map2 (XOR) as bs"

text \<open>A stand-in digest: the length byte followed by the last bytes of the input.\<close>

definition suffix_hash :: "nat \<Rightarrow> bytes \<Rightarrow> bytes" where
  "suffix_hash n bs = pad n (word_of_nat (length bs) # rev bs)"

definition tag_encrypt :: "bytes \<Rightarrow> bytes \<Rightarrow> bytes \<Rightarrow> bytes \<Rightarrow> bytes" where
  "tag_encrypt k n a p = p @ pad 16 (n @ a @ k)"

definition tag_decrypt :: "bytes \<Rightarrow> bytes \<Rightarrow> bytes \<Rightarrow> bytes \<Rightarrow> bytes option" where
  "tag_decrypt k n a c =
    (if 16 \<le> length c \<and> drop (length c - 16) c = pad 16 (n @ a @ k)
     then Some (take (length c - 16) c) else None)"

definition model_prims :: "nat prims" where
  "model_prims = \<lparr>
    hkdf_extract = (\<lambda>s k. suffix_hash 32 (s @ k)),
    hkdf_expand = (\<lambda>k i n. pad n (suffix_hash 32 (k @ i))),
    xchacha_encrypt = tag_encrypt, xchacha_decrypt = tag_decrypt,
    gcmsiv_encrypt = tag_encrypt, gcmsiv_decrypt = tag_decrypt,
    x25519_public = pad 32,
    x25519_dh = (\<lambda>a b. xor_bytes (pad 32 a) (pad 32 b)),
    x25519_random = (\<lambda>r. (replicate 32 (word_of_nat r), Suc r)),
    mlkem_generate = (\<lambda>r. ((replicate 64 (word_of_nat r), replicate 1184 (word_of_nat r)), Suc r)),
    mlkem_encapsulate = (\<lambda>pk r. ((replicate 1088 (word_of_nat r), replicate 32 (word_of_nat r)), Suc r)),
    mlkem_decapsulate = (\<lambda>sk ct. Some (take 32 ct)),
    sha256 = suffix_hash 32, sha512 = suffix_hash 64,
    ed25519_public = pad 32,
    ed25519_sign = (\<lambda>sk m. pad 32 sk @ suffix_hash 32 m),
    ed25519_verify = (\<lambda>pk m s. s = pk @ suffix_hash 32 m),
    ed25519_valid = (\<lambda>pk. length pk = 32),
    rng_fill = (\<lambda>n r. (replicate n (word_of_nat r), Suc r))\<rparr>"

lemma length_pad [simp]: "length (pad n bs) = n"
  by (simp add: pad_def)

lemma pad_id: "length bs = n \<Longrightarrow> pad n bs = bs"
  by (simp add: pad_def)

lemma pad_pad [simp]: "pad n (pad n bs) = pad n bs"
  by (simp add: pad_id)

lemma length_xor_bytes [simp]: "length (xor_bytes as bs) = min (length as) (length bs)"
  by (simp add: xor_bytes_def)

lemma xor_bytes_commute: "xor_bytes as bs = xor_bytes bs as"
  by (rule nth_equalityI) (auto simp: xor_bytes_def xor.commute)

lemma length_suffix_hash [simp]: "length (suffix_hash n bs) = n"
  by (simp add: suffix_hash_def)

lemma tag_decrypt_iff: "tag_decrypt k n a c = Some p \<longleftrightarrow> c = tag_encrypt k n a p"
proof
  assume "tag_decrypt k n a c = Some p"
  then have "drop (length c - 16) c = pad 16 (n @ a @ k)" "p = take (length c - 16) c"
    by (auto simp: tag_decrypt_def split: if_splits)
  then show "c = tag_encrypt k n a p"
    unfolding tag_encrypt_def by (metis append_take_drop_id)
qed (simp add: tag_decrypt_def tag_encrypt_def)

lemma length_tag_encrypt [simp]: "length (tag_encrypt k n a p) = length p + 16"
  by (simp add: tag_encrypt_def)

lemma model_hkdf_law: "hkdf_law model_prims"
  by (simp add: hkdf_law_def model_prims_def)

lemma model_xchacha_law: "xchacha_law model_prims"
  by (simp add: xchacha_law_def model_prims_def tag_decrypt_iff)

lemma model_gcmsiv_law: "gcmsiv_law model_prims"
  by (simp add: gcmsiv_law_def model_prims_def tag_decrypt_iff)

lemma model_x25519_law: "x25519_law model_prims"
  by (simp add: x25519_law_def model_prims_def xor_bytes_commute)

lemma model_mlkem_law: "mlkem_law model_prims"
  by (auto simp: mlkem_law_def mlkem_pair_def model_prims_def)

lemma model_mlkem_pair:
  "mlkem_pair model_prims (replicate 64 (word_of_nat r)) (replicate 1184 (word_of_nat r))"
  by (auto simp: mlkem_pair_def model_prims_def)

lemma model_sha2_law: "sha2_law model_prims"
  by (simp add: sha2_law_def model_prims_def)

lemma model_ed25519_law: "ed25519_law model_prims"
  by (simp add: ed25519_law_def model_prims_def)

lemma model_rng_law: "rng_law model_prims"
  by (simp add: rng_law_def model_prims_def)

lemmas model_laws =
  model_hkdf_law model_xchacha_law model_gcmsiv_law model_x25519_law model_mlkem_law
  model_sha2_law model_ed25519_law model_rng_law

end
