(* ===== verification/Codecs.thy ===== *)
theory Codecs
  imports Primitives
begin

text \<open>
  The text codecs of third-party crates: \<open>hex\<close>, and \<open>serde_json\<close> on flat
  objects of strings and unsigned numbers.  As with the primitives, they are
  parameters with documented laws, and one concrete instance is given with the
  laws proved of it.
\<close>

datatype jval = JString string | JNumber u64 | JArray "string list"

record codecs =
  hex_encode :: "bytes \<Rightarrow> string"
  hex_decode :: "string \<Rightarrow> bytes option"
  json_object :: "(string \<times> jval) list \<Rightarrow> bytes"

definition hex_law :: "codecs \<Rightarrow> bool" where
  "hex_law J \<longleftrightarrow> (\<forall>b. hex_decode J (hex_encode J b) = Some b)"

text \<open>Distinct objects have distinct serializations.\<close>

definition json_law :: "codecs \<Rightarrow> bool" where
  "json_law J \<longleftrightarrow> (\<forall>m m'. json_object J m = json_object J m' \<longrightarrow> m = m')"

text \<open>Hex output is two lower-case digits per byte.\<close>

definition hex_char :: "char \<Rightarrow> bool" where
  "hex_char c \<longleftrightarrow> (let v = (of_char c :: nat) in (48 \<le> v \<and> v \<le> 57) \<or> (97 \<le> v \<and> v \<le> 102))"

definition hex_text_law :: "codecs \<Rightarrow> bool" where
  "hex_text_law J \<longleftrightarrow> (\<forall>b. list_all hex_char (hex_encode J b) \<and>
    length (hex_encode J b) = 2 * length b)"

text \<open>\<open>decode32\<close>, which several modules of the repository repeat.\<close>

definition decode32 :: "codecs \<Rightarrow> string \<Rightarrow> bytes option" where
  "decode32 J s =
    (case hex_decode J s of
       None \<Rightarrow> None
     | Some bs \<Rightarrow> if length bs \<noteq> 32 then None else Some bs)"

lemma decode32_encode [simp]:
  "hex_law J \<Longrightarrow> length b = 32 \<Longrightarrow> decode32 J (hex_encode J b) = Some b"
  by (simp add: decode32_def hex_law_def)

lemma decode32_length: "decode32 J s = Some b \<Longrightarrow> length b = 32"
  by (auto simp: decode32_def split: option.splits if_splits)

lemma hex_encode_inject: "hex_law J \<Longrightarrow> hex_encode J a = hex_encode J b \<longleftrightarrow> a = b"
  by (metis hex_law_def option.inject)

section \<open>A concrete instance\<close>

fun hex_of :: "bytes \<Rightarrow> string" where
  "hex_of [] = []"
| "hex_of (b # bs) = digit_char (unat b div 16) # digit_char (unat b mod 16) # hex_of bs"

definition hex_digit :: "char \<Rightarrow> nat option" where
  "hex_digit c =
    (let v = (of_char c :: nat) in
     if 48 \<le> v \<and> v \<le> 57 then Some (v - 48)
     else if 97 \<le> v \<and> v \<le> 102 then Some (v - 87)
     else if 65 \<le> v \<and> v \<le> 70 then Some (v - 55) else None)"

fun of_hex :: "string \<Rightarrow> bytes option" where
  "of_hex [] = Some []"
| "of_hex [c] = None"
| "of_hex (c # d # cs) =
    (case (hex_digit c, hex_digit d, of_hex cs) of
       (Some x, Some y, Some bs) \<Rightarrow> Some (word_of_nat (16 * x + y) # bs)
     | _ \<Rightarrow> None)"

lemma hex_digit_char: "d < 16 \<Longrightarrow> hex_digit (digit_char d) = Some d"
  by (auto simp: hex_digit_def digit_char_def Let_def)

lemma of_hex_hex_of: "of_hex (hex_of bs) = Some bs"
proof (induction bs)
  case (Cons b bs)
  have "unat b div 16 < 16" using unat_byte_less [of b] by linarith
  then show ?case using Cons by (simp add: hex_digit_char)
qed simp

fun enc_str :: "string \<Rightarrow> bytes" where
  "enc_str [] = [0]"
| "enc_str (c # cs) = 1 # word_of_nat (of_char c) # enc_str cs"

fun enc_strs :: "string list \<Rightarrow> bytes" where
  "enc_strs [] = [0]"
| "enc_strs (s # ss) = 1 # enc_str s @ enc_strs ss"

fun enc_val :: "jval \<Rightarrow> bytes" where
  "enc_val (JString s) = 1 # enc_str s"
| "enc_val (JNumber n) = 2 # u64_to_be n"
| "enc_val (JArray ss) = 4 # enc_strs ss"

fun enc_object :: "(string \<times> jval) list \<Rightarrow> bytes" where
  "enc_object [] = [0]"
| "enc_object ((k, v) # m) = 1 # enc_str k @ enc_val v @ enc_object m"

lemma char_byte_inject: "(word_of_nat (of_char c) :: u8) = word_of_nat (of_char d) \<longleftrightarrow> c = d"
  using str_bytes_inject [of "[c]" "[d]"] by (simp add: str_bytes_def)

lemma enc_str_inject: "enc_str s @ x = enc_str t @ y \<longleftrightarrow> s = t \<and> x = y"
proof (induction s arbitrary: t)
  case Nil
  then show ?case by (cases t) auto
next
  case (Cons c cs)
  then show ?case by (cases t) (auto simp: char_byte_inject)
qed

lemma enc_strs_inject: "enc_strs s @ x = enc_strs t @ y \<longleftrightarrow> s = t \<and> x = y"
proof (induction s arbitrary: t)
  case Nil
  then show ?case by (cases t) auto
next
  case (Cons c cs)
  then show ?case by (cases t) (auto simp: enc_str_inject)
qed

lemma enc_val_inject: "enc_val v @ x = enc_val w @ y \<longleftrightarrow> v = w \<and> x = y"
  by (cases v; cases w) (auto simp: enc_str_inject enc_strs_inject append_eq_append_conv)

lemma enc_object_inject: "enc_object m = enc_object m' \<longleftrightarrow> m = m'"
proof (induction m arbitrary: m' rule: enc_object.induct)
  case 1
  then show ?case by (cases m' rule: enc_object.cases) auto
next
  case (2 k v m)
  then show ?case
    by (cases m' rule: enc_object.cases) (auto simp: enc_str_inject enc_val_inject)
qed

definition model_codecs :: codecs where
  "model_codecs = \<lparr>hex_encode = hex_of, hex_decode = of_hex, json_object = enc_object\<rparr>"

lemma model_hex_law: "hex_law model_codecs"
  by (simp add: hex_law_def model_codecs_def of_hex_hex_of)

lemma model_json_law: "json_law model_codecs"
  by (simp add: json_law_def model_codecs_def enc_object_inject)

lemma length_hex_of [simp]: "length (hex_of bs) = 2 * length bs"
  by (induction bs) auto

lemma hex_char_digit: "d < 16 \<Longrightarrow> hex_char (digit_char d)"
  by (auto simp: hex_char_def digit_char_def Let_def)

lemma hex_char_hex_of: "list_all hex_char (hex_of bs)"
proof (induction bs)
  case (Cons b bs)
  have "unat b div 16 < 16" using unat_byte_less [of b] by linarith
  then show ?case using Cons by (simp add: hex_char_digit)
qed simp

lemma model_hex_text_law: "hex_text_law model_codecs"
  by (simp add: hex_text_law_def model_codecs_def hex_char_hex_of)

end
