(* ===== verification/Rust_Text.thy ===== *)
theory Rust_Text
  imports Prelude
begin

text \<open>
  What the sources use of strings and byte strings of the Rust standard library:
  UTF-8 validity, splitting and trimming, printing and parsing of integers.  A
  string is the list of its bytes, each read as a character.
\<close>

section \<open>Bytes\<close>

definition is_ascii_whitespace :: "u8 \<Rightarrow> bool" where
  "is_ascii_whitespace b \<longleftrightarrow> b = 32 \<or> b = 9 \<or> b = 10 \<or> b = 12 \<or> b = 13"

text \<open>\<open>std::str::from_utf8\<close>: the well-formed byte sequences of Unicode.\<close>

definition is_cont :: "u8 \<Rightarrow> bool" where
  "is_cont b \<longleftrightarrow> 0x80 \<le> b \<and> b \<le> 0xBF"

fun utf8_valid :: "bytes \<Rightarrow> bool" where
  "utf8_valid [] = True"
| "utf8_valid (a # bs) =
    (if a < 0x80 then utf8_valid bs
     else case bs of
       [] \<Rightarrow> False
     | b # cs \<Rightarrow>
       if 0xC2 \<le> a \<and> a \<le> 0xDF then is_cont b \<and> utf8_valid cs
       else case cs of
         [] \<Rightarrow> False
       | c # ds \<Rightarrow>
         if 0xE0 \<le> a \<and> a \<le> 0xEF
         then is_cont b \<and> is_cont c \<and> (a = 0xE0 \<longrightarrow> 0xA0 \<le> b) \<and> (a = 0xED \<longrightarrow> b \<le> 0x9F) \<and>
              utf8_valid ds
         else case ds of
           [] \<Rightarrow> False
         | d # es \<Rightarrow>
           0xF0 \<le> a \<and> a \<le> 0xF4 \<and> is_cont b \<and> is_cont c \<and> is_cont d \<and>
           (a = 0xF0 \<longrightarrow> 0x90 \<le> b) \<and> (a = 0xF4 \<longrightarrow> b \<le> 0x8F) \<and> utf8_valid es)"

lemma utf8_valid_ascii: "list_all (\<lambda>b. b < 128) bs \<Longrightarrow> utf8_valid bs"
  by (induction bs) auto

section \<open>Strings\<close>

definition dot :: char where "dot = CHR ''.''"

text \<open>\<open>hex_alt n\<close> is \<open>format!("{n:#x}")\<close>.\<close>

fun hex_digits :: "nat \<Rightarrow> string" where
  "hex_digits n = (if n < 16 then [digit_char n] else hex_digits (n div 16) @ [digit_char (n mod 16)])"

declare hex_digits.simps [simp del]

definition hex_alt :: "nat \<Rightarrow> string" where "hex_alt n = ''0x'' @ hex_digits n"

text \<open>\<open>split_once c s\<close> cuts at the first \<open>c\<close>; \<open>rsplit_once c s\<close> at the last.\<close>

fun split_once :: "char \<Rightarrow> string \<Rightarrow> (string \<times> string) option" where
  "split_once c [] = None"
| "split_once c (x # xs) =
    (if x = c then Some ([], xs)
     else case split_once c xs of None \<Rightarrow> None | Some (a, b) \<Rightarrow> Some (x # a, b))"

definition rsplit_once :: "char \<Rightarrow> string \<Rightarrow> (string \<times> string) option" where
  "rsplit_once c s =
    (case split_once c (rev s) of None \<Rightarrow> None | Some (a, b) \<Rightarrow> Some (rev b, rev a))"

text \<open>
  \<open>split_at_pat p s\<close> cuts at the first occurrence of the pattern \<open>p\<close>: \<open>split_once\<close>
  on a string pattern, and \<open>windows\<close> with \<open>position\<close> on bytes.
\<close>

fun split_at_pat :: "'a list \<Rightarrow> 'a list \<Rightarrow> ('a list \<times> 'a list) option" where
  "split_at_pat p [] = (if p = [] then Some ([], []) else None)"
| "split_at_pat p (x # xs) =
    (if take (length p) (x # xs) = p then Some ([], drop (length p) (x # xs))
     else map_option (\<lambda>(a, b). (x # a, b)) (split_at_pat p xs))"

text \<open>The first of \<open>str::lines\<close>, without its line ending.\<close>

definition first_line :: "string \<Rightarrow> string" where
  "first_line s =
    (let l = takeWhile (\<lambda>c. c \<noteq> CHR 0x0A) s
     in if length l < length s \<and> l \<noteq> [] \<and> last l = CHR 0x0D then butlast l else l)"

text \<open>\<open>str::split\<close> on a character and \<open>str::trim_end_matches\<close>.\<close>

fun split_char :: "char \<Rightarrow> string \<Rightarrow> string list" where
  "split_char c [] = [[]]"
| "split_char c (x # xs) =
    (if x = c then [] # split_char c xs
     else case split_char c xs of [] \<Rightarrow> [[x]] | y # ys \<Rightarrow> (x # y) # ys)"

definition trim_end_matches :: "char \<Rightarrow> string \<Rightarrow> string" where
  "trim_end_matches c s = rev (dropWhile (\<lambda>x. x = c) (rev s))"

text \<open>
  Characters: \<open>is_ascii_whitespace\<close>, \<open>is_ascii_alphanumeric\<close> and
  \<open>to_ascii_lowercase\<close>; \<open>trim_start\<close> on text without non-ASCII white space.
\<close>

definition is_ascii_whitespace_char :: "char \<Rightarrow> bool" where
  "is_ascii_whitespace_char c \<longleftrightarrow> is_ascii_whitespace (word_of_nat (of_char c))"

definition is_ascii_alphanumeric :: "char \<Rightarrow> bool" where
  "is_ascii_alphanumeric c \<longleftrightarrow>
    (let v = (of_char c :: nat)
     in 48 \<le> v \<and> v \<le> 57 \<or> 65 \<le> v \<and> v \<le> 90 \<or> 97 \<le> v \<and> v \<le> 122)"

definition to_ascii_lowercase :: "char \<Rightarrow> char" where
  "to_ascii_lowercase c =
    (let v = (of_char c :: nat) in if 65 \<le> v \<and> v \<le> 90 then char_of (v + 32) else c)"

definition eq_ignore_ascii_case :: "string \<Rightarrow> string \<Rightarrow> bool" where
  "eq_ignore_ascii_case s t \<longleftrightarrow> map to_ascii_lowercase s = map to_ascii_lowercase t"

definition trim_start :: "string \<Rightarrow> string" where
  "trim_start s = dropWhile (\<lambda>c. is_ascii_whitespace_char c \<or> c = CHR 0x0B) s"

text \<open>The number of bytes of the UTF-8 character that starts with a given byte.\<close>

definition utf8_width :: "char \<Rightarrow> nat" where
  "utf8_width c = (let v = (of_char c :: nat) in
    if v < 0x80 then 1 else if v < 0xE0 then 2 else if v < 0xF0 then 3 else 4)"

definition digit_val :: "char \<Rightarrow> nat option" where
  "digit_val c = (let v = (of_char c :: nat) in if 48 \<le> v \<and> v \<le> 57 then Some (v - 48) else None)"

fun digits_val :: "nat \<Rightarrow> string \<Rightarrow> nat option" where
  "digits_val acc [] = Some acc"
| "digits_val acc (c # cs) =
    (case digit_val c of None \<Rightarrow> None | Some d \<Rightarrow> digits_val (10 * acc + d) cs)"

text \<open>\<open>str::parse\<close> for an unsigned type of \<open>w\<close> bits: an optional plus sign, digits, no overflow.\<close>

definition parse_uint :: "nat \<Rightarrow> string \<Rightarrow> nat option" where
  "parse_uint w s =
    (let ds = (case s of c # cs \<Rightarrow> if c = CHR ''+'' then cs else s | [] \<Rightarrow> []) in
     if ds = [] then None
     else case digits_val 0 ds of
       None \<Rightarrow> None
     | Some n \<Rightarrow> if n < 2 ^ w then Some n else None)"

definition starts_with :: "string \<Rightarrow> string \<Rightarrow> bool" where
  "starts_with p s \<longleftrightarrow> take (length p) s = p"

text \<open>The \<open>Debug\<close> form of a text: quoted, with the escapes of ASCII.\<close>

definition debug_char :: "char \<Rightarrow> string" where
  "debug_char c =
    (let n = (of_char c :: nat) in
     if c = CHR 34 then [CHR 92, CHR 34]
     else if c = CHR 92 then [CHR 92, CHR 92]
     else if n = 0 then CHR 92 # ''0''
     else if n = 9 then CHR 92 # ''t''
     else if n = 10 then CHR 92 # ''n''
     else if n = 13 then CHR 92 # ''r''
     else if n < 16 then CHR 92 # ''u{'' @ [digit_char n] @ ''}''
     else if n < 32 \<or> n = 127 then CHR 92 # ''u{'' @ [digit_char (n div 16), digit_char (n mod 16)] @ ''}''
     else [c])"

definition str_debug :: "string \<Rightarrow> string" where
  "str_debug s = [CHR 34] @ concat (map debug_char s) @ [CHR 34]"

lemma split_char_plain: "c \<notin> set s \<Longrightarrow> split_char c s = [s]"
  by (induction s) auto

lemma split_char_append:
  "c \<notin> set s \<Longrightarrow> split_char c (s @ c # t) = s # split_char c t"
  by (induction s) auto

lemma split_char_nonempty: "split_char c s \<noteq> []"
  by (induction s) (auto split: list.splits)

lemma trim_end_matches_plain:
  "s = [] \<or> last s \<noteq> c \<Longrightarrow> trim_end_matches c (s @ replicate n c) = s"
  by (cases s rule: rev_cases) (auto simp: trim_end_matches_def dropWhile_append)

lemma split_once_Some:
  "split_once c s = Some (a, b) \<longleftrightarrow> s = a @ c # b \<and> c \<notin> set a"
proof (induction s arbitrary: a)
  case (Cons x xs)
  note IH = this
  show ?case
  proof (cases a)
    case Nil
    then show ?thesis by (auto split: option.splits)
  next
    case (Cons y ys)
    have "split_once c (x # xs) = Some (y # ys, b) \<longleftrightarrow>
        x \<noteq> c \<and> x = y \<and> split_once c xs = Some (ys, b)"
      by (auto split: option.splits)
    then show ?thesis unfolding Cons IH by auto
  qed
qed simp

lemma split_once_None: "split_once c s = None \<longleftrightarrow> c \<notin> set s"
  by (induction s) (auto split: option.splits)

lemma rsplit_once_Some:
  "rsplit_once c s = Some (a, b) \<longleftrightarrow> s = a @ c # b \<and> c \<notin> set b"
proof -
  have "rsplit_once c s = Some (a, b) \<longleftrightarrow> split_once c (rev s) = Some (rev b, rev a)"
    by (auto simp: rsplit_once_def split: option.splits)
  also have "\<dots> \<longleftrightarrow> rev s = rev b @ c # rev a \<and> c \<notin> set b" by (simp add: split_once_Some)
  also have "rev b @ c # rev a = rev (a @ c # b)" by simp
  also have "rev s = rev (a @ c # b) \<longleftrightarrow> s = a @ c # b" by (rule rev_is_rev_conv)
  finally show ?thesis .
qed

lemma digit_val_char: "d < 10 \<Longrightarrow> digit_val (digit_char d) = Some d"
  by (simp add: digit_val_def digit_char_def Let_def)

lemma digits_val_append:
  "digits_val acc (s @ t) = (case digits_val acc s of None \<Rightarrow> None | Some v \<Rightarrow> digits_val v t)"
  by (induction s arbitrary: acc) (auto split: option.splits)

lemma digits_val_dec: "digits_val 0 (dec n) = Some n"
proof (induction n rule: dec.induct)
  case (1 n)
  then show ?case
    by (cases "n < 10") (simp_all add: dec.simps [of n] digit_val_char digits_val_append)
qed

lemma dec_chars: "c \<in> set (dec n) \<Longrightarrow> 48 \<le> (of_char c :: nat) \<and> (of_char c :: nat) \<le> 57"
proof (induction n rule: dec.induct)
  case (1 n)
  then show ?case by (cases "n < 10") (auto simp: dec.simps [of n] digit_char_def)
qed

lemma dec_plain: "dot \<notin> set (dec n)" "CHR ''+'' \<notin> set (dec n)" "dec n \<noteq> []"
  using dec_chars [of dot n] dec_chars [of "CHR ''+''" n]
  by (auto simp: dot_def) (simp add: dec.simps [of n] split: if_splits)

lemma parse_uint_dec: "parse_uint w (dec n) = (if n < 2 ^ w then Some n else None)"
proof -
  obtain c cs where d: "dec n = c # cs" using dec_plain(3) by (cases "dec n") auto
  then have "c \<noteq> CHR ''+''" using dec_plain(2) by (metis list.set_intros(1))
  then show ?thesis using digits_val_dec [of n] d by (simp add: parse_uint_def Let_def)
qed

lemma digits_val_no_dot: "digits_val acc s = Some n \<Longrightarrow> dot \<notin> set s"
  by (induction s arbitrary: acc) (auto simp: digit_val_def dot_def Let_def split: option.splits if_splits)

lemma parse_uint_no_dot: "parse_uint w s = Some n \<Longrightarrow> dot \<notin> set s"
proof -
  assume "parse_uint w s = Some n"
  then obtain ds where "s = ds \<or> s = CHR ''+'' # ds" "digits_val 0 ds = Some n"
    by (cases s) (auto simp: parse_uint_def Let_def split: option.splits if_splits)
  then show ?thesis using digits_val_no_dot [of 0 ds n] by (auto simp: dot_def)
qed

lemma parse_uint_bound: "parse_uint w s = Some n \<Longrightarrow> n < 2 ^ w"
  by (auto simp: parse_uint_def Let_def split: option.splits if_splits)

end
