(* ===== verification/Session_Token.thy ===== *)
theory Session_Token
  imports Codecs Rust_Text
begin

text \<open>
  \<open>ullm-gateway/session_token.rs\<close>: routing tokens \<open>replica.epoch.expiry.tag\<close>
  with an HMAC-SHA-256 tag in hex.  HMAC is a parameter of the definitions.
  The string operations of the standard library (\<open>rfind\<close>, \<open>splitn\<close>, integer
  parsing and printing) are written out.  Shown: a token verifies iff its tag is
  the tag of its body and the body parses; a signed token verifies to itself iff
  the replica name has no dot.
\<close>

section \<open>session_token.rs\<close>

record SessionToken =
  replica_id :: string
  st_epoch :: u32
  expiry_unix :: u64

type_synonym hmac = "bytes \<Rightarrow> bytes \<Rightarrow> bytes"

definition token_mac :: "hmac \<Rightarrow> bytes \<Rightarrow> string \<Rightarrow> bytes" where
  "token_mac H key body = H key (str_bytes body)"

definition token_body :: "SessionToken \<Rightarrow> string" where
  "token_body token =
    replica_id token @ [dot] @ dec (unat (st_epoch token)) @ [dot] @ dec (unat (expiry_unix token))"

definition token_sign :: "hmac \<Rightarrow> codecs \<Rightarrow> bytes \<Rightarrow> SessionToken \<Rightarrow> string" where
  "token_sign H J key token =
    (let body = token_body token; mac = token_mac H key body in body @ [dot] @ hex_encode J mac)"

text \<open>\<open>body.splitn(3, '.')\<close> and the three \<open>parts.next()?\<close>.\<close>

definition parse_body :: "string \<Rightarrow> SessionToken option" where
  "parse_body body =
    (case split_once dot body of
       None \<Rightarrow> None
     | Some (replica, rest) \<Rightarrow>
        let (ep, more) = (case split_once dot rest of None \<Rightarrow> (rest, None) | Some (a, b) \<Rightarrow> (a, Some b)) in
        case parse_uint 32 ep of
          None \<Rightarrow> None
        | Some epoch \<Rightarrow>
           (case more of
              None \<Rightarrow> None
            | Some ex \<Rightarrow>
               (case parse_uint 64 ex of
                  None \<Rightarrow> None
                | Some expiry \<Rightarrow> Some \<lparr>replica_id = replica, st_epoch = word_of_nat epoch,
                                       expiry_unix = word_of_nat expiry\<rparr>)))"

definition token_verify :: "hmac \<Rightarrow> codecs \<Rightarrow> bytes \<Rightarrow> string \<Rightarrow> SessionToken option" where
  "token_verify H J key encoded =
    (case rsplit_once dot encoded of
       None \<Rightarrow> None
     | Some (body, tag_hex) \<Rightarrow>
        if hex_encode J (token_mac H key body) \<noteq> tag_hex then None else parse_body body)"

section \<open>Properties\<close>

lemma hex_no_dot: "hex_text_law J \<Longrightarrow> dot \<notin> set (hex_encode J b)"
proof
  assume "hex_text_law J" "dot \<in> set (hex_encode J b)"
  then have "hex_char dot" unfolding hex_text_law_def list_all_iff by blast
  then show False by (simp add: hex_char_def dot_def)
qed

lemma parse_body_Some:
  "parse_body body = Some tok \<longleftrightarrow>
    (\<exists>ep ex e x. body = replica_id tok @ dot # ep @ dot # ex \<and> dot \<notin> set (replica_id tok) \<and>
      parse_uint 32 ep = Some e \<and> parse_uint 64 ex = Some x \<and>
      st_epoch tok = word_of_nat e \<and> expiry_unix tok = word_of_nat x)"
    (is "?L \<longleftrightarrow> ?R")
proof
  assume ?L
  then obtain r rest ep ex e x where *: "split_once dot body = Some (r, rest)"
    "split_once dot rest = Some (ep, ex)" "parse_uint 32 ep = Some e" "parse_uint 64 ex = Some x"
    "tok = \<lparr>replica_id = r, st_epoch = word_of_nat e, expiry_unix = word_of_nat x\<rparr>"
    by (auto simp: parse_body_def Let_def split: option.splits prod.splits)
  have "body = r @ dot # ep @ dot # ex" "dot \<notin> set r"
    using *(1,2) by (simp_all add: split_once_Some)
  then show ?R using *(3-5) by auto
next
  assume ?R
  then obtain ep ex e x where *: "body = replica_id tok @ dot # ep @ dot # ex"
    "dot \<notin> set (replica_id tok)" "parse_uint 32 ep = Some e" "parse_uint 64 ex = Some x"
    "st_epoch tok = word_of_nat e" "expiry_unix tok = word_of_nat x"
    by blast
  have "split_once dot body = Some (replica_id tok, ep @ dot # ex)"
    using *(1,2) by (simp add: split_once_Some)
  moreover have "split_once dot (ep @ dot # ex) = Some (ep, ex)"
    using parse_uint_no_dot [OF *(3)] by (simp add: split_once_Some)
  ultimately show ?L using *(3-6) by (simp add: parse_body_def)
qed

lemma token_verify_Some:
  assumes "hex_text_law J"
  shows "token_verify H J key encoded = Some tok \<longleftrightarrow>
    (\<exists>body. encoded = body @ dot # hex_encode J (token_mac H key body) \<and> parse_body body = Some tok)"
proof
  assume "token_verify H J key encoded = Some tok"
  then show "\<exists>body. encoded = body @ dot # hex_encode J (token_mac H key body) \<and> parse_body body = Some tok"
    by (auto simp: token_verify_def rsplit_once_Some split: option.splits if_splits)
next
  assume "\<exists>body. encoded = body @ dot # hex_encode J (token_mac H key body) \<and> parse_body body = Some tok"
  then obtain body where b: "encoded = body @ dot # hex_encode J (token_mac H key body)"
    "parse_body body = Some tok" by blast
  then have "rsplit_once dot encoded = Some (body, hex_encode J (token_mac H key body))"
    using hex_no_dot [OF assms] by (simp add: rsplit_once_Some)
  then show "token_verify H J key encoded = Some tok" using b(2) by (simp add: token_verify_def)
qed

lemma parse_token_body:
  "parse_body (token_body t) = (if dot \<in> set (replica_id t) then None else Some t)"
proof (cases "dot \<in> set (replica_id t)")
  case False
  let ?e = "dec (unat (st_epoch t))" and ?x = "dec (unat (expiry_unix t))"
  have "unat (st_epoch t) < 2 ^ 32" "unat (expiry_unix t) < 2 ^ 64"
    using unat_lt2p [of "st_epoch t"] unat_lt2p [of "expiry_unix t"] by simp_all
  then have p: "parse_uint 32 ?e = Some (unat (st_epoch t))"
    "parse_uint 64 ?x = Some (unat (expiry_unix t))"
    by (simp_all add: parse_uint_dec)
  have "token_body t = replica_id t @ dot # ?e @ dot # ?x" by (simp add: token_body_def)
  moreover have "st_epoch t = word_of_nat (unat (st_epoch t))"
    "expiry_unix t = word_of_nat (unat (expiry_unix t))" by simp_all
  ultimately have "parse_body (token_body t) = Some t"
    unfolding parse_body_Some using False p by blast
  then show ?thesis using False by simp
next
  case True
  have "parse_body (token_body t) \<noteq> Some tok" for tok
  proof
    assume "parse_body (token_body t) = Some tok"
    then obtain ep ex e x where b: "token_body t = replica_id tok @ dot # ep @ dot # ex"
      and nd: "dot \<notin> set (replica_id tok)" "dot \<notin> set ep" "dot \<notin> set ex"
      unfolding parse_body_Some using parse_uint_no_dot by metis
    have "count_list (token_body t) dot = 2"
      unfolding b using nd by (simp add: count_list_0_iff)
    moreover have "count_list (token_body t) dot = count_list (replica_id t) dot + 2"
      unfolding token_body_def using dec_plain(1) by (simp add: count_list_0_iff)
    ultimately show False using True by (simp add: count_list_0_iff)
  qed
  then show ?thesis using True by (cases "parse_body (token_body t)") auto
qed

lemma token_verify_sign:
  assumes "hex_text_law J"
  shows "token_verify H J key (token_sign H J key t) =
    (if dot \<in> set (replica_id t) then None else Some t)"
proof -
  have "rsplit_once dot (token_sign H J key t) =
      Some (token_body t, hex_encode J (token_mac H key (token_body t)))"
    using hex_no_dot [OF assms] by (simp add: token_sign_def Let_def rsplit_once_Some)
  then show ?thesis by (simp add: token_verify_def parse_token_body)
qed

text \<open>
  C23. A signed token verifies to itself exactly when its replica name has no
  dot; a token whose replica name has one is signed but never verifies.
\<close>

theorem session_token_roundtrip:
  assumes "hex_text_law J"
  shows "token_verify H J key (token_sign H J key t) =
    (if dot \<in> set (replica_id t) then None else Some t)"
  using assms by (rule token_verify_sign)

theorem session_token_roundtrip_witness:
  "token_verify (\<lambda>k m. k @ m) model_codecs [1]
     (token_sign (\<lambda>k m. k @ m) model_codecs [1] \<lparr>replica_id = ''tee-001'', st_epoch = 3, expiry_unix = 17\<rparr>) =
   Some \<lparr>replica_id = ''tee-001'', st_epoch = 3, expiry_unix = 17\<rparr> \<and>
   token_verify (\<lambda>k m. k @ m) model_codecs [1]
     (token_sign (\<lambda>k m. k @ m) model_codecs [1] \<lparr>replica_id = ''eu.1'', st_epoch = 3, expiry_unix = 17\<rparr>) =
   None"
  by (simp add: session_token_roundtrip [OF model_hex_text_law] dot_def)

text \<open>
  What verification accepts: a string verifies to a token iff it is a body
  and the hex tag of that body under the key, and the body splits at its first
  two dots into the replica name and two numbers that parse, without overflow,
  to the token's epoch and expiry.
\<close>

theorem session_token_exact:
  assumes "hex_text_law J"
  shows "token_verify H J key encoded = Some tok \<longleftrightarrow>
    (\<exists>ep ex e x. let body = replica_id tok @ dot # ep @ dot # ex in
      encoded = body @ dot # hex_encode J (H key (str_bytes body)) \<and> dot \<notin> set (replica_id tok) \<and>
      parse_uint 32 ep = Some e \<and> parse_uint 64 ex = Some x \<and>
      st_epoch tok = word_of_nat e \<and> expiry_unix tok = word_of_nat x)"
  unfolding token_verify_Some [OF assms] parse_body_Some Let_def token_mac_def by blast

theorem session_token_exact_witness:
  "let H = \<lambda>k m. k @ m; tok = \<lparr>replica_id = ''a'', st_epoch = 1, expiry_unix = 2\<rparr> in
   \<exists>ep ex e x. token_sign H model_codecs [9] tok =
       (''a'' @ dot # ep @ dot # ex) @ dot # hex_encode model_codecs ([9] @ str_bytes (''a'' @ dot # ep @ dot # ex)) \<and>
     parse_uint 32 ep = Some e \<and> parse_uint 64 ex = Some x \<and> (word_of_nat e :: u32) = 1"
proof -
  let ?H = "\<lambda>k m. k @ m" and ?t = "\<lparr>replica_id = ''a'', st_epoch = 1, expiry_unix = 2\<rparr>"
  have "token_verify ?H model_codecs [9] (token_sign ?H model_codecs [9] ?t) = Some ?t"
    by (simp add: token_verify_sign [OF model_hex_text_law] dot_def)
  from this [unfolded session_token_exact [OF model_hex_text_law] Let_def] show ?thesis
    unfolding Let_def by fastforce
qed

end
