(* ===== verification/Overlay.thy ===== *)
theory Overlay
  imports Primitives
begin

text \<open>
  \<open>ullm-overlay\<close>: onion layers (\<open>layer.rs\<close>), the in-memory relay registry
  (\<open>relay.rs\<close>) and the sending helper (\<open>transport.rs\<close>).  ChaCha20-Poly1305 and
  the \<open>postcard\<close> encodings of the two message types are parameters.  The routing
  loop may in principle run forever, so it is a partial function whose value
  \<open>None\<close> means that it does not return.  Shown: it always returns, because each
  peeled layer is shorter than what it was peeled from, and a wrapped payload
  routed from the first relay is delivered.
\<close>

section \<open>layer.rs\<close>

record Relay =
  rl_label :: string
  rl_secret :: bytes
  rl_public :: bytes

definition Relay_random :: "'r prims \<Rightarrow> string \<Rightarrow> 'r \<Rightarrow> Relay \<times> 'r" where
  "Relay_random P label rng =
    (let (secret, rng) = x25519_random P rng; public = x25519_public P secret
     in (\<lparr>rl_label = label, rl_secret = secret, rl_public = public\<rparr>, rng))"

record OnionLayer =
  ol_ephemeral_pk :: bytes
  ol_ciphertext :: bytes

record LayerInner =
  li_next_hop :: "string option"
  li_inner :: bytes

text \<open>The crates the layers use: an AEAD and the two encodings, failures as messages.\<close>

record onion_lib =
  chacha_encrypt :: "bytes \<Rightarrow> bytes \<Rightarrow> bytes \<Rightarrow> bytes \<Rightarrow> bytes option"
  chacha_decrypt :: "bytes \<Rightarrow> bytes \<Rightarrow> bytes \<Rightarrow> bytes \<Rightarrow> bytes option"
  layer_to :: "OnionLayer \<Rightarrow> string + bytes"
  layer_from :: "bytes \<Rightarrow> string + OnionLayer"
  inner_to :: "LayerInner \<Rightarrow> string + bytes"
  inner_from :: "bytes \<Rightarrow> string + LayerInner"

definition AEAD_INFO :: bytes where "AEAD_INFO = str_bytes ''ULLM-overlay-v1''"
definition AEAD_NONCE :: bytes where "AEAD_NONCE = str_bytes ''ULLMonion-v1''"

definition derive_aead_key :: "'r prims \<Rightarrow> bytes \<Rightarrow> bytes \<Rightarrow> bytes" where
  "derive_aead_key P shared ephemeral_pk =
    hkdf_expand P (hkdf_extract P ephemeral_pk shared) AEAD_INFO 32"

text \<open>One round of the wrapping loop, on the current bytes and the label of the next hop.\<close>

definition wrap_one ::
  "'r prims \<Rightarrow> onion_lib \<Rightarrow> bytes \<Rightarrow> bytes \<times> string option \<Rightarrow> 'r \<Rightarrow> bytes result \<times> 'r" where
  "wrap_one P L relay_pk cur rng =
    (let (ephemeral, rng) = x25519_random P rng;
         ephemeral_pk = x25519_public P ephemeral;
         shared = x25519_dh P ephemeral relay_pk;
         key = derive_aead_key P shared ephemeral_pk
     in (rbind (map_err Serde (inner_to L \<lparr>li_next_hop = snd cur, li_inner = fst cur\<rparr>)) (\<lambda>plaintext.
         rbind (ok_or (Other ''AEAD seal failed'')
                 (chacha_encrypt L key AEAD_NONCE ephemeral_pk plaintext)) (\<lambda>ct.
         map_err Serde (layer_to L \<lparr>ol_ephemeral_pk = ephemeral_pk, ol_ciphertext = ct\<rparr>))), rng))"

fun wrap_loop ::
  "'r prims \<Rightarrow> onion_lib \<Rightarrow> (string \<times> bytes) list \<Rightarrow> bytes \<times> string option \<Rightarrow> 'r \<Rightarrow> bytes result \<times> 'r" where
  "wrap_loop P L [] cur rng = (Inr (fst cur), rng)"
| "wrap_loop P L ((label, relay_pk) # rest) cur rng =
    (case wrap_one P L relay_pk cur rng of
       (Inl e, rng) \<Rightarrow> (Inl e, rng)
     | (Inr current, rng) \<Rightarrow> wrap_loop P L rest (current, Some label) rng)"

definition wrap_layers ::
  "'r prims \<Rightarrow> onion_lib \<Rightarrow> 'r \<Rightarrow> (string \<times> bytes) list \<Rightarrow> bytes \<Rightarrow> bytes result \<times> 'r" where
  "wrap_layers P L rng relay_chain destination_payload =
    (if relay_chain = [] then (Inl (Other ''onion needs at least one relay''), rng)
     else wrap_loop P L (rev relay_chain) (destination_payload, None) rng)"

definition peel_layer :: "'r prims \<Rightarrow> onion_lib \<Rightarrow> bytes \<Rightarrow> bytes \<Rightarrow> (string option \<times> bytes) result" where
  "peel_layer P L relay_secret layer_bytes =
    rbind (map_err Serde (layer_from L layer_bytes)) (\<lambda>layer.
      let shared = x25519_dh P relay_secret (ol_ephemeral_pk layer);
          key = derive_aead_key P shared (ol_ephemeral_pk layer)
      in rbind (ok_or Decrypt
             (chacha_decrypt L key AEAD_NONCE (ol_ephemeral_pk layer) (ol_ciphertext layer))) (\<lambda>plaintext.
         rbind (map_err Serde (inner_from L plaintext)) (\<lambda>inner.
         Inr (li_next_hop inner, li_inner inner))))"

section \<open>relay.rs and transport.rs\<close>

record InMemoryRelay =
  secrets :: "(string \<times> bytes) list"
  publics :: "(string \<times> bytes) list"
  delivered :: "bytes list"

definition InMemoryRelay_new :: "'r prims \<Rightarrow> (string \<times> bytes) list \<Rightarrow> InMemoryRelay" where
  "InMemoryRelay_new P sks =
    \<lparr>secrets = sks, publics = map (\<lambda>(k, v). (k, x25519_public P v)) sks, delivered = []\<rparr>"

definition relay_public :: "InMemoryRelay \<Rightarrow> string \<Rightarrow> bytes option" where
  "relay_public reg i = map_of (publics reg) i"

definition unknown_relay :: "string \<Rightarrow> Error" where
  "unknown_relay i = Other (''unknown relay '' @ i)"

text \<open>One iteration of the loop: the next relay and bytes, or the payload to deliver.\<close>

definition route_step ::
  "'r prims \<Rightarrow> onion_lib \<Rightarrow> InMemoryRelay \<Rightarrow> string \<Rightarrow> bytes \<Rightarrow> (bytes + string \<times> bytes) result" where
  "route_step P L reg current_relay current_bytes =
    rbind (ok_or (unknown_relay current_relay) (map_of (secrets reg) current_relay)) (\<lambda>sk.
    rbind (peel_layer P L sk current_bytes) (\<lambda>(next_hop, inner).
      Inr (case next_hop of None \<Rightarrow> Inl inner | Some next_label \<Rightarrow> Inr (next_label, inner))))"

partial_function (option) route ::
  "'r prims \<Rightarrow> onion_lib \<Rightarrow> InMemoryRelay \<Rightarrow> string \<Rightarrow> bytes \<Rightarrow> (unit result \<times> InMemoryRelay) option" where
  "route P L reg current_relay current_bytes =
    (case route_step P L reg current_relay current_bytes of
       Inl e \<Rightarrow> Some (Inl e, reg)
     | Inr (Inl inner) \<Rightarrow> Some (Inr (), reg\<lparr>delivered := delivered reg @ [inner]\<rparr>)
     | Inr (Inr (next_label, inner)) \<Rightarrow> route P L reg next_label inner)"

definition take_delivered :: "InMemoryRelay \<Rightarrow> bytes list \<times> InMemoryRelay" where
  "take_delivered reg = (delivered reg, reg\<lparr>delivered := []\<rparr>)"

fun chain_keys :: "InMemoryRelay \<Rightarrow> string list \<Rightarrow> (string \<times> bytes) list result" where
  "chain_keys reg [] = Inr []"
| "chain_keys reg (i # is) =
    rbind (ok_or (unknown_relay i) (relay_public reg i)) (\<lambda>pk.
    rbind (chain_keys reg is) (\<lambda>rest. Inr ((i, pk) # rest)))"

definition send_through ::
  "'r prims \<Rightarrow> onion_lib \<Rightarrow> 'r \<Rightarrow> InMemoryRelay \<Rightarrow> string list \<Rightarrow> bytes \<Rightarrow>
   (unit result \<times> InMemoryRelay) option \<times> 'r" where
  "send_through P L rng reg relay_chain payload =
    (case chain_keys reg relay_chain of
       Inl e \<Rightarrow> (Some (Inl e, reg), rng)
     | Inr ch \<Rightarrow>
        (case wrap_layers P L rng ch payload of
           (Inl e, rng) \<Rightarrow> (Some (Inl e, reg), rng)
         | (Inr wrapped, rng) \<Rightarrow> (route P L reg (relay_chain ! 0) wrapped, rng)))"

definition deliver :: "InMemoryRelay \<Rightarrow> bytes option \<times> InMemoryRelay" where
  "deliver reg = (let (ds, reg) = take_delivered reg
                  in (case ds of [] \<Rightarrow> None | d # _ \<Rightarrow> Some d, reg))"

section \<open>Documented behaviour of the parameters\<close>

text \<open>
  The AEAD accepts exactly its own ciphertexts, which are 16 bytes longer than
  the message; decoding inverts encoding; and an encoding is longer than the byte
  strings it contains, which it stores behind a length and, for the inner
  record, the tag of the optional label.
\<close>

definition onion_law :: "onion_lib \<Rightarrow> bool" where
  "onion_law L \<longleftrightarrow>
    (\<forall>k n a c p. chacha_decrypt L k n a c = Some p \<longleftrightarrow> chacha_encrypt L k n a p = Some c) \<and>
    (\<forall>k n a c p. chacha_encrypt L k n a p = Some c \<longrightarrow> length c = length p + 16) \<and>
    (\<forall>l b. layer_to L l = Inr b \<longrightarrow> layer_from L b = Inr l) \<and>
    (\<forall>i b. inner_to L i = Inr b \<longrightarrow> inner_from L b = Inr i) \<and>
    (\<forall>l b. layer_from L b = Inr l \<longrightarrow> length (ol_ciphertext l) < length b) \<and>
    (\<forall>i b. inner_from L b = Inr i \<longrightarrow> length (li_inner i) < length b)"

section \<open>The routing loop returns\<close>

lemma peel_shorter:
  assumes "onion_law L" "peel_layer P L sk b = Inr (nh, inner)"
  shows "length inner < length b"
proof -
  obtain layer pt i where l: "layer_from L b = Inr layer" and i: "inner_from L pt = Inr i"
    and d: "chacha_decrypt L (derive_aead_key P (x25519_dh P sk (ol_ephemeral_pk layer)) (ol_ephemeral_pk layer))
        AEAD_NONCE (ol_ephemeral_pk layer) (ol_ciphertext layer) = Some pt" and inner: "inner = li_inner i"
    using assms(2) by (auto simp: peel_layer_def Let_def result_simps)
  have "length (ol_ciphertext layer) = length pt + 16"
    using assms(1) d unfolding onion_law_def by metis
  moreover have "length (ol_ciphertext layer) < length b" "length (li_inner i) < length pt"
    using assms(1) l i unfolding onion_law_def by blast+
  ultimately show ?thesis using inner by simp
qed

lemma route_step_shorter:
  assumes "onion_law L" "route_step P L reg r b = Inr (Inr (r', b'))"
  shows "length b' < length b"
  using assms(2) peel_shorter [OF assms(1)]
  by (auto simp: route_step_def result_simps split: option.splits)

lemma route_returns:
  assumes "onion_law L"
  shows "\<exists>y. route P L reg r b = Some y"
proof (induction b arbitrary: r rule: length_induct)
  case (1 b)
  show ?case
  proof (cases "route_step P L reg r b")
    case (Inl e)
    then show ?thesis by (simp add: route.simps)
  next
    case (Inr out)
    show ?thesis
    proof (cases out)
      case (Inl inner)
      then show ?thesis using Inr by (simp add: route.simps)
    next
      case o: (Inr hop)
      obtain r' b' where hop: "hop = (r', b')" by (cases hop)
      then have "length b' < length b" using route_step_shorter [OF assms] Inr o by blast
      then show ?thesis using 1 Inr o hop by (subst route.simps) simp
    qed
  qed
qed

section \<open>Wrapped payloads arrive\<close>

lemma peel_wrapped:
  assumes "onion_law L" "x25519_law P" "wrap_one P L (x25519_public P sk) (cur, nh) rng = (Inr b, rng')"
  shows "peel_layer P L sk b = Inr (nh, cur)"
proof -
  obtain eph rng1 where e: "x25519_random P rng = (eph, rng1)" by fastforce
  let ?epk = "x25519_public P eph"
  let ?key = "derive_aead_key P (x25519_dh P eph (x25519_public P sk)) ?epk"
  obtain pt ct where w: "inner_to L \<lparr>li_next_hop = nh, li_inner = cur\<rparr> = Inr pt"
    "chacha_encrypt L ?key AEAD_NONCE ?epk pt = Some ct"
    "layer_to L \<lparr>ol_ephemeral_pk = ?epk, ol_ciphertext = ct\<rparr> = Inr b"
    using assms(3) by (auto simp: wrap_one_def e Let_def result_simps)
  have dh: "x25519_dh P sk ?epk = x25519_dh P eph (x25519_public P sk)"
    using assms(2) by (simp add: x25519_law_def)
  have "layer_from L b = Inr \<lparr>ol_ephemeral_pk = ?epk, ol_ciphertext = ct\<rparr>"
    "inner_from L pt = Inr \<lparr>li_next_hop = nh, li_inner = cur\<rparr>"
    "chacha_decrypt L ?key AEAD_NONCE ?epk ct = Some pt"
    using assms(1) w unfolding onion_law_def by blast+
  then show ?thesis by (simp add: peel_layer_def Let_def dh)
qed

definition registered :: "'r prims \<Rightarrow> InMemoryRelay \<Rightarrow> string \<times> bytes \<Rightarrow> bool" where
  "registered P reg r \<longleftrightarrow> (\<exists>sk. map_of (secrets reg) (fst r) = Some sk \<and> snd r = x25519_public P sk)"

text \<open>
  The invariant of the wrapping loop: the current bytes, sent to the relay named
  by the next-hop label, are delivered as the payload.
\<close>

lemma wrap_loop_routes:
  assumes "onion_law L" "x25519_law P" "list_all (registered P reg) ch"
    and "wrap_loop P L ch (cur, Some label) rng = (Inr w, rng')"
    and "route P L reg label cur = Some (Inr (), reg')"
  shows "route P L reg (fst (last ((label, pk) # ch))) w = Some (Inr (), reg')"
  using assms(3-5)
proof (induction ch arbitrary: cur label pk rng)
  case (Cons r ch)
  obtain l k where r: "r = (l, k)" by (cases r)
  then obtain sk where sk: "map_of (secrets reg) l = Some sk" "k = x25519_public P sk"
    using Cons.prems(1) by (auto simp: registered_def)
  obtain b rng1 where w: "wrap_one P L k (cur, Some label) rng = (Inr b, rng1)"
    and rest: "wrap_loop P L ch (b, Some l) rng1 = (Inr w, rng')"
    using Cons.prems(2) r by (auto split: prod.splits sum.splits)
  have "peel_layer P L sk b = Inr (Some label, cur)"
    using peel_wrapped [OF assms(1,2)] w sk(2) by blast
  then have "route P L reg l b = Some (Inr (), reg')"
    using Cons.prems(3) sk(1) by (subst route.simps) (simp add: route_step_def)
  from Cons.IH [OF _ rest this, of k] show ?case using Cons.prems(1) r by simp
qed simp

lemma wrapped_routes:
  assumes "onion_law L" "x25519_law P" "list_all (registered P reg) ch"
    and "wrap_layers P L rng ch payload = (Inr w, rng')"
  shows "route P L reg (fst (hd ch)) w = Some (Inr (), reg\<lparr>delivered := delivered reg @ [payload]\<rparr>)"
proof -
  obtain l k rest where rc: "rev ch = (l, k) # rest"
    using assms(4) by (cases "rev ch") (auto simp: wrap_layers_def)
  have all: "list_all (registered P reg) (rev ch)" using assms(3) by (simp add: list_all_iff)
  then obtain sk where sk: "map_of (secrets reg) l = Some sk" "k = x25519_public P sk"
    using rc by (auto simp: registered_def)
  obtain b rng1 where w: "wrap_one P L k (payload, None) rng = (Inr b, rng1)"
    and rest: "wrap_loop P L rest (b, Some l) rng1 = (Inr w, rng')"
    using assms(4) rc by (auto simp: wrap_layers_def split: prod.splits sum.splits if_splits)
  have "peel_layer P L sk b = Inr (None, payload)"
    using peel_wrapped [OF assms(1,2)] w sk(2) by blast
  then have "route P L reg l b = Some (Inr (), reg\<lparr>delivered := delivered reg @ [payload]\<rparr>)"
    using sk(1) by (subst route.simps) (simp add: route_step_def)
  from wrap_loop_routes [OF assms(1,2) _ rest this, of k] show ?thesis
    using all rc hd_rev [of "rev ch"] by simp
qed

section \<open>A concrete instance\<close>

definition model_layer_to :: "OnionLayer \<Rightarrow> string + bytes" where
  "model_layer_to l =
    (if length (ol_ephemeral_pk l) = 32 then Inr (ol_ephemeral_pk l @ ol_ciphertext l) else Inl ''key'')"

definition model_layer_from :: "bytes \<Rightarrow> string + OnionLayer" where
  "model_layer_from b =
    (if 32 \<le> length b then Inr \<lparr>ol_ephemeral_pk = take 32 b, ol_ciphertext = drop 32 b\<rparr> else Inl ''short'')"

fun model_inner_to :: "LayerInner \<Rightarrow> string + bytes" where
  "model_inner_to i =
    (case li_next_hop i of
       None \<Rightarrow> Inr (0 # li_inner i)
     | Some s \<Rightarrow> if length s < 256 then Inr (1 # word_of_nat (length s) # str_bytes s @ li_inner i)
                 else Inl ''label'')"

fun model_inner_from :: "bytes \<Rightarrow> string + LayerInner" where
  "model_inner_from (t # bs) =
    (if t = 0 then Inr \<lparr>li_next_hop = None, li_inner = bs\<rparr>
     else case bs of
       [] \<Rightarrow> Inl ''short''
     | n # cs \<Rightarrow> Inr \<lparr>li_next_hop = Some (chars (take (unat n) cs)), li_inner = drop (unat n) cs\<rparr>)"
| "model_inner_from [] = Inl ''short''"

definition model_onion :: onion_lib where
  "model_onion = \<lparr>chacha_encrypt = (\<lambda>k n a p. Some (tag_encrypt k n a p)), chacha_decrypt = tag_decrypt,
     layer_to = model_layer_to, layer_from = model_layer_from,
     inner_to = model_inner_to, inner_from = model_inner_from\<rparr>"

lemma model_onion_law: "onion_law model_onion"
proof -
  have "model_layer_from b = Inr l" if "model_layer_to l = Inr b" for l b
    using that by (cases l) (auto simp: model_layer_to_def model_layer_from_def split: if_splits)
  moreover have "model_inner_from b = Inr i" if "model_inner_to i = Inr b" for i b
    using that by (cases i) (auto simp: unat_of_nat split: option.splits if_splits)
  moreover have "length (ol_ciphertext l) < length b" if "model_layer_from b = Inr l" for l b
    using that by (auto simp: model_layer_from_def split: if_splits)
  moreover have "length (li_inner i) < length b" if "model_inner_from b = Inr i" for i b
    using that by (cases b) (auto split: if_splits list.splits)
  ultimately show ?thesis
    unfolding onion_law_def
    by (auto simp: model_onion_def tag_decrypt_iff simp del: model_inner_to.simps)
qed

section \<open>Properties\<close>

text \<open>
  Routing terminates: whatever bytes enter at whatever relay, the loop
  returns, because every layer it peels is shorter than the one before.
\<close>

theorem onion_route_terminates:
  assumes "onion_law L"
  shows "\<exists>res. route P L reg entry bytes = Some res"
  using assms by (rule route_returns)

theorem onion_route_terminates_witness:
  "\<exists>res. route model_prims model_onion (InMemoryRelay_new model_prims [(''a'', [1])]) ''a'' [1, 2, 3] = Some res"
  by (rule onion_route_terminates [OF model_onion_law])

text \<open>
  C22. Onion delivery: along any nonempty chain of registered relays, repeated
  ones included, \<open>send_through\<close> either reports the error of wrapping and changes
  nothing, or returns success with exactly the payload appended to what was
  delivered.
\<close>

theorem onion_delivery:
  assumes "onion_law L" "x25519_law P" "reg = (InMemoryRelay_new P sks)\<lparr>delivered := ds\<rparr>"
    and "relay_chain \<noteq> []" "set relay_chain \<subseteq> fst ` set sks"
  shows "\<exists>ch. chain_keys reg relay_chain = Inr ch \<and> map fst ch = relay_chain \<and>
    send_through P L rng reg relay_chain payload =
      (case wrap_layers P L rng ch payload of
         (Inl e, rng') \<Rightarrow> (Some (Inl e, reg), rng')
       | (Inr w, rng') \<Rightarrow> (Some (Inr (), reg\<lparr>delivered := ds @ [payload]\<rparr>), rng'))"
proof -
  have "\<exists>ch. chain_keys reg rc = Inr ch \<and> map fst ch = rc \<and> list_all (registered P reg) ch"
    if "set rc \<subseteq> fst ` set sks" for rc
    using that
  proof (induction rc)
    case (Cons i rc)
    then obtain sk where "map_of sks i = Some sk"
      by (cases "map_of sks i") (auto simp: map_of_eq_None_iff)
    moreover from this have "map_of (publics reg) i = Some (x25519_public P sk)"
      using assms(3) by (simp add: InMemoryRelay_new_def map_of_map)
    ultimately show ?case
      using Cons assms(3) by (auto simp: relay_public_def registered_def InMemoryRelay_new_def)
  qed simp
  then obtain ch where ch: "chain_keys reg relay_chain = Inr ch" "map fst ch = relay_chain"
    "list_all (registered P reg) ch" using assms(5) by blast
  have ds: "delivered reg = ds" using assms(3) by simp
  have hd: "fst (hd ch) = relay_chain ! 0" using ch(2) assms(4) by (cases ch) auto
  have "send_through P L rng reg relay_chain payload =
      (case wrap_layers P L rng ch payload of
         (Inl e, rng') \<Rightarrow> (Some (Inl e, reg), rng')
       | (Inr w, rng') \<Rightarrow> (Some (Inr (), reg\<lparr>delivered := ds @ [payload]\<rparr>), rng'))"
    using wrapped_routes [OF assms(1,2) ch(3), of rng payload] hd ds
    by (auto simp: send_through_def ch(1) split: prod.splits sum.splits)
  then show ?thesis using ch by blast
qed

theorem onion_delivery_witness:
  "snd (the (fst (send_through model_prims model_onion 3
       (InMemoryRelay_new model_prims [(''a'', [1]), (''b'', [2])]) [''a'', ''b''] [7, 8])))
   = (InMemoryRelay_new model_prims [(''a'', [1]), (''b'', [2])])\<lparr>delivered := [[7, 8]]\<rparr>"
proof -
  let ?reg = "InMemoryRelay_new model_prims [(''a'', [1]), (''b'', [2])]"
  have reg: "?reg = ?reg\<lparr>delivered := []\<rparr>" by (simp add: InMemoryRelay_new_def)
  obtain ch where ch: "chain_keys ?reg [''a'', ''b''] = Inr ch"
    "send_through model_prims model_onion 3 ?reg [''a'', ''b''] [7, 8] =
      (case wrap_layers model_prims model_onion 3 ch [7, 8] of
         (Inl e, rng') \<Rightarrow> (Some (Inl e, ?reg), rng')
       | (Inr w, rng') \<Rightarrow> (Some (Inr (), ?reg\<lparr>delivered := [] @ [[7, 8]]\<rparr>), rng'))"
    using onion_delivery [OF model_onion_law model_x25519_law reg, of "[''a'', ''b'']" 3 "[7, 8]"] by auto
  have "is_ok (fst (wrap_layers model_prims model_onion 3 ch [7, 8]))"
  proof -
    have "ch = [(''a'', x25519_public model_prims [1]), (''b'', x25519_public model_prims [2])]"
      using ch(1) by (simp add: InMemoryRelay_new_def relay_public_def)
    moreover have "is_ok (fst (wrap_layers model_prims model_onion 3
        [(''a'', x25519_public model_prims [1]), (''b'', x25519_public model_prims [2])] [7, 8]))"
      by code_simp
    ultimately show ?thesis by (rule ssubst)
  qed
  then show ?thesis using ch(2) by (auto simp: is_ok_iff split: prod.splits)
qed

end
