(* ===== verification/Crypto.thy ===== *)
theory Crypto
  imports Primitives
begin

text \<open>
  The crate \<open>ullm-crypto\<close>: HKDF wrappers (\<open>kdf.rs\<close>), the record AEAD
  (\<open>aead.rs\<close>), sealing at rest (\<open>seal.rs\<close>), the hybrid key exchange
  (\<open>kex.rs\<close>) and the symmetric, DH and triple ratchets (\<open>ratchet.rs\<close>).  Shown
  here: both ends of the hybrid exchange and of each ratchet step derive the
  same keys, and the per-frame nonce is injective in (epoch, sequence).
  The \<open>expect\<close> calls of \<open>kdf.rs\<close> cannot fire: every caller passes a literal
  length of at most 32 bytes, below the 8160-byte limit of HKDF-SHA-256.
\<close>

section \<open>kdf.rs\<close>

type_synonym RootKey = bytes
type_synonym HybridSecret = bytes
type_synonym ChainKey = bytes
type_synonym MessageKey = bytes
type_synonym NonceSalt = bytes
type_synonym AeadKey = bytes

definition INFO_RECORD_C2S :: bytes where "INFO_RECORD_C2S = str_bytes ''ULLM-v1 record c2s''"
definition INFO_RECORD_S2C :: bytes where "INFO_RECORD_S2C = str_bytes ''ULLM-v1 record s2c''"
definition INFO_NONCE_SALT :: bytes where "INFO_NONCE_SALT = str_bytes ''ULLM-v1 nonce salt''"
definition INFO_CHAIN :: bytes where "INFO_CHAIN = str_bytes ''ULLM-v1 chain''"
definition INFO_MSG :: bytes where "INFO_MSG = str_bytes ''ULLM-v1 msg''"
definition INFO_TURN_RATCHET :: bytes where
  "INFO_TURN_RATCHET = str_bytes ''ULLM-v1 turn ratchet''"

definition kdf_extract :: "'r prims \<Rightarrow> bytes \<Rightarrow> bytes \<Rightarrow> bytes" where
  "kdf_extract P salt ikm = hkdf_extract P salt ikm"

definition kdf_expand :: "'r prims \<Rightarrow> bytes \<Rightarrow> bytes \<Rightarrow> nat \<Rightarrow> bytes" where
  "kdf_expand P prk info len = hkdf_expand P prk info len"

definition derive_root :: "'r prims \<Rightarrow> bytes \<Rightarrow> HybridSecret \<Rightarrow> RootKey" where
  "derive_root P transcript_hash hybrid = kdf_extract P transcript_hash hybrid"

section \<open>aead.rs and seal.rs\<close>

definition aead_seal :: "'r prims \<Rightarrow> AeadKey \<Rightarrow> bytes \<Rightarrow> bytes \<Rightarrow> bytes \<Rightarrow> bytes" where
  "aead_seal P key nonce aad plaintext = xchacha_encrypt P key nonce aad plaintext"

definition aead_open :: "'r prims \<Rightarrow> AeadKey \<Rightarrow> bytes \<Rightarrow> bytes \<Rightarrow> bytes \<Rightarrow> bytes result" where
  "aead_open P key nonce aad ciphertext =
    ok_or Decrypt (xchacha_decrypt P key nonce aad ciphertext)"

datatype SealError = SealError_Open | SealError_BadNonce

definition SealedKek_random :: "'r prims \<Rightarrow> 'r \<Rightarrow> bytes \<times> 'r" where
  "SealedKek_random P rng = rng_fill P 32 rng"

definition seal :: "'r prims \<Rightarrow> bytes \<Rightarrow> bytes \<Rightarrow> bytes \<Rightarrow> bytes \<Rightarrow> bytes" where
  "seal P kek nonce aad plaintext = gcmsiv_encrypt P kek nonce aad plaintext"

definition unseal :: "'r prims \<Rightarrow> bytes \<Rightarrow> bytes \<Rightarrow> bytes \<Rightarrow> bytes \<Rightarrow> SealError + bytes" where
  "unseal P kek nonce aad ciphertext =
    ok_or SealError_Open (gcmsiv_decrypt P kek nonce aad ciphertext)"

section \<open>kex.rs\<close>

definition hybrid_encap ::
  "'r prims \<Rightarrow> 'r \<Rightarrow> bytes \<Rightarrow> bytes \<Rightarrow> (bytes \<times> bytes \<times> HybridSecret) \<times> 'r" where
  "hybrid_encap P rng server_mlkem_pk server_x25519_pk =
    (let ((mlkem_ct, mlkem_ss), rng) = mlkem_encapsulate P server_mlkem_pk rng;
         (client_x25519_sk, rng) = x25519_random P rng;
         client_x25519_pk = x25519_public P client_x25519_sk;
         x25519_ss = x25519_dh P client_x25519_sk server_x25519_pk
     in ((mlkem_ct, client_x25519_pk, mlkem_ss @ x25519_ss), rng))"

definition hybrid_decap ::
  "'r prims \<Rightarrow> bytes \<Rightarrow> bytes \<Rightarrow> bytes \<Rightarrow> bytes \<Rightarrow> HybridSecret result" where
  "hybrid_decap P server_mlkem_sk server_x25519_sk mlkem_ct client_x25519_pk =
    rbind (ok_or (Other ''ml-kem decap failed'') (mlkem_decapsulate P server_mlkem_sk mlkem_ct))
     (\<lambda>mlkem_ss. Inr (mlkem_ss @ x25519_dh P server_x25519_sk client_x25519_pk))"

definition ml_kem_keypair :: "'r prims \<Rightarrow> 'r \<Rightarrow> (bytes \<times> bytes) \<times> 'r" where
  "ml_kem_keypair P rng = mlkem_generate P rng"

definition ml_kem_pk_bytes :: "bytes \<Rightarrow> bytes" where "ml_kem_pk_bytes pk = pk"

definition ml_kem_pk_from_bytes :: "bytes \<Rightarrow> bytes option" where
  "ml_kem_pk_from_bytes b = (if length b = ML_KEM_768_EK_LEN then Some b else None)"

definition ml_kem_ct_bytes :: "bytes \<Rightarrow> bytes" where "ml_kem_ct_bytes ct = ct"

definition ml_kem_ct_from_bytes :: "bytes \<Rightarrow> bytes option" where
  "ml_kem_ct_from_bytes b = (if length b = 1088 then Some b else None)"

section \<open>ratchet.rs\<close>

definition ChainKey_ratchet :: "'r prims \<Rightarrow> ChainKey \<Rightarrow> ChainKey \<times> MessageKey" where
  "ChainKey_ratchet P ck =
    (let mk = kdf_expand P ck INFO_MSG 32; nk = kdf_expand P ck INFO_CHAIN 32 in (nk, mk))"

record SymRatchet = sr_chain :: ChainKey

definition SymRatchet_new :: "ChainKey \<Rightarrow> SymRatchet" where
  "SymRatchet_new ck = \<lparr>sr_chain = ck\<rparr>"

definition SymRatchet_next_key :: "'r prims \<Rightarrow> SymRatchet \<Rightarrow> AeadKey \<times> SymRatchet" where
  "SymRatchet_next_key P s =
    (let (nxt, mk) = ChainKey_ratchet P (sr_chain s) in (mk, s\<lparr>sr_chain := nxt\<rparr>))"

record InitialKeys =
  ik_c2s_chain :: ChainKey
  ik_s2c_chain :: ChainKey
  ik_nonce_salt :: NonceSalt

definition derive_initial_keys :: "'r prims \<Rightarrow> RootKey \<Rightarrow> InitialKeys" where
  "derive_initial_keys P root = \<lparr>
    ik_c2s_chain = kdf_expand P root INFO_RECORD_C2S 32,
    ik_s2c_chain = kdf_expand P root INFO_RECORD_S2C 32,
    ik_nonce_salt = kdf_expand P root INFO_NONCE_SALT 24\<rparr>"

definition nonce_counter :: "u32 \<Rightarrow> u64 \<Rightarrow> 128 word" where
  "nonce_counter epoch seq = push_bit 64 (ucast epoch) OR ucast seq"

definition frame_nonce :: "NonceSalt \<Rightarrow> u32 \<Rightarrow> u64 \<Rightarrow> bytes" where
  "frame_nonce salt epoch seq =
    (let counter_bytes = be_nat 16 (unat (nonce_counter epoch seq))
     in fold (\<lambda>i out. out[i + 8 := (out ! (i + 8)) XOR (counter_bytes ! i)]) [0..<16] salt)"

definition DhRatchet_step ::
  "'r prims \<Rightarrow> RootKey \<Rightarrow> bytes \<Rightarrow> bytes \<Rightarrow> RootKey \<times> InitialKeys" where
  "DhRatchet_step P prev_root our_sk peer_pk =
    (let ss = x25519_dh P our_sk peer_pk;
         ikm = ss @ INFO_TURN_RATCHET;
         new_root = kdf_extract P prev_root ikm
     in (new_root, derive_initial_keys P new_root))"

record TurnPayload =
  tp_mlkem_ct :: bytes
  tp_initiator_x25519_pk :: bytes

definition derive_turn_root ::
  "'r prims \<Rightarrow> RootKey \<Rightarrow> HybridSecret \<Rightarrow> RootKey \<times> InitialKeys" where
  "derive_turn_root P prev_root hybrid =
    (let root = kdf_extract P prev_root (hybrid @ INFO_TURN_RATCHET)
     in (root, derive_initial_keys P root))"

definition TripleRatchet_initiate ::
  "'r prims \<Rightarrow> 'r \<Rightarrow> RootKey \<Rightarrow> bytes \<Rightarrow> bytes \<Rightarrow> (RootKey \<times> InitialKeys \<times> TurnPayload) \<times> 'r" where
  "TripleRatchet_initiate P rng prev_root responder_mlkem_pk responder_x25519_pk =
    (let ((mlkem_ct, initiator_x25519_pk, hybrid), rng) =
           hybrid_encap P rng responder_mlkem_pk responder_x25519_pk;
         (root, keys) = derive_turn_root P prev_root hybrid
     in ((root, keys, \<lparr>tp_mlkem_ct = mlkem_ct, tp_initiator_x25519_pk = initiator_x25519_pk\<rparr>),
         rng))"

definition TripleRatchet_respond ::
  "'r prims \<Rightarrow> RootKey \<Rightarrow> bytes \<Rightarrow> bytes \<Rightarrow> TurnPayload \<Rightarrow> (RootKey \<times> InitialKeys) result" where
  "TripleRatchet_respond P prev_root responder_mlkem_sk responder_x25519_sk payload =
    rbind (hybrid_decap P responder_mlkem_sk responder_x25519_sk
            (tp_mlkem_ct payload) (tp_initiator_x25519_pk payload))
     (\<lambda>hybrid. Inr (derive_turn_root P prev_root hybrid))"

section \<open>Lemmas\<close>

lemma length_expand [simp]: "hkdf_law P \<Longrightarrow> n \<le> 8160 \<Longrightarrow> length (kdf_expand P k i n) = n"
  by (simp add: hkdf_law_def kdf_expand_def)

lemma aead_open_iff:
  "xchacha_law P \<Longrightarrow> aead_open P k n a c = Inr p \<longleftrightarrow> c = aead_seal P k n a p"
  by (simp add: aead_open_def aead_seal_def xchacha_law_def result_simps)

lemma aead_open_seal [simp]:
  "xchacha_law P \<Longrightarrow> aead_open P k n a (aead_seal P k n a p) = Inr p"
  by (simp add: aead_open_iff)

lemma length_aead_seal:
  "xchacha_law P \<Longrightarrow> length (aead_seal P k n a p) = length p + 16"
  by (simp add: aead_seal_def xchacha_law_def)

lemma unseal_iff:
  "gcmsiv_law P \<Longrightarrow> unseal P k n a c = Inr p \<longleftrightarrow> c = seal P k n a p"
  by (simp add: unseal_def seal_def gcmsiv_law_def result_simps)

text \<open>What the server decapsulates is what the client encapsulated.\<close>

lemma mlkem_lawD:
  assumes "mlkem_law P" "mlkem_pair P sk pk" "mlkem_encapsulate P pk r = ((ct, ss), r')"
  shows "mlkem_decapsulate P sk ct = Some ss" "length ct = 1088" "length ss = 32"
  using assms unfolding mlkem_law_def by blast+

lemma hybrid_agree:
  assumes "x25519_law P" "mlkem_law P" "mlkem_pair P sk pk"
    and "hybrid_encap P rng pk (x25519_public P x) = ((ct, cpk, ss), rng')"
  shows "hybrid_decap P sk x ct cpk = Inr ss" "length ct = 1088" "length cpk = 32"
    "length ss = 64"
  using assms
  by (auto simp: hybrid_encap_def hybrid_decap_def x25519_law_def Let_def mlkem_lawD
      split: prod.splits)

text \<open>The nonce loop touches bytes 8 to 23 only, each once.\<close>

lemma fold_xor_update:
  assumes "n + k \<le> length salt" "n \<le> length cb"
  shows "fold (\<lambda>i out. out[i + k := (out ! (i + k)) XOR (cb ! i)]) [0..<n] salt =
    take k salt @ map2 (XOR) (take n (drop k salt)) (take n cb) @ drop (n + k) salt"
  using assms
proof (induction n)
  case 0
  then show ?case by simp
next
  case (Suc n)
  let ?m = "map2 (XOR) (take n (drop k salt)) (take n cb)"
  have len: "length ?m = n" and kl: "length (take k salt) = k" using Suc.prems by auto
  have split: "drop (n + k) salt = salt ! (n + k) # drop (Suc n + k) salt"
    using Suc.prems by (simp add: Cons_nth_drop_Suc)
  have "fold (\<lambda>i out. out[i + k := (out ! (i + k)) XOR (cb ! i)]) [0..<Suc n] salt =
    (take k salt @ ?m @ drop (n + k) salt)
      [n + k := ((take k salt @ ?m @ drop (n + k) salt) ! (n + k)) XOR (cb ! n)]"
    using Suc by simp
  also have "\<dots> = take k salt @ ?m @ (salt ! (n + k) XOR cb ! n) # drop (Suc n + k) salt"
    using len kl unfolding split by (simp add: list_update_append nth_append)
  also have "?m @ (salt ! (n + k) XOR cb ! n) # drop (Suc n + k) salt =
     map2 (XOR) (take (Suc n) (drop k salt)) (take (Suc n) cb) @ drop (Suc n + k) salt"
    using Suc.prems by (simp add: take_Suc_conv_app_nth add.commute)
  finally show ?case .
qed

lemma frame_nonce_eq:
  assumes "length salt = 24"
  shows "frame_nonce salt epoch seq =
    take 8 salt @ map2 (XOR) (drop 8 salt) (be_nat 16 (unat (nonce_counter epoch seq)))"
proof -
  have "16 + 8 \<le> length salt" using assms by simp
  from fold_xor_update [OF this, of "be_nat 16 (unat (nonce_counter epoch seq))"]
  show ?thesis using assms unfolding frame_nonce_def Let_def
    by (simp del: upt_conv_Cons upt_rec_numeral fold.simps be_nat.simps)
qed

lemma length_frame_nonce [simp]: "length (frame_nonce salt e s) = length salt"
proof -
  have "length (fold (\<lambda>i out. out[i + 8 := f out i]) is salt) = length salt"
    for f :: "bytes \<Rightarrow> nat \<Rightarrow> u8" and "is"
    by (induction "is" arbitrary: salt) auto
  then show ?thesis by (simp add: frame_nonce_def Let_def)
qed

lemma map2_xor_inject:
  fixes cs :: bytes
  assumes "length as = length cs" "length bs = length cs"
    and "map2 (XOR) cs as = map2 (XOR) cs bs"
  shows "as = bs"
proof (rule nth_equalityI)
  fix i assume i: "i < length as"
  then have "cs ! i XOR as ! i = map2 (XOR) cs as ! i" using assms(1) by simp
  also have "\<dots> = map2 (XOR) cs bs ! i" by (simp only: assms(3))
  also have "\<dots> = cs ! i XOR bs ! i" using i assms by simp
  finally have "cs ! i XOR (cs ! i XOR as ! i) = cs ! i XOR (cs ! i XOR bs ! i)" by simp
  then show "as ! i = bs ! i" by (simp flip: xor.assoc)
qed (use assms in simp)

lemma nonce_counter_inject: "nonce_counter e s = nonce_counter e' s' \<longleftrightarrow> e = e' \<and> s = s'"
proof
  assume eq: "nonce_counter e s = nonce_counter e' s'"
  have b: "bit (nonce_counter e s) n = (if n < 64 then bit s n else n < 96 \<and> bit e (n - 64))"
    for e s n
    by (auto simp: nonce_counter_def bit_simps dest: bit_imp_le_length)
  have "bit e n = bit e' n" for n
    using arg_cong [OF eq, of "\<lambda>c. bit c (n + 64)"] bit_imp_le_length [of e n]
      bit_imp_le_length [of e' n] by (auto simp: b)
  moreover have "bit s n = bit s' n" for n
    using arg_cong [OF eq, of "\<lambda>c. bit c n"] bit_imp_le_length [of s n]
      bit_imp_le_length [of s' n] by (cases "n < 64") (auto simp: b)
  ultimately show "e = e' \<and> s = s'" by (auto intro: bit_eqI)
qed simp

lemma be_nat_16_inject: "be_nat 16 (unat (a :: 128 word)) = be_nat 16 (unat b) \<longleftrightarrow> a = b"
proof
  assume "be_nat 16 (unat a) = be_nat 16 (unat b)"
  then have "unat a mod 256 ^ 16 = unat b mod 256 ^ 16" by (metis be_val_be_nat)
  moreover have "unat a < 256 ^ 16" "unat b < 256 ^ 16"
    using unat_lt2p [of a] unat_lt2p [of b] by simp_all
  ultimately show "a = b" by (simp add: word_unat_eq_iff)
qed simp

lemma frame_nonce_inject:
  assumes "length salt = 24"
  shows "frame_nonce salt e s = frame_nonce salt e' s' \<longleftrightarrow> e = e' \<and> s = s'"
proof
  let ?b = "\<lambda>e s. be_nat 16 (unat (nonce_counter e s))"
  assume "frame_nonce salt e s = frame_nonce salt e' s'"
  then have eq: "map2 (XOR) (drop 8 salt) (?b e s) = map2 (XOR) (drop 8 salt) (?b e' s')"
    unfolding frame_nonce_eq [OF assms] by (simp only: same_append_eq)
  have "length (drop 8 salt) = 16" using assms by simp
  then have "?b e s = ?b e' s'"
    by (intro map2_xor_inject [OF _ _ eq]) (simp_all only: length_be_nat)
  then show "e = e' \<and> s = s'" by (simp add: be_nat_16_inject nonce_counter_inject)
qed simp

section \<open>Properties\<close>

text \<open>
  Nonces never repeat under one salt: the 24-byte frame nonce determines
  the epoch and the sequence number, over the full range of both counters.
\<close>

theorem frame_nonce_unique:
  assumes "length salt = 24"
  shows "frame_nonce salt e s = frame_nonce salt e' s' \<longleftrightarrow> e = e' \<and> s = s'"
  using assms by (rule frame_nonce_inject)

theorem frame_nonce_unique_witness:
  "frame_nonce (replicate 24 0) 1 2 \<noteq> frame_nonce (replicate 24 0) 2 1"
  using frame_nonce_unique [of "replicate 24 0" 1 2 2 1] by simp

text \<open>
  Both ends of a ratchet step reach the same root and chain keys: in the DH
  ratchet with each side's secret and the other's public key, and in the triple
  ratchet, where the responder accepts the initiator's payload and derives what
  the initiator derived.
\<close>

theorem ratchet_agreement:
  assumes "x25519_law P" "mlkem_law P" "mlkem_pair P sk pk"
    and "TripleRatchet_initiate P rng prev pk (x25519_public P x) = ((root, keys, payload), rng')"
  shows "TripleRatchet_respond P prev sk x payload = Inr (root, keys) \<and>
    DhRatchet_step P prev a (x25519_public P b) = DhRatchet_step P prev b (x25519_public P a)"
proof
  obtain ct cpk ss r where enc: "hybrid_encap P rng pk (x25519_public P x) = ((ct, cpk, ss), r)"
    by (metis surj_pair)
  then have "payload = \<lparr>tp_mlkem_ct = ct, tp_initiator_x25519_pk = cpk\<rparr>"
    "derive_turn_root P prev ss = (root, keys)"
    using assms(4) by (auto simp: TripleRatchet_initiate_def Let_def split: prod.splits)
  then show "TripleRatchet_respond P prev sk x payload = Inr (root, keys)"
    using hybrid_agree(1) [OF assms(1-3) enc] by (simp add: TripleRatchet_respond_def)
  show "DhRatchet_step P prev a (x25519_public P b) = DhRatchet_step P prev b (x25519_public P a)"
    using assms(1) by (simp add: DhRatchet_step_def x25519_law_def)
qed

theorem ratchet_agreement_witness:
  "\<exists>root keys payload rng'.
    TripleRatchet_initiate model_prims 5 [1] (replicate 1184 7) (x25519_public model_prims [3])
      = ((root, keys, payload), rng') \<and>
    TripleRatchet_respond model_prims [1] (replicate 64 7) [3] payload = Inr (root, keys)"
proof -
  obtain root keys payload rng' where init:
    "TripleRatchet_initiate model_prims 5 [1] (replicate 1184 7) (x25519_public model_prims [3])
      = ((root, keys, payload), rng')" by (metis surj_pair)
  have pair: "mlkem_pair model_prims (replicate 64 7) (replicate 1184 7)"
    using model_mlkem_pair [of 7] by simp
  from ratchet_agreement [OF model_x25519_law model_mlkem_law pair init] init
  show ?thesis by blast
qed

end
