(* ===== verification/KvCloak.thy ===== *)
theory KvCloak
  imports Crypto "HOL-Library.Multiset"
begin

text \<open>
  \<open>ullm-kvcloak\<close>, files \<open>cloak.rs\<close> and \<open>seal.rs\<close>: the keystream and
  permutation that cloak a block of the key/value cache, and the sealing of
  cloaked blocks at rest.  Arrays of fixed length are lists, their lengths
  stated where a lemma needs them.  Shown: the Fisher-Yates loop yields a
  permutation whatever the random stream is, so \<open>uncloak\<close> inverts \<open>cloak\<close> and
  conversely; a sealed block opens under its own tenant, session and position,
  and the associated data determines all three.
\<close>

section \<open>Shuffling\<close>

definition swap_at :: "nat \<Rightarrow> nat \<Rightarrow> 'a list \<Rightarrow> 'a list" where
  "swap_at i j xs = xs[i := xs ! j, j := xs ! i]"

text \<open>The loop \<open>for i in (1..n).rev()\<close> with \<open>j\<close> drawn from \<open>0..=i\<close>.\<close>

definition fisher_yates :: "(nat \<Rightarrow> nat) \<Rightarrow> nat \<Rightarrow> 'a list \<Rightarrow> 'a list" where
  "fisher_yates r n xs = fold (\<lambda>i. swap_at i (r i mod (i + 1))) (rev [1..<n]) xs"

definition gather :: "nat list \<Rightarrow> 'a list \<Rightarrow> 'a list" where
  "gather perm buf = map (\<lambda>src. buf ! src) perm"

definition scatter :: "nat list \<Rightarrow> 'a list \<Rightarrow> 'a list \<Rightarrow> 'a list" where
  "scatter perm src buf = fold (\<lambda>(i, p) buf. buf[p := src ! i]) (enumerate 0 perm) buf"

lemma mset_fisher_yates:
  assumes "n \<le> length xs"
  shows "mset (fisher_yates r n xs) = mset xs"
proof -
  have "mset (fold (\<lambda>i. swap_at i (r i mod (i + 1))) is ys) = mset ys"
    if "\<forall>i \<in> set is. i < length ys" for "is" and ys :: "'a list"
    using that
  proof (induction "is" arbitrary: ys)
    case (Cons i "is")
    have "i < length ys" using Cons.prems by simp
    moreover have "r i mod (i + 1) < i + 1" by simp
    ultimately have "r i mod (i + 1) < length ys" by linarith
    then have "mset (swap_at i (r i mod (i + 1)) ys) = mset ys"
      using Cons.prems by (simp add: swap_at_def mset_swap)
    then show ?case using Cons by (simp add: swap_at_def)
  qed simp
  then show ?thesis using assms by (simp add: fisher_yates_def)
qed

lemma length_scatter [simp]: "length (scatter perm src buf) = length buf"
proof -
  have "length (fold (\<lambda>(i, p) buf. buf[p := src ! i]) ps buf) = length buf" for ps
    by (induction ps arbitrary: buf) auto
  then show ?thesis by (simp add: scatter_def)
qed

lemma scatter_nth:
  assumes "distinct perm" "i < length perm" "perm ! i < length buf"
  shows "scatter perm src buf ! (perm ! i) = src ! i"
  using assms
proof (induction perm rule: rev_induct)
  case (snoc p ps)
  have split: "scatter (ps @ [p]) src buf = (scatter ps src buf)[p := src ! length ps]"
    by (simp add: scatter_def enumerate_append_eq)
  show ?case
  proof (cases "i = length ps")
    case True
    then show ?thesis using snoc.prems by (simp add: split)
  next
    case False
    then have "i < length ps" using snoc.prems by simp
    moreover have "ps ! i \<noteq> p" using snoc.prems(1) \<open>i < length ps\<close> by auto
    ultimately show ?thesis using snoc by (simp add: split nth_append)
  qed
qed simp

definition permutation_of :: "nat \<Rightarrow> nat list \<Rightarrow> bool" where
  "permutation_of n perm \<longleftrightarrow> mset perm = mset [0..<n]"

lemma permutation_ofD:
  assumes "permutation_of n perm"
  shows "distinct perm" "set perm = {0..<n}" "length perm = n"
proof -
  have m: "mset perm = mset [0..<n]" using assms by (simp add: permutation_of_def)
  show "distinct perm" using mset_eq_imp_distinct_iff [OF m] by simp
  show "set perm = {0..<n}" using mset_eq_setD [OF m] by simp
  show "length perm = n" using mset_eq_length [OF m] by simp
qed

lemma scatter_gather:
  assumes "permutation_of n perm" "length buf = n" "length buf0 = n"
  shows "scatter perm (gather perm buf) buf0 = buf"
proof (rule nth_equalityI)
  note p = permutation_ofD [OF assms(1)]
  show "length (scatter perm (gather perm buf) buf0) = length buf" using assms by simp
  fix k assume "k < length (scatter perm (gather perm buf) buf0)"
  then have "k \<in> set perm" using p(2) assms(3) by simp
  then obtain i where i: "i < length perm" "perm ! i = k" by (auto simp: in_set_conv_nth)
  then show "scatter perm (gather perm buf) buf0 ! k = buf ! k"
    using scatter_nth [OF p(1) i(1), of buf0 "gather perm buf"] \<open>k < _\<close>
    by (simp add: gather_def)
qed

lemma gather_scatter:
  assumes "permutation_of n perm" "length src = n" "length buf0 = n"
  shows "gather perm (scatter perm src buf0) = src"
proof (rule nth_equalityI)
  note p = permutation_ofD [OF assms(1)]
  show "length (gather perm (scatter perm src buf0)) = length src"
    using p assms by (simp add: gather_def)
  fix i assume "i < length (gather perm (scatter perm src buf0))"
  then have i: "i < length perm" by (simp add: gather_def)
  moreover have "perm ! i < length buf0" using p(2) nth_mem [OF i] assms(3) by simp
  ultimately show "gather perm (scatter perm src buf0) ! i = src ! i"
    using scatter_nth [OF p(1) i] by (simp add: gather_def)
qed

section \<open>cloak.rs\<close>

definition CLOAK_BLOCK_LEN :: nat where "CLOAK_BLOCK_LEN = 256"

record CloakKey =
  transform_key :: bytes
  permute_seed :: bytes
  session_nonce :: bytes

type_synonym CloakedKvBlock = bytes

definition CloakKey_from_parts :: "bytes \<Rightarrow> bytes \<Rightarrow> bytes \<Rightarrow> CloakKey" where
  "CloakKey_from_parts t p n = \<lparr>transform_key = t, permute_seed = p, session_nonce = n\<rparr>"

definition CloakKey_random :: "'r prims \<Rightarrow> 'r \<Rightarrow> CloakKey \<times> 'r" where
  "CloakKey_random P rng =
    (let (t, rng) = rng_fill P 32 rng;
         (p, rng) = rng_fill P 32 rng;
         (n, rng) = rng_fill P 16 rng
     in (\<lparr>transform_key = t, permute_seed = p, session_nonce = n\<rparr>, rng))"

definition apply_keystream :: "'r prims \<Rightarrow> bytes \<Rightarrow> bytes \<Rightarrow> u64 \<Rightarrow> bytes \<Rightarrow> bytes" where
  "apply_keystream P key nonce position buf =
    (let prk = hkdf_extract P nonce key;
         info = str_bytes ''ULLM-v1 kv-keystream'' @ u64_to_be position;
         ks = hkdf_expand P prk info CLOAK_BLOCK_LEN
     in map2 (XOR) buf ks @ drop (length ks) buf)"

definition derive_permutation :: "'r prims \<Rightarrow> bytes \<Rightarrow> bytes \<Rightarrow> u64 \<Rightarrow> u8 list" where
  "derive_permutation P seed nonce position =
    (let prk = hkdf_extract P nonce seed;
         info = str_bytes ''ULLM-v1 kv-permute'' @ u64_to_be position;
         rand_bytes = hkdf_expand P prk info ((CLOAK_BLOCK_LEN - 1) * 4);
         r = (\<lambda>i. unat (u32_from_be (take 4 (drop ((i - 1) * 4) rand_bytes))))
     in fisher_yates r CLOAK_BLOCK_LEN (map word_of_nat [0..<CLOAK_BLOCK_LEN]))"

definition cloak :: "'r prims \<Rightarrow> CloakKey \<Rightarrow> u64 \<Rightarrow> bytes \<Rightarrow> CloakedKvBlock" where
  "cloak P key position kv =
    (let buf = apply_keystream P (transform_key key) (session_nonce key) position kv;
         perm = derive_permutation P (permute_seed key) (session_nonce key) position
     in gather (map unat perm) buf)"

definition uncloak :: "'r prims \<Rightarrow> CloakKey \<Rightarrow> u64 \<Rightarrow> CloakedKvBlock \<Rightarrow> bytes" where
  "uncloak P key position cloaked =
    (let perm = derive_permutation P (permute_seed key) (session_nonce key) position;
         buf = scatter (map unat perm) cloaked (replicate CLOAK_BLOCK_LEN 0)
     in apply_keystream P (transform_key key) (session_nonce key) position buf)"

lemma length_hkdf: "hkdf_law P \<Longrightarrow> n \<le> 8160 \<Longrightarrow> length (hkdf_expand P k i n) = n"
  by (simp add: hkdf_law_def)

lemma length_apply_keystream [simp]: "length (apply_keystream P key nonce pos buf) = length buf"
  by (simp add: apply_keystream_def Let_def)

lemma map2_xor_twice: "map2 (XOR) (map2 (XOR) bs ks) ks = take (length ks) (bs :: u8 list)"
proof (induction bs arbitrary: ks)
  case (Cons b bs)
  then show ?case by (cases ks) (auto simp: xor.assoc)
qed simp

lemma apply_keystream_twice:
  "apply_keystream P key nonce pos (apply_keystream P key nonce pos buf) = buf"
proof -
  have "drop (length ks) (map2 (XOR) buf ks @ drop (length ks) buf) = drop (length ks) buf"
    "map2 (XOR) (map2 (XOR) buf ks @ drop (length ks) buf) ks = take (length ks) buf"
    for ks :: bytes
  proof -
    show "drop (length ks) (map2 (XOR) buf ks @ drop (length ks) buf) = drop (length ks) buf"
      by (cases "length ks \<le> length buf") simp_all
    show "map2 (XOR) (map2 (XOR) buf ks @ drop (length ks) buf) ks = take (length ks) buf"
    proof (cases "length ks \<le> length buf")
      case True
      then have "zip (map2 (XOR) buf ks @ drop (length ks) buf) ks = zip (map2 (XOR) buf ks) ks"
        by (simp add: zip_append1)
      then show ?thesis by (simp add: map2_xor_twice)
    qed (simp add: map2_xor_twice)
  qed
  then show ?thesis by (simp add: apply_keystream_def Let_def)
qed

lemma derive_permutation_permutes:
  "permutation_of CLOAK_BLOCK_LEN (map unat (derive_permutation P seed nonce pos))"
proof -
  have "mset (derive_permutation P seed nonce pos) =
      mset (map word_of_nat [0..<CLOAK_BLOCK_LEN])"
    by (simp add: derive_permutation_def Let_def mset_fisher_yates del: mset_map)
  then have "mset (map unat (derive_permutation P seed nonce pos)) =
      mset (map unat (map (word_of_nat :: nat \<Rightarrow> u8) [0..<CLOAK_BLOCK_LEN]))"
    by (simp only: mset_map)
  also have "map unat (map (word_of_nat :: nat \<Rightarrow> u8) [0..<CLOAK_BLOCK_LEN]) = [0..<CLOAK_BLOCK_LEN]"
    by (rule nth_equalityI) (simp_all add: CLOAK_BLOCK_LEN_def unat_of_nat take_bit_nat_eq_self del: upt_rec_numeral)
  finally show ?thesis by (simp add: permutation_of_def)
qed

lemma length_cloak [simp]: "length (cloak P key pos kv) = CLOAK_BLOCK_LEN"
  using permutation_ofD(3) [OF derive_permutation_permutes]
  by (simp add: cloak_def Let_def gather_def)

lemma uncloak_cloak:
  "length kv = CLOAK_BLOCK_LEN \<Longrightarrow> uncloak P key pos (cloak P key pos kv) = kv"
  by (simp add: uncloak_def cloak_def Let_def apply_keystream_twice
      scatter_gather [OF derive_permutation_permutes])

lemma cloak_uncloak:
  "length c = CLOAK_BLOCK_LEN \<Longrightarrow> cloak P key pos (uncloak P key pos c) = c"
  by (simp add: uncloak_def cloak_def Let_def apply_keystream_twice
      gather_scatter [OF derive_permutation_permutes])

section \<open>seal.rs\<close>

record SealedCloakedBlock =
  scb_nonce :: bytes
  scb_ciphertext :: bytes

definition derive_nonce :: "SessionId \<Rightarrow> u64 \<Rightarrow> bytes" where
  "derive_nonce session position = take 4 session @ u64_to_be position"

fun aad_bytes :: "TenantId \<Rightarrow> SessionId \<Rightarrow> u64 \<Rightarrow> bytes" where
  "aad_bytes (TenantId tenant) session position =
    str_bytes ''ULLM-v1 kv-at-rest'' @ str_bytes tenant @ [0xFF] @ session @ u64_to_be position"

definition seal_block ::
  "'r prims \<Rightarrow> bytes \<Rightarrow> TenantId \<Rightarrow> SessionId \<Rightarrow> u64 \<Rightarrow> CloakedKvBlock \<Rightarrow> SealedCloakedBlock" where
  "seal_block P kek tenant session position cloaked =
    (let nonce = derive_nonce session position;
         aad = aad_bytes tenant session position;
         ct = seal P kek nonce aad cloaked
     in \<lparr>scb_nonce = nonce, scb_ciphertext = ct\<rparr>)"

definition unseal_block ::
  "'r prims \<Rightarrow> bytes \<Rightarrow> TenantId \<Rightarrow> SessionId \<Rightarrow> u64 \<Rightarrow> SealedCloakedBlock \<Rightarrow> SealError + CloakedKvBlock"
where
  "unseal_block P kek tenant session position sealed =
    (if scb_nonce sealed \<noteq> derive_nonce session position then Inl SealError_Open
     else rbind (unseal P kek (scb_nonce sealed) (aad_bytes tenant session position)
                  (scb_ciphertext sealed))
       (\<lambda>pt. if length pt \<noteq> CLOAK_BLOCK_LEN then Inl SealError_Open else Inr pt))"

lemma aad_bytes_inject:
  assumes "length s = length s'"
  shows "aad_bytes t s p = aad_bytes t' s' p' \<longleftrightarrow> t = t' \<and> s = s' \<and> p = p'"
proof -
  obtain a b where t: "t = TenantId a" "t' = TenantId b" by (cases t; cases t')
  have "str_bytes a @ [0xFF] @ s @ u64_to_be p = str_bytes b @ [0xFF] @ s' @ u64_to_be p' \<longleftrightarrow>
      str_bytes a = str_bytes b \<and> [0xFF] @ s @ u64_to_be p = [0xFF] @ s' @ u64_to_be p'"
    using assms by (intro append_eq_append_conv) simp
  also have "\<dots> \<longleftrightarrow> a = b \<and> s = s' \<and> p = p'" using assms by auto
  finally show ?thesis using t by simp
qed

lemma unseal_block_iff:
  assumes "gcmsiv_law P"
  shows "unseal_block P kek t s p sealed = Inr c \<longleftrightarrow>
    length c = CLOAK_BLOCK_LEN \<and> sealed = seal_block P kek t s p c"
proof -
  have "gcmsiv_decrypt P k n a ct = Some pt \<longleftrightarrow> ct = gcmsiv_encrypt P k n a pt" for k n a ct pt
    using assms by (simp add: gcmsiv_law_def)
  then show ?thesis
    by (cases sealed) (auto simp: unseal_block_def seal_block_def unseal_def seal_def Let_def
        result_simps split: if_splits)
qed

section \<open>Properties\<close>

text \<open>
  Cloaking is invertible in both directions: for every key, position and
  block, \<open>uncloak\<close> returns the block that was cloaked, and every cloaked block is
  the cloaking of what \<open>uncloak\<close> makes of it.  No assumption on the key
  derivation is needed: the shuffle is a permutation for every random stream.
\<close>

theorem cloak_bijective:
  assumes "length b = CLOAK_BLOCK_LEN"
  shows "uncloak P key pos (cloak P key pos b) = b \<and> cloak P key pos (uncloak P key pos b) = b"
  using assms by (simp add: uncloak_cloak cloak_uncloak)

theorem cloak_bijective_witness:
  "let key = CloakKey_from_parts [1] [2] [3]; b = replicate 256 7 in
   uncloak model_prims key 5 (cloak model_prims key 5 b) = b \<and>
   cloak model_prims key 5 (uncloak model_prims key 5 b) = b"
  unfolding Let_def by (rule cloak_bijective) (simp add: CLOAK_BLOCK_LEN_def)

text \<open>
  A sealed block opens exactly where it was sealed: unsealing accepts a
  block under a tenant, session and position iff it is the sealing, under the
  same three, of the 256-byte block returned; and the nonce and associated data
  of two sealings agree only if tenant, session and position do.
\<close>

theorem sealed_block_exact:
  assumes "gcmsiv_law P" "length s = 16" "length s' = 16"
  shows "(unseal_block P kek t s p sealed = Inr c \<longleftrightarrow>
      length c = CLOAK_BLOCK_LEN \<and> sealed = seal_block P kek t s p c) \<and>
    (derive_nonce s p = derive_nonce s' p' \<and> aad_bytes t s p = aad_bytes t' s' p' \<longleftrightarrow>
      t = t' \<and> s = s' \<and> p = p')"
  using unseal_block_iff [OF assms(1)] aad_bytes_inject [of s s'] assms(2,3) by auto

theorem sealed_block_exact_witness:
  "unseal_block model_prims [1] (TenantId ''acme'') (replicate 16 2) 3
     (seal_block model_prims [1] (TenantId ''acme'') (replicate 16 2) 3 (replicate 256 9)) =
   Inr (replicate 256 9)"
  using sealed_block_exact [OF model_gcmsiv_law, of "replicate 16 2" "replicate 16 2" "[1]"
      "TenantId ''acme''" 3 _ "replicate 256 9"]
  by (simp add: CLOAK_BLOCK_LEN_def)

end
