(* ===== verification/Fp_Model.thy ===== *)
theory Fp_Model
  imports Primitives
begin

text \<open>
  \<open>ullm-model\<close>: the verifiable model, eight affine layers over the Pallas base
  field.  The field is a type variable \<open>'f\<close>; what the crates \<open>pasta_curves\<close> and
  \<open>halo2_gadgets\<close> provide (reading and writing of canonical bytes, the Poseidon
  hash of a constant-length input) is the record \<open>fp_lib\<close>.  An array \<open>[Fp; 8]\<close> is
  a list, \<open>vec8\<close> says that it has eight elements, and a panic is \<open>None\<close>.
\<close>

record 'f fp_lib =
  fp_from_repr :: "bytes \<Rightarrow> 'f option"
  fp_to_repr :: "'f \<Rightarrow> bytes"
  poseidon :: "'f list \<Rightarrow> 'f"

text \<open>Documented: 32 bytes whose little-endian value is below \<open>2\<^sup>254\<close> are canonical.\<close>

definition fp_read_law :: "'f fp_lib \<Rightarrow> bool" where
  "fp_read_law F \<longleftrightarrow> (\<forall>b. length b = 32 \<longrightarrow> b ! 31 < 0x40 \<longrightarrow> fp_from_repr F b \<noteq> None)"

section \<open>commit.rs\<close>

definition VEC_DIM :: nat where "VEC_DIM = 8"
definition NUM_LAYERS :: nat where "NUM_LAYERS = 8"

definition vec8 :: "'f list \<Rightarrow> bool" where "vec8 v \<longleftrightarrow> length v = VEC_DIM"

definition vector_commit_native :: "'f fp_lib \<Rightarrow> 'f list \<Rightarrow> 'f option" where
  "vector_commit_native F data = (if length data \<noteq> VEC_DIM then None else Some (poseidon F data))"

definition vector_commit :: "'f fp_lib \<Rightarrow> 'f list \<Rightarrow> bytes option" where
  "vector_commit F data = map_option (fp_to_repr F) (vector_commit_native F data)"

section \<open>trace.rs\<close>

record 'f Trace =
  activations :: "'f list list"

record 'f TraceCommits =
  tc_field :: "'f list"
  tc_bytes :: "bytes list"

fun commit_all :: "'f fp_lib \<Rightarrow> 'f list list \<Rightarrow> 'f list option" where
  "commit_all F [] = Some []"
| "commit_all F (v # vs) =
    (case vector_commit_native F v of
       None \<Rightarrow> None
     | Some c \<Rightarrow> map_option (\<lambda>cs. c # cs) (commit_all F vs))"

definition Trace_commits :: "'f fp_lib \<Rightarrow> 'f Trace \<Rightarrow> 'f TraceCommits option" where
  "Trace_commits F t =
    map_option (\<lambda>cs. \<lparr>tc_field = cs, tc_bytes = map (fp_to_repr F) cs\<rparr>) (commit_all F (activations t))"

definition Trace_input :: "'f Trace \<Rightarrow> 'f list" where
  "Trace_input t = activations t ! 0"

definition Trace_output :: "'f Trace \<Rightarrow> 'f list" where
  "Trace_output t = last (activations t)"

section \<open>model.rs\<close>

record 'f Layer =
  layer_w :: "'f list list"
  layer_b :: "'f list"

record 'f Model =
  layers :: "'f Layer list"
  weight_commit :: bytes

definition fp_from_wide :: "'r prims \<Rightarrow> 'f fp_lib \<Rightarrow> bytes \<Rightarrow> 'f option" where
  "fp_from_wide P F bs =
    (let arr = sha256 P bs; clamped = arr[31 := arr ! 31 AND 0x3F] in fp_from_repr F clamped)"

definition compute_weight_commit :: "'r prims \<Rightarrow> 'f fp_lib \<Rightarrow> 'f Layer list \<Rightarrow> bytes" where
  "compute_weight_commit P F ls =
    (let body = concat (map (\<lambda>l. concat (map (\<lambda>row. concat (map (fp_to_repr F) row)) (layer_w l)) @
           concat (map (fp_to_repr F) (layer_b l))) ls)
     in take 32 (sha512 P (str_bytes ''ULLM-v1 model'' @ body)))"

text \<open>
  Element \<open>i * 8 + j\<close> of a layer's byte stream is \<open>w[i][j]\<close>, element \<open>64 + i\<close> is
  \<open>b[i]\<close>: \<open>off\<close> advances by 64 bytes per element.
\<close>

definition layer_elem :: "'r prims \<Rightarrow> 'f fp_lib \<Rightarrow> bytes \<Rightarrow> nat \<Rightarrow> 'f option" where
  "layer_elem P F raw n = fp_from_wide P F (take 64 (drop (n * 64) raw))"

definition layer_from_raw :: "'r prims \<Rightarrow> 'f fp_lib \<Rightarrow> bytes \<Rightarrow> 'f Layer option" where
  "layer_from_raw P F raw =
    (case those (map (\<lambda>i. those (map (\<lambda>j. layer_elem P F raw (i * VEC_DIM + j)) [0..<VEC_DIM])) [0..<VEC_DIM]) of
       None \<Rightarrow> None
     | Some w \<Rightarrow>
         map_option (\<lambda>b. \<lparr>layer_w = w, layer_b = b\<rparr>)
           (those (map (\<lambda>i. layer_elem P F raw (VEC_DIM * VEC_DIM + i)) [0..<VEC_DIM])))"

definition Model_from_seed :: "'r prims \<Rightarrow> 'f fp_lib \<Rightarrow> bytes \<Rightarrow> 'f Model option" where
  "Model_from_seed P F seed =
    (let prk = hkdf_extract P (str_bytes ''ULLM-v1 model seed'') seed;
         per_layer_bytes = (VEC_DIM * VEC_DIM + VEC_DIM) * 64
     in map_option (\<lambda>ls. \<lparr>layers = ls, weight_commit = compute_weight_commit P F ls\<rparr>)
       (those (map (\<lambda>idx. layer_from_raw P F
          (hkdf_expand P prk (str_bytes ''weights/'' @ u32_to_be (word_of_nat idx)) per_layer_bytes))
        [0..<NUM_LAYERS])))"

text \<open>The two inner loops of \<open>run\<close>: the accumulator starts at the bias.\<close>

definition layer_apply :: "('f::comm_ring_1) Layer \<Rightarrow> 'f list \<Rightarrow> 'f list" where
  "layer_apply l cur =
    map (\<lambda>i. foldl (\<lambda>acc j. acc + layer_w l ! i ! j * cur ! j) (layer_b l ! i) [0..<VEC_DIM])
      [0..<VEC_DIM]"

fun run_layers :: "('f::comm_ring_1) Layer list \<Rightarrow> 'f list \<Rightarrow> 'f list list" where
  "run_layers [] cur = []"
| "run_layers (l # ls) cur = (let nxt = layer_apply l cur in nxt # run_layers ls nxt)"

definition Model_run :: "('f::comm_ring_1) Model \<Rightarrow> 'f list \<Rightarrow> 'f Trace" where
  "Model_run m input = \<lparr>activations = input # run_layers (layers m) input\<rparr>"

definition layer_weight_commit :: "'f fp_lib \<Rightarrow> 'f Model \<Rightarrow> nat \<Rightarrow> 'f option" where
  "layer_weight_commit F m layer_idx =
    (if layer_idx < length (layers m)
     then let layer = layers m ! layer_idx;
              data = concat (layer_w layer) @ layer_b layer
          in vector_commit_native F data
     else None)"

section \<open>Well-formedness\<close>

definition layer_ok :: "'f Layer \<Rightarrow> bool" where
  "layer_ok l \<longleftrightarrow> length (layer_w l) = VEC_DIM \<and> list_all vec8 (layer_w l) \<and> vec8 (layer_b l)"

definition model_ok :: "'f Model \<Rightarrow> bool" where
  "model_ok m \<longleftrightarrow> length (layers m) = NUM_LAYERS \<and> list_all layer_ok (layers m)"

lemma those_Some_iff: "those xs = Some ys \<longleftrightarrow> xs = map Some ys"
proof (induction xs arbitrary: ys)
  case Nil
  then show ?case by auto
next
  case (Cons x xs)
  then show ?case by (cases x; cases ys) auto
qed

lemma those_length: "those xs = Some ys \<Longrightarrow> length ys = length xs"
  by (simp add: those_Some_iff)

lemma those_map_total: "(\<And>x. f x \<noteq> None) \<Longrightarrow> \<exists>ys. those (map f xs) = Some ys"
proof (induction xs)
  case (Cons x xs)
  obtain y where "f x = Some y" using Cons.prems [of x] by auto
  moreover obtain ys where "those (map f xs) = Some ys" using Cons by blast
  ultimately show ?case by simp
qed simp

lemma those_map_all:
  assumes "those (map f xs) = Some ys" "\<And>x y. x \<in> set xs \<Longrightarrow> f x = Some y \<Longrightarrow> Q y"
  shows "list_all Q ys"
proof -
  have "map f xs = map Some ys" using assms(1) by (simp add: those_Some_iff)
  then have "\<forall>i < length ys. f (xs ! i) = Some (ys ! i)"
    by (metis length_map nth_map)
  moreover have "length xs = length ys" using assms(1) those_length by fastforce
  ultimately show ?thesis using assms(2) by (metis list_all_length nth_mem)
qed

lemma layer_from_raw_ok: "layer_from_raw P F raw = Some l \<Longrightarrow> layer_ok l"
  unfolding layer_from_raw_def layer_ok_def
  by (auto simp: vec8_def dest: those_length split: option.splits
      intro!: those_map_all [where Q = vec8])

lemma Model_from_seed_ok: "Model_from_seed P F seed = Some m \<Longrightarrow> model_ok m"
  unfolding Model_from_seed_def model_ok_def Let_def
  by (auto dest: those_length intro!: those_map_all [where Q = layer_ok] layer_from_raw_ok)

lemma fp_from_wide_total:
  assumes "fp_read_law F" "sha2_law P"
  shows "fp_from_wide P F bs \<noteq> None"
proof -
  have "length (sha256 P bs) = 32" using assms(2) by (simp add: sha2_law_def)
  moreover have "w AND 0x3F < 0x40" for w :: u8
  proof -
    have "w AND 0x3F \<le> 0x3F" by (rule word_and_le1)
    then show ?thesis by (rule le_less_trans) simp
  qed
  ultimately show ?thesis using assms(1) by (simp add: fp_from_wide_def fp_read_law_def Let_def)
qed

lemma layer_from_raw_total:
  assumes "fp_read_law F" "sha2_law P"
  shows "layer_from_raw P F raw \<noteq> None"
proof -
  have e: "layer_elem P F raw n \<noteq> None" for n
    using fp_from_wide_total [OF assms] by (simp add: layer_elem_def)
  obtain b where b: "those (map (\<lambda>i. layer_elem P F raw (VEC_DIM * VEC_DIM + i)) [0..<VEC_DIM]) = Some b"
    using those_map_total [of "\<lambda>i. layer_elem P F raw (VEC_DIM * VEC_DIM + i)" "[0..<VEC_DIM]", OF e] by blast
  have r: "those (map (\<lambda>j. layer_elem P F raw (i * VEC_DIM + j)) [0..<VEC_DIM]) \<noteq> None" for i
    using those_map_total [of "\<lambda>j. layer_elem P F raw (i * VEC_DIM + j)" "[0..<VEC_DIM]", OF e] by force
  obtain w where
    "those (map (\<lambda>i. those (map (\<lambda>j. layer_elem P F raw (i * VEC_DIM + j)) [0..<VEC_DIM])) [0..<VEC_DIM]) = Some w"
    using those_map_total [of "\<lambda>i. those (map (\<lambda>j. layer_elem P F raw (i * VEC_DIM + j)) [0..<VEC_DIM])"
        "[0..<VEC_DIM]", OF r] by blast
  then show ?thesis using b by (simp add: layer_from_raw_def)
qed

lemma Model_from_seed_total:
  assumes "fp_read_law F" "sha2_law P"
  shows "\<exists>m. Model_from_seed P F seed = Some m"
proof -
  let ?raw = "\<lambda>idx. hkdf_expand P (hkdf_extract P (str_bytes ''ULLM-v1 model seed'') seed)
    (str_bytes ''weights/'' @ u32_to_be (word_of_nat idx)) ((VEC_DIM * VEC_DIM + VEC_DIM) * 64)"
  have "\<exists>ls. those (map (\<lambda>idx. layer_from_raw P F (?raw idx)) [0..<NUM_LAYERS]) = Some ls"
    by (rule those_map_total) (rule layer_from_raw_total [OF assms])
  then show ?thesis unfolding Model_from_seed_def Let_def by auto
qed

section \<open>Runs\<close>

lemma foldl_add_sum:
  "foldl (\<lambda>acc j. acc + f j) a [0..<n] = a + (\<Sum>j<n. f j)" for a :: "'f::comm_ring_1"
  by (induction n) (auto simp: algebra_simps)

lemma layer_apply_nth:
  "i < VEC_DIM \<Longrightarrow> layer_apply l x ! i = layer_b l ! i + (\<Sum>j<VEC_DIM. layer_w l ! i ! j * x ! j)"
  by (simp add: layer_apply_def foldl_add_sum)

lemma vec8_layer_apply [simp]: "vec8 (layer_apply l x)"
  by (simp add: vec8_def layer_apply_def)

lemma length_run_layers [simp]: "length (run_layers ls x) = length ls"
  by (induction ls arbitrary: x) (auto simp: Let_def)

lemma run_layers_nth:
  "i < length ls \<Longrightarrow> run_layers ls x ! i = layer_apply (ls ! i) ((x # run_layers ls x) ! i)"
proof (induction ls arbitrary: x i)
  case (Cons l ls)
  then show ?case by (cases i) (auto simp: Let_def)
qed simp

lemma Model_run_shape:
  assumes "model_ok m" "vec8 input"
  shows "length (activations (Model_run m input)) = NUM_LAYERS + 1"
    "list_all vec8 (activations (Model_run m input))"
proof -
  show "length (activations (Model_run m input)) = NUM_LAYERS + 1"
    using assms(1) by (simp add: Model_run_def model_ok_def)
  have "list_all vec8 (run_layers ls x)" for ls and x :: "'a list"
    by (induction ls arbitrary: x) (auto simp: Let_def)
  then show "list_all vec8 (activations (Model_run m input))"
    using assms(2) by (simp add: Model_run_def)
qed

lemma Model_run_step:
  assumes "model_ok m" "i < NUM_LAYERS"
  shows "activations (Model_run m input) ! Suc i =
    layer_apply (layers m ! i) (activations (Model_run m input) ! i)"
  using assms run_layers_nth [of i "layers m" input] by (simp add: Model_run_def model_ok_def)

lemma commit_all_total: "list_all vec8 vs \<Longrightarrow> commit_all F vs = Some (map (poseidon F) vs)"
  by (induction vs) (auto simp: vector_commit_native_def vec8_def)

text \<open>Every call of \<open>layer_weight_commit\<close> on a model of the right shape panics.\<close>

lemma layer_weight_commit_panics: "model_ok m \<Longrightarrow> layer_weight_commit F m idx = None"
proof (cases "idx < length (layers m)")
  case True
  assume "model_ok m"
  then have l: "layer_ok (layers m ! idx)"
    using True by (simp add: model_ok_def list_all_length)
  then have "length (concat (layer_w (layers m ! idx))) = VEC_DIM * VEC_DIM"
    by (simp add: layer_ok_def vec8_def length_concat list_all_iff comp_def sum_list_triv
        cong: map_cong)
  then show ?thesis
    using l True by (simp add: layer_weight_commit_def vector_commit_native_def layer_ok_def vec8_def VEC_DIM_def)
qed (simp add: layer_weight_commit_def)

end
