(* ===== verification/KvMatrix.thy ===== *)
theory KvMatrix
  imports KvCloak Fp_Model Complex_Main
begin

text \<open>
  \<open>ullm-kvcloak\<close>, files \<open>matrix.rs\<close> and \<open>spd.rs\<close>: the cloak in matrix form over the
  field (a lower triangular matrix and a permutation) and the shared attention
  service with one store per tenant.  Shown: a derived key has a non-zero
  diagonal and a permutation, cloaking and uncloaking are inverse to each other,
  and the service refines a table of the plaintext pairs pushed per tenant.
\<close>

section \<open>matrix.rs\<close>

record 'f MatrixCloakKey =
  mk_l :: "'f list list"
  mk_perm :: "nat list"

definition kv_fp_from_wide :: "'r prims \<Rightarrow> 'f fp_lib \<Rightarrow> bytes \<Rightarrow> 'f option" where
  "kv_fp_from_wide P F bs =
    (let arr = sha256 P bs; clamped = arr[31 := arr ! 31 AND 0x3F] in fp_from_repr F clamped)"

definition matrix_elem :: "'r prims \<Rightarrow> ('f::field) fp_lib \<Rightarrow> bytes \<Rightarrow> nat \<Rightarrow> nat \<Rightarrow> 'f option" where
  "matrix_elem P F raw i j =
    (if j > i then Some 0
     else let off = (i * VEC_DIM + j) * 64 in
       map_option (\<lambda>v. if i = j \<and> v = 0 then 1 else v) (kv_fp_from_wide P F (take 64 (drop off raw))))"

definition MatrixCloakKey_from_seed ::
  "'r prims \<Rightarrow> ('f::field) fp_lib \<Rightarrow> bytes \<Rightarrow> 'f MatrixCloakKey option" where
  "MatrixCloakKey_from_seed P F seed =
    (let l_bytes_total = VEC_DIM * VEC_DIM * 64;
         raw = hkdf_expand P (hkdf_extract P (str_bytes ''ULLM-kvcloak-matrix-v1'') seed)
           (str_bytes ''l-and-perm'') (l_bytes_total + 64)
     in map_option (\<lambda>l. \<lparr>mk_l = l, mk_perm =
            fisher_yates (\<lambda>i. unat (u64_from_be (take 8 (drop (l_bytes_total + i * 8) raw)))) VEC_DIM [0..<VEC_DIM]\<rparr>)
          (those (map (\<lambda>i. those (map (\<lambda>j. matrix_elem P F raw i j) [0..<VEC_DIM])) [0..<VEC_DIM])))"

definition MatrixCloakKey_random ::
  "'r prims \<Rightarrow> ('f::field) fp_lib \<Rightarrow> 'r \<Rightarrow> 'f MatrixCloakKey option \<times> 'r" where
  "MatrixCloakKey_random P F rng =
    (let (seed, rng) = rng_fill P 32 rng in (MatrixCloakKey_from_seed P F seed, rng))"

definition matvec_lower :: "('f::field) list list \<Rightarrow> 'f list \<Rightarrow> 'f list" where
  "matvec_lower l v =
    map (\<lambda>i. foldl (\<lambda>acc j. acc + l ! i ! j * v ! j) 0 [0..<i + 1]) [0..<VEC_DIM]"

text \<open>Forward substitution; a zero on the diagonal panics.\<close>

definition solve_step :: "('f::field) list list \<Rightarrow> 'f list \<Rightarrow> nat \<Rightarrow> 'f list option \<Rightarrow> 'f list option" where
  "solve_step l b i m =
    (case m of
       None \<Rightarrow> None
     | Some x \<Rightarrow>
         let acc = foldl (\<lambda>acc j. acc - l ! i ! j * x ! j) (b ! i) [0..<i] in
         if l ! i ! i = 0 then None else Some (x[i := acc * inverse (l ! i ! i)]))"

definition inverse_matvec_lower :: "('f::field) list list \<Rightarrow> 'f list \<Rightarrow> 'f list option" where
  "inverse_matvec_lower l b = fold (solve_step l b) [0..<VEC_DIM] (Some (replicate VEC_DIM 0))"

definition cloak_vector :: "('f::field) MatrixCloakKey \<Rightarrow> 'f list \<Rightarrow> 'f list" where
  "cloak_vector key v = (let lv = matvec_lower (mk_l key) v in gather (mk_perm key) lv)"

definition uncloak_vector :: "('f::field) MatrixCloakKey \<Rightarrow> 'f list \<Rightarrow> 'f list option" where
  "uncloak_vector key cloaked =
    (let lv = scatter (mk_perm key) cloaked (replicate VEC_DIM 0) in inverse_matvec_lower (mk_l key) lv)"

section \<open>spd.rs\<close>

record 'f TenantKvStore =
  ts_key :: "'f MatrixCloakKey"
  ts_keys :: "'f list list"
  ts_values :: "'f list list"

definition TenantKvStore_new :: "'f MatrixCloakKey \<Rightarrow> 'f TenantKvStore" where
  "TenantKvStore_new key = \<lparr>ts_key = key, ts_keys = [], ts_values = []\<rparr>"

definition store_push :: "('f::field) TenantKvStore \<Rightarrow> 'f list \<Rightarrow> 'f list \<Rightarrow> 'f TenantKvStore" where
  "store_push s k v =
    s\<lparr>ts_keys := ts_keys s @ [cloak_vector (ts_key s) k],
      ts_values := ts_values s @ [cloak_vector (ts_key s) v]\<rparr>"

text \<open>\<open>recover\<close>: no row is \<open>None\<close>; a panic of the substitution is an inner \<open>None\<close>.\<close>

definition store_recover :: "('f::field) TenantKvStore \<Rightarrow> nat \<Rightarrow> ('f list \<times> 'f list) option option" where
  "store_recover s i =
    (if i < length (ts_keys s) \<and> i < length (ts_values s)
     then Some (case uncloak_vector (ts_key s) (ts_keys s ! i) of
         None \<Rightarrow> None
       | Some k \<Rightarrow> map_option (\<lambda>v. (k, v)) (uncloak_vector (ts_key s) (ts_values s ! i)))
     else None)"

definition store_len :: "'f TenantKvStore \<Rightarrow> nat" where
  "store_len s = length (ts_keys s)"

definition store_is_empty :: "'f TenantKvStore \<Rightarrow> bool" where
  "store_is_empty s \<longleftrightarrow> ts_keys s = []"

record 'f SharedAttentionService =
  sas_tenants :: "(TenantId \<times> 'f TenantKvStore) list"

definition SharedAttentionService_new :: "'f SharedAttentionService" where
  "SharedAttentionService_new = \<lparr>sas_tenants = []\<rparr>"

definition register_tenant ::
  "'f SharedAttentionService \<Rightarrow> TenantId \<Rightarrow> 'f MatrixCloakKey \<Rightarrow> 'f SharedAttentionService" where
  "register_tenant s tenant key =
    (case map_of (sas_tenants s) tenant of
       Some _ \<Rightarrow> s
     | None \<Rightarrow> s\<lparr>sas_tenants := AList.update tenant (TenantKvStore_new key) (sas_tenants s)\<rparr>)"

definition push_kv ::
  "('f::field) SharedAttentionService \<Rightarrow> TenantId \<Rightarrow> 'f list \<Rightarrow> 'f list \<Rightarrow> (string + unit) \<times> 'f SharedAttentionService" where
  "push_kv s tenant k v =
    (case map_of (sas_tenants s) tenant of
       None \<Rightarrow> (Inl ''unknown tenant'', s)
     | Some store \<Rightarrow> (Inr (), s\<lparr>sas_tenants := AList.update tenant (store_push store k v) (sas_tenants s)\<rparr>))"

definition cloaked_view :: "'f SharedAttentionService \<Rightarrow> TenantId \<Rightarrow> ('f list list \<times> 'f list list) option" where
  "cloaked_view s tenant =
    map_option (\<lambda>store. (ts_keys store, ts_values store)) (map_of (sas_tenants s) tenant)"

definition sas_tenant_count :: "'f SharedAttentionService \<Rightarrow> nat" where
  "sas_tenant_count s = length (sas_tenants s)"

section \<open>Lemmas: the transform\<close>

definition lower_ok :: "('f::field) list list \<Rightarrow> bool" where
  "lower_ok l \<longleftrightarrow> (\<forall>i < VEC_DIM. l ! i ! i \<noteq> 0)"

definition key_ok :: "('f::field) MatrixCloakKey \<Rightarrow> bool" where
  "key_ok key \<longleftrightarrow> lower_ok (mk_l key) \<and> permutation_of VEC_DIM (mk_perm key)"

lemma foldl_diff_sum:
  "foldl (\<lambda>acc j. acc - f j) a [0..<n] = a - (\<Sum>j<n. f j)" for a :: "'f::comm_ring_1"
  by (induction n) (auto simp: algebra_simps)

lemma vec8_matvec_lower: "vec8 (matvec_lower l v)"
  by (simp add: vec8_def matvec_lower_def)

lemma matvec_lower_nth:
  "i < VEC_DIM \<Longrightarrow> matvec_lower l v ! i = (\<Sum>j<i. l ! i ! j * v ! j) + l ! i ! i * v ! i"
proof -
  assume "i < VEC_DIM"
  then have "matvec_lower l v ! i = foldl (\<lambda>acc j. acc + l ! i ! j * v ! j) 0 [0..<Suc i]"
    by (simp add: matvec_lower_def)
  then show ?thesis unfolding foldl_add_sum by simp
qed

text \<open>After \<open>n\<close> steps the first \<open>n\<close> unknowns solve the first \<open>n\<close> equations.\<close>

lemma solve_prefix:
  assumes "lower_ok l" "n \<le> VEC_DIM"
  shows "\<exists>x. fold (solve_step l b) [0..<n] (Some (replicate VEC_DIM 0)) = Some x \<and> vec8 x \<and>
    (\<forall>i < n. (\<Sum>j<i. l ! i ! j * x ! j) + l ! i ! i * x ! i = b ! i)"
  using assms(2)
proof (induction n)
  case 0
  then show ?case by (simp add: vec8_def)
next
  case (Suc n)
  then obtain x where x: "fold (solve_step l b) [0..<n] (Some (replicate VEC_DIM 0)) = Some x" "vec8 x"
    "\<forall>i < n. (\<Sum>j<i. l ! i ! j * x ! j) + l ! i ! i * x ! i = b ! i" by auto
  have nz: "l ! n ! n \<noteq> 0" using assms(1) Suc.prems by (simp add: lower_ok_def)
  define v where "v = (b ! n - (\<Sum>j<n. l ! n ! j * x ! j)) * inverse (l ! n ! n)"
  have "fold (solve_step l b) [0..<Suc n] (Some (replicate VEC_DIM 0)) = Some (x[n := v])"
    using x(1) nz by (simp add: solve_step_def foldl_diff_sum v_def)
  moreover have "(\<Sum>j<i. l ! i ! j * x[n := v] ! j) + l ! i ! i * x[n := v] ! i = b ! i" if i: "i < Suc n" for i
  proof -
    have "(\<Sum>j<i. l ! i ! j * x[n := v] ! j) = (\<Sum>j<i. l ! i ! j * x ! j)"
      using i by (intro sum.cong) auto
    then show ?thesis
      using i x(2,3) nz Suc.prems by (cases "i = n") (simp_all add: v_def vec8_def field_simps)
  qed
  ultimately show ?case using x(2) by (simp add: vec8_def)
qed

lemma lower_unique:
  assumes "lower_ok l" "vec8 x" "vec8 y" "matvec_lower l x = matvec_lower l y"
  shows "x = y"
proof (rule nth_equalityI)
  show "length x = length y" using assms by (simp add: vec8_def)
  fix i assume "i < length x"
  then have "i < VEC_DIM" using assms by (simp add: vec8_def)
  then show "x ! i = y ! i"
  proof (induction i rule: less_induct)
    case (less i)
    have "(\<Sum>j<i. l ! i ! j * x ! j) = (\<Sum>j<i. l ! i ! j * y ! j)"
      using less by (intro sum.cong) auto
    then have "l ! i ! i * x ! i = l ! i ! i * y ! i"
      using matvec_lower_nth [OF less.prems, of l x] matvec_lower_nth [OF less.prems, of l y] assms(4) by auto
    then show ?case using assms(1) less.prems by (simp add: lower_ok_def)
  qed
qed

lemma inverse_matvec_lower_solves:
  assumes "lower_ok l" "vec8 b"
  shows "\<exists>x. inverse_matvec_lower l b = Some x \<and> vec8 x \<and> matvec_lower l x = b"
proof -
  obtain x where x: "inverse_matvec_lower l b = Some x" "vec8 x"
    "\<forall>i < VEC_DIM. (\<Sum>j<i. l ! i ! j * x ! j) + l ! i ! i * x ! i = b ! i"
    using solve_prefix [OF assms(1), of VEC_DIM b] by (auto simp: inverse_matvec_lower_def)
  have "matvec_lower l x = b"
    using x(3) assms(2) vec8_matvec_lower [of l x]
    by (intro nth_equalityI) (auto simp: vec8_def matvec_lower_nth)
  then show ?thesis using x by blast
qed

lemma uncloak_cloak_vector:
  assumes "key_ok key" "vec8 v"
  shows "uncloak_vector key (cloak_vector key v) = Some v"
proof -
  have p: "permutation_of VEC_DIM (mk_perm key)" and l: "lower_ok (mk_l key)"
    using assms(1) by (simp_all add: key_ok_def)
  have "scatter (mk_perm key) (gather (mk_perm key) (matvec_lower (mk_l key) v)) (replicate VEC_DIM 0) =
      matvec_lower (mk_l key) v"
    using vec8_matvec_lower [of "mk_l key" v] by (simp add: vec8_def scatter_gather [OF p])
  moreover obtain x where "inverse_matvec_lower (mk_l key) (matvec_lower (mk_l key) v) = Some x" "x = v"
    using inverse_matvec_lower_solves [OF l vec8_matvec_lower] lower_unique [OF l _ assms(2)] by blast
  ultimately show ?thesis by (simp add: uncloak_vector_def cloak_vector_def)
qed

lemma cloak_uncloak_vector:
  assumes "key_ok key" "vec8 c"
  shows "\<exists>v. uncloak_vector key c = Some v \<and> vec8 v \<and> cloak_vector key v = c"
proof -
  have p: "permutation_of VEC_DIM (mk_perm key)" and l: "lower_ok (mk_l key)"
    using assms(1) by (simp_all add: key_ok_def)
  let ?b = "scatter (mk_perm key) c (replicate VEC_DIM 0)"
  obtain x where "inverse_matvec_lower (mk_l key) ?b = Some x" "vec8 x" "matvec_lower (mk_l key) x = ?b"
    using inverse_matvec_lower_solves [OF l, of ?b] by (auto simp: vec8_def)
  moreover have "gather (mk_perm key) ?b = c"
    using assms(2) by (simp add: vec8_def gather_scatter [OF p])
  ultimately show ?thesis by (simp add: uncloak_vector_def cloak_vector_def)
qed

lemma those_nth: "those (map f xs) = Some ys \<Longrightarrow> i < length xs \<Longrightarrow> f (xs ! i) = Some (ys ! i)"
  by (metis length_map nth_map those_Some_iff)

lemma from_seed_key_ok:
  assumes "MatrixCloakKey_from_seed P F seed = Some key"
  shows "key_ok key"
proof -
  obtain raw r where l: "those (map (\<lambda>i. those (map (\<lambda>j. matrix_elem P F raw i j) [0..<VEC_DIM])) [0..<VEC_DIM]) =
      Some (mk_l key)" and perm: "mk_perm key = fisher_yates r VEC_DIM [0..<VEC_DIM]"
    using assms unfolding MatrixCloakKey_from_seed_def Let_def by auto
  have "mk_l key ! i ! i \<noteq> 0" if i: "i < VEC_DIM" for i
  proof -
    have "those (map (\<lambda>j. matrix_elem P F raw i j) [0..<VEC_DIM]) = Some (mk_l key ! i)"
      using those_nth [OF l, of i] i by simp
    then have "matrix_elem P F raw i i = Some (mk_l key ! i ! i)"
      using those_nth [of "\<lambda>j. matrix_elem P F raw i j" "[0..<VEC_DIM]" "mk_l key ! i" i] i by simp
    then show ?thesis by (auto simp: matrix_elem_def split: if_splits)
  qed
  moreover have "permutation_of VEC_DIM (mk_perm key)"
    unfolding perm permutation_of_def by (rule mset_fisher_yates) simp
  ultimately show ?thesis by (simp add: key_ok_def lower_ok_def)
qed

lemma from_seed_total:
  assumes "fp_read_law F" "sha2_law P"
  shows "\<exists>key. MatrixCloakKey_from_seed P F seed = Some key"
proof -
  have e: "matrix_elem P F raw i j \<noteq> None" for raw i j
    using fp_from_wide_total [OF assms] by (simp add: matrix_elem_def kv_fp_from_wide_def fp_from_wide_def Let_def)
  have "those (map (\<lambda>j. matrix_elem P F raw i j) [0..<VEC_DIM]) \<noteq> None" for raw i
    using those_map_total [of "\<lambda>j. matrix_elem P F raw i j" "[0..<VEC_DIM]", OF e] by force
  then have "\<exists>l. those (map (\<lambda>i. those (map (\<lambda>j. matrix_elem P F raw i j) [0..<VEC_DIM])) [0..<VEC_DIM]) = Some l"
    for raw by (rule those_map_total)
  then show ?thesis unfolding MatrixCloakKey_from_seed_def Let_def by auto
qed

section \<open>The service against its specification\<close>

datatype 'f spd_op =
    Spd_register TenantId "'f MatrixCloakKey"
  | Spd_push TenantId "'f list" "'f list"

fun spd_step :: "('f::field) spd_op \<Rightarrow> 'f SharedAttentionService \<Rightarrow> 'f SharedAttentionService" where
  "spd_step (Spd_register t key) s = register_tenant s t key"
| "spd_step (Spd_push t k v) s = snd (push_kv s t k v)"

text \<open>The specification: per tenant the plaintext pairs in the order they were pushed.\<close>

fun spec_step :: "'f spd_op \<Rightarrow> (TenantId \<rightharpoonup> ('f list \<times> 'f list) list) \<Rightarrow> (TenantId \<rightharpoonup> ('f list \<times> 'f list) list)" where
  "spec_step (Spd_register t key) m = (case m t of None \<Rightarrow> m(t \<mapsto> []) | Some _ \<Rightarrow> m)"
| "spec_step (Spd_push t k v) m = (case m t of None \<Rightarrow> m | Some ps \<Rightarrow> m(t \<mapsto> ps @ [(k, v)]))"

fun op_ok :: "('f::field) spd_op \<Rightarrow> bool" where
  "op_ok (Spd_register t key) \<longleftrightarrow> key_ok key"
| "op_ok (Spd_push t k v) \<longleftrightarrow> vec8 k \<and> vec8 v"

definition store_pairs :: "('f::field) TenantKvStore \<Rightarrow> ('f list \<times> 'f list) option option list" where
  "store_pairs s = map (store_recover s) [0..<store_len s]"

definition store_ok :: "('f::field) TenantKvStore \<Rightarrow> bool" where
  "store_ok s \<longleftrightarrow> key_ok (ts_key s) \<and> length (ts_keys s) = length (ts_values s)"

definition store_rel :: "('f::field) TenantKvStore \<Rightarrow> ('f list \<times> 'f list) list \<Rightarrow> bool" where
  "store_rel store ps \<longleftrightarrow> store_ok store \<and> store_pairs store = map (Some \<circ> Some) ps"

definition spd_rel ::
  "('f::field) SharedAttentionService \<Rightarrow> (TenantId \<rightharpoonup> ('f list \<times> 'f list) list) \<Rightarrow> bool" where
  "spd_rel s m \<longleftrightarrow> (\<forall>t. rel_option store_rel (map_of (sas_tenants s) t) (m t))"

lemma store_push_simps [simp]:
  "ts_key (store_push s k v) = ts_key s"
  "ts_keys (store_push s k v) = ts_keys s @ [cloak_vector (ts_key s) k]"
  "ts_values (store_push s k v) = ts_values s @ [cloak_vector (ts_key s) v]"
  by (simp_all add: store_push_def)

lemma store_push_rel:
  assumes "store_rel s ps" "vec8 k" "vec8 v"
  shows "store_rel (store_push s k v) (ps @ [(k, v)])"
proof -
  have ok: "key_ok (ts_key s)" "length (ts_keys s) = length (ts_values s)"
    and pairs: "map (store_recover s) [0..<length (ts_keys s)] = map (Some \<circ> Some) ps"
    using assms(1) by (auto simp: store_rel_def store_ok_def store_pairs_def store_len_def)
  have old: "store_recover (store_push s k v) i = store_recover s i" if "i < length (ts_keys s)" for i
    using that ok(2) unfolding store_recover_def by (simp add: nth_append split: option.split)
  have new: "store_recover (store_push s k v) (length (ts_keys s)) = Some (Some (k, v))"
    using ok assms(2,3) unfolding store_recover_def by (simp add: nth_append uncloak_cloak_vector)
  have "map (store_recover (store_push s k v)) [0..<length (ts_keys s)] = map (Some \<circ> Some) ps"
    unfolding pairs [symmetric] using old by simp
  then show ?thesis
    using ok new by (simp add: store_rel_def store_ok_def store_pairs_def store_len_def)
qed

lemma spd_rel_update:
  assumes "spd_rel s m" "store_rel store ps"
  shows "spd_rel (s\<lparr>sas_tenants := AList.update t store (sas_tenants s)\<rparr>) (m(t \<mapsto> ps))"
  using assms by (simp add: spd_rel_def update_conv)

lemma spd_step_rel:
  assumes "spd_rel s m" "op_ok op"
  shows "spd_rel (spd_step op s) (spec_step op m)"
proof (cases op)
  case (Spd_register t key)
  have new: "store_rel (TenantKvStore_new key) []"
    using assms(2) Spd_register
    by (simp add: store_rel_def store_ok_def TenantKvStore_new_def store_pairs_def store_len_def)
  have "rel_option store_rel (map_of (sas_tenants s) t) (m t)" using assms(1) by (simp add: spd_rel_def)
  then show ?thesis
    by (cases rule: option.rel_cases)
      (use Spd_register assms(1) spd_rel_update [OF assms(1) new] in \<open>auto simp: register_tenant_def\<close>)
next
  case (Spd_push t k v)
  have kv: "vec8 k" "vec8 v" using assms(2) Spd_push by simp_all
  have "rel_option store_rel (map_of (sas_tenants s) t) (m t)" using assms(1) by (simp add: spd_rel_def)
  then show ?thesis
  proof (cases rule: option.rel_cases)
    case None
    then show ?thesis using assms(1) Spd_push by (simp add: push_kv_def)
  next
    case (Some store ps)
    then show ?thesis
      using Spd_push spd_rel_update [OF assms(1) store_push_rel [OF Some(3) kv]] by (simp add: push_kv_def)
  qed
qed

section \<open>Properties\<close>

text \<open>
  The matrix cloak is a bijection for every derived key: whatever the seed, a
  key exists, uncloaking returns the vector that was cloaked, and every
  eight-element vector is the cloak of the vector it uncloaks to.
\<close>

theorem matrix_cloak_bijective:
  fixes F :: "('f::field) fp_lib"
  assumes "fp_read_law F" "sha2_law P"
  shows "\<exists>key. MatrixCloakKey_from_seed P F seed = Some key \<and>
    (\<forall>v. vec8 v \<longrightarrow> uncloak_vector key (cloak_vector key v) = Some v) \<and>
    (\<forall>c. vec8 c \<longrightarrow> (\<exists>v. uncloak_vector key c = Some v \<and> cloak_vector key v = c))"
  using from_seed_total [OF assms, of seed] from_seed_key_ok uncloak_cloak_vector cloak_uncloak_vector
  by blast

theorem matrix_cloak_bijective_witness:
  "\<exists>(F :: rat fp_lib) key. fp_read_law F \<and> MatrixCloakKey_from_seed model_prims F [1, 2, 3] = Some key \<and>
    uncloak_vector key (cloak_vector key [1, 2, 3, 4, 5, 6, 7, 8]) = Some [1, 2, 3, 4, 5, 6, 7, 8]"
proof -
  define F :: "rat fp_lib" where
    "F = \<lparr>fp_from_repr = (\<lambda>b. Some (of_nat (unat (hd b)))), fp_to_repr = (\<lambda>_. []), poseidon = sum_list\<rparr>"
  have F: "fp_read_law F" by (simp add: fp_read_law_def F_def)
  have v: "vec8 [1, 2, 3, 4, 5, 6, 7, 8 :: rat]" by (simp add: vec8_def VEC_DIM_def)
  show ?thesis using matrix_cloak_bijective [OF F model_sha2_law, of "[1, 2, 3]"] F v by blast
qed

text \<open>
  C27. The shared service refines a table of plaintext pairs.  After any sequence of
  registrations with well-formed keys and pushes of eight-element vectors, each
  tenant's store recovers exactly the pairs pushed for that tenant since its
  first registration, in order; pushes of other tenants and repeated
  registrations change nothing.
\<close>

theorem shared_service_refines:
  fixes ops :: "('f::field) spd_op list"
  assumes "\<forall>op \<in> set ops. op_ok op"
  shows "map_option store_pairs (map_of (sas_tenants (fold spd_step ops SharedAttentionService_new)) t) =
    map_option (map (Some \<circ> Some)) (fold spec_step ops Map.empty t)"
proof -
  have "spd_rel (fold spd_step ops s) (fold spec_step ops m)" if "spd_rel s m" for s :: "'f SharedAttentionService" and m
    using that assms by (induction ops arbitrary: s m) (auto intro: spd_step_rel)
  then have "spd_rel (fold spd_step ops SharedAttentionService_new) (fold spec_step ops Map.empty)"
    by (simp add: spd_rel_def SharedAttentionService_new_def)
  then have "rel_option store_rel (map_of (sas_tenants (fold spd_step ops SharedAttentionService_new)) t)
      (fold spec_step ops Map.empty t)" by (simp add: spd_rel_def)
  then show ?thesis by (cases rule: option.rel_cases) (simp_all add: store_rel_def)
qed

theorem shared_service_refines_witness:
  "\<exists>ops :: rat spd_op list. ops \<noteq> [] \<and> (\<forall>op \<in> set ops. op_ok op) \<and>
    map_option store_pairs (map_of (sas_tenants (fold spd_step ops SharedAttentionService_new)) (TenantId ''a'')) =
      Some [Some (Some ([1, 2, 3, 4, 5, 6, 7, 8], [0, 0, 0, 0, 0, 0, 0, 1]))]"
proof -
  define key :: "rat MatrixCloakKey" where
    "key = \<lparr>mk_l = replicate 8 (replicate 8 3), mk_perm = [0..<8]\<rparr>"
  let ?v = "[1, 2, 3, 4, 5, 6, 7, 8 :: rat]" and ?u = "[0, 0, 0, 0, 0, 0, 0, 1 :: rat]"
  let ?ops = "[Spd_register (TenantId ''a'') key, Spd_register (TenantId ''b'') key,
    Spd_push (TenantId ''a'') ?v ?u, Spd_push (TenantId ''b'') ?u ?u, Spd_push (TenantId ''c'') ?u ?v]"
  have "key_ok key"
    by (simp add: key_ok_def lower_ok_def permutation_of_def key_def VEC_DIM_def)
  then have ok: "\<forall>op \<in> set ?ops. op_ok op" by (simp add: vec8_def VEC_DIM_def)
  have eq: "map_option store_pairs (map_of (sas_tenants (fold spd_step ?ops SharedAttentionService_new)) (TenantId ''a'')) =
      Some [Some (Some (?v, ?u))]"
    unfolding shared_service_refines [OF ok] by simp
  show ?thesis
    by (rule exI [of _ ?ops], rule conjI [OF _ conjI [OF ok eq]]) simp
qed

end
