(* ===== verification/Mpc.thy ===== *)
theory Mpc
  imports Fp_Model
begin

text \<open>
  \<open>ullm-mpc\<close>: two-party evaluation of the model on additive shares.  \<open>Fp::random\<close> is
  a function of the generator's state.  Shown: whatever the generator returns, the
  reconstructed activations are those of the plain run, layer by layer.
\<close>

section \<open>share.rs\<close>

datatype 'f Share = Share 'f

definition Share_zero :: "('f::comm_ring_1) Share" where "Share_zero = Share 0"

datatype 'f VectorShare = VectorShare "'f list"

fun vs_elems :: "'f VectorShare \<Rightarrow> 'f list" where
  "vs_elems (VectorShare v) = v"

definition share_value :: "('r \<Rightarrow> 'f \<times> 'r) \<Rightarrow> ('f::comm_ring_1) \<Rightarrow> 'r \<Rightarrow> ('f Share \<times> 'f Share) \<times> 'r" where
  "share_value random v rng =
    (let (s0, rng) = random rng; s1 = v - s0 in ((Share s0, Share s1), rng))"

fun share_loop :: "('r \<Rightarrow> 'f \<times> 'r) \<Rightarrow> ('f::comm_ring_1) list \<Rightarrow> 'r \<Rightarrow> ('f list \<times> 'f list) \<times> 'r" where
  "share_loop random [] rng = (([], []), rng)"
| "share_loop random (v # vs) rng =
    (case share_value random v rng of
       ((Share a, Share b), rng) \<Rightarrow>
         (case share_loop random vs rng of ((s0, s1), rng) \<Rightarrow> ((a # s0, b # s1), rng)))"

definition share_vector ::
  "('r \<Rightarrow> 'f \<times> 'r) \<Rightarrow> ('f::comm_ring_1) list \<Rightarrow> 'r \<Rightarrow> ('f VectorShare \<times> 'f VectorShare) \<times> 'r" where
  "share_vector random v rng =
    (case share_loop random v rng of ((s0, s1), rng) \<Rightarrow> ((VectorShare s0, VectorShare s1), rng))"

fun reconstruct :: "('f::comm_ring_1) Share \<Rightarrow> 'f Share \<Rightarrow> 'f" where
  "reconstruct (Share s0) (Share s1) = s0 + s1"

definition reconstruct_vector :: "('f::comm_ring_1) VectorShare \<Rightarrow> 'f VectorShare \<Rightarrow> 'f list" where
  "reconstruct_vector s0 s1 = map (\<lambda>i. vs_elems s0 ! i + vs_elems s1 ! i) [0..<VEC_DIM]"

section \<open>party.rs\<close>

datatype PartyId = Party_Zero | Party_One

definition owns_bias :: "PartyId \<Rightarrow> bool" where
  "owns_bias p \<longleftrightarrow> p = Party_Zero"

record 'f Party =
  party_id :: PartyId
  party_model :: "'f Model"

definition Party_new :: "PartyId \<Rightarrow> 'f Model \<Rightarrow> 'f Party" where
  "Party_new i m = \<lparr>party_id = i, party_model = m\<rparr>"

definition share_layer :: "PartyId \<Rightarrow> ('f::comm_ring_1) Layer \<Rightarrow> 'f list \<Rightarrow> 'f list" where
  "share_layer p l cur =
    map (\<lambda>i. foldl (\<lambda>acc j. acc + layer_w l ! i ! j * cur ! j)
        (if owns_bias p then layer_b l ! i else 0) [0..<VEC_DIM])
      [0..<VEC_DIM]"

fun run_share_layers :: "PartyId \<Rightarrow> ('f::comm_ring_1) Layer list \<Rightarrow> 'f VectorShare \<Rightarrow> 'f VectorShare list" where
  "run_share_layers p [] cur = []"
| "run_share_layers p (l # ls) cur =
    (let nxt = VectorShare (share_layer p l (vs_elems cur)) in nxt # run_share_layers p ls nxt)"

definition run_share :: "('f::comm_ring_1) Party \<Rightarrow> 'f VectorShare \<Rightarrow> 'f VectorShare list" where
  "run_share p input_share =
    input_share # run_share_layers (party_id p) (layers (party_model p)) input_share"

section \<open>transcript.rs\<close>

record 'f MpcSession =
  mpc_model :: "'f Model"

record 'f ClientTranscript =
  mpc_input :: "'f list"
  mpc_output :: "'f list"
  per_layer_outputs :: "'f list list"

record 'f MpcResponse =
  party0_shares :: "'f VectorShare list"
  party1_shares :: "'f VectorShare list"

definition MpcSession_new :: "'f Model \<Rightarrow> 'f MpcSession" where
  "MpcSession_new m = \<lparr>mpc_model = m\<rparr>"

definition MpcSession_run ::
  "('r \<Rightarrow> 'f \<times> 'r) \<Rightarrow> ('f::comm_ring_1) MpcSession \<Rightarrow> 'r \<Rightarrow> 'f list \<Rightarrow>
   ('f ClientTranscript \<times> 'f MpcResponse) \<times> 'r" where
  "MpcSession_run random s rng input =
    (let ((s0, s1), rng) = share_vector random input rng;
         p0 = Party_new Party_Zero (mpc_model s);
         p1 = Party_new Party_One (mpc_model s);
         shares0 = run_share p0 s0;
         shares1 = run_share p1 s1;
         per_layer = map (\<lambda>i. reconstruct_vector (shares0 ! i) (shares1 ! i)) [0..<NUM_LAYERS + 1];
         output = last per_layer
     in ((\<lparr>mpc_input = input, mpc_output = output, per_layer_outputs = per_layer\<rparr>,
          \<lparr>party0_shares = shares0, party1_shares = shares1\<rparr>), rng))"

section \<open>Lemmas\<close>

definition splits :: "('f::comm_ring_1) VectorShare \<Rightarrow> 'f VectorShare \<Rightarrow> 'f list \<Rightarrow> bool" where
  "splits s0 s1 v \<longleftrightarrow> vec8 (vs_elems s0) \<and> vec8 (vs_elems s1) \<and> vec8 v \<and>
    (\<forall>i < VEC_DIM. vs_elems s0 ! i + vs_elems s1 ! i = v ! i)"

lemma splits_reconstruct: "splits s0 s1 v \<Longrightarrow> reconstruct_vector s0 s1 = v"
  by (auto simp: splits_def reconstruct_vector_def vec8_def intro!: nth_equalityI)

lemma share_loop_splits:
  "share_loop random v rng = ((a, b), rng') \<Longrightarrow>
   length a = length v \<and> length b = length v \<and> (\<forall>i < length v. a ! i + b ! i = v ! i)"
proof (induction v arbitrary: rng rng' a b)
  case (Cons x v)
  then obtain a' b' r' r'' where s: "share_loop random v r' = ((a', b'), r'')"
    and ab: "a = fst (random rng) # a'" "b = (x - fst (random rng)) # b'"
    by (auto simp: share_value_def Let_def split: prod.splits Share.splits)
  show ?case using Cons.IH [OF s] ab by (auto simp: nth_Cons split: nat.split)
qed simp

lemma share_vector_splits:
  assumes "vec8 v" "share_vector random v rng = ((s0, s1), rng')"
  shows "splits s0 s1 v"
  using assms share_loop_splits [of random v rng]
  by (fastforce simp: share_vector_def splits_def vec8_def split: prod.splits)

lemma share_layer_splits:
  assumes "splits s0 s1 v"
  shows "splits (VectorShare (share_layer Party_Zero l (vs_elems s0)))
    (VectorShare (share_layer Party_One l (vs_elems s1))) (layer_apply l v)"
proof -
  have "share_layer Party_Zero l (vs_elems s0) ! i + share_layer Party_One l (vs_elems s1) ! i =
      layer_apply l v ! i" if i: "i < VEC_DIM" for i
  proof -
    have "(\<Sum>j<VEC_DIM. layer_w l ! i ! j * vs_elems s0 ! j) + (\<Sum>j<VEC_DIM. layer_w l ! i ! j * vs_elems s1 ! j) =
        (\<Sum>j<VEC_DIM. layer_w l ! i ! j * v ! j)"
      using assms unfolding sum.distrib [symmetric]
      by (intro sum.cong) (auto simp: splits_def simp flip: distrib_left)
    then show ?thesis
      using i by (simp add: layer_apply_nth share_layer_def owns_bias_def foldl_add_sum add.assoc)
  qed
  then show ?thesis by (simp add: splits_def) (simp add: vec8_def share_layer_def)
qed

lemma run_share_splits:
  assumes "splits s0 s1 v" "i \<le> length ls"
  shows "splits ((s0 # run_share_layers Party_Zero ls s0) ! i) ((s1 # run_share_layers Party_One ls s1) ! i)
    ((v # run_layers ls v) ! i)"
  using assms
proof (induction ls arbitrary: s0 s1 v i)
  case (Cons l ls)
  then show ?case
    using Cons.IH [OF share_layer_splits [OF Cons.prems(1)]] by (cases i) (simp_all add: Let_def)
qed simp

section \<open>Property\<close>

text \<open>
  C26. The two-party evaluation computes the model.  For a model and an input of the
  right shape and whatever the random generator returns, the client's
  reconstructed activations are exactly those of the plain run, and so is the
  output.
\<close>

theorem mpc_equals_plain:
  assumes "model_ok m" "vec8 input"
    and "MpcSession_run random (MpcSession_new m) rng input = ((t, resp), rng')"
  shows "per_layer_outputs t = activations (Model_run m input) \<and>
    mpc_output t = Trace_output (Model_run m input) \<and> mpc_input t = input"
proof -
  obtain s0 s1 r where sh: "share_vector random input rng = ((s0, s1), r)"
    by (metis prod.exhaust)
  have sp: "splits s0 s1 input" using share_vector_splits [OF assms(2) sh] .
  have len: "length (layers m) = NUM_LAYERS" using assms(1) by (simp add: model_ok_def)
  have "reconstruct_vector ((s0 # run_share_layers Party_Zero (layers m) s0) ! i)
      ((s1 # run_share_layers Party_One (layers m) s1) ! i) = activations (Model_run m input) ! i"
    if "i < NUM_LAYERS + 1" for i
    using that splits_reconstruct [OF run_share_splits [OF sp, of i "layers m"]] len
    by (simp add: Model_run_def)
  then have per: "per_layer_outputs t = activations (Model_run m input)"
    using assms(3) sh Model_run_shape(1) [OF assms(1,2)]
    by (auto simp: MpcSession_run_def MpcSession_new_def Party_new_def run_share_def Let_def
        simp del: upt_Suc intro!: nth_equalityI)
  moreover have "mpc_output t = last (per_layer_outputs t)" "mpc_input t = input"
    using assms(3) sh by (auto simp: MpcSession_run_def Let_def)
  ultimately show ?thesis by (simp add: Trace_output_def)
qed

theorem mpc_equals_plain_witness:
  "\<exists>(m :: int Model) t resp r. model_ok m \<and>
    MpcSession_run (\<lambda>r. (int r * 7 - 3, Suc r)) (MpcSession_new m) 5 (replicate 8 1) = ((t, resp), r) \<and>
    mpc_output t = Trace_output (Model_run m (replicate 8 1))"
proof -
  define m :: "int Model" where
    "m = \<lparr>layers = replicate 8 \<lparr>layer_w = replicate 8 (replicate 8 2), layer_b = replicate 8 5\<rparr>, weight_commit = []\<rparr>"
  have m: "model_ok m" by (simp add: m_def model_ok_def layer_ok_def vec8_def VEC_DIM_def NUM_LAYERS_def list_all_iff)
  have x: "vec8 (replicate 8 (1 :: int))" by (simp add: vec8_def VEC_DIM_def)
  obtain u r where u:
    "MpcSession_run (\<lambda>r. (int r * 7 - 3, Suc r)) (MpcSession_new m) 5 (replicate 8 1) = (u, r)"
    by (rule prod.exhaust)
  obtain t resp where "u = (t, resp)" by (rule prod.exhaust)
  then have r: "MpcSession_run (\<lambda>r. (int r * 7 - 3, Suc r)) (MpcSession_new m) 5 (replicate 8 1) = ((t, resp), r)"
    using u by (simp only:)
  show ?thesis using mpc_equals_plain [OF m x r] m r by blast
qed

end
