(* ===== verification/Inference.thy ===== *)
theory Inference
  imports Rust_Text
begin

text \<open>
  \<open>ullm-tee/inference.rs\<close>: the chunks an inference engine streams and the echo
  engine.  A \<open>String\<close> is the list of its UTF-8 bytes.  An engine is what it sends
  on its channel before it closes it; \<open>run\<close> of the echo engine returns in addition
  whether its task panicked, and is \<open>None\<close> when the loop over the chunks never
  ends.  \<open>String::from_utf8_lossy\<close> and \<open>str::chars\<close> are modelled as the standard
  library defines them.  Shown: when the engine returns, and what it sends.
\<close>

section \<open>UTF-8\<close>

text \<open>
  One step of the decoder: how many bytes it takes from a non-empty string and
  whether they are a character.  \<open>safe_get\<close> reads 0 beyond the end.
\<close>

definition safe_get :: "bytes \<Rightarrow> nat \<Rightarrow> u8" where
  "safe_get bs i = (if i < length bs then bs ! i else 0)"

definition second_ok :: "u8 \<Rightarrow> u8 \<Rightarrow> bool" where
  "second_ok a b \<longleftrightarrow> is_cont b \<and> (a = 0xE0 \<longrightarrow> 0xA0 \<le> b) \<and> (a = 0xED \<longrightarrow> b \<le> 0x9F) \<and>
    (a = 0xF0 \<longrightarrow> 0x90 \<le> b) \<and> (a = 0xF4 \<longrightarrow> b \<le> 0x8F)"

definition utf8_step :: "bytes \<Rightarrow> nat \<times> bool" where
  "utf8_step bs =
    (let a = safe_get bs 0 in
     if a < 0x80 then (1, True)
     else if a < 0xC2 \<or> 0xF4 < a then (1, False)
     else if \<not> second_ok a (safe_get bs 1) then (1, False)
     else if a \<le> 0xDF then (2, True)
     else if \<not> is_cont (safe_get bs 2) then (2, False)
     else if a \<le> 0xEF then (3, True)
     else if \<not> is_cont (safe_get bs 3) then (3, False)
     else (4, True))"

definition REPLACEMENT_CHARACTER :: bytes where "REPLACEMENT_CHARACTER = [0xEF, 0xBF, 0xBD]"

lemma utf8_step_pos: "0 < fst (utf8_step bs)"
  by (simp add: utf8_step_def Let_def)

function from_utf8_lossy :: "bytes \<Rightarrow> bytes" where
  "from_utf8_lossy bs =
    (if bs = [] then []
     else (if snd (utf8_step bs) then take (fst (utf8_step bs)) bs else REPLACEMENT_CHARACTER)
       @ from_utf8_lossy (drop (fst (utf8_step bs)) bs))"
  by pat_completeness auto

termination
  by (relation "measure length") (auto simp: utf8_step_pos)

declare from_utf8_lossy.simps [simp del]

text \<open>The code point of a character, and the characters of a valid string.\<close>

definition code_point :: "bytes \<Rightarrow> u32" where
  "code_point bs =
    (case bs of
       [a] \<Rightarrow> ucast a
     | [a, b] \<Rightarrow> push_bit 6 (ucast (a AND 0x1F)) OR ucast (b AND 0x3F)
     | [a, b, c] \<Rightarrow> push_bit 12 (ucast (a AND 0x0F)) OR push_bit 6 (ucast (b AND 0x3F))
         OR ucast (c AND 0x3F)
     | [a, b, c, d] \<Rightarrow> push_bit 18 (ucast (a AND 0x07)) OR push_bit 12 (ucast (b AND 0x3F))
         OR push_bit 6 (ucast (c AND 0x3F)) OR ucast (d AND 0x3F)
     | _ \<Rightarrow> 0)"

function chars_of :: "bytes \<Rightarrow> u32 list" where
  "chars_of bs =
    (if bs = [] then []
     else code_point (take (fst (utf8_step bs)) bs) # chars_of (drop (fst (utf8_step bs)) bs))"
  by pat_completeness auto

termination
  by (relation "measure length") (auto simp: utf8_step_pos)

declare chars_of.simps [simp del]

definition is_char_boundary :: "bytes \<Rightarrow> nat \<Rightarrow> bool" where
  "is_char_boundary s i \<longleftrightarrow> i = 0 \<or> i = length s \<or> i < length s \<and> \<not> is_cont (s ! i)"

section \<open>inference.rs\<close>

record TokenChunk =
  tc_ids :: "u32 list"
  tc_text :: bytes

record MockEngine =
  chunk_size :: nat
  chunks_to_emit :: "nat option"

definition MockEngine_default :: MockEngine where
  "MockEngine_default = \<lparr>chunk_size = 16, chunks_to_emit = None\<rparr>"

definition MockEngine_new :: "nat \<Rightarrow> MockEngine" where
  "MockEngine_new n = \<lparr>chunk_size = n, chunks_to_emit = None\<rparr>"

definition with_fixed_chunk_count :: "nat \<Rightarrow> nat \<Rightarrow> MockEngine" where
  "with_fixed_chunk_count sz n = \<lparr>chunk_size = sz, chunks_to_emit = Some n\<rparr>"

definition synth_ids_for_text :: "bytes \<Rightarrow> u32 list" where
  "synth_ids_for_text text = chars_of text"

definition synth_chunk :: "bytes \<Rightarrow> TokenChunk" where
  "synth_chunk text = \<lparr>tc_ids = synth_ids_for_text text, tc_text = text\<rparr>"

text \<open>The \<open>while\<close> loop from index \<open>i\<close>; a chunk size of 0 makes no progress.\<close>

partial_function (option) chunked_from :: "bytes \<Rightarrow> nat \<Rightarrow> nat \<Rightarrow> bytes list option" where
  "chunked_from bs sz i =
    (if i < length bs
     then let e = min (i + sz) (length bs); piece = take (e - i) (drop i bs)
          in Option.bind (chunked_from bs sz e) (\<lambda>out. Some (from_utf8_lossy piece # out))
     else Some [])"

definition chunked :: "bytes \<Rightarrow> nat \<Rightarrow> bytes list option" where
  "chunked s sz = chunked_from s sz 0"

definition echo :: "bytes \<Rightarrow> bytes" where "echo prompt = str_bytes ''echo: '' @ prompt"

definition pad_x :: "nat \<Rightarrow> bytes \<Rightarrow> bytes" where
  "pad_x n s = s @ replicate (n - length s) 120"

definition MockEngine_run :: "MockEngine \<Rightarrow> bytes \<Rightarrow> (TokenChunk list \<times> bool) option" where
  "MockEngine_run self prompt =
    (case chunks_to_emit self of
       None \<Rightarrow> map_option (\<lambda>cs. (map synth_chunk cs, False)) (chunked (echo prompt) (chunk_size self))
     | Some n \<Rightarrow>
         let s = pad_x (chunk_size self) (echo prompt) in
         if n = 0 then Some ([], False)
         else if \<not> is_char_boundary s (chunk_size self) then Some ([], True)
         else Some (map (\<lambda>i. synth_chunk (if i = 0 then take (chunk_size self) s
                                          else replicate (chunk_size self) 120)) [0..<n], False))"

definition collect :: "TokenChunk list \<Rightarrow> bytes" where
  "collect cs = concat (map tc_text cs)"

section \<open>Lemmas\<close>

lemma is_cont_safe_get: "is_cont (safe_get bs i) \<Longrightarrow> i < length bs"
  by (rule ccontr) (simp add: safe_get_def is_cont_def)

lemma utf8_step_le: "bs \<noteq> [] \<Longrightarrow> snd (utf8_step bs) \<Longrightarrow> fst (utf8_step bs) \<le> length bs"
  using is_cont_safe_get [of bs 1] is_cont_safe_get [of bs 2] is_cont_safe_get [of bs 3]
  by (auto simp: utf8_step_def Let_def second_ok_def Suc_le_eq split: if_splits)

lemmas word_order_nat = word_le_nat_alt word_less_nat_alt word_unat_eq_iff

lemma utf8_lead_cases:
  fixes a :: u8
  obtains "a < 0x80" | "0x80 \<le> a" "a < 0xC2" | "0xC2 \<le> a" "a \<le> 0xDF" | "0xE0 \<le> a" "a \<le> 0xEF"
    | "0xF0 \<le> a" "a \<le> 0xF4" | "0xF4 < a"
  unfolding word_le_nat_alt word_less_nat_alt by simp linarith

lemma utf8_valid_step:
  "utf8_valid bs \<longleftrightarrow> bs = [] \<or> snd (utf8_step bs) \<and> utf8_valid (drop (fst (utf8_step bs)) bs)"
proof (cases bs)
  case (Cons a r)
  show ?thesis
  proof (cases rule: utf8_lead_cases [of a])
    case 1
    then show ?thesis by (simp add: Cons utf8_step_def safe_get_def)
  next
    case 2
    then show ?thesis
      by (cases r; cases "tl r"; cases "tl (tl r)") (simp_all add: Cons utf8_step_def safe_get_def word_order_nat)
  next
    case 3
    then show ?thesis
      by (cases r) (auto simp: Cons utf8_step_def safe_get_def word_order_nat second_ok_def is_cont_def)
  next
    case 4
    then show ?thesis
      by (cases r; cases "tl r")
        (auto simp: Cons utf8_step_def safe_get_def word_order_nat second_ok_def is_cont_def)
  next
    case 5
    then show ?thesis
      by (cases r; cases "tl r"; cases "tl (tl r)")
        (auto simp: Cons utf8_step_def safe_get_def word_order_nat second_ok_def is_cont_def)
  next
    case 6
    then show ?thesis
      by (cases r; cases "tl r"; cases "tl (tl r)") (simp_all add: Cons utf8_step_def safe_get_def word_order_nat)
  qed
qed simp

lemma safe_get_append: "i < length xs \<Longrightarrow> safe_get (xs @ ys) i = safe_get xs i"
  by (simp add: safe_get_def nth_append)

text \<open>The step reads no byte beyond the character it accepts.\<close>

lemma utf8_step_local:
  assumes "snd (utf8_step xs)" and "\<And>i. i < fst (utf8_step xs) \<Longrightarrow> safe_get ys i = safe_get xs i"
  shows "utf8_step ys = utf8_step xs"
proof -
  let ?a = "safe_get xs 0"
  have 0: "safe_get ys 0 = ?a" using assms(2) utf8_step_pos [of xs] by simp
  show ?thesis
  proof (cases "?a < 0x80")
    case True
    then show ?thesis using 0 by (simp add: utf8_step_def)
  next
    case False
    then have lead: "\<not> (?a < 0xC2 \<or> 0xF4 < ?a)" "second_ok ?a (safe_get xs 1)"
      using assms(1) by (auto simp: utf8_step_def Let_def split: if_splits)
    have 1: "safe_get ys 1 = safe_get xs 1"
      using assms(1) False lead by (intro assms(2)) (auto simp: utf8_step_def Let_def)
    show ?thesis
    proof (cases "?a \<le> 0xDF")
      case True
      then show ?thesis using 0 1 False lead by (simp add: utf8_step_def)
    next
      case above: False
      then have c: "is_cont (safe_get xs 2)"
        using assms(1) False lead by (auto simp: utf8_step_def Let_def split: if_splits)
      have 2: "safe_get ys 2 = safe_get xs 2"
        using assms(1) False lead above c by (intro assms(2)) (auto simp: utf8_step_def Let_def)
      show ?thesis
      proof (cases "?a \<le> 0xEF")
        case True
        then show ?thesis using 0 1 2 False lead above c by (simp add: utf8_step_def)
      next
        case high: False
        then have d: "is_cont (safe_get xs 3)"
          using assms(1) False lead above c by (auto simp: utf8_step_def Let_def split: if_splits)
        have "safe_get ys 3 = safe_get xs 3"
          using False lead above c high d by (intro assms(2)) (simp add: utf8_step_def)
        then show ?thesis using 0 1 2 False lead above c high d by (simp add: utf8_step_def)
      qed
    qed
  qed
qed

lemma utf8_step_append:
  "xs \<noteq> [] \<Longrightarrow> snd (utf8_step xs) \<Longrightarrow> utf8_step (xs @ ys) = utf8_step xs"
  using utf8_step_le [of xs] by (intro utf8_step_local) (auto simp: safe_get_append)

lemma utf8_step_take:
  "bs \<noteq> [] \<Longrightarrow> snd (utf8_step bs) \<Longrightarrow> utf8_step (take (fst (utf8_step bs)) bs) = utf8_step bs"
  using utf8_step_le [of bs] by (intro utf8_step_local) (auto simp: safe_get_def)

lemma utf8_valid_append: "utf8_valid xs \<Longrightarrow> utf8_valid (xs @ ys) \<longleftrightarrow> utf8_valid ys"
proof (induction xs rule: from_utf8_lossy.induct)
  case (1 xs)
  show ?case
  proof (cases "xs = []")
    case False
    let ?n = "fst (utf8_step xs)"
    have ok: "snd (utf8_step xs)" "utf8_valid (drop ?n xs)"
      using 1(2) False utf8_valid_step [of xs] by auto
    have "utf8_valid (xs @ ys) \<longleftrightarrow> utf8_valid (drop ?n (xs @ ys))"
      using False ok(1) utf8_valid_step [of "xs @ ys"] by (simp add: utf8_step_append)
    also have "drop ?n (xs @ ys) = drop ?n xs @ ys"
      using utf8_step_le [OF False ok(1)] by simp
    finally show ?thesis using 1(1) [OF False ok(2)] by simp
  qed simp
qed

lemma utf8_valid_char:
  "bs \<noteq> [] \<Longrightarrow> snd (utf8_step bs) \<Longrightarrow> utf8_valid (take (fst (utf8_step bs)) bs)"
  using utf8_valid_step [of "take (fst (utf8_step bs)) bs"] by (simp add: utf8_step_take)

lemma from_utf8_lossy_valid: "utf8_valid (from_utf8_lossy bs)"
proof (induction bs rule: from_utf8_lossy.induct)
  case (1 bs)
  have "utf8_valid REPLACEMENT_CHARACTER" by (simp add: REPLACEMENT_CHARACTER_def is_cont_def)
  then show ?case
    using 1 by (subst from_utf8_lossy.simps) (auto simp: utf8_valid_append utf8_valid_char)
qed

lemma from_utf8_lossy_id: "utf8_valid bs \<Longrightarrow> from_utf8_lossy bs = bs"
proof (induction bs rule: from_utf8_lossy.induct)
  case (1 bs)
  then show ?case
    using utf8_valid_step [of bs] by (subst from_utf8_lossy.simps) auto
qed

lemma ascii_step: "bs \<noteq> [] \<Longrightarrow> hd bs < 0x80 \<Longrightarrow> utf8_step bs = (1, True)"
  by (simp add: utf8_step_def safe_get_def hd_conv_nth)

lemma chars_of_ascii: "list_all (\<lambda>b. b < 0x80) bs \<Longrightarrow> chars_of bs = map ucast bs"
  by (induction bs) (subst chars_of.simps, simp add: ascii_step code_point_def)+

text \<open>The byte slices that \<open>chunked\<close> cuts.\<close>

fun pieces :: "nat \<Rightarrow> bytes \<Rightarrow> bytes list" where
  "pieces sz bs = (if sz = 0 \<or> bs = [] then [] else take sz bs # pieces sz (drop sz bs))"

declare pieces.simps [simp del]

lemma chunked_from_pieces:
  assumes "0 < sz"
  shows "chunked_from bs sz i = Some (map from_utf8_lossy (pieces sz (drop i bs)))"
proof (induction "length bs - i" arbitrary: i rule: less_induct)
  case less
  show ?case
  proof (cases "i < length bs")
    case True
    let ?e = "min (i + sz) (length bs)"
    have "chunked_from bs sz ?e = Some (map from_utf8_lossy (pieces sz (drop ?e bs)))"
      using less [of ?e] assms True by simp
    moreover have "take (?e - i) (drop i bs) = take sz (drop i bs)" "drop ?e bs = drop sz (drop i bs)"
      by (auto simp: min_def add.commute)
    ultimately show ?thesis
      using True assms by (subst chunked_from.simps) (simp add: pieces.simps [of sz "drop i bs"] Let_def)
  qed (simp add: chunked_from.simps pieces.simps)
qed

lemma chunked_zero_diverges: "i < length bs \<Longrightarrow> chunked_from bs 0 i = None"
proof (rule ccontr)
  have "chunked_from bs sz i = Some out \<Longrightarrow> sz = 0 \<longrightarrow> length bs \<le> i" for sz i out
  proof (erule chunked_from.raw_induct [rotated])
    fix f :: "bytes \<Rightarrow> nat \<Rightarrow> nat \<Rightarrow> bytes list option" and bs sz i out
    assume "\<And>bs sz i out. f bs sz i = Some out \<Longrightarrow> sz = 0 \<longrightarrow> length bs \<le> i"
    from this [of bs sz "min (i + sz) (length bs)"]
    show "(if i < length bs
        then let e = min (i + sz) (length bs); piece = take (e - i) (drop i bs)
             in Option.bind (f bs sz e) (\<lambda>out. Some (from_utf8_lossy piece # out))
        else Some []) = Some out \<Longrightarrow> sz = 0 \<longrightarrow> length bs \<le> i"
      by (auto simp: Let_def bind_eq_Some_conv split: if_splits)
  qed
  moreover assume "i < length bs" "chunked_from bs 0 i \<noteq> None"
  ultimately show False by (metis not_le option.exhaust)
qed

lemma concat_pieces: "0 < sz \<Longrightarrow> concat (pieces sz bs) = bs"
  by (induction sz bs rule: pieces.induct) (subst pieces.simps, simp)

lemma pieces_length: "x \<in> set (pieces sz bs) \<Longrightarrow> x \<noteq> [] \<and> length x \<le> sz \<and> set x \<subseteq> set bs"
proof (induction sz bs rule: pieces.induct)
  case (1 sz bs)
  show ?case
  proof (cases "sz = 0 \<or> bs = [] \<or> x = take sz bs")
    case True
    then show ?thesis using 1(2) by (subst (asm) pieces.simps) (auto dest: in_set_takeD)
  next
    case False
    then have "x \<in> set (pieces sz (drop sz bs))" using 1(2) by (subst (asm) pieces.simps) simp
    then show ?thesis using 1(1) False by (auto dest: in_set_dropD)
  qed
qed

lemma utf8_step_cont:
  assumes "bs \<noteq> []" "snd (utf8_step bs)" "0 < i" "i < fst (utf8_step bs)"
  shows "is_cont (bs ! i)"
proof -
  have "i < length bs" using utf8_step_le [OF assms(1,2)] assms(4) by simp
  moreover have "is_cont (safe_get bs i)"
    using assms(2-4) by (auto simp: utf8_step_def Let_def second_ok_def less_Suc_eq numeral_eq_Suc
        split: if_splits)
  ultimately show ?thesis by (simp add: safe_get_def)
qed

lemma utf8_valid_take: "utf8_valid s \<Longrightarrow> is_char_boundary s i \<Longrightarrow> utf8_valid (take i s)"
proof (induction s arbitrary: i rule: from_utf8_lossy.induct)
  case (1 s)
  show ?case
  proof (cases "s = [] \<or> i = 0")
    case False
    let ?n = "fst (utf8_step s)"
    have ok: "snd (utf8_step s)" "utf8_valid (drop ?n s)" and ne: "s \<noteq> []"
      using 1(2) False utf8_valid_step [of s] by auto
    have le: "?n \<le> length s" by (rule utf8_step_le [OF ne ok(1)])
    have "\<not> (0 < i \<and> i < ?n)"
      using utf8_step_cont [OF ne ok(1)] 1(3) le by (auto simp: is_char_boundary_def)
    then have i: "?n \<le> i" using False by auto
    then have "is_char_boundary (drop ?n s) (i - ?n)"
      using 1(3) le by (auto simp: is_char_boundary_def)
    then have "utf8_valid (take (i - ?n) (drop ?n s))" by (rule 1(1) [OF ne ok(2)])
    moreover have "take i s = take ?n s @ take (i - ?n) (drop ?n s)"
      using i by (metis le_add_diff_inverse take_add)
    ultimately show ?thesis using utf8_valid_char [OF ne ok(1)] by (simp add: utf8_valid_append)
  qed auto
qed

lemma utf8_valid_echo: "utf8_valid p \<Longrightarrow> utf8_valid (echo p)"
  by (simp add: echo_def utf8_valid_append str_bytes_def)

lemma utf8_valid_pad_x: "utf8_valid p \<Longrightarrow> utf8_valid (pad_x n p)"
  by (simp add: pad_x_def utf8_valid_append utf8_valid_ascii list_all_iff)

text \<open>Whatever the engine sends is a \<open>String\<close>, with the code points of its text.\<close>

lemma MockEngine_run_texts_valid:
  assumes "MockEngine_run e p = Some (cs, b)" "utf8_valid p" "c \<in> set cs"
  shows "utf8_valid (tc_text c) \<and> tc_ids c = chars_of (tc_text c)"
proof (cases "chunks_to_emit e")
  case None
  then have "0 < chunk_size e"
    using assms(1) by (auto simp: MockEngine_run_def chunked_def echo_def chunked_zero_diverges intro!: gr0I)
  then show ?thesis
    using assms(1,3) None
    by (auto simp: MockEngine_run_def chunked_def chunked_from_pieces synth_chunk_def
        synth_ids_for_text_def from_utf8_lossy_valid)
next
  case (Some n)
  have "utf8_valid (pad_x (chunk_size e) (echo p))"
    by (rule utf8_valid_pad_x [OF utf8_valid_echo [OF assms(2)]])
  then show ?thesis
    using assms(1,3) Some
    by (auto simp: MockEngine_run_def Let_def synth_chunk_def synth_ids_for_text_def utf8_valid_take
        utf8_valid_ascii list_all_iff split: if_splits)
qed

section \<open>Property\<close>

text \<open>
  C30. The echo engine.  It returns exactly when its chunk size is not 0; on an
  ASCII prompt it then sends chunks of at most the chunk size, none empty, whose
  texts together are \<open>echo: \<close> and the prompt and whose token ids are the code
  points of that string, one after the other.
\<close>

theorem mock_engine_exact:
  assumes "chunks_to_emit e = None"
  shows "(MockEngine_run e p = None \<longleftrightarrow> chunk_size e = 0) \<and>
    (chunk_size e \<noteq> 0 \<and> list_all (\<lambda>b. b < 0x80) p \<longrightarrow>
      (\<exists>cs. MockEngine_run e p = Some (cs, False) \<and> collect cs = str_bytes ''echo: '' @ p \<and>
        concat (map tc_ids cs) = map ucast (str_bytes ''echo: '' @ p) \<and>
        (\<forall>c \<in> set cs. tc_text c \<noteq> [] \<and> length (tc_text c) \<le> chunk_size e)))"
proof (cases "chunk_size e = 0")
  case True
  then show ?thesis
    using assms by (simp add: MockEngine_run_def chunked_def echo_def chunked_zero_diverges)
next
  case False
  let ?ps = "pieces (chunk_size e) (echo p)"
  have run: "MockEngine_run e p = Some (map (\<lambda>x. synth_chunk (from_utf8_lossy x)) ?ps, False)"
    using assms False by (simp add: MockEngine_run_def chunked_def chunked_from_pieces comp_def)
  {
    assume "list_all (\<lambda>b. b < 0x80) p"
    then have echo: "list_all (\<lambda>b. b < 0x80) (echo p)" by (simp add: echo_def str_bytes_def)
    then have ascii: "list_all (\<lambda>b. b < 0x80) x" if "x \<in> set ?ps" for x
      using pieces_length [OF that] by (auto simp: list_all_iff)
    then have run': "MockEngine_run e p = Some (map (\<lambda>x. \<lparr>tc_ids = map ucast x, tc_text = x\<rparr>) ?ps, False)"
      unfolding run by (auto simp: synth_chunk_def synth_ids_for_text_def from_utf8_lossy_id utf8_valid_ascii
          chars_of_ascii)
    have "concat ?ps = echo p" using False by (simp add: concat_pieces)
    then have "\<exists>cs. MockEngine_run e p = Some (cs, False) \<and> collect cs = echo p \<and>
        concat (map tc_ids cs) = map ucast (echo p) \<and>
        (\<forall>c \<in> set cs. tc_text c \<noteq> [] \<and> length (tc_text c) \<le> chunk_size e)"
      using pieces_length [of _ "chunk_size e" "echo p"]
      by (auto simp: run' collect_def comp_def simp flip: map_concat)
  }
  then show ?thesis using run False by (simp add: echo_def)
qed

theorem mock_engine_exact_witness:
  "\<exists>cs. MockEngine_run (MockEngine_new 4) (str_bytes ''hi'') = Some (cs, False) \<and>
     collect cs = str_bytes ''echo: '' @ str_bytes ''hi''"
proof -
  have "list_all (\<lambda>b. b < 0x80) (str_bytes ''hi'')" by (simp add: str_bytes_def)
  then show ?thesis
    using mock_engine_exact [of "MockEngine_new 4" "str_bytes ''hi''"]
    by (auto simp: MockEngine_new_def)
qed

end
