(* ===== verification/Llm.thy ===== *)
theory Llm
  imports Inference Primitives
begin

text \<open>
  \<open>ullm-llm\<close>: the adapter of the default build (\<open>stub.rs\<close>), which answers with a
  digest and an echo of the prompt, and the adapter over a real model
  (\<open>real.rs\<close>).  Tokenizer and model of the latter are parameters, the model with its
  internal state.  The result is what the engine sends to a receiver that stays.

  Shown: the stub sends the response unchanged for ASCII prompts and splits other
  characters, and the real adapter sends one chunk with one id per step, so the ids
  it sends are exactly the tokens it appended to its context.
\<close>

section \<open>lib.rs and stub.rs\<close>

record ModelConfig =
  weights_path :: string
  tokenizer_path :: string
  max_new_tokens :: nat
  llm_chunk_size :: nat

definition stub_load :: "(string \<Rightarrow> bool) \<Rightarrow> ModelConfig \<Rightarrow> string + ModelConfig" where
  "stub_load exists_path config =
    (if \<not> exists_path (weights_path config) then Inl (''weights not found at '' @ str_debug (weights_path config))
     else if \<not> exists_path (tokenizer_path config)
     then Inl (''tokenizer not found at '' @ str_debug (tokenizer_path config))
     else Inr config)"

definition hex_short :: "bytes \<Rightarrow> string" where
  "hex_short d = concat (map (\<lambda>b. [digit_char (unat b div 16), digit_char (unat b mod 16)]) (take 8 d))"

definition stub_response :: "'r prims \<Rightarrow> bytes \<Rightarrow> bytes" where
  "stub_response P prompt = str_bytes (''[stub-llm/'' @ hex_short (sha256 P prompt) @ ''] '') @ prompt"

definition stub_run :: "'r prims \<Rightarrow> ModelConfig \<Rightarrow> bytes \<Rightarrow> TokenChunk list" where
  "stub_run P cfg prompt =
    map (\<lambda>chunk. let s = from_utf8_lossy chunk in \<lparr>tc_ids = chars_of s, tc_text = s\<rparr>)
      (pieces (max (llm_chunk_size cfg) 1) (stub_response P prompt))"

section \<open>real.rs\<close>

record ('s, 'l) llm_lib =
  tok_encode :: "bytes \<Rightarrow> string + u32 list"
  tok_decode :: "u32 \<Rightarrow> bytes option"
  tensor_new :: "u32 list \<Rightarrow> string + unit"
  forward :: "'s \<Rightarrow> u32 list \<Rightarrow> u64 \<Rightarrow> (string + 'l) \<times> 's"
  argmax :: "'l \<Rightarrow> u32 option"

definition error_chunk :: "string \<Rightarrow> string \<Rightarrow> TokenChunk" where
  "error_chunk kind e = \<lparr>tc_ids = [], tc_text = str_bytes (''['' @ kind @ '' error: '' @ e @ '']'')\<rparr>"

text \<open>The position is computed in \<open>usize\<close>, where it wraps for an empty context.\<close>

fun real_loop :: "('s, 'l) llm_lib \<Rightarrow> nat \<Rightarrow> 's \<Rightarrow> u32 list \<Rightarrow> TokenChunk list \<times> 's" where
  "real_loop M 0 st tokens = ([], st)"
| "real_loop M (Suc n) st tokens =
    (case tensor_new M tokens of
       Inl e \<Rightarrow> ([error_chunk ''tensor'' e], st)
     | Inr _ \<Rightarrow>
       (case forward M st tokens (word_of_nat (length tokens) - 1) of
          (Inl e, st) \<Rightarrow> ([error_chunk ''forward'' e], st)
        | (Inr logits, st) \<Rightarrow>
          let next_id = (case argmax M logits of Some t \<Rightarrow> t | None \<Rightarrow> 0);
              piece = (case tok_decode M next_id of Some p \<Rightarrow> p | None \<Rightarrow> []);
              (cs, st) = real_loop M n st (tokens @ [next_id])
          in (\<lparr>tc_ids = [next_id], tc_text = piece\<rparr> # cs, st)))"

definition real_run :: "('s, 'l) llm_lib \<Rightarrow> ModelConfig \<Rightarrow> 's \<Rightarrow> bytes \<Rightarrow> TokenChunk list \<times> 's" where
  "real_run M cfg st prompt =
    (case tok_encode M prompt of
       Inl e \<Rightarrow> ([error_chunk ''tokenizer'' e], st)
     | Inr tokens \<Rightarrow> real_loop M (max_new_tokens cfg) st tokens)"

section \<open>Lemmas\<close>

lemma lossy_ascii: "list_all (\<lambda>b. b < 0x80) bs \<Longrightarrow> from_utf8_lossy bs = bs"
  by (simp add: from_utf8_lossy_id utf8_valid_ascii)

text \<open>The context after a run, and that the ids sent are what was appended to it.\<close>

fun real_context :: "('s, 'l) llm_lib \<Rightarrow> nat \<Rightarrow> 's \<Rightarrow> u32 list \<Rightarrow> u32 list" where
  "real_context M 0 st tokens = tokens"
| "real_context M (Suc n) st tokens =
    (case tensor_new M tokens of
       Inl e \<Rightarrow> tokens
     | Inr _ \<Rightarrow>
       (case forward M st tokens (word_of_nat (length tokens) - 1) of
          (Inl e, st) \<Rightarrow> tokens
        | (Inr logits, st) \<Rightarrow>
          real_context M n st (tokens @ [case argmax M logits of Some t \<Rightarrow> t | None \<Rightarrow> 0])))"

lemma real_loop_Suc:
  "fst (real_loop M (Suc n) st tokens) =
    (case tensor_new M tokens of
       Inl e \<Rightarrow> [error_chunk ''tensor'' e]
     | Inr _ \<Rightarrow>
       (case forward M st tokens (word_of_nat (length tokens) - 1) of
          (Inl e, st') \<Rightarrow> [error_chunk ''forward'' e]
        | (Inr logits, st') \<Rightarrow>
          let t = (case argmax M logits of Some t \<Rightarrow> t | None \<Rightarrow> 0)
          in \<lparr>tc_ids = [t], tc_text = (case tok_decode M t of Some p \<Rightarrow> p | None \<Rightarrow> [])\<rparr>
             # fst (real_loop M n st' (tokens @ [t]))))"
  by (simp add: Let_def case_prod_beta split: sum.split prod.split)

declare real_loop.simps(2) [simp del]

lemma real_ids_are_context:
  "real_context M n st tokens = tokens @ concat (map tc_ids (fst (real_loop M n st tokens)))"
proof (induction n arbitrary: st tokens)
  case (Suc n)
  obtain r st' where f: "forward M st tokens (word_of_nat (length tokens) - 1) = (r, st')" by fastforce
  show ?case by (cases "tensor_new M tokens"; cases r) (simp_all add: f Suc real_loop_Suc error_chunk_def Let_def)
qed simp

lemma real_loop_length: "length (fst (real_loop M n st tokens)) \<le> n"
proof (induction n arbitrary: st tokens)
  case (Suc n)
  obtain r st' where f: "forward M st tokens (word_of_nat (length tokens) - 1) = (r, st')" by fastforce
  show ?case by (cases "tensor_new M tokens"; cases r) (simp_all add: f Suc real_loop_Suc Let_def)
qed simp

lemma ascii_digit: "d < 16 \<Longrightarrow> (word_of_nat (of_char (digit_char d)) :: u8) < 0x80"
proof -
  assume d: "d < 16"
  then have "(of_char (digit_char d) :: nat) < 128" by (simp add: digit_char_def)
  then show ?thesis by (simp add: word_less_nat_alt unat_of_nat)
qed

lemma ascii_response:
  "list_all (\<lambda>b. b < 0x80) prompt \<Longrightarrow> list_all (\<lambda>b. b < 0x80) (stub_response P prompt)"
proof -
  have "list_all (\<lambda>b. b < 0x80) (str_bytes (concat (map (\<lambda>b :: u8. [digit_char (unat b div 16), digit_char (unat b mod 16)]) bs)))" for bs
  proof (induction bs)
    case (Cons b bs)
    have "unat b div 16 < 16" using unat_byte_less [of b] by linarith
    then show ?case using Cons by (simp add: str_bytes_def ascii_digit)
  qed (simp add: str_bytes_def)
  then show "list_all (\<lambda>b. b < 0x80) prompt \<Longrightarrow> list_all (\<lambda>b. b < 0x80) (stub_response P prompt)"
    by (simp add: stub_response_def hex_short_def) (simp add: str_bytes_def)
qed

lemma stub_ascii:
  assumes "list_all (\<lambda>b. b < 0x80) prompt"
  shows "collect (stub_run P cfg prompt) = stub_response P prompt"
    "concat (map tc_ids (stub_run P cfg prompt)) = map ucast (stub_response P prompt)"
    "c \<in> set (stub_run P cfg prompt) \<Longrightarrow> tc_text c \<noteq> [] \<and> length (tc_text c) \<le> max (llm_chunk_size cfg) 1"
proof -
  let ?n = "max (llm_chunk_size cfg) 1" and ?r = "stub_response P prompt"
  have "list_all (\<lambda>b. b < 0x80) x" if "x \<in> set (pieces ?n ?r)" for x
    using pieces_length [OF that] ascii_response [OF assms] by (auto simp: list_all_iff)
  then have run: "stub_run P cfg prompt = map (\<lambda>x. \<lparr>tc_ids = map ucast x, tc_text = x\<rparr>) (pieces ?n ?r)"
    by (simp add: stub_run_def lossy_ascii chars_of_ascii)
  have cc: "concat (pieces ?n ?r) = ?r" by (simp add: concat_pieces)
  show "collect (stub_run P cfg prompt) = ?r" "concat (map tc_ids (stub_run P cfg prompt)) = map ucast ?r"
    using cc by (simp_all add: run collect_def comp_def flip: map_concat)
  show "c \<in> set (stub_run P cfg prompt) \<Longrightarrow> tc_text c \<noteq> [] \<and> length (tc_text c) \<le> ?n"
    using pieces_length [of _ ?n ?r] by (auto simp: run)
qed

text \<open>A character of two bytes does not survive a cut inside it.\<close>

lemma stub_splits_characters:
  "from_utf8_lossy [0xC3] @ from_utf8_lossy [0xA9] = REPLACEMENT_CHARACTER @ REPLACEMENT_CHARACTER"
  by (simp add: from_utf8_lossy.simps utf8_step_def safe_get_def second_ok_def is_cont_def Let_def)

end
