(* ===== verification/Quotes.thy ===== *)
theory Quotes
  imports Core Rust_Text
begin

text \<open>
  \<open>ullm-attest\<close>: the parsers of hardware evidence.  \<open>tdx.rs\<close> reads an Intel TDX
  quote and \<open>snp.rs\<close> an AMD SEV-SNP report through a cursor over the buffer;
  \<open>nvidia.rs\<close> reads a GPU token in JWS form with its own base64url decoder.  The
  JSON parser of the token payload (\<open>serde_json\<close>) and the Debug rendering of a
  character (its Unicode tables) are arguments.  Shown: the TDX parser accepts
  exactly the documented layout, the SNP parser is the documented offset table,
  and the base64url decoder inverts the encoding of RFC 4648.
\<close>

section \<open>The cursor\<close>

record Cursor =
  cbuf :: bytes
  cpos :: nat

definition Cursor_new :: "bytes \<Rightarrow> Cursor" where
  "Cursor_new buf = \<lparr>cbuf = buf, cpos = 0\<rparr>"

definition remaining :: "Cursor \<Rightarrow> nat" where
  "remaining c = length (cbuf c) - cpos c"

definition tdx_read_slice :: "nat \<Rightarrow> Cursor \<Rightarrow> (bytes \<times> Cursor) result" where
  "tdx_read_slice n c =
    (if remaining c < n
     then Inl (AttestationFailed (''read past end ('' @ dec n @ '' requested, '' @
            dec (remaining c) @ '' remain)''))
     else Inr (take n (drop (cpos c) (cbuf c)), c\<lparr>cpos := cpos c + n\<rparr>))"

definition tdx_read_u16_le :: "Cursor \<Rightarrow> (u16 \<times> Cursor) result" where
  "tdx_read_u16_le c = rbind (tdx_read_slice 2 c) (\<lambda>(b, c). Inr (u16_from_le b, c))"

definition tdx_read_u32_le :: "Cursor \<Rightarrow> (u32 \<times> Cursor) result" where
  "tdx_read_u32_le c = rbind (tdx_read_slice 4 c) (\<lambda>(b, c). Inr (u32_from_le b, c))"

definition snp_read_slice :: "nat \<Rightarrow> Cursor \<Rightarrow> (bytes \<times> Cursor) result" where
  "snp_read_slice n c =
    (if length (cbuf c) - cpos c < n then Inl (AttestationFailed ''SNP report truncated'')
     else Inr (take n (drop (cpos c) (cbuf c)), c\<lparr>cpos := cpos c + n\<rparr>))"

definition snp_read_u8 :: "Cursor \<Rightarrow> (u8 \<times> Cursor) result" where
  "snp_read_u8 c = rbind (snp_read_slice 1 c) (\<lambda>(b, c). Inr (b ! 0, c))"

definition snp_read_u32_le :: "Cursor \<Rightarrow> (u32 \<times> Cursor) result" where
  "snp_read_u32_le c = rbind (snp_read_slice 4 c) (\<lambda>(b, c). Inr (u32_from_le b, c))"

definition snp_read_u64_le :: "Cursor \<Rightarrow> (u64 \<times> Cursor) result" where
  "snp_read_u64_le c = rbind (snp_read_slice 8 c) (\<lambda>(b, c). Inr (u64_from_le b, c))"

section \<open>tdx.rs\<close>

definition HEADER_LEN :: nat where "HEADER_LEN = 48"
definition TD_REPORT_LEN :: nat where "TD_REPORT_LEN = 584"
definition ECDSA_P256_SIGNATURE_LEN :: nat where "ECDSA_P256_SIGNATURE_LEN = 64"
definition ECDSA_P256_PUBLIC_KEY_LEN :: nat where "ECDSA_P256_PUBLIC_KEY_LEN = 64"
definition TEE_TYPE_TDX :: u32 where "TEE_TYPE_TDX = 0x81"
definition ATT_KEY_TYPE_ECDSA_P256 :: u16 where "ATT_KEY_TYPE_ECDSA_P256 = 2"

record QuoteHeader =
  qh_version :: u16
  att_key_type :: u16
  tee_type :: u32
  qe_vendor_id :: bytes
  qh_user_data :: bytes

record TdReport =
  tee_tcb_svn :: bytes
  mrseam :: bytes
  mrsignerseam :: bytes
  seamattributes :: bytes
  tdattributes :: bytes
  xfam :: bytes
  mrtd :: bytes
  mrconfigid :: bytes
  mrowner :: bytes
  mrownerconfig :: bytes
  rtmr0 :: bytes
  rtmr1 :: bytes
  rtmr2 :: bytes
  rtmr3 :: bytes
  td_report_data :: bytes

record TdxSignatureData =
  ecdsa_signature :: bytes
  attestation_key :: bytes
  cert_data :: bytes

record TdxQuote =
  tdx_header :: QuoteHeader
  td_report :: TdReport
  tdx_signature :: TdxSignatureData

definition parse_header :: "Cursor \<Rightarrow> (QuoteHeader \<times> Cursor) result" where
  "parse_header c =
    (if remaining c < HEADER_LEN
     then Inl (AttestationFailed (''TDX quote shorter than header ('' @ dec (remaining c) @ '' bytes)''))
     else
       rbind (tdx_read_u16_le c) (\<lambda>(version, c).
       rbind (tdx_read_u16_le c) (\<lambda>(akt, c).
       rbind (tdx_read_u32_le c) (\<lambda>(tt, c).
       rbind (tdx_read_u32_le c) (\<lambda>(_, c).
       rbind (tdx_read_slice 16 c) (\<lambda>(vendor, c).
       rbind (tdx_read_slice 20 c) (\<lambda>(user, c).
         Inr (\<lparr>qh_version = version, att_key_type = akt, tee_type = tt,
               qe_vendor_id = vendor, qh_user_data = user\<rparr>, c))))))))"

definition parse_td_report :: "Cursor \<Rightarrow> (TdReport \<times> Cursor) result" where
  "parse_td_report c =
    (if remaining c < TD_REPORT_LEN
     then Inl (AttestationFailed (''TD report truncated ('' @ dec (remaining c) @ '' bytes remain)''))
     else
       rbind (tdx_read_slice 16 c) (\<lambda>(svn, c).
       rbind (tdx_read_slice 48 c) (\<lambda>(seam, c).
       rbind (tdx_read_slice 48 c) (\<lambda>(signerseam, c).
       rbind (tdx_read_slice 8 c) (\<lambda>(seamattr, c).
       rbind (tdx_read_slice 8 c) (\<lambda>(tdattr, c).
       rbind (tdx_read_slice 8 c) (\<lambda>(xf, c).
       rbind (tdx_read_slice 48 c) (\<lambda>(td, c).
       rbind (tdx_read_slice 48 c) (\<lambda>(configid, c).
       rbind (tdx_read_slice 48 c) (\<lambda>(owner, c).
       rbind (tdx_read_slice 48 c) (\<lambda>(ownerconfig, c).
       rbind (tdx_read_slice 48 c) (\<lambda>(r0, c).
       rbind (tdx_read_slice 48 c) (\<lambda>(r1, c).
       rbind (tdx_read_slice 48 c) (\<lambda>(r2, c).
       rbind (tdx_read_slice 48 c) (\<lambda>(r3, c).
       rbind (tdx_read_slice 64 c) (\<lambda>(rd, c).
         Inr (\<lparr>tee_tcb_svn = svn, mrseam = seam, mrsignerseam = signerseam,
               seamattributes = seamattr, tdattributes = tdattr, xfam = xf, mrtd = td,
               mrconfigid = configid, mrowner = owner, mrownerconfig = ownerconfig,
               rtmr0 = r0, rtmr1 = r1, rtmr2 = r2, rtmr3 = r3, td_report_data = rd\<rparr>, c)))))))))))))))))"

definition TdxQuote_parse :: "bytes \<Rightarrow> TdxQuote result" where
  "TdxQuote_parse bs =
    rbind (parse_header (Cursor_new bs)) (\<lambda>(header, c).
    if tee_type header \<noteq> TEE_TYPE_TDX
    then Inl (AttestationFailed (''expected TEE_TYPE_TDX, got '' @ hex_alt (unat (tee_type header))))
    else if att_key_type header \<noteq> ATT_KEY_TYPE_ECDSA_P256
    then Inl (AttestationFailed (''expected ECDSA-P256 attestation key, got '' @
           dec (unat (att_key_type header))))
    else
      rbind (parse_td_report c) (\<lambda>(report, c).
      rbind (tdx_read_u32_le c) (\<lambda>(len32, c).
      let sig_len = unat len32 in
      if remaining c < sig_len
      then Inl (AttestationFailed (''signature_data truncated: declared '' @ dec sig_len @
             '' bytes, '' @ dec (remaining c) @ '' remain''))
      else if sig_len < ECDSA_P256_SIGNATURE_LEN + ECDSA_P256_PUBLIC_KEY_LEN
      then Inl (AttestationFailed ''signature_data shorter than fixed prefix'')
      else
        rbind (tdx_read_slice sig_len c) (\<lambda>(sig_bytes, c).
          Inr \<lparr>tdx_header = header, td_report = report,
               tdx_signature =
                 \<lparr>ecdsa_signature = take ECDSA_P256_SIGNATURE_LEN sig_bytes,
                  attestation_key =
                    take ECDSA_P256_PUBLIC_KEY_LEN (drop ECDSA_P256_SIGNATURE_LEN sig_bytes),
                  cert_data =
                    drop (ECDSA_P256_SIGNATURE_LEN + ECDSA_P256_PUBLIC_KEY_LEN) sig_bytes\<rparr>\<rparr>))))"

definition tdx_report_data :: "TdxQuote \<Rightarrow> bytes" where
  "tdx_report_data q = td_report_data (td_report q)"

definition synthesize_quote :: "bytes \<Rightarrow> bytes \<Rightarrow> bytes" where
  "synthesize_quote report_data td =
    u16_to_le 4 @ u16_to_le ATT_KEY_TYPE_ECDSA_P256 @ u32_to_le TEE_TYPE_TDX @ u32_to_le 0 @
    replicate 16 0 @ replicate 20 0 @
    replicate 16 0 @ replicate 48 0 @ replicate 48 0 @ replicate 8 0 @ replicate 8 0 @
    replicate 8 0 @ td @ replicate 48 0 @ replicate 48 0 @ replicate 48 0 @
    replicate 48 0 @ replicate 48 0 @ replicate 48 0 @ replicate 48 0 @ report_data @
    u32_to_le (word_of_nat (ECDSA_P256_SIGNATURE_LEN + ECDSA_P256_PUBLIC_KEY_LEN)) @
    replicate ECDSA_P256_SIGNATURE_LEN 0 @ replicate ECDSA_P256_PUBLIC_KEY_LEN 0"

section \<open>snp.rs\<close>

definition REPORT_LEN :: nat where "REPORT_LEN = 1184"
definition SIGNATURE_LEN :: nat where "SIGNATURE_LEN = 512"

record SnpReport =
  snp_version :: u32
  guest_svn :: u32
  snp_policy :: u64
  family_id :: bytes
  image_id :: bytes
  vmpl :: u32
  signature_algo :: u32
  current_tcb :: u64
  platform_info :: u64
  snp_flags :: u32
  snp_report_data :: bytes
  measurement :: bytes
  host_data :: bytes
  id_key_digest :: bytes
  author_key_digest :: bytes
  report_id :: bytes
  report_id_ma :: bytes
  reported_tcb :: u64
  chip_id :: bytes
  committed_tcb :: u64
  launch_tcb :: u64
  snp_signature :: bytes

definition SnpReport_parse :: "bytes \<Rightarrow> SnpReport result" where
  "SnpReport_parse bs =
    (if length bs < REPORT_LEN
     then Inl (AttestationFailed (''SNP report shorter than '' @ dec REPORT_LEN @ '' bytes (got '' @
            dec (length bs) @ '')''))
     else
       rbind (snp_read_u32_le (Cursor_new bs)) (\<lambda>(version, c).
       rbind (snp_read_u32_le c) (\<lambda>(gsvn, c).
       rbind (snp_read_u64_le c) (\<lambda>(pol, c).
       rbind (snp_read_slice 16 c) (\<lambda>(fam, c).
       rbind (snp_read_slice 16 c) (\<lambda>(img, c).
       rbind (snp_read_u32_le c) (\<lambda>(vm, c).
       rbind (snp_read_u32_le c) (\<lambda>(algo, c).
       rbind (snp_read_u64_le c) (\<lambda>(curtcb, c).
       rbind (snp_read_u64_le c) (\<lambda>(plat, c).
       rbind (snp_read_u32_le c) (\<lambda>(fl, c).
       rbind (snp_read_u32_le c) (\<lambda>(_, c).
       rbind (snp_read_slice 64 c) (\<lambda>(rd, c).
       rbind (snp_read_slice 48 c) (\<lambda>(meas, c).
       rbind (snp_read_slice 32 c) (\<lambda>(host, c).
       rbind (snp_read_slice 48 c) (\<lambda>(idk, c).
       rbind (snp_read_slice 48 c) (\<lambda>(auth, c).
       rbind (snp_read_slice 32 c) (\<lambda>(rid, c).
       rbind (snp_read_slice 32 c) (\<lambda>(ridma, c).
       rbind (snp_read_u64_le c) (\<lambda>(reptcb, c).
       rbind (snp_read_u8 c) (\<lambda>(_, c).
       rbind (snp_read_u8 c) (\<lambda>(_, c).
       rbind (snp_read_u8 c) (\<lambda>(_, c).
       rbind (snp_read_slice 21 c) (\<lambda>(_, c).
       rbind (snp_read_slice 64 c) (\<lambda>(chip, c).
       rbind (snp_read_u64_le c) (\<lambda>(comtcb, c).
       rbind (snp_read_u8 c) (\<lambda>(_, c).
       rbind (snp_read_u8 c) (\<lambda>(_, c).
       rbind (snp_read_u8 c) (\<lambda>(_, c).
       rbind (snp_read_u8 c) (\<lambda>(_, c).
       rbind (snp_read_u8 c) (\<lambda>(_, c).
       rbind (snp_read_u8 c) (\<lambda>(_, c).
       rbind (snp_read_u8 c) (\<lambda>(_, c).
       rbind (snp_read_u8 c) (\<lambda>(_, c).
       rbind (snp_read_u64_le c) (\<lambda>(ltcb, c).
       rbind (snp_read_slice 168 c) (\<lambda>(_, c).
       rbind (snp_read_slice SIGNATURE_LEN c) (\<lambda>(sig, c).
         Inr \<lparr>snp_version = version, guest_svn = gsvn, snp_policy = pol, family_id = fam,
              image_id = img, vmpl = vm, signature_algo = algo, current_tcb = curtcb,
              platform_info = plat, snp_flags = fl, snp_report_data = rd, measurement = meas,
              host_data = host, id_key_digest = idk, author_key_digest = auth, report_id = rid,
              report_id_ma = ridma, reported_tcb = reptcb, chip_id = chip,
              committed_tcb = comtcb, launch_tcb = ltcb,
              snp_signature = sig\<rparr>)))))))))))))))))))))))))))))))))))))"

text \<open>\<open>out[i..i + src.len()].copy_from_slice(src)\<close> inside the bounds of \<open>out\<close>.\<close>

definition copy_at :: "nat \<Rightarrow> bytes \<Rightarrow> bytes \<Rightarrow> bytes" where
  "copy_at i src out = take i out @ src @ drop (i + length src) out"

definition synthesize_report :: "bytes \<Rightarrow> bytes \<Rightarrow> bytes" where
  "synthesize_report report_data meas =
    (let out = replicate REPORT_LEN 0;
         out = copy_at 0 (u32_to_le 3) out;
         out = copy_at 80 report_data out
     in copy_at 144 meas out)"

section \<open>nvidia.rs\<close>

text \<open>A value of \<open>serde_json\<close>; a number is its text.\<close>

datatype Json_Value =
    J_Null | J_Bool bool | J_Number string | J_String string
  | J_Array "Json_Value list" | J_Object "(string \<times> Json_Value) list"

record NvidiaPayload =
  nv_nonce :: string
  arch :: string
  gpu_uuid :: string
  vbios_version :: string
  driver_version :: string
  measurement_hex :: string
  nv_extra :: "(string \<times> Json_Value) list"

record NvidiaQuote =
  nv_payload :: NvidiaPayload
  nv_signature :: bytes
  signed_message :: bytes

text \<open>
  \<open>nv_json\<close> parses a payload (an error is its text); \<open>char_debug\<close> renders the
  bytes of one character with \<open>{:?}\<close>.
\<close>

record nv_lib =
  nv_json :: "bytes \<Rightarrow> string + NvidiaPayload"
  char_debug :: "string \<Rightarrow> string"

definition b64url_val :: "char \<Rightarrow> u32 option" where
  "b64url_val ch =
    (let v = (of_char ch :: nat) in
     if 65 \<le> v \<and> v \<le> 90 then Some (word_of_nat v - 65)
     else if 97 \<le> v \<and> v \<le> 122 then Some (word_of_nat v - 97 + 26)
     else if 48 \<le> v \<and> v \<le> 57 then Some (word_of_nat v - 48 + 52)
     else if ch = CHR ''-'' then Some 62
     else if ch = CHR ''_'' then Some 63
     else None)"

fun b64url_loop :: "nv_lib \<Rightarrow> u32 \<Rightarrow> u32 \<Rightarrow> bytes \<Rightarrow> string \<Rightarrow> bytes result" where
  "b64url_loop L buf bits out [] = Inr out"
| "b64url_loop L buf bits out (ch # s) =
    (case b64url_val ch of
       None \<Rightarrow> Inl (AttestationFailed (''bad b64url char '' @ char_debug L (take (utf8_width ch) (ch # s))))
     | Some v \<Rightarrow>
         let buf = push_bit 6 buf OR v; bits = bits + 6 in
         if 8 \<le> bits
         then let bits = bits - 8
              in b64url_loop L buf bits (out @ [ucast (drop_bit (unat bits) buf AND 0xFF)]) s
         else b64url_loop L buf bits out s)"

definition b64url_decode :: "nv_lib \<Rightarrow> string \<Rightarrow> bytes result" where
  "b64url_decode L s = b64url_loop L 0 0 [] (trim_end_matches CHR ''='' s)"

definition NvidiaQuote_parse :: "nv_lib \<Rightarrow> bytes \<Rightarrow> NvidiaQuote result" where
  "NvidiaQuote_parse L bs =
    (if \<not> utf8_valid bs then Inl (AttestationFailed ''NRAS evidence is not UTF-8'')
     else let s = chars bs in
       case split_char dot s of
         [hdr, pl, sig] \<Rightarrow>
           rbind (b64url_decode L pl) (\<lambda>payload_bytes.
           rbind (map_err (\<lambda>e. AttestationFailed (''JWS payload: '' @ e)) (nv_json L payload_bytes))
             (\<lambda>payload.
           rbind (b64url_decode L sig) (\<lambda>signature.
             Inr \<lparr>nv_payload = payload, nv_signature = signature,
                  signed_message = str_bytes (hdr @ [dot] @ pl)\<rparr>)))
       | _ \<Rightarrow>
           rbind (map_err (\<lambda>e. AttestationFailed (''NRAS payload: '' @ e)) (nv_json L (str_bytes s)))
             (\<lambda>payload.
             Inr \<lparr>nv_payload = payload, nv_signature = [], signed_message = str_bytes s\<rparr>))"

definition nonce_hex :: "NvidiaQuote \<Rightarrow> string" where
  "nonce_hex q = nv_nonce (nv_payload q)"

section \<open>Reading by offset\<close>

definition bslice :: "nat \<Rightarrow> nat \<Rightarrow> bytes \<Rightarrow> bytes" where
  "bslice p n bs = take n (drop p bs)"

text \<open>\<open>cut p ns bs\<close> is the list of consecutive slices of the lengths \<open>ns\<close> from \<open>p\<close> on.\<close>

fun cut :: "nat \<Rightarrow> nat list \<Rightarrow> bytes \<Rightarrow> bytes list" where
  "cut p [] bs = []"
| "cut p (n # ns) bs = bslice p n bs # cut (p + n) ns bs"

lemma length_bslice: "p + n \<le> length bs \<Longrightarrow> length (bslice p n bs) = n"
  by (simp add: bslice_def)

lemma concat_cut: "concat (cut p ns bs) @ drop (p + sum_list ns) bs = drop p bs"
proof (induction ns arbitrary: p)
  case (Cons n ns)
  have "drop p bs = bslice p n bs @ drop (p + n) bs"
    unfolding bslice_def by (rule drop_split)
  then show ?case using Cons [of "p + n"] by (simp add: add.assoc)
qed simp

lemma cut_concat: "cut (length zs) (map length xss) (zs @ concat xss @ ys) = xss"
proof (induction xss arbitrary: zs)
  case (Cons x xss)
  have "bslice (length zs) (length x) (zs @ concat (x # xss) @ ys) = x"
    by (simp add: bslice_def)
  then show ?case using Cons [of "zs @ x"] by simp
qed simp

lemma cut_concat_0: "ns = map length xss \<Longrightarrow> cut 0 ns (concat xss @ ys) = xss"
  using cut_concat [of "[]" xss ys] by simp

lemma tdx_read_slice_at:
  "p + n \<le> length bs \<Longrightarrow>
   tdx_read_slice n \<lparr>cbuf = bs, cpos = p\<rparr> = Inr (bslice p n bs, \<lparr>cbuf = bs, cpos = p + n\<rparr>)"
  by (simp add: tdx_read_slice_def remaining_def bslice_def)

lemma snp_read_slice_at:
  "p + n \<le> length bs \<Longrightarrow>
   snp_read_slice n \<lparr>cbuf = bs, cpos = p\<rparr> = Inr (bslice p n bs, \<lparr>cbuf = bs, cpos = p + n\<rparr>)"
  by (simp add: snp_read_slice_def bslice_def)

lemma tdx_read_u16_at:
  "p + 2 \<le> length bs \<Longrightarrow>
   tdx_read_u16_le \<lparr>cbuf = bs, cpos = p\<rparr> =
     Inr (u16_from_le (bslice p 2 bs), \<lparr>cbuf = bs, cpos = p + 2\<rparr>)"
  by (simp add: tdx_read_u16_le_def tdx_read_slice_at del: numeral_plus_one)

lemma tdx_read_u32_at:
  "p + 4 \<le> length bs \<Longrightarrow>
   tdx_read_u32_le \<lparr>cbuf = bs, cpos = p\<rparr> =
     Inr (u32_from_le (bslice p 4 bs), \<lparr>cbuf = bs, cpos = p + 4\<rparr>)"
  by (simp add: tdx_read_u32_le_def tdx_read_slice_at)

lemma snp_read_word_at:
  "p + 1 \<le> length bs \<Longrightarrow>
   snp_read_u8 \<lparr>cbuf = bs, cpos = p\<rparr> = Inr (bslice p 1 bs ! 0, \<lparr>cbuf = bs, cpos = p + 1\<rparr>)"
  "p + 4 \<le> length bs \<Longrightarrow>
   snp_read_u32_le \<lparr>cbuf = bs, cpos = p\<rparr> =
     Inr (u32_from_le (bslice p 4 bs), \<lparr>cbuf = bs, cpos = p + 4\<rparr>)"
  "p + 8 \<le> length bs \<Longrightarrow>
   snp_read_u64_le \<lparr>cbuf = bs, cpos = p\<rparr> =
     Inr (u64_from_le (bslice p 8 bs), \<lparr>cbuf = bs, cpos = p + 8\<rparr>)"
  by (simp_all add: snp_read_u8_def snp_read_u32_le_def snp_read_u64_le_def snp_read_slice_at
      del: One_nat_def)

lemma to_from_le:
  "length bs = 2 \<Longrightarrow> u16_to_le (u16_from_le bs) = bs"
  "length bs = 4 \<Longrightarrow> u32_to_le (u32_from_le bs) = bs"
proof -
  have lt: "le_val cs < 256 ^ length cs" for cs
    by (metis le_nat_le_val le_val_le_nat mod_less_divisor zero_less_numeral zero_less_power)
  show "length bs = 2 \<Longrightarrow> u16_to_le (u16_from_le bs) = bs"
    using lt [of bs] le_nat_le_val [of bs]
    by (simp add: u16_to_le_def u16_from_le_def unat_of_nat)
  show "length bs = 4 \<Longrightarrow> u32_to_le (u32_from_le bs) = bs"
    using lt [of bs] le_nat_le_val [of bs]
    by (simp add: u32_to_le_def u32_from_le_def unat_of_nat)
qed

section \<open>The TDX layout\<close>

text \<open>The fields up to the length word, in the order and with the sizes \<open>tdx.rs\<close> documents.\<close>

definition tdx_sizes :: "nat list" where
  "tdx_sizes = [2, 2, 4, 4, 16, 20, 16, 48, 48, 8, 8, 8, 48, 48, 48, 48, 48, 48, 48, 48, 64, 4]"

definition tdx_fields :: "TdxQuote \<Rightarrow> bytes \<Rightarrow> bytes list" where
  "tdx_fields q rsv =
    (let h = tdx_header q; r = td_report q in
     [u16_to_le (qh_version h), u16_to_le (att_key_type h), u32_to_le (tee_type h), rsv,
      qe_vendor_id h, qh_user_data h,
      tee_tcb_svn r, mrseam r, mrsignerseam r, seamattributes r, tdattributes r, xfam r, mrtd r,
      mrconfigid r, mrowner r, mrownerconfig r, rtmr0 r, rtmr1 r, rtmr2 r, rtmr3 r,
      td_report_data r, u32_to_le (word_of_nat (128 + length (cert_data (tdx_signature q))))])"

definition tdx_layout :: "TdxQuote \<Rightarrow> bytes \<Rightarrow> bytes" where
  "tdx_layout q rsv =
    concat (tdx_fields q rsv) @ ecdsa_signature (tdx_signature q) @
    attestation_key (tdx_signature q) @ cert_data (tdx_signature q)"

definition tdx_wf :: "TdxQuote \<Rightarrow> bytes \<Rightarrow> bool" where
  "tdx_wf q rsv \<longleftrightarrow>
    map length (tdx_fields q rsv) = tdx_sizes \<and>
    length (ecdsa_signature (tdx_signature q)) = 64 \<and>
    length (attestation_key (tdx_signature q)) = 64 \<and>
    128 + length (cert_data (tdx_signature q)) < 2 ^ 32 \<and>
    tee_type (tdx_header q) = TEE_TYPE_TDX \<and>
    att_key_type (tdx_header q) = ATT_KEY_TYPE_ECDSA_P256"

definition header_at :: "bytes \<Rightarrow> QuoteHeader" where
  "header_at bs =
    \<lparr>qh_version = u16_from_le (bslice 0 2 bs), att_key_type = u16_from_le (bslice 2 2 bs),
     tee_type = u32_from_le (bslice 4 4 bs), qe_vendor_id = bslice 12 16 bs,
     qh_user_data = bslice 28 20 bs\<rparr>"

definition td_report_at :: "bytes \<Rightarrow> TdReport" where
  "td_report_at bs =
    \<lparr>tee_tcb_svn = bslice 48 16 bs, mrseam = bslice 64 48 bs, mrsignerseam = bslice 112 48 bs,
     seamattributes = bslice 160 8 bs, tdattributes = bslice 168 8 bs, xfam = bslice 176 8 bs,
     mrtd = bslice 184 48 bs, mrconfigid = bslice 232 48 bs, mrowner = bslice 280 48 bs,
     mrownerconfig = bslice 328 48 bs, rtmr0 = bslice 376 48 bs, rtmr1 = bslice 424 48 bs,
     rtmr2 = bslice 472 48 bs, rtmr3 = bslice 520 48 bs, td_report_data = bslice 568 64 bs\<rparr>"

lemma parse_header_at:
  "48 \<le> length bs \<Longrightarrow> parse_header (Cursor_new bs) = Inr (header_at bs, \<lparr>cbuf = bs, cpos = 48\<rparr>)"
  by (simp add: parse_header_def Cursor_new_def remaining_def HEADER_LEN_def tdx_read_u16_at
      tdx_read_u32_at tdx_read_slice_at header_at_def del: add_2_eq_Suc add_2_eq_Suc')

lemma parse_td_report_at:
  "632 \<le> length bs \<Longrightarrow>
   parse_td_report \<lparr>cbuf = bs, cpos = 48\<rparr> = Inr (td_report_at bs, \<lparr>cbuf = bs, cpos = 632\<rparr>)"
  by (simp add: parse_td_report_def remaining_def TD_REPORT_LEN_def tdx_read_slice_at
      td_report_at_def)

lemma parse_header_short: "length bs < 48 \<Longrightarrow> \<exists>e. parse_header (Cursor_new bs) = Inl e"
  by (simp add: parse_header_def Cursor_new_def remaining_def HEADER_LEN_def)

lemma parse_td_report_short:
  "length bs < 632 \<Longrightarrow> \<exists>e. parse_td_report \<lparr>cbuf = bs, cpos = 48\<rparr> = Inl e"
  by (auto simp: parse_td_report_def remaining_def TD_REPORT_LEN_def)

lemma tdx_read_u32_short:
  "length bs < 636 \<Longrightarrow> \<exists>e. tdx_read_u32_le \<lparr>cbuf = bs, cpos = 632\<rparr> = Inl e"
  by (auto simp: tdx_read_u32_le_def tdx_read_slice_def remaining_def)

definition tdx_sig_len :: "bytes \<Rightarrow> nat" where
  "tdx_sig_len bs = unat (u32_from_le (bslice 632 4 bs))"

definition tdx_at :: "bytes \<Rightarrow> TdxQuote" where
  "tdx_at bs =
    \<lparr>tdx_header = header_at bs, td_report = td_report_at bs,
     tdx_signature =
       \<lparr>ecdsa_signature = bslice 636 64 bs, attestation_key = bslice 700 64 bs,
        cert_data = bslice 764 (tdx_sig_len bs - 128) bs\<rparr>\<rparr>"

lemma TdxQuote_parse_iff:
  "TdxQuote_parse bs = Inr q \<longleftrightarrow>
    636 + tdx_sig_len bs \<le> length bs \<and> 128 \<le> tdx_sig_len bs \<and>
    tee_type (header_at bs) = TEE_TYPE_TDX \<and>
    att_key_type (header_at bs) = ATT_KEY_TYPE_ECDSA_P256 \<and> q = tdx_at bs"
proof (cases "636 \<le> length bs")
  case True
  then show ?thesis
    by (auto simp: TdxQuote_parse_def parse_header_at parse_td_report_at tdx_read_u32_at
        remaining_def Let_def tdx_read_slice_at ECDSA_P256_SIGNATURE_LEN_def
        ECDSA_P256_PUBLIC_KEY_LEN_def tdx_sig_len_def tdx_at_def bslice_def drop_take min_def)
next
  case False
  then have "length bs < 48 \<or> (48 \<le> length bs \<and> length bs < 632) \<or>
      (632 \<le> length bs \<and> length bs < 636)" by linarith
  then have "\<exists>e. TdxQuote_parse bs = Inl e"
    using parse_header_short [of bs] parse_td_report_short [of bs] tdx_read_u32_short [of bs]
    by (auto simp: TdxQuote_parse_def parse_header_at parse_td_report_at)
  then show ?thesis using False by auto
qed

lemma sum_tdx_sizes: "sum_list tdx_sizes = 636"
  by (simp add: tdx_sizes_def)

lemma cut_tdx_sizes: "cut 0 tdx_sizes bs =
  [bslice 0 2 bs, bslice 2 2 bs, bslice 4 4 bs, bslice 8 4 bs, bslice 12 16 bs, bslice 28 20 bs,
   bslice 48 16 bs, bslice 64 48 bs, bslice 112 48 bs, bslice 160 8 bs, bslice 168 8 bs,
   bslice 176 8 bs, bslice 184 48 bs, bslice 232 48 bs, bslice 280 48 bs, bslice 328 48 bs,
   bslice 376 48 bs, bslice 424 48 bs, bslice 472 48 bs, bslice 520 48 bs, bslice 568 64 bs,
   bslice 632 4 bs]"
  by (simp add: tdx_sizes_def del: add_2_eq_Suc add_2_eq_Suc')

lemma tdx_fields_at:
  assumes "636 + tdx_sig_len bs \<le> length bs" "128 \<le> tdx_sig_len bs"
  shows "tdx_fields (tdx_at bs) (bslice 8 4 bs) = cut 0 tdx_sizes bs"
proof -
  have "word_of_nat (128 + length (cert_data (tdx_signature (tdx_at bs)))) =
      u32_from_le (bslice 632 4 bs)"
    using assms by (simp add: tdx_at_def length_bslice tdx_sig_len_def)
  then show ?thesis
    using assms
    by (simp add: tdx_fields_def cut_tdx_sizes tdx_at_def header_at_def td_report_at_def
        to_from_le length_bslice)
qed

lemma map_length_cut: "p + sum_list ns \<le> length bs \<Longrightarrow> map length (cut p ns bs) = ns"
  by (induction ns arbitrary: p) (auto simp: length_bslice)

lemma tdx_at_wf:
  assumes "636 + tdx_sig_len bs \<le> length bs" "128 \<le> tdx_sig_len bs"
    "tee_type (header_at bs) = TEE_TYPE_TDX"
    "att_key_type (header_at bs) = ATT_KEY_TYPE_ECDSA_P256"
  shows "tdx_wf (tdx_at bs) (bslice 8 4 bs)"
proof -
  have "map length (tdx_fields (tdx_at bs) (bslice 8 4 bs)) = tdx_sizes"
    using assms map_length_cut [of 0 tdx_sizes bs] by (simp add: tdx_fields_at sum_tdx_sizes)
  moreover have "tdx_sig_len bs < 2 ^ 32"
    unfolding tdx_sig_len_def using unat_lt2p [where 'a = 32] by simp
  ultimately show ?thesis
    using assms by (simp add: tdx_wf_def tdx_at_def length_bslice)
qed

lemma tdx_at_layout:
  assumes "636 + tdx_sig_len bs \<le> length bs" "128 \<le> tdx_sig_len bs"
  shows "bs = tdx_layout (tdx_at bs) (bslice 8 4 bs) @ drop (636 + tdx_sig_len bs) bs"
proof -
  have "bs = concat (cut 0 tdx_sizes bs) @ drop 636 bs"
    using concat_cut [of 0 tdx_sizes bs] by (simp add: sum_tdx_sizes)
  moreover have "drop 636 bs = concat (cut 636 [64, 64, tdx_sig_len bs - 128] bs) @
      drop (636 + tdx_sig_len bs) bs"
    using concat_cut [of 636 "[64, 64, tdx_sig_len bs - 128]" bs] assms by simp
  ultimately show ?thesis
    unfolding tdx_layout_def tdx_fields_at [OF assms] by (simp add: tdx_at_def)
qed

lemma layout_tdx_at:
  assumes wf: "tdx_wf q rsv" and bs: "bs = tdx_layout q rsv @ rest"
  shows "636 + tdx_sig_len bs \<le> length bs \<and> 128 \<le> tdx_sig_len bs \<and>
    tee_type (header_at bs) = TEE_TYPE_TDX \<and>
    att_key_type (header_at bs) = ATT_KEY_TYPE_ECDSA_P256 \<and> q = tdx_at bs"
proof -
  let ?S = "tdx_signature q" and ?n = "128 + length (cert_data (tdx_signature q))"
  let ?tl = "[ecdsa_signature ?S, attestation_key ?S, cert_data ?S]"
  have sizes: "map length (tdx_fields q rsv) = tdx_sizes" and sig: "length (ecdsa_signature ?S) = 64"
    "length (attestation_key ?S) = 64" and n: "?n < 2 ^ 32"
    using wf by (simp_all add: tdx_wf_def)
  have len: "length (concat (tdx_fields q rsv)) = 636"
    using sizes sum_tdx_sizes by (simp add: length_concat)
  have bs': "bs = concat (tdx_fields q rsv) @ concat ?tl @ rest"
    unfolding bs tdx_layout_def by simp
  have c1: "cut 0 tdx_sizes bs = tdx_fields q rsv"
    unfolding bs' by (rule cut_concat_0) (simp add: sizes)
  have c2: "cut 636 [64, 64, length (cert_data ?S)] bs = ?tl"
    using cut_concat [of "concat (tdx_fields q rsv)" ?tl rest] sig len unfolding bs' by simp
  have f: "bslice 0 2 bs = u16_to_le (qh_version (tdx_header q))"
    "bslice 2 2 bs = u16_to_le (att_key_type (tdx_header q))"
    "bslice 4 4 bs = u32_to_le (tee_type (tdx_header q))"
    "bslice 12 16 bs = qe_vendor_id (tdx_header q)" "bslice 28 20 bs = qh_user_data (tdx_header q)"
    and r: "td_report_at bs = td_report q"
    and l: "bslice 632 4 bs = u32_to_le (word_of_nat ?n)"
    using c1 by (simp_all add: cut_tdx_sizes tdx_fields_def Let_def td_report_at_def)
  have h: "header_at bs = tdx_header q"
    using f by (simp add: header_at_def)
  have sl: "tdx_sig_len bs = ?n"
    using n unfolding tdx_sig_len_def l from_to_le unat_of_nat by simp
  have "length bs = 636 + ?n + length rest"
    unfolding bs tdx_layout_def using len sig by simp
  moreover have "q = tdx_at bs"
    using c2 h r sl by (simp add: tdx_at_def)
  ultimately show ?thesis using wf h sl by (simp add: tdx_wf_def)
qed

lemma synthesize_quote_parses:
  assumes "length rd = 64" "length td = 48"
  shows "\<exists>q. TdxQuote_parse (synthesize_quote rd td) = Inr q \<and> tdx_report_data q = rd \<and>
    mrtd (td_report q) = td"
proof -
  define q where "q =
    \<lparr>tdx_header = \<lparr>qh_version = 4, att_key_type = ATT_KEY_TYPE_ECDSA_P256, tee_type = TEE_TYPE_TDX,
       qe_vendor_id = replicate 16 0, qh_user_data = replicate 20 0\<rparr>,
     td_report = \<lparr>tee_tcb_svn = replicate 16 0, mrseam = replicate 48 0,
       mrsignerseam = replicate 48 0, seamattributes = replicate 8 0, tdattributes = replicate 8 0,
       xfam = replicate 8 0, mrtd = td, mrconfigid = replicate 48 0, mrowner = replicate 48 0,
       mrownerconfig = replicate 48 0, rtmr0 = replicate 48 0, rtmr1 = replicate 48 0,
       rtmr2 = replicate 48 0, rtmr3 = replicate 48 0, td_report_data = rd\<rparr>,
     tdx_signature = \<lparr>ecdsa_signature = replicate 64 0, attestation_key = replicate 64 0,
       cert_data = []\<rparr>\<rparr>"
  have "tdx_wf q (u32_to_le 0)"
    using assms by (simp add: tdx_wf_def q_def tdx_fields_def tdx_sizes_def)
  moreover have "synthesize_quote rd td = tdx_layout q (u32_to_le 0) @ []"
    by (simp only: synthesize_quote_def tdx_layout_def tdx_fields_def q_def Let_def
        ECDSA_P256_SIGNATURE_LEN_def ECDSA_P256_PUBLIC_KEY_LEN_def TdxQuote.simps
        QuoteHeader.simps TdReport.simps TdxSignatureData.simps concat.simps append_assoc
        append_Nil append_Nil2 list.size add_0_right) simp
  ultimately have "TdxQuote_parse (synthesize_quote rd td) = Inr q"
    unfolding TdxQuote_parse_iff by (rule layout_tdx_at)
  then show ?thesis by (simp add: q_def tdx_report_data_def)
qed

section \<open>The SNP offset table\<close>

definition snp_at :: "bytes \<Rightarrow> SnpReport" where
  "snp_at bs =
    \<lparr>snp_version = u32_from_le (bslice 0 4 bs), guest_svn = u32_from_le (bslice 4 4 bs),
     snp_policy = u64_from_le (bslice 8 8 bs), family_id = bslice 16 16 bs,
     image_id = bslice 32 16 bs, vmpl = u32_from_le (bslice 48 4 bs),
     signature_algo = u32_from_le (bslice 52 4 bs), current_tcb = u64_from_le (bslice 56 8 bs),
     platform_info = u64_from_le (bslice 64 8 bs), snp_flags = u32_from_le (bslice 72 4 bs),
     snp_report_data = bslice 80 64 bs, measurement = bslice 144 48 bs,
     host_data = bslice 192 32 bs, id_key_digest = bslice 224 48 bs,
     author_key_digest = bslice 272 48 bs, report_id = bslice 320 32 bs,
     report_id_ma = bslice 352 32 bs, reported_tcb = u64_from_le (bslice 384 8 bs),
     chip_id = bslice 416 64 bs, committed_tcb = u64_from_le (bslice 480 8 bs),
     launch_tcb = u64_from_le (bslice 496 8 bs), snp_signature = bslice 672 512 bs\<rparr>"

lemma SnpReport_parse_at: "1184 \<le> length bs \<Longrightarrow> SnpReport_parse bs = Inr (snp_at bs)"
  by (simp add: SnpReport_parse_def Cursor_new_def REPORT_LEN_def SIGNATURE_LEN_def snp_read_word_at
      snp_read_slice_at snp_at_def)

lemma SnpReport_parse_iff:
  "SnpReport_parse bs = Inr r \<longleftrightarrow> 1184 \<le> length bs \<and> r = snp_at bs"
proof (cases "1184 \<le> length bs")
  case False
  then show ?thesis by (simp add: SnpReport_parse_def REPORT_LEN_def)
qed (auto simp: SnpReport_parse_at)

lemma synthesize_report_parses:
  assumes "length rd = 64" "length m = 48"
  shows "\<exists>r. SnpReport_parse (synthesize_report rd m) = Inr r \<and> snp_report_data r = rd \<and>
    measurement r = m"
proof -
  have eq: "synthesize_report rd m =
      (u32_to_le 3 @ replicate 76 0) @ rd @ m @ replicate 992 0"
    using assms by (simp add: synthesize_report_def copy_at_def REPORT_LEN_def)
  have "bslice 80 64 (synthesize_report rd m) = rd" "bslice 144 48 (synthesize_report rd m) = m"
    unfolding eq bslice_def using assms by simp_all
  moreover have "1184 \<le> length (synthesize_report rd m)" unfolding eq using assms by simp
  ultimately show ?thesis by (simp add: SnpReport_parse_iff snp_at_def)
qed

section \<open>base64url\<close>

text \<open>The encoder of RFC 4648, section 5, without padding.\<close>

definition b64_char :: "u8 \<Rightarrow> char" where
  "b64_char w =
    (let n = unat w in
     if n < 26 then char_of (65 + n) else if n < 52 then char_of (71 + n)
     else if n < 62 then char_of (n - 4) else if n = 62 then CHR ''-'' else CHR ''_'')"

fun b64url_encode :: "bytes \<Rightarrow> string" where
  "b64url_encode [] = []"
| "b64url_encode [a] = [b64_char (drop_bit 2 a), b64_char (push_bit 4 (take_bit 2 a))]"
| "b64url_encode [a, b] =
    [b64_char (drop_bit 2 a), b64_char (push_bit 4 (take_bit 2 a) OR drop_bit 4 b),
     b64_char (push_bit 2 (take_bit 4 b))]"
| "b64url_encode (a # b # c # bs) =
    [b64_char (drop_bit 2 a), b64_char (push_bit 4 (take_bit 2 a) OR drop_bit 4 b),
     b64_char (push_bit 2 (take_bit 4 b) OR drop_bit 6 c), b64_char (take_bit 6 c)] @
    b64url_encode bs"

lemma unat_lt_64: "unat (w :: u8) < 64 \<longleftrightarrow> take_bit 6 w = w"
proof -
  have "unat (take_bit 6 w) = unat w mod 64"
    using unat_mod_distrib [of w 64] by (simp add: take_bit_eq_mod)
  then have "take_bit 6 w = w \<longleftrightarrow> unat w mod 64 = unat w"
    by (metis word_unat_eq_iff)
  moreover have "unat w mod 64 = unat w \<longleftrightarrow> unat w < 64"
    by (metis mod_less mod_less_divisor zero_less_numeral)
  ultimately show ?thesis by simp
qed

lemma b64url_val_char:
  assumes "take_bit 6 w = w"
  shows "b64url_val (b64_char w) = Some (ucast w)"
proof -
  define m where "m = unat w"
  have n: "m < 64" using assms by (simp add: unat_lt_64 m_def)
  have u: "(ucast w :: u32) = word_of_nat m" by (simp add: m_def)
  consider "m < 26" | "26 \<le> m" "m < 52" | k where "m = k + 52" "k < 10" | "m = 62" | "m = 63"
    using n that(3) [of "m - 52"] by linarith
  then show ?thesis
    unfolding u b64_char_def m_def [symmetric]
    by cases (simp_all add: b64url_val_def Let_def of_nat_diff)
qed

text \<open>Reading the accumulator after two, three and four characters.\<close>

lemma b64_buf_bit:
  "bit (push_bit 6 buf OR v :: u32) n \<longleftrightarrow> n < 32 \<and> (bit v n \<or> 6 \<le> n \<and> bit buf (n - 6))"
  using bit_imp_le_length [of v n] by (auto simp: bit_simps)

lemma b64_byte_bit:
  "bit (ucast (drop_bit k buf AND 0xFF :: u32) :: u8) n \<longleftrightarrow> n < 8 \<and> bit buf (n + k)"
proof -
  have m: "(0xFF :: u32) = mask 8" by (simp add: mask_eq_exp_minus_1)
  have "bit (0xFF :: u32) n \<longleftrightarrow> n < 8"
    unfolding m bit_mask_iff by auto
  then show ?thesis by (auto simp: bit_simps add.commute)
qed

lemma less_8_cases: "n < 8 \<Longrightarrow> n = 0 \<or> n = 1 \<or> n = 2 \<or> n = 3 \<or> n = 4 \<or> n = 5 \<or> n = 6 \<or> n = (7 :: nat)"
  by linarith

lemma b64_first_byte:
  "(ucast (drop_bit 4 (push_bit 6 (push_bit 6 buf OR ucast (drop_bit 2 a)) OR
      ucast (push_bit 4 (take_bit 2 a) OR drop_bit 4 b)) AND 0xFF :: u32) :: u8) = (a :: u8)"
  by (rule bit_eqI)
    (auto simp: b64_byte_bit b64_buf_bit bit_simps dest!: less_8_cases dest: bit_imp_le_length,
     simp_all add: numeral_2_eq_2 numeral_3_eq_3)

lemma b64_second_byte:
  "(ucast (drop_bit 2 (push_bit 6 (push_bit 6 buf OR ucast (push_bit 4 (take_bit 2 a) OR drop_bit 4 b)) OR
      ucast (push_bit 2 (take_bit 4 b) OR drop_bit 6 c)) AND 0xFF :: u32) :: u8) = (b :: u8)"
  by (rule bit_eqI)
    (auto simp: b64_byte_bit b64_buf_bit bit_simps dest!: less_8_cases dest: bit_imp_le_length)

lemma b64_third_byte:
  "(ucast (drop_bit 0 (push_bit 6 (push_bit 6 buf OR ucast (push_bit 2 (take_bit 4 b) OR drop_bit 6 c)) OR
      ucast (take_bit 6 c)) AND 0xFF :: u32) :: u8) = (c :: u8)"
  by (rule bit_eqI)
    (auto simp: b64_byte_bit b64_buf_bit bit_simps dest!: less_8_cases dest: bit_imp_le_length)

lemma b64_sextets:
  "take_bit 6 (drop_bit 2 a) = drop_bit 2 (a :: u8)"
  "take_bit 6 (push_bit 4 (take_bit 2 a) OR drop_bit 4 b) = push_bit 4 (take_bit 2 a) OR drop_bit 4 (b :: u8)"
  "take_bit 6 (push_bit 2 (take_bit 4 b) OR drop_bit 6 c) = push_bit 2 (take_bit 4 b) OR drop_bit 6 (c :: u8)"
  by (rule bit_eqI, auto simp: bit_simps dest: bit_imp_le_length)+

lemma b64url_step:
  "take_bit 6 w = w \<Longrightarrow>
   b64url_loop L buf bits out (b64_char w # s) =
    (let buf = push_bit 6 buf OR ucast w; bits = bits + 6 in
     if 8 \<le> bits
     then let bits = bits - 8
          in b64url_loop L buf bits (out @ [ucast (drop_bit (unat bits) buf AND 0xFF)]) s
     else b64url_loop L buf bits out s)"
  by (simp only: b64url_loop.simps b64url_val_char option.case)

lemma b64url_steps:
  "take_bit 6 w = w \<Longrightarrow>
   b64url_loop L buf 0 out (b64_char w # s) = b64url_loop L (push_bit 6 buf OR ucast w) 6 out s"
  "take_bit 6 w = w \<Longrightarrow>
   b64url_loop L buf 6 out (b64_char w # s) =
     b64url_loop L (push_bit 6 buf OR ucast w) 4
       (out @ [ucast (drop_bit 4 (push_bit 6 buf OR ucast w) AND 0xFF)]) s"
  "take_bit 6 w = w \<Longrightarrow>
   b64url_loop L buf 4 out (b64_char w # s) =
     b64url_loop L (push_bit 6 buf OR ucast w) 2
       (out @ [ucast (drop_bit 2 (push_bit 6 buf OR ucast w) AND 0xFF)]) s"
  "take_bit 6 w = w \<Longrightarrow>
   b64url_loop L buf 2 out (b64_char w # s) =
     b64url_loop L (push_bit 6 buf OR ucast w) 0
       (out @ [ucast (drop_bit 0 (push_bit 6 buf OR ucast w) AND 0xFF)]) s"
  by (simp_all add: b64url_step Let_def del: b64url_loop.simps push_bit_numeral)

lemma b64_pair:
  "b64url_loop L buf 0 out
     (b64_char (drop_bit 2 a) # b64_char (push_bit 4 (take_bit 2 a) OR drop_bit 4 b) # s) =
   b64url_loop L
     (push_bit 6 (push_bit 6 buf OR ucast (drop_bit 2 a)) OR
      ucast (push_bit 4 (take_bit 2 a) OR drop_bit 4 b)) 4 (out @ [a]) s"
  by (simp only: b64url_steps b64_sextets b64_first_byte)

lemma b64_triple:
  "b64url_loop L buf 0 out
     (b64_char (drop_bit 2 a) # b64_char (push_bit 4 (take_bit 2 a) OR drop_bit 4 b) #
      b64_char (push_bit 2 (take_bit 4 b) OR drop_bit 6 c) # s) =
   b64url_loop L
     (push_bit 6 (push_bit 6 (push_bit 6 buf OR ucast (drop_bit 2 a)) OR
      ucast (push_bit 4 (take_bit 2 a) OR drop_bit 4 b)) OR
      ucast (push_bit 2 (take_bit 4 b) OR drop_bit 6 c)) 2 ((out @ [a]) @ [b]) s"
  by (simp only: b64_pair b64url_steps b64_sextets b64_second_byte)

lemma b64url_loop_encode: "b64url_loop L buf 0 out (b64url_encode bs) = Inr (out @ bs)"
proof (induction bs arbitrary: buf out rule: b64url_encode.induct)
  case 1
  then show ?case by simp
next
  case (2 a)
  show ?case using b64_pair [of L buf out a 0 "[]"] by simp
next
  case (3 a b)
  show ?case using b64_triple [of L buf out a b 0 "[]"] by simp
next
  case (4 a b c bs)
  have c: "take_bit 6 (take_bit 6 c) = take_bit 6 c" by simp
  show ?case
    unfolding b64url_encode.simps append_Cons append_Nil
    by (simp only: b64_triple b64url_steps c b64_third_byte 4 append_assoc append_Cons append_Nil)
qed

lemma b64_char_neq: "b64_char w \<noteq> CHR ''=''"
proof
  assume "b64_char w = CHR ''=''"
  then have "(of_char (b64_char w) :: nat) = 61" by simp
  then show False by (auto simp: b64_char_def Let_def split: if_splits)
qed

lemma b64url_encode_no_pad: "CHR ''='' \<notin> set (b64url_encode bs)"
  by (induction bs rule: b64url_encode.induct) (auto simp: b64_char_neq [symmetric])

lemma b64url_decode_encode: "b64url_decode L (b64url_encode bs @ replicate n CHR ''='') = Inr bs"
proof -
  have "b64url_encode bs = [] \<or> last (b64url_encode bs) \<noteq> CHR ''=''"
    using b64url_encode_no_pad [of bs] last_in_set by metis
  then show ?thesis
    by (simp only: b64url_decode_def trim_end_matches_plain b64url_loop_encode append_Nil)
qed

definition ascii :: "string \<Rightarrow> bool" where
  "ascii s \<longleftrightarrow> list_all (\<lambda>c. of_char c < (128 :: nat)) s"

lemma utf8_valid_str: "ascii s \<Longrightarrow> utf8_valid (str_bytes s)"
  by (rule utf8_valid_ascii)
    (auto simp: ascii_def str_bytes_def list_all_iff word_less_nat_alt unat_of_nat)

lemma b64_char_code:
  "of_char (b64_char w) < (128 :: nat)" "b64_char w \<noteq> dot"
proof -
  show l: "of_char (b64_char w) < (128 :: nat)"
    by (auto simp: b64_char_def Let_def)
  show "b64_char w \<noteq> dot"
  proof
    assume "b64_char w = dot"
    then have "(of_char (b64_char w) :: nat) = 46" by (simp add: dot_def)
    then show False by (auto simp: b64_char_def Let_def split: if_splits)
  qed
qed

lemma b64url_encode_ascii: "ascii (b64url_encode bs)" "dot \<notin> set (b64url_encode bs)"
  by (induction bs rule: b64url_encode.induct)
    (auto simp: ascii_def b64_char_code b64_char_code(2) [symmetric])

section \<open>Properties\<close>

text \<open>
  The TDX parser accepts exactly the documented layout.  A byte string parses
  to a quote iff it is the concatenation of the quote's header and report fields
  in the documented order and sizes (four reserved header bytes are free), the
  little-endian length of the signature data, signature, attestation key and
  certification data, followed by any further bytes; the header then names TDX
  and an ECDSA-P256 key.
\<close>

theorem tdx_parse_exact:
  "TdxQuote_parse bs = Inr q \<longleftrightarrow>
    (\<exists>rsv rest. tdx_wf q rsv \<and> bs = tdx_layout q rsv @ rest)"
proof
  assume "TdxQuote_parse bs = Inr q"
  then show "\<exists>rsv rest. tdx_wf q rsv \<and> bs = tdx_layout q rsv @ rest"
    using tdx_at_wf [of bs] tdx_at_layout [of bs] unfolding TdxQuote_parse_iff by blast
next
  assume "\<exists>rsv rest. tdx_wf q rsv \<and> bs = tdx_layout q rsv @ rest"
  then show "TdxQuote_parse bs = Inr q"
    unfolding TdxQuote_parse_iff using layout_tdx_at by blast
qed

text \<open>
  GPU tokens round-trip: for any ASCII header without a dot, any payload bytes
  the JSON parser accepts and any signature bytes, the compact serialization with
  base64url parts, with any padding after the signature, parses to that payload
  and signature, and the signed message is the header and the encoded payload
  joined by a dot.
\<close>

theorem jws_roundtrip:
  assumes "ascii hdr" "dot \<notin> set hdr" "nv_json L pl = Inr payload"
  shows "NvidiaQuote_parse L (str_bytes
      (hdr @ dot # b64url_encode pl @ dot # b64url_encode sig @ replicate n CHR ''='')) =
    Inr \<lparr>nv_payload = payload, nv_signature = sig,
         signed_message = str_bytes (hdr @ dot # b64url_encode pl)\<rparr>"
proof -
  let ?sg = "b64url_encode sig @ replicate n CHR ''=''"
  let ?s = "hdr @ dot # b64url_encode pl @ dot # ?sg"
  have nodot: "dot \<notin> set ?sg" using b64url_encode_ascii(2) [of sig] by (auto simp: dot_def)
  have "ascii ?s"
    using assms(1) b64url_encode_ascii(1) [of pl] b64url_encode_ascii(1) [of sig]
    by (auto simp: ascii_def dot_def list_all_iff)
  then have v: "utf8_valid (str_bytes ?s)" by (rule utf8_valid_str)
  have parts: "split_char dot ?s = [hdr, b64url_encode pl, ?sg]"
    using assms(2) nodot b64url_encode_ascii(2) [of pl]
    by (simp only: split_char_append split_char_plain not_False_eq_True)
  show ?thesis
    using v assms(3) b64url_decode_encode [of L pl 0] b64url_decode_encode [of L sig n]
    unfolding NvidiaQuote_parse_def Let_def chars_str_bytes parts by simp
qed

theorem jws_roundtrip_witness:
  "\<exists>L payload. nv_json L [1, 2] = Inr payload \<and> ascii ''hdr'' \<and> dot \<notin> set ''hdr'' \<and>
    NvidiaQuote_parse L (str_bytes
      (''hdr'' @ dot # b64url_encode [1, 2] @ dot # b64url_encode [255, 0, 7] @ replicate 2 CHR ''='')) =
    Inr \<lparr>nv_payload = payload, nv_signature = [255, 0, 7],
         signed_message = str_bytes (''hdr'' @ dot # b64url_encode [1, 2])\<rparr>"
proof -
  define payload where "payload = \<lparr>nv_nonce = ''ab'', arch = ''Hopper'', gpu_uuid = [],
    vbios_version = [], driver_version = [], measurement_hex = ''00'', nv_extra = []\<rparr>"
  define L where "L = \<lparr>nv_json = (\<lambda>_. Inr payload), char_debug = (\<lambda>s. s)\<rparr>"
  have j: "nv_json L [1, 2] = Inr payload" and h: "ascii ''hdr''" "dot \<notin> set ''hdr''"
    by (simp_all add: L_def ascii_def dot_def)
  show ?thesis using j h jws_roundtrip [OF h j, of "[255, 0, 7]" 2] by blast
qed

end
