(* ===== verification/Attest.thy ===== *)
theory Attest
  imports Quotes Primitives
begin

text \<open>
  \<open>ullm-attest\<close>: evidence, the verifier interface with its two implementations
  (\<open>mock.rs\<close> and \<open>real_verifier.rs\<close>) and the vendor signature checks
  (\<open>signature.rs\<close>).  The ECDSA crates and \<open>postcard\<close> are arguments.  The
  interface is the locale \<open>attestation_verifier\<close>: what an accepting verifier
  promises its clients, proved for both implementations.  Shown: what exactly
  each verifier accepts, in terms of the raw bytes of the quote.
\<close>

section \<open>evidence.rs and verifier.rs\<close>

datatype QuoteKind = QK_Tdx | QK_Snp | QK_Mock

record Evidence =
  cpu_quote_kind :: QuoteKind
  cpu_quote :: bytes
  gpu_quote :: bytes
  cert_chain :: "bytes list"
  ev_report_data :: bytes
  issued_at_unix :: u64

record evidence_codec =
  ev_to_allocvec :: "Evidence \<Rightarrow> string + bytes"
  ev_from_bytes :: "bytes \<Rightarrow> string + Evidence"

definition encode_evidence :: "evidence_codec \<Rightarrow> Evidence \<Rightarrow> bytes result" where
  "encode_evidence C ev = map_err Serde (ev_to_allocvec C ev)"

definition decode_evidence :: "evidence_codec \<Rightarrow> bytes \<Rightarrow> Evidence result" where
  "decode_evidence C bs = map_err Serde (ev_from_bytes C bs)"

record VerificationContext =
  expected_report_data :: bytes
  now_unix :: u64
  max_age_sec :: u64

text \<open>The trait object: a verifier is its two methods.\<close>

record Verifier =
  v_verify :: "Evidence \<Rightarrow> VerificationContext \<Rightarrow> unit result"
  v_attestation_identity :: "Evidence \<Rightarrow> bytes option"

text \<open>\<open>u64::saturating_sub\<close>.\<close>

definition saturating_sub :: "u64 \<Rightarrow> u64 \<Rightarrow> u64" where
  "saturating_sub a b = (if b \<le> a then a - b else 0)"

section \<open>mock.rs\<close>

record MockIssuer =
  mi_signing :: bytes

definition MockIssuer_random :: "'r prims \<Rightarrow> 'r \<Rightarrow> MockIssuer \<times> 'r" where
  "MockIssuer_random P rng = (let (sk, rng) = rng_fill P 32 rng in (\<lparr>mi_signing = sk\<rparr>, rng))"

definition MockIssuer_verifying_key :: "'r prims \<Rightarrow> MockIssuer \<Rightarrow> bytes" where
  "MockIssuer_verifying_key P i = ed25519_public P (mi_signing i)"

definition MockIssuer_issue :: "'r prims \<Rightarrow> MockIssuer \<Rightarrow> bytes \<Rightarrow> u64 \<Rightarrow> Evidence" where
  "MockIssuer_issue P i report_data now =
    (let msg = report_data @ u64_to_be now;
         sig = ed25519_sign P (mi_signing i) msg
     in \<lparr>cpu_quote_kind = QK_Mock, cpu_quote = sig, gpu_quote = [],
         cert_chain = [ed25519_public P (mi_signing i)],
         ev_report_data = report_data, issued_at_unix = now\<rparr>)"

record MockVerifier =
  mv_trust_root :: bytes

definition MockVerifier_verify ::
  "'r prims \<Rightarrow> MockVerifier \<Rightarrow> Evidence \<Rightarrow> VerificationContext \<Rightarrow> unit result" where
  "MockVerifier_verify P v ev ctx =
    (if cpu_quote_kind ev \<noteq> QK_Mock then Inl (AttestationFailed ''expected mock quote kind'')
     else if ev_report_data ev \<noteq> expected_report_data ctx
     then Inl (AttestationFailed ''report_data mismatch'')
     else if saturating_sub (now_unix ctx) (issued_at_unix ev) > max_age_sec ctx
     then Inl (StaleAttestation (max_age_sec ctx))
     else case cert_chain ev of
       [] \<Rightarrow> Inl (AttestationFailed ''missing cert'')
     | cert # _ \<Rightarrow>
         if length cert \<noteq> 32 then Inl (AttestationFailed ''bad cert length'')
         else if cert \<noteq> mv_trust_root v
         then Inl (AttestationFailed ''untrusted attestation key'')
         else if length (cpu_quote ev) \<noteq> 64
         then Inl (AttestationFailed ''bad signature length'')
         else let msg = ev_report_data ev @ u64_to_be (issued_at_unix ev) in
           if ed25519_verify P (mv_trust_root v) msg (cpu_quote ev) then Inr ()
           else Inl (AttestationFailed ''bad signature''))"

definition MockVerifier_attestation_identity ::
  "'r prims \<Rightarrow> MockVerifier \<Rightarrow> Evidence \<Rightarrow> bytes option" where
  "MockVerifier_attestation_identity P v ev =
    Some (sha256 P (str_bytes ''ullm/mock-verifier/v1'' @ mv_trust_root v @ ev_report_data ev))"

section \<open>signature.rs\<close>

text \<open>
  A curve crate: \<open>from_sec1_bytes\<close> and \<open>from_slice\<close> accept an encoding or not,
  \<open>normalize_s\<close> is \<open>Some\<close> for a signature in the high half.
\<close>

record ecdsa_curve =
  sec1_ok :: "bytes \<Rightarrow> bool"
  sig_ok :: "bytes \<Rightarrow> bool"
  normalize_s :: "bytes \<Rightarrow> bytes option"
  ecdsa_verify :: "bytes \<Rightarrow> bytes \<Rightarrow> bytes \<Rightarrow> bool"

record attest_lib =
  al_nv :: nv_lib
  p256 :: ecdsa_curve
  p384 :: ecdsa_curve

definition unwrap_or :: "'a option \<Rightarrow> 'a \<Rightarrow> 'a" where
  "unwrap_or m d = (case m of None \<Rightarrow> d | Some x \<Rightarrow> x)"

definition tdx_signed_body :: "bytes \<Rightarrow> bytes result" where
  "tdx_signed_body quote_bytes =
    (let need = HEADER_LEN + TD_REPORT_LEN in
     if length quote_bytes < need
     then Inl (AttestationFailed (''tdx quote shorter than signed-body length ('' @ dec need @ '' bytes)''))
     else Inr (take need quote_bytes))"

definition tdx_sig_failed :: Error where
  "tdx_sig_failed = AttestationFailed ''tdx signature verification failed''"

definition verify_tdx_quote_signature :: "attest_lib \<Rightarrow> TdxQuote \<Rightarrow> bytes \<Rightarrow> unit result" where
  "verify_tdx_quote_signature L quote raw =
    rbind (tdx_signed_body raw) (\<lambda>body.
      let sec1 = 0x04 # attestation_key (tdx_signature quote);
          sig = ecdsa_signature (tdx_signature quote) in
      if \<not> sec1_ok (p256 L) sec1 then Inl tdx_sig_failed
      else if \<not> sig_ok (p256 L) sig then Inl tdx_sig_failed
      else let sig = unwrap_or (normalize_s (p256 L) sig) sig in
        if ecdsa_verify (p256 L) sec1 body sig then Inr () else Inl tdx_sig_failed)"

definition SNP_SIGNED_PREFIX :: nat where "SNP_SIGNED_PREFIX = 0x2A0"

definition snp_signed_body :: "bytes \<Rightarrow> bytes result" where
  "snp_signed_body report_bytes =
    (if length report_bytes < REPORT_LEN
     then Inl (AttestationFailed (''snp report shorter than '' @ dec REPORT_LEN @ '' bytes''))
     else Inr (take SNP_SIGNED_PREFIX report_bytes))"

definition snp_sig_failed :: Error where
  "snp_sig_failed = AttestationFailed ''snp signature verification failed''"

text \<open>The copy loop that turns AMD's little-endian components into big-endian ones.\<close>

definition snp_sig_bytes :: "bytes \<Rightarrow> bytes" where
  "snp_sig_bytes sig_block =
    map (\<lambda>i. sig_block ! (47 - i)) [0..<48] @ map (\<lambda>i. sig_block ! (0x48 + 47 - i)) [0..<48]"

definition verify_snp_report_signature ::
  "attest_lib \<Rightarrow> SnpReport \<Rightarrow> bytes \<Rightarrow> bytes \<Rightarrow> unit result" where
  "verify_snp_report_signature L report raw vcek =
    rbind (snp_signed_body raw) (\<lambda>body.
      if \<not> sec1_ok (p384 L) vcek then Inl snp_sig_failed
      else let sig_block = snp_signature report in
        if length sig_block < SIGNATURE_LEN
        then Inl (AttestationFailed ''snp signature block truncated'')
        else let sig = snp_sig_bytes sig_block in
          if \<not> sig_ok (p384 L) sig then Inl snp_sig_failed
          else let sig = unwrap_or (normalize_s (p384 L) sig) sig in
            if ecdsa_verify (p384 L) vcek body sig then Inr () else Inl snp_sig_failed)"

section \<open>real_verifier.rs\<close>

record MeasurementPolicy =
  allowed_mrtd :: "bytes set"
  allowed_snp_measurement :: "bytes set"
  allowed_nvidia_measurements_hex :: "string set"

record RealVerifier =
  rv_policy :: MeasurementPolicy
  check_signatures :: bool

definition RealVerifier_new :: "MeasurementPolicy \<Rightarrow> RealVerifier" where
  "RealVerifier_new pol = \<lparr>rv_policy = pol, check_signatures = False\<rparr>"

definition with_signature_check :: "RealVerifier \<Rightarrow> bool \<Rightarrow> RealVerifier" where
  "with_signature_check v on = v\<lparr>check_signatures := on\<rparr>"

definition attest_hex :: "bytes \<Rightarrow> string" where
  "attest_hex b = concat (map (\<lambda>c. [digit_char (unat c div 16), digit_char (unat c mod 16)]) b)"

definition real_check_tdx :: "attest_lib \<Rightarrow> RealVerifier \<Rightarrow> Evidence \<Rightarrow> unit result" where
  "real_check_tdx L v ev =
    rbind (TdxQuote_parse (cpu_quote ev)) (\<lambda>q.
      if tdx_report_data q \<noteq> ev_report_data ev
      then Inl (AttestationFailed ''TDX REPORT_DATA != envelope report_data'')
      else if allowed_mrtd (rv_policy v) \<noteq> {} \<and> mrtd (td_report q) \<notin> allowed_mrtd (rv_policy v)
      then Inl (AttestationFailed (''MRTD '' @ attest_hex (mrtd (td_report q)) @ '' not in allowlist''))
      else if check_signatures v then verify_tdx_quote_signature L q (cpu_quote ev)
      else Inr ())"

definition real_check_snp :: "RealVerifier \<Rightarrow> Evidence \<Rightarrow> unit result" where
  "real_check_snp v ev =
    rbind (SnpReport_parse (cpu_quote ev)) (\<lambda>r.
      if snp_report_data r \<noteq> ev_report_data ev
      then Inl (AttestationFailed ''SNP REPORT_DATA != envelope report_data'')
      else if allowed_snp_measurement (rv_policy v) \<noteq> {} \<and>
              measurement r \<notin> allowed_snp_measurement (rv_policy v)
      then Inl (AttestationFailed (''SNP MEASUREMENT '' @ attest_hex (measurement r) @ '' not in allowlist''))
      else Inr ())"

definition real_check_gpu :: "attest_lib \<Rightarrow> RealVerifier \<Rightarrow> Evidence \<Rightarrow> unit result" where
  "real_check_gpu L v ev =
    (if gpu_quote ev = [] then Inr ()
     else rbind (NvidiaQuote_parse (al_nv L) (gpu_quote ev)) (\<lambda>nv.
       let m = measurement_hex (nv_payload nv); allowed = allowed_nvidia_measurements_hex (rv_policy v) in
       if allowed \<noteq> {} \<and> m \<notin> allowed
       then Inl (AttestationFailed (''NVIDIA measurement '' @ m @ '' not in allowlist''))
       else Inr ()))"

definition RealVerifier_verify ::
  "attest_lib \<Rightarrow> RealVerifier \<Rightarrow> Evidence \<Rightarrow> VerificationContext \<Rightarrow> unit result" where
  "RealVerifier_verify L v ev ctx =
    (if saturating_sub (now_unix ctx) (issued_at_unix ev) > max_age_sec ctx
     then Inl (StaleAttestation (max_age_sec ctx))
     else if ev_report_data ev \<noteq> expected_report_data ctx
     then Inl (AttestationFailed ''report_data mismatch'')
     else rbind
       (case cpu_quote_kind ev of
          QK_Tdx \<Rightarrow> real_check_tdx L v ev
        | QK_Snp \<Rightarrow> real_check_snp v ev
        | QK_Mock \<Rightarrow> Inl (AttestationFailed ''RealVerifier received a Mock quote''))
       (\<lambda>_. real_check_gpu L v ev))"

definition nras_material :: "attest_lib \<Rightarrow> Evidence \<Rightarrow> bytes" where
  "nras_material L ev =
    (if gpu_quote ev = [] then []
     else case NvidiaQuote_parse (al_nv L) (gpu_quote ev) of
       Inl _ \<Rightarrow> []
     | Inr nv \<Rightarrow> str_bytes ''|nras|'' @ signed_message nv @ nv_signature nv)"

definition RealVerifier_attestation_identity ::
  "'r prims \<Rightarrow> attest_lib \<Rightarrow> Evidence \<Rightarrow> bytes option" where
  "RealVerifier_attestation_identity P L ev =
    (case cpu_quote_kind ev of
       QK_Tdx \<Rightarrow>
         (case TdxQuote_parse (cpu_quote ev) of
            Inl _ \<Rightarrow> None
          | Inr q \<Rightarrow> Some (sha256 P (str_bytes ''ullm/attest-id/tdx/v1'' @
              attestation_key (tdx_signature q) @ cert_data (tdx_signature q) @ nras_material L ev)))
     | QK_Snp \<Rightarrow>
         (case SnpReport_parse (cpu_quote ev) of
            Inl _ \<Rightarrow> None
          | Inr r \<Rightarrow> Some (sha256 P (str_bytes ''ullm/attest-id/snp/v1'' @
              chip_id r @ snp_signature r @ nras_material L ev)))
     | QK_Mock \<Rightarrow> None)"

section \<open>The verifier interface\<close>

definition fresh :: "Evidence \<Rightarrow> VerificationContext \<Rightarrow> bool" where
  "fresh ev ctx \<longleftrightarrow> saturating_sub (now_unix ctx) (issued_at_unix ev) \<le> max_age_sec ctx"

lemma unat_saturating_sub: "unat (saturating_sub a b) = unat a - unat b"
  by (auto simp: saturating_sub_def unat_sub word_le_nat_alt)

lemma fresh_iff:
  "fresh ev ctx \<longleftrightarrow> unat (now_unix ctx) \<le> unat (issued_at_unix ev) + unat (max_age_sec ctx)"
  by (auto simp: fresh_def word_le_nat_alt unat_saturating_sub)

text \<open>
  What accepting means to a client: the evidence is bound to the expected payload,
  not older than allowed, and has an identity.
\<close>

locale attestation_verifier =
  fixes verify :: "Evidence \<Rightarrow> VerificationContext \<Rightarrow> unit result"
    and identity :: "Evidence \<Rightarrow> bytes option"
  assumes binds: "verify ev ctx = Inr () \<Longrightarrow> ev_report_data ev = expected_report_data ctx"
    and is_fresh: "verify ev ctx = Inr () \<Longrightarrow> fresh ev ctx"
    and identified: "verify ev ctx = Inr () \<Longrightarrow> identity ev \<noteq> None"
begin

lemma not_transferable:
  "verify ev ctx = Inr () \<Longrightarrow> expected_report_data ctx' \<noteq> expected_report_data ctx \<Longrightarrow>
   verify ev ctx' \<noteq> Inr ()"
  using binds [of ev ctx] binds [of ev ctx'] by auto

lemma expires:
  "unat (issued_at_unix ev) + unat (max_age_sec ctx) < unat (now_unix ctx) \<Longrightarrow> verify ev ctx \<noteq> Inr ()"
  using is_fresh [of ev ctx] by (auto simp: fresh_iff)

end

lemma MockVerifier_verify_iff:
  "MockVerifier_verify P v ev ctx = Inr () \<longleftrightarrow>
    cpu_quote_kind ev = QK_Mock \<and> ev_report_data ev = expected_report_data ctx \<and> fresh ev ctx \<and>
    (\<exists>rest. cert_chain ev = mv_trust_root v # rest) \<and> length (mv_trust_root v) = 32 \<and>
    length (cpu_quote ev) = 64 \<and>
    ed25519_verify P (mv_trust_root v) (ev_report_data ev @ u64_to_be (issued_at_unix ev)) (cpu_quote ev)"
  by (cases "cert_chain ev")
    (auto simp: MockVerifier_verify_def fresh_def not_less Let_def)

interpretation mock: attestation_verifier
  "MockVerifier_verify P v" "MockVerifier_attestation_identity P v" for P v
  by unfold_locales (auto simp: MockVerifier_verify_iff MockVerifier_attestation_identity_def)

lemma MockIssuer_issue_accepted:
  assumes "ed25519_law P"
  shows "MockVerifier_verify P v (MockIssuer_issue P i rd t) ctx = Inr () \<longleftrightarrow>
    mv_trust_root v = MockIssuer_verifying_key P i \<and> rd = expected_report_data ctx \<and>
    unat (now_unix ctx) \<le> unat t + unat (max_age_sec ctx)"
  using assms
  by (auto simp: MockVerifier_verify_iff MockIssuer_issue_def MockIssuer_verifying_key_def Let_def
      fresh_iff ed25519_law_def)

definition tdx_sig_valid :: "attest_lib \<Rightarrow> bytes \<Rightarrow> bool" where
  "tdx_sig_valid L raw \<longleftrightarrow>
    (let key = 0x04 # bslice 700 64 raw; sig = bslice 636 64 raw in
     sec1_ok (p256 L) key \<and> sig_ok (p256 L) sig \<and>
     ecdsa_verify (p256 L) key (take 632 raw) (unwrap_or (normalize_s (p256 L) sig) sig))"

lemma verify_tdx_quote_signature_iff:
  "632 \<le> length raw \<Longrightarrow>
   verify_tdx_quote_signature L (tdx_at raw) raw = Inr () \<longleftrightarrow> tdx_sig_valid L raw"
  by (simp add: verify_tdx_quote_signature_def tdx_signed_body_def HEADER_LEN_def TD_REPORT_LEN_def
      tdx_at_def tdx_sig_valid_def Let_def)

lemma real_check_tdx_iff:
  "real_check_tdx L v ev = Inr () \<longleftrightarrow>
    TdxQuote_parse (cpu_quote ev) = Inr (tdx_at (cpu_quote ev)) \<and>
    bslice 568 64 (cpu_quote ev) = ev_report_data ev \<and>
    (allowed_mrtd (rv_policy v) = {} \<or> bslice 184 48 (cpu_quote ev) \<in> allowed_mrtd (rv_policy v)) \<and>
    (check_signatures v \<longrightarrow> tdx_sig_valid L (cpu_quote ev))"
proof (cases "TdxQuote_parse (cpu_quote ev)")
  case (Inl e)
  then show ?thesis by (simp add: real_check_tdx_def)
next
  case (Inr q)
  then have q: "q = tdx_at (cpu_quote ev)" and len: "632 \<le> length (cpu_quote ev)"
    by (simp_all add: TdxQuote_parse_iff)
  show ?thesis
    using Inr verify_tdx_quote_signature_iff [OF len, of L] unfolding q
    by (auto simp: real_check_tdx_def tdx_report_data_def tdx_at_def td_report_at_def)
qed

lemma real_check_snp_iff:
  "real_check_snp v ev = Inr () \<longleftrightarrow>
    1184 \<le> length (cpu_quote ev) \<and> bslice 80 64 (cpu_quote ev) = ev_report_data ev \<and>
    (allowed_snp_measurement (rv_policy v) = {} \<or>
     bslice 144 48 (cpu_quote ev) \<in> allowed_snp_measurement (rv_policy v))"
proof (cases "1184 \<le> length (cpu_quote ev)")
  case True
  then show ?thesis by (auto simp: real_check_snp_def SnpReport_parse_at snp_at_def)
next
  case False
  then show ?thesis by (simp add: real_check_snp_def SnpReport_parse_def REPORT_LEN_def)
qed

lemma real_check_gpu_iff:
  "real_check_gpu L v ev = Inr () \<longleftrightarrow>
    gpu_quote ev = [] \<or>
    (\<exists>nv. NvidiaQuote_parse (al_nv L) (gpu_quote ev) = Inr nv \<and>
      (allowed_nvidia_measurements_hex (rv_policy v) = {} \<or>
       measurement_hex (nv_payload nv) \<in> allowed_nvidia_measurements_hex (rv_policy v)))"
  by (auto simp: real_check_gpu_def result_simps Let_def)

lemma RealVerifier_verify_iff:
  "RealVerifier_verify L v ev ctx = Inr () \<longleftrightarrow>
    fresh ev ctx \<and> ev_report_data ev = expected_report_data ctx \<and>
    (case cpu_quote_kind ev of
       QK_Tdx \<Rightarrow> real_check_tdx L v ev = Inr ()
     | QK_Snp \<Rightarrow> real_check_snp v ev = Inr ()
     | QK_Mock \<Rightarrow> False) \<and> real_check_gpu L v ev = Inr ()"
  by (auto simp: RealVerifier_verify_def fresh_def result_simps not_less split: QuoteKind.splits)

interpretation real: attestation_verifier
  "RealVerifier_verify L v" "RealVerifier_attestation_identity P L" for L v P
  by unfold_locales
    (auto simp: RealVerifier_verify_iff RealVerifier_attestation_identity_def real_check_tdx_iff
      real_check_snp_iff SnpReport_parse_at split: QuoteKind.splits)

lemma snp_identity:
  assumes "cpu_quote_kind ev = QK_Snp" "1184 \<le> length (cpu_quote ev)" "gpu_quote ev = []"
  shows "RealVerifier_attestation_identity P L ev =
    Some (sha256 P (str_bytes ''ullm/attest-id/snp/v1'' @ bslice 416 64 (cpu_quote ev) @
      bslice 672 512 (cpu_quote ev)))"
  using assms
  by (simp add: RealVerifier_attestation_identity_def SnpReport_parse_at snp_at_def nras_material_def)

section \<open>Property\<close>

text \<open>
  C24. What the hardware verifier accepts, in terms of the raw evidence.  It accepts
  iff the evidence is no older than allowed, its payload is the expected one, and
  the quote is either a well-formed TDX quote whose bytes from 568 on are that
  payload, whose bytes from 184 on are an allowed measurement and, when
  signatures are checked, whose signature by the embedded key over the first 632
  bytes is valid; or an SNP report of at least 1184 bytes with the payload at 80
  and an allowed measurement at 144; and the GPU token, if any, parses with an
  allowed measurement.  An empty allowlist admits every measurement.
\<close>

theorem real_verifier_exact:
  "RealVerifier_verify L v ev ctx = Inr () \<longleftrightarrow>
    unat (now_unix ctx) \<le> unat (issued_at_unix ev) + unat (max_age_sec ctx) \<and>
    ev_report_data ev = expected_report_data ctx \<and>
    (let quote = cpu_quote ev; pol = rv_policy v in
     (cpu_quote_kind ev = QK_Tdx \<and> is_ok (TdxQuote_parse quote) \<and>
      bslice 568 64 quote = expected_report_data ctx \<and>
      (allowed_mrtd pol = {} \<or> bslice 184 48 quote \<in> allowed_mrtd pol) \<and>
      (check_signatures v \<longrightarrow> tdx_sig_valid L quote)) \<or>
     (cpu_quote_kind ev = QK_Snp \<and> 1184 \<le> length quote \<and>
      bslice 80 64 quote = expected_report_data ctx \<and>
      (allowed_snp_measurement pol = {} \<or> bslice 144 48 quote \<in> allowed_snp_measurement pol))) \<and>
    (gpu_quote ev = [] \<or>
     (\<exists>nv. NvidiaQuote_parse (al_nv L) (gpu_quote ev) = Inr nv \<and>
       (allowed_nvidia_measurements_hex (rv_policy v) = {} \<or>
        measurement_hex (nv_payload nv) \<in> allowed_nvidia_measurements_hex (rv_policy v))))"
proof -
  have "TdxQuote_parse q = Inr (tdx_at q) \<longleftrightarrow> is_ok (TdxQuote_parse q)" for q
    by (auto simp: is_ok_iff TdxQuote_parse_iff)
  then show ?thesis
    unfolding RealVerifier_verify_iff fresh_iff real_check_gpu_iff Let_def
    by (cases "cpu_quote_kind ev") (auto simp: real_check_tdx_iff real_check_snp_iff)
qed

theorem real_verifier_exact_witness:
  "\<exists>L. RealVerifier_verify L
    (RealVerifier_new \<lparr>allowed_mrtd = {replicate 48 9}, allowed_snp_measurement = {},
       allowed_nvidia_measurements_hex = {}\<rparr>)
    \<lparr>cpu_quote_kind = QK_Tdx, cpu_quote = synthesize_quote (replicate 64 7) (replicate 48 9),
     gpu_quote = [], cert_chain = [], ev_report_data = replicate 64 7, issued_at_unix = 100\<rparr>
    \<lparr>expected_report_data = replicate 64 7, now_unix = 130, max_age_sec = 60\<rparr> = Inr ()"
proof -
  let ?raw = "synthesize_quote (replicate 64 7) (replicate 48 9)"
  obtain q where q: "TdxQuote_parse ?raw = Inr q" "tdx_report_data q = replicate 64 7"
    "mrtd (td_report q) = replicate 48 9"
    using synthesize_quote_parses [of "replicate 64 7" "replicate 48 9"]
    by auto
  have "bslice 568 64 ?raw = replicate 64 7" "bslice 184 48 ?raw = replicate 48 9"
    using q by (auto simp: TdxQuote_parse_iff tdx_at_def td_report_at_def tdx_report_data_def)
  then show ?thesis
    using q(1) by (simp add: real_verifier_exact RealVerifier_new_def)
qed

end
