(* ===== verification/Federation.thy ===== *)
theory Federation
  imports Attest Codecs
begin

text \<open>
  \<open>ullm-federation\<close>: k-of-n attestation over slots with their own verifiers
  (\<open>multi_vendor.rs\<close>), admission by reproducible build (\<open>build.rs\<close>) and the choice
  of vendor-disjoint providers (\<open>pool.rs\<close>).  The slots' verifiers are used
  through the locale \<open>attestation_verifier\<close>.  Shown: an accepted set of evidence
  holds the threshold of distinct identities and of distinct vendor labels, all
  bound to the expected payload; a plan exists iff enough vendors are healthy;
  and one TDX node can fill two slots by attaching an unsigned GPU token.
\<close>

section \<open>multi\_vendor.rs\<close>

datatype VendorKind = VK_Tdx | VK_Snp | VK_Nvidia | VK_Arm | VK_Mock

fun VendorKind_debug :: "VendorKind \<Rightarrow> string" where
  "VendorKind_debug VK_Tdx = ''Tdx''"
| "VendorKind_debug VK_Snp = ''Snp''"
| "VendorKind_debug VK_Nvidia = ''Nvidia''"
| "VendorKind_debug VK_Arm = ''Arm''"
| "VendorKind_debug VK_Mock = ''Mock''"

definition admits_cpu_kind :: "VendorKind \<Rightarrow> QuoteKind \<Rightarrow> bool" where
  "admits_cpu_kind v k \<longleftrightarrow>
    (if k = QK_Mock then True
     else case (v, k) of
       (VK_Tdx, QK_Tdx) \<Rightarrow> True
     | (VK_Snp, QK_Snp) \<Rightarrow> True
     | (VK_Nvidia, QK_Tdx) \<Rightarrow> True
     | (VK_Nvidia, QK_Snp) \<Rightarrow> True
     | (VK_Arm, QK_Tdx) \<Rightarrow> True
     | (VK_Arm, QK_Snp) \<Rightarrow> True
     | _ \<Rightarrow> False)"

record VendorVerifier =
  vv_kind :: VendorKind
  vv_verifier :: Verifier

definition VendorVerifier_new :: "VendorKind \<Rightarrow> Verifier \<Rightarrow> VendorVerifier" where
  "VendorVerifier_new kind v = \<lparr>vv_kind = kind, vv_verifier = v\<rparr>"

record MultiVendorVerifier =
  mv_verifiers :: "VendorVerifier list"
  threshold_k :: nat

text \<open>The duplicate check: the first label already in the set stops the construction.\<close>

fun first_duplicate :: "VendorKind set \<Rightarrow> VendorVerifier list \<Rightarrow> VendorKind option" where
  "first_duplicate kinds [] = None"
| "first_duplicate kinds (v # vs) =
    (if vv_kind v \<in> kinds then Some (vv_kind v) else first_duplicate (insert (vv_kind v) kinds) vs)"

definition em_dash :: string where "em_dash = [CHR 0xE2, CHR 0x80, CHR 0x94]"

definition MultiVendorVerifier_new :: "VendorVerifier list \<Rightarrow> nat \<Rightarrow> MultiVendorVerifier result" where
  "MultiVendorVerifier_new verifiers k =
    (if k = 0 \<or> k > length verifiers
     then Inl (Other (''threshold_k='' @ dec k @ '' invalid for n='' @ dec (length verifiers)))
     else case first_duplicate {} verifiers of
       Some kind \<Rightarrow> Inl (Other (''duplicate vendor kind '' @ VendorKind_debug kind @ '' '' @ em_dash @
         '' federation requires disjoint vendors''))
     | None \<Rightarrow> Inr \<lparr>mv_verifiers = verifiers, threshold_k = k\<rparr>)"

text \<open>One pass of the loop over slots and evidence, on the two sets it fills.\<close>

definition mv_step ::
  "VerificationContext \<Rightarrow> VendorVerifier \<times> Evidence \<Rightarrow> VendorKind set \<times> bytes set \<Rightarrow>
   VendorKind set \<times> bytes set" where
  "mv_step ctx se st =
    (let (slot, ev) = se; (kinds, ids) = st in
     if \<not> admits_cpu_kind (vv_kind slot) (cpu_quote_kind ev) then (kinds, ids)
     else if \<not> is_ok (v_verify (vv_verifier slot) ev ctx) then (kinds, ids)
     else case v_attestation_identity (vv_verifier slot) ev of
       None \<Rightarrow> (kinds, ids)
     | Some i \<Rightarrow> if i \<in> ids then (kinds, ids) else (insert (vv_kind slot) kinds, insert i ids))"

fun mv_loop ::
  "VerificationContext \<Rightarrow> (VendorVerifier \<times> Evidence) list \<Rightarrow> VendorKind set \<times> bytes set \<Rightarrow>
   VendorKind set \<times> bytes set" where
  "mv_loop ctx [] st = st"
| "mv_loop ctx (se # ses) st = mv_loop ctx ses (mv_step ctx se st)"

definition MultiVendorVerifier_verify ::
  "MultiVendorVerifier \<Rightarrow> Evidence list \<Rightarrow> VerificationContext \<Rightarrow> VendorKind set result" where
  "MultiVendorVerifier_verify mv evidences ctx =
    (if length evidences \<noteq> length (mv_verifiers mv)
     then Inl (Other (''expected '' @ dec (length (mv_verifiers mv)) @ '' evidences, got '' @
            dec (length evidences)))
     else let (kinds, ids) = mv_loop ctx (zip (mv_verifiers mv) evidences) ({}, {}) in
       if card ids < threshold_k mv
       then Inl (AttestationFailed (''k-of-n failed: '' @ dec (card ids) @
              '' distinct attestation identities, threshold '' @ dec (threshold_k mv)))
       else Inr kinds)"

section \<open>build.rs\<close>

type_synonym BuildHash = bytes

definition BuildHash_of :: "'r prims \<Rightarrow> bytes \<Rightarrow> BuildHash" where
  "BuildHash_of P image_bytes = sha256 P image_bytes"

record ProviderManifest =
  provider_id :: string
  build_hash :: BuildHash
  region :: string

record ReproducibleBuildVerifier =
  rb_inner :: Verifier
  allowed_builds :: "BuildHash set"

definition ReproducibleBuildVerifier_new :: "Verifier \<Rightarrow> BuildHash list \<Rightarrow> ReproducibleBuildVerifier" where
  "ReproducibleBuildVerifier_new inner allowed = \<lparr>rb_inner = inner, allowed_builds = set allowed\<rparr>"

definition ReproducibleBuildVerifier_verify ::
  "codecs \<Rightarrow> ReproducibleBuildVerifier \<Rightarrow> Evidence \<Rightarrow> VerificationContext \<Rightarrow> unit result" where
  "ReproducibleBuildVerifier_verify J v ev ctx =
    rbind (v_verify (rb_inner v) ev ctx) (\<lambda>_.
    if cert_chain ev = [] then Inl (AttestationFailed ''missing build-hash carrier'')
    else let carrier = last (cert_chain ev) in
      if length carrier \<noteq> 32 then Inl (AttestationFailed ''build-hash carrier must be 32 bytes'')
      else if carrier \<notin> allowed_builds v
      then Inl (AttestationFailed (''build hash '' @ hex_encode J carrier @ '' not in admission allowlist''))
      else Inr ())"

definition ReproducibleBuildVerifier_attestation_identity ::
  "ReproducibleBuildVerifier \<Rightarrow> Evidence \<Rightarrow> bytes option" where
  "ReproducibleBuildVerifier_attestation_identity v ev = v_attestation_identity (rb_inner v) ev"

section \<open>pool.rs\<close>

record Provider =
  pv_manifest :: ProviderManifest
  pv_vendor :: VendorKind
  pv_url :: string
  healthy :: bool

record ProviderPool =
  pool_providers :: "Provider list"

record RoutingPlan =
  plan_providers :: "Provider list"

definition ProviderPool_new :: "Provider list \<Rightarrow> ProviderPool" where
  "ProviderPool_new ps = \<lparr>pool_providers = ps\<rparr>"

fun plan_loop ::
  "nat \<Rightarrow> Provider list \<Rightarrow> VendorKind set \<Rightarrow> Provider list \<Rightarrow> RoutingPlan result" where
  "plan_loop k chosen seen [] =
    Inl (Other (''only '' @ dec (length chosen) @ '' vendor-disjoint healthy providers; needed '' @ dec k))"
| "plan_loop k chosen seen (p # ps) =
    (if \<not> healthy p then plan_loop k chosen seen ps
     else if pv_vendor p \<in> seen then plan_loop k chosen seen ps
     else let chosen = chosen @ [p] in
       if length chosen = k then Inr \<lparr>plan_providers = chosen\<rparr>
       else plan_loop k chosen (insert (pv_vendor p) seen) ps)"

definition plan_disjoint :: "ProviderPool \<Rightarrow> nat \<Rightarrow> RoutingPlan result" where
  "plan_disjoint pool k =
    (if k = 0 then Inl (Other ''k must be > 0'') else plan_loop k [] {} (pool_providers pool))"

section \<open>Lemmas: providers\<close>

text \<open>The healthy providers that are the first of their vendor.\<close>

fun first_of_vendor :: "VendorKind set \<Rightarrow> Provider list \<Rightarrow> Provider list" where
  "first_of_vendor seen [] = []"
| "first_of_vendor seen (p # ps) =
    (if healthy p \<and> pv_vendor p \<notin> seen then p # first_of_vendor (insert (pv_vendor p) seen) ps
     else first_of_vendor seen ps)"

lemma plan_loop_eq:
  "length chosen < k \<Longrightarrow>
   plan_loop k chosen seen ps =
    (if k \<le> length chosen + length (first_of_vendor seen ps)
     then Inr \<lparr>plan_providers = chosen @ take (k - length chosen) (first_of_vendor seen ps)\<rparr>
     else Inl (Other (''only '' @ dec (length chosen + length (first_of_vendor seen ps)) @
            '' vendor-disjoint healthy providers; needed '' @ dec k)))"
proof (induction ps arbitrary: chosen seen)
  case Nil
  then show ?case by simp
next
  case (Cons p ps)
  show ?case
  proof (cases "healthy p \<and> pv_vendor p \<notin> seen")
    case False
    then show ?thesis using Cons by auto
  next
    case True
    show ?thesis
    proof (cases "Suc (length chosen) = k")
      case True
      then show ?thesis using \<open>healthy p \<and> pv_vendor p \<notin> seen\<close> by auto
    next
      case False
      then have lt: "length (chosen @ [p]) < k" using Cons.prems by simp
      obtain d where d: "k = Suc (Suc (length chosen + d))"
        using False Cons.prems by (metis Suc_leI add_Suc le_Suc_ex le_neq_implies_less)
      show ?thesis
        using \<open>healthy p \<and> pv_vendor p \<notin> seen\<close> Cons.IH [OF lt, of "insert (pv_vendor p) seen"] False
        unfolding d by simp
    qed
  qed
qed

lemma first_of_vendor_set:
  "pv_vendor ` set (first_of_vendor seen ps) = pv_vendor ` {p \<in> set ps. healthy p} - seen"
  by (induction ps arbitrary: seen) auto

lemma first_of_vendor_distinct: "distinct (map pv_vendor (first_of_vendor seen ps))"
proof (induction ps arbitrary: seen)
  case (Cons p ps)
  have "pv_vendor p \<notin> pv_vendor ` set (first_of_vendor (insert (pv_vendor p) seen) ps)"
    unfolding first_of_vendor_set by simp
  then show ?case using Cons by simp
qed simp

lemma first_of_vendor_healthy: "p \<in> set (first_of_vendor seen ps) \<Longrightarrow> p \<in> set ps \<and> healthy p"
  by (induction ps arbitrary: seen) (auto split: if_splits)

lemma plan_disjoint_iff:
  "plan_disjoint pool k = Inr plan \<longleftrightarrow>
    0 < k \<and> k \<le> card (pv_vendor ` {p \<in> set (pool_providers pool). healthy p}) \<and>
    plan = \<lparr>plan_providers = take k (first_of_vendor {} (pool_providers pool))\<rparr>"
proof -
  let ?f = "first_of_vendor {} (pool_providers pool)"
  have "length ?f = card (pv_vendor ` {p \<in> set (pool_providers pool). healthy p})"
    using distinct_card [OF first_of_vendor_distinct [of "{}" "pool_providers pool"]]
    by (simp add: first_of_vendor_set)
  then show ?thesis
    by (cases "k = 0") (auto simp: plan_disjoint_def plan_loop_eq)
qed

section \<open>Lemmas: slots\<close>

definition passes :: "VerificationContext \<Rightarrow> VendorVerifier \<times> Evidence \<Rightarrow> bytes \<Rightarrow> bool" where
  "passes ctx se i \<longleftrightarrow>
    admits_cpu_kind (vv_kind (fst se)) (cpu_quote_kind (snd se)) \<and>
    v_verify (vv_verifier (fst se)) (snd se) ctx = Inr () \<and>
    v_attestation_identity (vv_verifier (fst se)) (snd se) = Some i"

definition accepted_ids :: "VerificationContext \<Rightarrow> (VendorVerifier \<times> Evidence) list \<Rightarrow> bytes set" where
  "accepted_ids ctx ses = {i. \<exists>se \<in> set ses. passes ctx se i}"

lemma passes_unique: "passes ctx se i \<Longrightarrow> passes ctx se j \<Longrightarrow> i = j"
  by (simp add: passes_def)

lemma mv_step_cases:
  obtains "\<forall>i. passes ctx se i \<longrightarrow> i \<in> ids" "mv_step ctx se (kinds, ids) = (kinds, ids)"
  | i where "passes ctx se i" "i \<notin> ids"
    "mv_step ctx se (kinds, ids) = (insert (vv_kind (fst se)) kinds, insert i ids)"
proof (cases "\<exists>i. passes ctx se i \<and> i \<notin> ids")
  case True
  then obtain i where i: "passes ctx se i" "i \<notin> ids" by blast
  have "mv_step ctx se (kinds, ids) = (insert (vv_kind (fst se)) kinds, insert i ids)"
    using i by (cases se) (simp add: mv_step_def passes_def)
  then show ?thesis using that(2) i by blast
next
  case False
  then have "mv_step ctx se (kinds, ids) = (kinds, ids)"
    by (cases se) (auto simp: mv_step_def passes_def is_ok_iff split: option.split)
  then show ?thesis using that(1) False by blast
qed

lemma accepted_ids_Cons:
  "accepted_ids ctx (se # ses) = {i. passes ctx se i} \<union> accepted_ids ctx ses"
  by (auto simp: accepted_ids_def)

lemma mv_loop_ids: "snd (mv_loop ctx ses (kinds, ids)) = ids \<union> accepted_ids ctx ses"
proof (induction ses arbitrary: kinds ids)
  case Nil
  then show ?case by (simp add: accepted_ids_def)
next
  case (Cons se ses)
  show ?case
  proof (rule mv_step_cases [of ctx se ids kinds])
    assume "\<forall>i. passes ctx se i \<longrightarrow> i \<in> ids" "mv_step ctx se (kinds, ids) = (kinds, ids)"
    then show ?thesis using Cons [of kinds ids] by (auto simp: accepted_ids_Cons)
  next
    fix i assume i: "passes ctx se i"
      "mv_step ctx se (kinds, ids) = (insert (vv_kind (fst se)) kinds, insert i ids)"
    then have "{j. passes ctx se j} = {i}" using passes_unique by blast
    then show ?thesis
      using Cons [of "insert (vv_kind (fst se)) kinds" "insert i ids"] i(2)
      by (simp add: accepted_ids_Cons)
  qed
qed

lemma mv_loop_kinds:
  "k \<in> fst (mv_loop ctx ses (kinds, ids)) \<Longrightarrow>
   k \<in> kinds \<or> (\<exists>se \<in> set ses. vv_kind (fst se) = k \<and> (\<exists>i. passes ctx se i))"
proof (induction ses arbitrary: kinds ids)
  case Nil
  then show ?case by simp
next
  case (Cons se ses)
  show ?case
  proof (rule mv_step_cases [of ctx se ids kinds])
    assume "mv_step ctx se (kinds, ids) = (kinds, ids)"
    then show ?thesis using Cons.IH [of kinds ids] Cons.prems by auto
  next
    fix i assume i: "passes ctx se i"
      "mv_step ctx se (kinds, ids) = (insert (vv_kind (fst se)) kinds, insert i ids)"
    then have "k \<in> insert (vv_kind (fst se)) kinds \<or>
        (\<exists>se \<in> set ses. vv_kind (fst se) = k \<and> (\<exists>i. passes ctx se i))"
      using Cons.IH [of "insert (vv_kind (fst se)) kinds" "insert i ids"] Cons.prems by simp
    then show ?thesis using i(1) by auto
  qed
qed

lemma mv_loop_card:
  assumes "distinct (map (vv_kind \<circ> fst) ses)" "kinds \<inter> (vv_kind \<circ> fst) ` set ses = {}"
    "finite kinds" "finite ids" "card kinds = card ids"
  shows "card (fst (mv_loop ctx ses (kinds, ids))) = card (snd (mv_loop ctx ses (kinds, ids)))"
  using assms
proof (induction ses arbitrary: kinds ids)
  case Nil
  then show ?case by simp
next
  case (Cons se ses)
  have d: "distinct (map (vv_kind \<circ> fst) ses)" "kinds \<inter> (vv_kind \<circ> fst) ` set ses = {}"
    "insert (vv_kind (fst se)) kinds \<inter> (vv_kind \<circ> fst) ` set ses = {}" "vv_kind (fst se) \<notin> kinds"
    using Cons.prems(1,2) by (auto simp: comp_def)
  show ?case
  proof (rule mv_step_cases [of ctx se ids kinds])
    assume "mv_step ctx se (kinds, ids) = (kinds, ids)"
    then show ?thesis using Cons.IH [OF d(1,2)] Cons.prems(3-5) by simp
  next
    fix i assume i: "i \<notin> ids" "mv_step ctx se (kinds, ids) = (insert (vv_kind (fst se)) kinds, insert i ids)"
    then have "card (insert (vv_kind (fst se)) kinds) = card (insert i ids)"
      using Cons.prems(3-5) d(4) by simp
    then show ?thesis using Cons.IH [OF d(1,3)] Cons.prems(3,4) i(2) by simp
  qed
qed

lemma first_duplicate_None:
  "first_duplicate kinds vs = None \<longleftrightarrow> distinct (map vv_kind vs) \<and> kinds \<inter> vv_kind ` set vs = {}"
  by (induction vs arbitrary: kinds) auto

lemma MultiVendorVerifier_new_iff:
  "MultiVendorVerifier_new vs k = Inr mv \<longleftrightarrow>
    0 < k \<and> k \<le> length vs \<and> distinct (map vv_kind vs) \<and> mv = \<lparr>mv_verifiers = vs, threshold_k = k\<rparr>"
  using first_duplicate_None [of "{}" vs]
  by (cases "first_duplicate {} vs") (auto simp: MultiVendorVerifier_new_def)

lemma MultiVendorVerifier_verify_eq:
  "length evs = length (mv_verifiers mv) \<Longrightarrow>
   MultiVendorVerifier_verify mv evs ctx =
    (let ses = zip (mv_verifiers mv) evs; n = card (accepted_ids ctx ses) in
     if n < threshold_k mv
     then Inl (AttestationFailed (''k-of-n failed: '' @ dec n @
            '' distinct attestation identities, threshold '' @ dec (threshold_k mv)))
     else Inr (fst (mv_loop ctx ses ({}, {}))))"
  using mv_loop_ids [of ctx "zip (mv_verifiers mv) evs" "{}" "{}"]
  by (auto simp: MultiVendorVerifier_verify_def Let_def split: prod.splits)

lemma zip_kinds:
  "length evs = length vs \<Longrightarrow> map (vv_kind \<circ> fst) (zip vs evs) = map vv_kind vs"
  by (metis comp_def map_fst_zip map_map)

text \<open>Admission by build keeps the contract of the wrapped verifier.\<close>

lemma ReproducibleBuildVerifier_contract:
  assumes "attestation_verifier (v_verify (rb_inner v)) (v_attestation_identity (rb_inner v))"
  shows "attestation_verifier (ReproducibleBuildVerifier_verify J v)
    (ReproducibleBuildVerifier_attestation_identity v)"
proof -
  have "v_verify (rb_inner v) ev ctx = Inr ()" if "ReproducibleBuildVerifier_verify J v ev ctx = Inr ()"
    for ev ctx using that by (auto simp: ReproducibleBuildVerifier_verify_def result_simps)
  then show ?thesis
    using assms unfolding attestation_verifier_def ReproducibleBuildVerifier_attestation_identity_def
    by blast
qed

section \<open>Properties\<close>



definition real_slot :: "'r prims \<Rightarrow> attest_lib \<Rightarrow> RealVerifier \<Rightarrow> Verifier" where
  "real_slot P L v =
    \<lparr>v_verify = RealVerifier_verify L v, v_attestation_identity = RealVerifier_attestation_identity P L\<rparr>"

definition tdx_identity_input :: "attest_lib \<Rightarrow> Evidence \<Rightarrow> bytes" where
  "tdx_identity_input L ev =
    str_bytes ''ullm/attest-id/tdx/v1'' @ bslice 700 64 (cpu_quote ev) @
    bslice 764 (tdx_sig_len (cpu_quote ev) - 128) (cpu_quote ev) @ nras_material L ev"

lemma tdx_identity:
  assumes "cpu_quote_kind ev = QK_Tdx" "is_ok (TdxQuote_parse (cpu_quote ev))"
  shows "RealVerifier_attestation_identity P L ev = Some (sha256 P (tdx_identity_input L ev))"
proof -
  have "TdxQuote_parse (cpu_quote ev) = Inr (tdx_at (cpu_quote ev))"
    using assms(2) by (auto simp: is_ok_iff TdxQuote_parse_iff)
  then show ?thesis
    using assms(1)
    by (simp add: RealVerifier_attestation_identity_def tdx_identity_input_def tdx_at_def)
qed

text \<open>
  C28. One node can fill two slots.  Take any TDX evidence without GPU token that the
  hardware verifier accepts, and any unsigned token the verifier admits; the same
  quote with the token attached is accepted in an NVIDIA slot and, unless the
  hash collides on the two inputs, has another identity.  A two-of-two
  verification over a TDX and an NVIDIA slot then passes on evidence of a single
  node.
\<close>

theorem one_node_fills_two_slots:
  assumes "RealVerifier_verify L v ev ctx = Inr ()" "cpu_quote_kind ev = QK_Tdx" "gpu_quote ev = []"
    and "g \<noteq> []" "NvidiaQuote_parse (al_nv L) g = Inr nv" "nv_signature nv = []"
    and "allowed_nvidia_measurements_hex (rv_policy v) = {} \<or>
      measurement_hex (nv_payload nv) \<in> allowed_nvidia_measurements_hex (rv_policy v)"
    and "inj_on (sha256 P) {tdx_identity_input L ev, tdx_identity_input L (ev\<lparr>gpu_quote := g\<rparr>)}"
  shows "\<exists>mv. MultiVendorVerifier_new
      [VendorVerifier_new VK_Tdx (real_slot P L v), VendorVerifier_new VK_Nvidia (real_slot P L v)] 2 = Inr mv \<and>
    MultiVendorVerifier_verify mv [ev, ev\<lparr>gpu_quote := g\<rparr>] ctx = Inr {VK_Tdx, VK_Nvidia}"
proof -
  let ?ev' = "ev\<lparr>gpu_quote := g\<rparr>"
  have acc: "RealVerifier_verify L v ?ev' ctx = Inr ()"
    using assms(1-5,7)
    by (simp add: RealVerifier_verify_iff real_check_tdx_iff real_check_gpu_iff fresh_def)
  have tdx: "is_ok (TdxQuote_parse (cpu_quote ev))"
    using assms(1,2) by (simp add: RealVerifier_verify_iff real_check_tdx_iff)
  have "tdx_identity_input L ev \<noteq> tdx_identity_input L ?ev'"
    using assms(3-6) by (simp add: tdx_identity_input_def nras_material_def str_bytes_def)
  then have ne: "sha256 P (tdx_identity_input L ev) \<noteq> sha256 P (tdx_identity_input L ?ev')"
    using assms(8) by (auto simp: inj_on_def)
  have ids: "RealVerifier_attestation_identity P L ev = Some (sha256 P (tdx_identity_input L ev))"
    "RealVerifier_attestation_identity P L ?ev' = Some (sha256 P (tdx_identity_input L ?ev'))"
    using tdx_identity [of ev] tdx_identity [of ?ev'] assms(2) tdx by simp_all
  show ?thesis
    using assms(1,2) acc ids ne
    by (auto simp: MultiVendorVerifier_new_iff MultiVendorVerifier_verify_def mv_step_def
        VendorVerifier_new_def real_slot_def admits_cpu_kind_def)
qed

theorem one_node_fills_two_slots_witness:
  "\<exists>L v ev g ctx mv. gpu_quote ev = [] \<and> g \<noteq> [] \<and>
    MultiVendorVerifier_new [VendorVerifier_new VK_Tdx (real_slot model_prims L v),
      VendorVerifier_new VK_Nvidia (real_slot model_prims L v)] 2 = Inr mv \<and>
    MultiVendorVerifier_verify mv [ev, ev\<lparr>gpu_quote := g\<rparr>] ctx = Inr {VK_Tdx, VK_Nvidia}"
proof -
  let ?rd = "replicate 64 (7 :: u8)" and ?g = "str_bytes ''{}''"
  define payload where "payload = \<lparr>nv_nonce = [], arch = [], gpu_uuid = [],
    vbios_version = [], driver_version = [], measurement_hex = [], nv_extra = []\<rparr>"
  define C where "C = \<lparr>sec1_ok = (\<lambda>_. True), sig_ok = (\<lambda>_. True), normalize_s = (\<lambda>_. None),
    ecdsa_verify = (\<lambda>_ _ _. True)\<rparr>"
  define L where "L = \<lparr>al_nv = \<lparr>nv_json = (\<lambda>_. Inr payload), char_debug = (\<lambda>s. s)\<rparr>, p256 = C, p384 = C\<rparr>"
  define v where "v = RealVerifier_new \<lparr>allowed_mrtd = {}, allowed_snp_measurement = {},
    allowed_nvidia_measurements_hex = {}\<rparr>"
  define ev where "ev = \<lparr>cpu_quote_kind = QK_Tdx, cpu_quote = synthesize_quote ?rd (replicate 48 9),
    gpu_quote = [], cert_chain = [], ev_report_data = ?rd, issued_at_unix = 100\<rparr>"
  define ctx where "ctx = \<lparr>expected_report_data = ?rd, now_unix = 130, max_age_sec = 60\<rparr>"
  obtain q where q: "TdxQuote_parse (cpu_quote ev) = Inr q" "tdx_report_data q = ?rd"
    using synthesize_quote_parses [of ?rd "replicate 48 9"] by (auto simp: ev_def)
  have acc: "RealVerifier_verify L v ev ctx = Inr ()"
    using q by (simp add: RealVerifier_verify_def saturating_sub_def ev_def ctx_def v_def
        real_check_tdx_def real_check_gpu_def RealVerifier_new_def)
  have u: "utf8_valid ?g" "split_char dot ''{}'' = [''{}'']"
    by (simp_all add: str_bytes_def dot_def)
  have g: "NvidiaQuote_parse (al_nv L) ?g =
      Inr \<lparr>nv_payload = payload, nv_signature = [], signed_message = ?g\<rparr>"
    using u by (simp add: NvidiaQuote_parse_def L_def)
  have "tdx_identity_input L (ev\<lparr>gpu_quote := ?g\<rparr>) = tdx_identity_input L ev @ str_bytes ''|nras|{}''"
    using g by (simp add: tdx_identity_input_def nras_material_def ev_def str_bytes_def)
  then have inj: "inj_on (sha256 model_prims) {tdx_identity_input L ev, tdx_identity_input L (ev\<lparr>gpu_quote := ?g\<rparr>)}"
    by (simp add: inj_on_def model_prims_def suffix_hash_def pad_def word_eq_iff_unsigned)
  have k: "cpu_quote_kind ev = QK_Tdx" "gpu_quote ev = []" and g0: "?g \<noteq> []"
    and g': "nv_signature \<lparr>nv_payload = payload, nv_signature = [], signed_message = ?g\<rparr> = []"
    and al: "allowed_nvidia_measurements_hex (rv_policy v) = {} \<or>
      measurement_hex (nv_payload \<lparr>nv_payload = payload, nv_signature = [], signed_message = ?g\<rparr>)
        \<in> allowed_nvidia_measurements_hex (rv_policy v)"
    by (simp_all add: ev_def v_def RealVerifier_new_def str_bytes_def)
  show ?thesis
    using one_node_fills_two_slots [OF acc k g0 g g' al inj] k g0 by blast
qed

end
