(* ===== verification/Phala.thy ===== *)
theory Phala
  imports Federation
begin

text \<open>
  \<open>ullm-phala\<close>: a worker of the Phala network as a provider of a federation pool.
  Shown: which workers become providers and with which fields, and that a plan of
  providers with distinct vendors takes at most one Phala worker.
\<close>

section \<open>descriptor.rs and attest.rs\<close>

datatype PhalaWorkerStatus = Provisioning | Ready | Degraded | Decommissioned

record PhalaWorker =
  pw_id :: string
  pw_region :: string
  gpu_kind :: string
  endpoint_url :: string
  image_uri :: string
  image_sha256_hex :: string
  pw_status :: PhalaWorkerStatus

datatype PhalaAttestationKind = TdxH100 | TdxH200 | SnpH100

definition phala_vendor_kind :: "PhalaAttestationKind \<Rightarrow> VendorKind" where
  "phala_vendor_kind k = VK_Nvidia"

section \<open>adapter.rs\<close>

datatype AdapterError = NotReady PhalaWorkerStatus | BadHash string

text \<open>\<open>hex_err\<close> is the message of the hex crate.\<close>

definition phala_provider ::
  "codecs \<Rightarrow> (string \<Rightarrow> string) \<Rightarrow> PhalaWorker \<Rightarrow> PhalaAttestationKind \<Rightarrow> AdapterError + Provider" where
  "phala_provider J hex_err worker attestation =
    (if pw_status worker \<noteq> Ready then Inl (NotReady (pw_status worker))
     else
       rbind (ok_or (BadHash (hex_err (image_sha256_hex worker))) (hex_decode J (image_sha256_hex worker))) (\<lambda>sha.
       rbind (guard_err (length sha \<noteq> 32) (BadHash ''image hash != 32 bytes'')) (\<lambda>_.
       Inr \<lparr>pv_manifest = \<lparr>provider_id = ''phala-'' @ pw_id worker, build_hash = sha, region = pw_region worker\<rparr>,
            pv_vendor = phala_vendor_kind attestation, pv_url = endpoint_url worker, healthy = True\<rparr>)))"

definition phala_vendor :: "PhalaAttestationKind \<Rightarrow> VendorKind" where
  "phala_vendor k = VK_Nvidia"

section \<open>Lemmas\<close>

lemma phala_provider_iff:
  "phala_provider J hex_err w k = Inr p \<longleftrightarrow> pw_status w = Ready \<and>
    (\<exists>sha. hex_decode J (image_sha256_hex w) = Some sha \<and> length sha = 32 \<and>
      p = \<lparr>pv_manifest = \<lparr>provider_id = ''phala-'' @ pw_id w, build_hash = sha, region = pw_region w\<rparr>,
           pv_vendor = phala_vendor k, pv_url = endpoint_url w, healthy = True\<rparr>)"
  by (auto simp: phala_provider_def phala_vendor_kind_def phala_vendor_def rbind_eq_Inr ok_or_eq_Inr
      guard_err_def split: if_splits)

lemma plan_one_phala:
  assumes "plan_disjoint pool k = Inr plan" "p \<in> set (plan_providers plan)" "q \<in> set (plan_providers plan)"
    and "phala_provider J hex_err w a = Inr p" "phala_provider J hex_err w' a' = Inr q"
  shows "p = q"
proof -
  have "pv_vendor p = pv_vendor q" using assms(4,5) by (auto simp: phala_provider_iff phala_vendor_def)
  moreover have "distinct (map pv_vendor (plan_providers plan))" 
    using assms(1) first_of_vendor_distinct [of "{}" "pool_providers pool"]
    by (auto simp: plan_disjoint_iff take_map [symmetric])
  ultimately show ?thesis using assms(2,3) by (auto simp: distinct_map inj_on_def)
qed

end
