(* ===== verification/Lru.thy ===== *)
theory Lru
  imports Core
begin

text \<open>
  The bounded tables of the repository (attestation nonces, tenants, rate-limit
  buckets) pair a \<open>HashMap\<close> with a \<open>BTreeSet\<close> of (instant, sequence, key) rows.
  A \<open>HashMap\<close> is an association list with distinct keys; a \<open>BTreeSet\<close> is a
  strictly increasing list.  The locale \<open>ordered_set\<close> states what the tables
  use of a \<open>BTreeSet\<close>; the lemmas proved in it say that each pairing of a map
  update with an index update keeps the two in step, and that the first row of
  the index is the least recently used entry.
\<close>

text \<open>An instant is a number of nanoseconds above the earliest representable one.\<close>

type_synonym instant = nat

definition checked_sub :: "instant \<Rightarrow> nat \<Rightarrow> instant option" where
  "checked_sub t d = (if t < d then None else Some (t - d))"

definition duration_since :: "instant \<Rightarrow> instant \<Rightarrow> nat" where
  "duration_since t t0 = t - t0"

section \<open>BTreeSet\<close>

fun bt_insert :: "'a::linorder \<Rightarrow> 'a list \<Rightarrow> 'a list" where
  "bt_insert x [] = [x]"
| "bt_insert x (y # ys) =
    (if x < y then x # y # ys else if x = y then y # ys else y # bt_insert x ys)"

definition bt_remove :: "'a::linorder \<Rightarrow> 'a list \<Rightarrow> 'a list" where
  "bt_remove x s = filter (\<lambda>y. y \<noteq> x) s"

fun bt_first :: "'a::linorder list \<Rightarrow> 'a option" where
  "bt_first [] = None"
| "bt_first (x # xs) = Some x"

definition bt_range_to :: "'a::linorder \<Rightarrow> 'a list \<Rightarrow> 'a list" where
  "bt_range_to x s = takeWhile (\<lambda>y. y < x) s"

definition bt_invar :: "'a::linorder list \<Rightarrow> bool" where
  "bt_invar s \<longleftrightarrow> sorted_wrt (<) s"

section \<open>The interface\<close>

text \<open>The table \<open>al\<close> and the set of index rows \<open>S\<close> describe the same entries.\<close>

definition in_step :: "('v \<Rightarrow> instant \<times> u64) \<Rightarrow> ('k \<times> 'v) list \<Rightarrow> (instant \<times> u64 \<times> 'k) set \<Rightarrow> bool" where
  "in_step stamp al S \<longleftrightarrow> distinct (map fst al) \<and>
    S = (\<lambda>(k, v). (fst (stamp v), snd (stamp v), k)) ` set al"

lemma in_step_row:
  assumes "in_step stamp al S"
  shows "(t, q, k) \<in> S \<longleftrightarrow> (\<exists>v. map_of al k = Some v \<and> stamp v = (t, q))"
proof
  assume "(t, q, k) \<in> S"
  then show "\<exists>v. map_of al k = Some v \<and> stamp v = (t, q)"
    using assms by (auto simp: in_step_def)
next
  assume "\<exists>v. map_of al k = Some v \<and> stamp v = (t, q)"
  then show "(t, q, k) \<in> S" using assms by (force simp: in_step_def dest: map_of_SomeD)
qed

lemma in_step_card: "in_step stamp al S \<Longrightarrow> card S = length al"
proof -
  assume *: "in_step stamp al S"
  have "inj_on (\<lambda>(k, v). (fst (stamp v), snd (stamp v), k)) (set al)"
    using * by (auto simp: in_step_def inj_on_def dest: eq_key_imp_eq_value)
  then have "card S = card (set al)" using * by (simp add: in_step_def card_image)
  also have "\<dots> = length al" using * by (simp add: in_step_def distinct_map distinct_card)
  finally show ?thesis .
qed

lemma in_step_intro:
  assumes "distinct (map fst al)" "\<And>t q k. (t, q, k) \<in> S \<longleftrightarrow> (\<exists>v. map_of al k = Some v \<and> stamp v = (t, q))"
  shows "in_step stamp al S"
proof -
  have "in_step stamp al ((\<lambda>(k, v). (fst (stamp v), snd (stamp v), k)) ` set al)"
    using assms(1) by (simp add: in_step_def)
  then have "S = (\<lambda>(k, v). (fst (stamp v), snd (stamp v), k)) ` set al"
    using assms(2) in_step_row by (metis (no_types, lifting) prod_cases3 subsetI subset_antisym)
  then show ?thesis using assms(1) by (simp add: in_step_def)
qed

definition in_step_except ::
  "('v \<Rightarrow> instant \<times> u64) \<Rightarrow> 'k \<Rightarrow> ('k \<times> 'v) list \<Rightarrow> (instant \<times> u64 \<times> 'k) set \<Rightarrow> bool" where
  "in_step_except stamp k0 al S \<longleftrightarrow> distinct (map fst al) \<and>
    (\<forall>t q k. (t, q, k) \<in> S \<longleftrightarrow> k \<noteq> k0 \<and> (\<exists>v. map_of al k = Some v \<and> stamp v = (t, q)))"

locale ordered_set =
  fixes empty :: 's
    and insert :: "'a::linorder \<Rightarrow> 's \<Rightarrow> 's"
    and remove :: "'a \<Rightarrow> 's \<Rightarrow> 's"
    and first :: "'s \<Rightarrow> 'a option"
    and range_to :: "'a \<Rightarrow> 's \<Rightarrow> 'a list"
    and elems :: "'s \<Rightarrow> 'a set"
    and size_of :: "'s \<Rightarrow> nat"
    and invar :: "'s \<Rightarrow> bool"
  assumes empty: "invar empty" "elems empty = {}"
    and insert: "invar s \<Longrightarrow> invar (insert x s)" "invar s \<Longrightarrow> elems (insert x s) = {x} \<union> elems s"
    and remove: "invar s \<Longrightarrow> invar (remove x s)" "invar s \<Longrightarrow> elems (remove x s) = elems s - {x}"
    and first: "invar s \<Longrightarrow> first s = None \<longleftrightarrow> elems s = {}"
      "invar s \<Longrightarrow> first s = Some x \<Longrightarrow> x \<in> elems s \<and> (\<forall>y \<in> elems s. x \<le> y)"
    and range_to: "invar s \<Longrightarrow> set (range_to x s) = {y \<in> elems s. y < x}"
    and size_of: "invar s \<Longrightarrow> size_of s = card (elems s)"
begin

lemma fold_remove:
  assumes "invar s"
  shows "invar (fold remove xs s) \<and> elems (fold remove xs s) = elems s - set xs"
  using assms by (induction xs arbitrary: s) (auto simp: remove)

end

locale lru_index = ordered_set empty insert remove first range_to elems size_of invar
  for empty :: 's
    and insert :: "(instant \<times> u64 \<times> 'k::linorder) \<Rightarrow> 's \<Rightarrow> 's"
    and remove first range_to elems size_of invar
begin

lemma in_step_empty: "in_step stamp [] (elems empty)"
  by (simp add: in_step_def empty)

lemma in_step_size: "invar s \<Longrightarrow> in_step stamp al (elems s) \<Longrightarrow> size_of s = length al"
  by (simp add: size_of in_step_card)

text \<open>
  An operation on a key first takes the key's row, if any, out of the index,
  may then evict the first row, and finally adds the new row.  In between the
  table and the index agree except on that key.
\<close>

lemma except_new:
  assumes "in_step stamp al (elems s)" "map_of al k = None"
  shows "in_step_except stamp k al (elems s)"
  using assms in_step_row [OF assms(1)] by (auto simp: in_step_except_def in_step_def)

lemma except_known:
  assumes "invar s" "in_step stamp al (elems s)" "map_of al k = Some v0" "stamp v0 = (t0, q0)"
  shows "in_step_except stamp k al (elems (remove (t0, q0, k) s))"
proof -
  have "distinct (map fst al)" using assms(2) by (simp add: in_step_def)
  then show ?thesis
    using assms(3,4) in_step_row [OF assms(2)]
    by (auto simp: in_step_except_def remove [OF assms(1)] simp del: map_of_eq_Some_iff)
qed

lemma except_drop:
  assumes "invar s" "in_step_except stamp k0 al (elems s)" "(t, q, k) \<in> elems s"
  shows "in_step_except stamp k0 (AList.delete k al) (elems (remove (t, q, k) s))"
  using assms(2,3) unfolding in_step_except_def remove(2) [OF assms(1)]
  by (auto simp: distinct_delete delete_conv' simp del: map_of_eq_Some_iff)

lemma except_first:
  assumes "invar s" "in_step_except stamp k0 al (elems s)" "2 \<le> length al"
  shows "\<exists>t q k. first s = Some (t, q, k) \<and> (t, q, k) \<in> elems s \<and> k \<in> fst ` set al \<and> k \<noteq> k0"
proof -
  have "distinct (map fst al)" using assms(2) by (simp add: in_step_except_def)
  moreover obtain p p' al' where al: "al = p # p' # al'"
    using assms(3) by (metis Suc_le_length_iff numeral_2_eq_2)
  ultimately have "fst p \<noteq> fst p'" by auto
  then obtain k v where "map_of al k = Some v" "k \<noteq> k0"
    using al by (metis map_of.simps(2) fun_upd_apply)
  then have "(fst (stamp v), snd (stamp v), k) \<in> elems s"
    using assms(2) by (auto simp: in_step_except_def)
  then obtain row where row: "first s = Some row" using first(1) [OF assms(1)] by (cases "first s") auto
  obtain t q k' where r: "row = (t, q, k')" by (cases row)
  have mem: "(t, q, k') \<in> elems s" using first(2) [OF assms(1) row] r by blast
  then have "k' \<noteq> k0" "\<exists>v. map_of al k' = Some v" using assms(2) by (auto simp: in_step_except_def)
  then show ?thesis using row r mem by (force dest: map_of_SomeD)
qed

lemma except_insert:
  assumes "invar s" "in_step_except stamp k al (elems s)" "stamp v = (t, q)"
  shows "in_step stamp (AList.update k v al) (elems (insert (t, q, k) s))"
proof (rule in_step_intro)
  show "distinct (map fst (AList.update k v al))"
    using assms(2) by (simp add: in_step_except_def distinct_update)
  show "(t', q', k') \<in> elems (insert (t, q, k) s) \<longleftrightarrow>
      (\<exists>v'. map_of (AList.update k v al) k' = Some v' \<and> stamp v' = (t', q'))" for t' q' k'
    using assms by (auto simp: insert in_step_except_def update_conv')
qed

text \<open>Refreshing a known key and admitting a new one.\<close>

lemma refresh_step:
  assumes "invar s" "in_step stamp al (elems s)" "map_of al k = Some v0" "stamp v0 = (t0, q0)"
    and "stamp v = (t, q)"
  shows "in_step stamp (AList.update k v al) (elems (insert (t, q, k) (remove (t0, q0, k) s)))"
  using except_insert [OF remove(1) [OF assms(1)] except_known [OF assms(1-4)] assms(5)] .

lemma admit_step:
  assumes "invar s" "in_step stamp al (elems s)" "map_of al k = None" "stamp v = (t, q)"
  shows "in_step stamp (AList.update k v al) (elems (insert (t, q, k) s))"
  using except_insert [OF assms(1) except_new [OF assms(2,3)] assms(4)] .

text \<open>A row and its key are dropped together.\<close>

lemma in_step_drop:
  assumes "invar s" "in_step stamp al (elems s)" "(t, q, k) \<in> elems s"
  shows "in_step stamp (AList.delete k al) (elems (remove (t, q, k) s))"
proof (rule in_step_intro)
  show "distinct (map fst (AList.delete k al))"
    using assms(2) by (simp add: in_step_def distinct_delete)
  have "\<exists>v. map_of al k = Some v \<and> stamp v = (t, q)" using in_step_row [OF assms(2)] assms(3) by blast
  then show "(t', q', k') \<in> elems (remove (t, q, k) s) \<longleftrightarrow>
      (\<exists>v'. map_of (AList.delete k al) k' = Some v' \<and> stamp v' = (t', q'))" for t' q' k'
    using in_step_row [OF assms(2)] by (auto simp: remove [OF assms(1)] delete_conv')
qed

text \<open>The first row belongs to the least recently used key of the table.\<close>

lemma first_is_lru:
  assumes "invar s" "in_step stamp al (elems s)" "first s = Some (t, q, k)"
  shows "\<exists>v. map_of al k = Some v \<and> stamp v = (t, q)"
    "map_of al k' = Some v' \<Longrightarrow> t \<le> fst (stamp v')"
proof -
  have mem: "(t, q, k) \<in> elems s" and min: "\<forall>y \<in> elems s. (t, q, k) \<le> y"
    using first(2) [OF assms(1,3)] by auto
  show "\<exists>v. map_of al k = Some v \<and> stamp v = (t, q)" using in_step_row [OF assms(2)] mem by blast
  assume "map_of al k' = Some v'"
  then have "(fst (stamp v'), snd (stamp v'), k') \<in> elems s"
    using in_step_row [OF assms(2)] by fastforce
  then show "t \<le> fst (stamp v')" using min by (auto simp: less_eq_prod_def)
qed

lemma first_exists:
  assumes "invar s" "in_step stamp al (elems s)" "al \<noteq> []"
  shows "\<exists>row. first s = Some row"
proof -
  have "card (elems s) \<noteq> 0" using assms in_step_card by fastforce
  then have "elems s \<noteq> {}" by auto
  then show ?thesis using first(1) [OF assms(1)] by (cases "first s") auto
qed

end

section \<open>The provider\<close>

lemma set_bt_insert: "set (bt_insert x s) = {x} \<union> set s"
  by (induction s) auto

lemma bt_insert_invar: "bt_invar s \<Longrightarrow> bt_invar (bt_insert x s)"
  by (induction s) (auto simp: bt_invar_def set_bt_insert)

lemma bt_range_to_set: "bt_invar s \<Longrightarrow> set (bt_range_to x s) = {y \<in> set s. y < x}"
proof (induction s)
  case (Cons y ys)
  then have IH: "set (takeWhile (\<lambda>y. y < x) ys) = {y \<in> set ys. y < x}"
    and gt: "\<And>z. z \<in> set ys \<Longrightarrow> y < z"
    by (auto simp: bt_invar_def bt_range_to_def)
  show ?case
  proof (cases "y < x")
    case True
    then show ?thesis using IH by (auto simp: bt_range_to_def)
  next
    case False
    then have "\<not> z < x" if "z \<in> set ys" for z using gt [OF that] by (meson less_trans)
    then show ?thesis using False by (auto simp: bt_range_to_def)
  qed
qed (simp add: bt_range_to_def)

lemma bt_invar_distinct: "bt_invar s \<Longrightarrow> distinct s"
  by (simp add: bt_invar_def strict_sorted_iff)

interpretation bt: ordered_set "[]" bt_insert bt_remove bt_first bt_range_to set length bt_invar
proof (unfold_locales, goal_cases)
  case (5 s x)
  then show ?case by (simp add: bt_invar_def bt_remove_def sorted_wrt_filter)
next
  case (7 s)
  then show ?case by (cases s) auto
next
  case (8 s x)
  then show ?case by (cases s) (auto simp: bt_invar_def)
next
  case (10 s)
  then show ?case by (simp add: bt_invar_distinct distinct_card)
qed (auto simp: bt_invar_def set_bt_insert bt_remove_def bt_range_to_set
    bt_insert_invar [unfolded bt_invar_def])

interpretation lru: lru_index "[]" bt_insert bt_remove bt_first bt_range_to set length bt_invar
  by (rule lru_index.intro) (rule bt.ordered_set_axioms)

end
