(* ===== verification/F64.thy ===== *)
theory F64
  imports Complex_Main "HOL-Library.Log_Nat"
begin

text \<open>
  The type \<open>f64\<close> of Rust: IEEE 754 binary64 with rounding to nearest, ties to
  even.  A finite value is the rational number it denotes, and every operation
  rounds its exact result to 53 significant bits, with the least exponent of a
  subnormal number.  Results beyond the largest finite value are not rounded to
  an infinity here: the values of the rate limiter, the only user, stay below
  2 to the power 130.  Shown: rounding is monotone, fixes the integers below
  2 to the power 53, and its error is at most one part in 2 to the power 53.
\<close>

type_synonym f64 = rat

section \<open>Rounding\<close>

definition round_ties_even :: "rat \<Rightarrow> int" where
  "round_ties_even x =
    (let f = \<lfloor>x\<rfloor>; d = x - of_int f
     in if d < 1 / 2 then f else if d > 1 / 2 then f + 1 else if even f then f else f + 1)"

definition floor_log2 :: "rat \<Rightarrow> int" where
  "floor_log2 x =
    (let (p, q) = quotient_of x; k = bitlen p - bitlen q
     in if 2 powi k \<le> x then k else k - 1)"

definition ulp_exp :: "rat \<Rightarrow> int" where
  "ulp_exp x = max (- 1074) (floor_log2 \<bar>x\<bar> - 52)"

definition f64_round :: "rat \<Rightarrow> f64" where
  "f64_round x = (if x = 0 then 0 else of_int (round_ties_even (x / 2 powi ulp_exp x)) * 2 powi ulp_exp x)"

definition f64_of_nat :: "nat \<Rightarrow> f64" where "f64_of_nat n = f64_round (of_nat n)"
definition f64_add :: "f64 \<Rightarrow> f64 \<Rightarrow> f64" where "f64_add x y = f64_round (x + y)"
definition f64_sub :: "f64 \<Rightarrow> f64 \<Rightarrow> f64" where "f64_sub x y = f64_round (x - y)"
definition f64_mul :: "f64 \<Rightarrow> f64 \<Rightarrow> f64" where "f64_mul x y = f64_round (x * y)"
definition f64_div :: "f64 \<Rightarrow> f64 \<Rightarrow> f64" where "f64_div x y = f64_round (x / y)"

text \<open>\<open>Duration::as_secs_f64\<close> on a number of nanoseconds.\<close>

definition as_secs_f64 :: "nat \<Rightarrow> f64" where
  "as_secs_f64 d = f64_add (f64_of_nat (d div 10 ^ 9)) (f64_div (f64_of_nat (d mod 10 ^ 9)) (10 ^ 9))"

section \<open>Rounding to an integer\<close>

lemma round_ties_even_error: "\<bar>of_int (round_ties_even x) - x\<bar> \<le> 1 / 2"
proof -
  have "of_int \<lfloor>x\<rfloor> \<le> x" "x < of_int \<lfloor>x\<rfloor> + 1" by linarith+
  then show ?thesis unfolding round_ties_even_def Let_def by (auto simp: abs_le_iff field_simps)
qed

lemma round_ties_even_of_int [simp]: "round_ties_even (of_int n) = n"
  by (simp add: round_ties_even_def)

lemma round_ties_even_mono: "x \<le> y \<Longrightarrow> round_ties_even x \<le> round_ties_even y"
proof -
  assume xy: "x \<le> y"
  have b: "\<lfloor>z\<rfloor> \<le> round_ties_even z" "round_ties_even z \<le> \<lfloor>z\<rfloor> + 1" for z
    by (simp_all add: round_ties_even_def Let_def)
  show ?thesis
  proof (cases "\<lfloor>x\<rfloor> = \<lfloor>y\<rfloor>")
    case True
    then show ?thesis using xy unfolding round_ties_even_def Let_def by (auto simp: field_simps)
  next
    case False
    then have "\<lfloor>x\<rfloor> + 1 \<le> \<lfloor>y\<rfloor>" using floor_mono [OF xy] by linarith
    then show ?thesis using b(2) [of x] b(1) [of y] by linarith
  qed
qed

section \<open>The exponent\<close>

lemma floor_log2_bounds:
  assumes "0 < x"
  shows "2 powi floor_log2 x \<le> x" "x < 2 powi (floor_log2 x + 1)"
proof -
  obtain p q where pq: "quotient_of x = (p, q)" by (cases "quotient_of x")
  have x: "x = of_int p / of_int q" and q: "0 < q" using pq by (auto dest: quotient_of_div quotient_of_denom_pos)
  have p: "0 < p" using assms x q by (simp add: zero_less_divide_iff)
  have up: "of_int n < (2 :: rat) powi bitlen n" and lo: "(2 :: rat) powi (bitlen n - 1) \<le> of_int n"
    if "0 < n" for n
  proof -
    have "1 \<le> bitlen n" using that bitlen_eq_zero_iff [of n] bitlen_nonneg [of n] by linarith
    then have e: "(2 :: rat) powi bitlen n = of_int (2 ^ nat (bitlen n))"
      "(2 :: rat) powi (bitlen n - 1) = of_int (2 ^ nat (bitlen n - 1))"
      by (simp_all add: power_int_nonneg_exp)
    show "of_int n < (2 :: rat) powi bitlen n" "(2 :: rat) powi (bitlen n - 1) \<le> of_int n"
      using bitlen_bounds [OF that] unfolding e of_int_less_iff of_int_le_iff by blast+
  qed
  let ?k = "bitlen p - bitlen q"
  have "2 powi (?k - 1) = (2 :: rat) powi (bitlen p - 1) / 2 powi bitlen q"
    by (simp add: power_int_diff)
  also have "\<dots> \<le> of_int p / of_int q"
    using lo [OF p] up [OF q] p q by (intro frac_le) auto
  finally have low: "2 powi (?k - 1) \<le> x" using x by simp
  have "of_int p / of_int q < (2 :: rat) powi bitlen p / 2 powi (bitlen q - 1)"
    using up [OF p] lo [OF q] p by (intro frac_less) auto
  also have "\<dots> = 2 powi (?k + 1)" by (simp add: power_int_diff power_int_add)
  finally have high: "x < 2 powi (?k + 1)" using x by simp
  show "2 powi floor_log2 x \<le> x" "x < 2 powi (floor_log2 x + 1)"
    using low high by (auto simp: floor_log2_def pq Let_def)
qed

lemma two_powi_le_iff: "(2 :: rat) powi a \<le> 2 powi b \<longleftrightarrow> a \<le> b"
proof
  assume *: "(2 :: rat) powi a \<le> 2 powi b"
  show "a \<le> b"
  proof (rule ccontr)
    assume "\<not> a \<le> b"
    then have "(2 :: rat) powi b < 2 powi a" by (intro power_int_strict_increasing) auto
    then show False using * by linarith
  qed
qed (simp add: power_int_increasing)

lemma two_powi_less_iff: "(2 :: rat) powi a < 2 powi b \<longleftrightarrow> a < b"
  using two_powi_le_iff [of b a] by linarith

lemma floor_log2_mono:
  assumes "0 < x" "x \<le> y"
  shows "floor_log2 x \<le> floor_log2 y"
proof -
  have "(2 :: rat) powi floor_log2 x < 2 powi (floor_log2 y + 1)"
    using floor_log2_bounds [OF assms(1)] floor_log2_bounds [of y] assms by linarith
  then show ?thesis by (simp add: two_powi_less_iff)
qed

section \<open>Rounding\<close>

lemma f64_round_0 [simp]: "f64_round 0 = 0"
  by (simp add: f64_round_def)

lemma f64_round_error_ulp: "\<bar>f64_round x - x\<bar> \<le> 2 powi (ulp_exp x - 1)"
proof (cases "x = 0")
  case False
  let ?u = "(2 :: rat) powi ulp_exp x"
  have u: "0 < ?u" by simp
  have "f64_round x - x = (of_int (round_ties_even (x / ?u)) - x / ?u) * ?u"
    using False u by (simp add: f64_round_def algebra_simps)
  then have "\<bar>f64_round x - x\<bar> \<le> 1 / 2 * ?u"
    using mult_right_mono [OF round_ties_even_error [of "x / ?u"] less_imp_le [OF u]]
    by (simp add: abs_mult)
  then show ?thesis by (simp add: power_int_diff)
qed simp

lemma f64_round_error:
  assumes "2 powi (- 1000) \<le> x"
  shows "\<bar>f64_round x - x\<bar> \<le> x / 2 ^ 53"
proof -
  have x: "0 < x" using assms zero_less_power_int [of "2 :: rat" "- 1000"] by linarith
  have "\<not> floor_log2 x + 1 \<le> - 1000"
  proof
    assume "floor_log2 x + 1 \<le> - 1000"
    then have "(2 :: rat) powi (floor_log2 x + 1) \<le> 2 powi (- 1000)" by (intro power_int_increasing) auto
    then show False using floor_log2_bounds(2) [OF x] assms by linarith
  qed
  then have "ulp_exp x - 1 = floor_log2 x - 53" using x by (simp add: ulp_exp_def)
  then have "(2 :: rat) powi (ulp_exp x - 1) = 2 powi (floor_log2 x - 53)" by (simp only:)
  also have "\<dots> = 2 powi floor_log2 x / 2 ^ 53" by (simp add: power_int_diff)
  also have "\<dots> \<le> x / 2 ^ 53" using floor_log2_bounds(1) [OF x] by (intro divide_right_mono) auto
  finally show ?thesis using f64_round_error_ulp [of x] by linarith
qed

lemma f64_round_le: "0 \<le> x \<Longrightarrow> f64_round x \<le> x + max 1 x / 2 ^ 53"
proof -
  assume x: "0 \<le> x"
  show ?thesis
  proof (cases "2 powi (- 1000) \<le> x")
    case True
    have "x / 2 ^ 53 \<le> max 1 x / 2 ^ 53" by (intro divide_right_mono) auto
    then show ?thesis using f64_round_error [OF True] by linarith
  next
    case False
    show ?thesis
    proof (cases "x = 0")
      case nz: False
      have "\<not> - 1000 \<le> floor_log2 x"
      proof
        assume "- 1000 \<le> floor_log2 x"
        then have "(2 :: rat) powi (- 1000) \<le> 2 powi floor_log2 x" by (intro power_int_increasing) auto
        then show False using floor_log2_bounds(1) [of x] x nz False by linarith
      qed
      then have "ulp_exp x - 1 \<le> - 53" using x by (simp add: ulp_exp_def)
      then have "(2 :: rat) powi (ulp_exp x - 1) \<le> 2 powi (- 53)" by (intro power_int_increasing) auto
      also have "\<dots> = 1 / 2 ^ 53" by simp
      also have "\<dots> \<le> max 1 x / 2 ^ 53" by (intro divide_right_mono) auto
      finally show ?thesis using f64_round_error_ulp [of x] by linarith
    qed simp
  qed
qed

lemma f64_round_nonneg: "0 \<le> x \<Longrightarrow> 0 \<le> f64_round x"
  using round_ties_even_mono [of 0 "x / 2 powi ulp_exp x"] round_ties_even_of_int [of 0]
  by (simp add: f64_round_def)

lemma f64_round_mono:
  assumes "0 \<le> x" "x \<le> y"
  shows "f64_round x \<le> f64_round y"
proof (cases "x = 0")
  case True
  then show ?thesis using f64_round_nonneg assms by simp
next
  case False
  then have x: "0 < x" and y: "0 < y" using assms by auto
  let ?a = "ulp_exp x" and ?b = "ulp_exp y"
  have fl: "floor_log2 x \<le> floor_log2 y" by (rule floor_log2_mono [OF x assms(2)])
  have ab: "?a = max (- 1074) (floor_log2 x - 52)" "?b = max (- 1074) (floor_log2 y - 52)"
    using x y by (simp_all add: ulp_exp_def)
  have "- 1074 \<le> ?a" "floor_log2 x - 52 \<le> ?a" "?a \<le> ?b" "?b = - 1074 \<or> ?b = floor_log2 y - 52"
    unfolding ab using fl by linarith+
  then consider "?a = ?b" | "?a < ?b" "?b = floor_log2 y - 52" "floor_log2 x + 1 \<le> ?a + 53"
    by linarith
  then show ?thesis
  proof cases
    case 1
    have "x / 2 powi ?a \<le> y / 2 powi ?b" unfolding 1 using assms(2) by (intro divide_right_mono) auto
    then show ?thesis
      using x y round_ties_even_mono 1 by (simp add: f64_round_def)
  next
    case 2
    have "x \<le> 2 powi (?a + 53)"
      using floor_log2_bounds(2) [OF x] power_int_increasing [OF 2(3), of "2 :: rat"] by linarith
    then have "x / 2 powi ?a \<le> of_int (2 ^ 53)" by (simp add: power_int_add divide_le_eq mult.commute)
    then have "round_ties_even (x / 2 powi ?a) \<le> 2 ^ 53"
      using round_ties_even_mono round_ties_even_of_int by metis
    then have "(of_int (round_ties_even (x / 2 powi ?a)) :: rat) \<le> of_int (2 ^ 53)"
      by (simp only: of_int_le_iff)
    then have "f64_round x \<le> of_int (2 ^ 53) * 2 powi ?a"
      using x by (simp only: f64_round_def) (simp add: mult_right_mono)
    also have "\<dots> = 2 powi (?a + 53)" by (simp add: power_int_add)
    also have "\<dots> \<le> 2 powi (?b + 52)" using 2(1) by (intro power_int_increasing) auto
    also have "\<dots> = of_int (2 ^ 52) * 2 powi ?b" by (simp add: power_int_add)
    also have "\<dots> \<le> f64_round y"
    proof -
      have "2 powi (?b + 52) \<le> y" using floor_log2_bounds(1) [OF y] 2(2) by simp
      then have "of_int (2 ^ 52) \<le> y / 2 powi ?b" by (simp add: power_int_add le_divide_eq mult.commute)
      then have "2 ^ 52 \<le> round_ties_even (y / 2 powi ?b)"
        using round_ties_even_mono round_ties_even_of_int by metis
      then have "of_int (2 ^ 52) \<le> (of_int (round_ties_even (y / 2 powi ?b)) :: rat)"
        by (simp only: of_int_le_iff)
      then show ?thesis using y by (simp only: f64_round_def) (simp add: mult_right_mono)
    qed
    finally show ?thesis .
  qed
qed

lemma f64_of_nat_exact: "n \<le> 2 ^ 53 \<Longrightarrow> f64_of_nat n = of_nat n"
proof (cases "n = 0")
  case nz: False
  assume n: "n \<le> 2 ^ 53"
  let ?x = "of_nat n :: rat"
  have x: "0 < ?x" using nz by simp
  have int: "\<exists>m :: int. ?x / 2 powi ulp_exp ?x = of_int m"
  proof (cases "n = 2 ^ 53")
    case True
    have x53: "?x = 2 powi 53" unfolding True by simp
    have "(2 :: rat) powi floor_log2 ?x \<le> 2 powi 53" "(2 :: rat) powi 53 < 2 powi (floor_log2 ?x + 1)"
      using floor_log2_bounds [OF x] x53 by (simp_all only:)
    then have "floor_log2 ?x = 53" unfolding two_powi_le_iff two_powi_less_iff by linarith
    then have "ulp_exp ?x = 1" by (simp add: ulp_exp_def)
    then have "?x / 2 powi ulp_exp ?x = of_int (2 ^ 52)" by (simp add: True)
    then show ?thesis by blast
  next
    case False
    have "?x < of_nat (2 ^ 53)" using n False by (simp only: of_nat_less_iff)
    also have "(of_nat (2 ^ 53) :: rat) = 2 powi 53" by simp
    finally have "2 powi floor_log2 ?x < (2 :: rat) powi 53"
      using floor_log2_bounds(1) [OF x] by linarith
    then have "floor_log2 ?x < 53" by (simp only: two_powi_less_iff)
    then have "ulp_exp ?x \<le> 0" by (simp add: ulp_exp_def)
    then have "?x / 2 powi ulp_exp ?x = of_int (int n * 2 ^ nat (- ulp_exp ?x))"
      by (simp add: power_int_def field_simps)
    then show ?thesis by blast
  qed
  then obtain m :: int where m: "?x / 2 powi ulp_exp ?x = of_int m" by blast
  have "f64_round ?x = of_int m * 2 powi ulp_exp ?x" using x by (simp add: f64_round_def m)
  also have "\<dots> = ?x" unfolding m [symmetric] by simp
  finally show ?thesis by (simp add: f64_of_nat_def)
qed (simp add: f64_of_nat_def)

lemma f64_of_nat_nonneg: "0 \<le> f64_of_nat n"
  by (simp add: f64_of_nat_def f64_round_nonneg)

lemma f64_of_nat_small: "f64_of_nat n \<le> of_nat b \<Longrightarrow> b < 2 ^ 53 \<Longrightarrow> n < 2 ^ 53"
proof (rule ccontr)
  assume *: "f64_of_nat n \<le> of_nat b" "b < 2 ^ 53" "\<not> n < 2 ^ 53"
  have "(of_nat (2 ^ 53) :: rat) = f64_of_nat (2 ^ 53)" by (simp only: f64_of_nat_exact order_refl)
  also have "\<dots> \<le> f64_of_nat n" unfolding f64_of_nat_def
    using *(3) by (intro f64_round_mono) (simp_all only: of_nat_le_iff not_less of_nat_0_le_iff)
  also have "\<dots> \<le> of_nat b" by (rule *(1))
  finally have "(2 :: nat) ^ 53 \<le> b" by (simp only: of_nat_le_iff)
  then show False using *(2) by linarith
qed

text \<open>Zero and the values well above the subnormal range have a relative error.\<close>

definition normal0 :: "rat \<Rightarrow> bool" where
  "normal0 x \<longleftrightarrow> x = 0 \<or> 2 powi (- 100) \<le> x"

definition eps :: rat where "eps = 1 / 2 ^ 53"

lemma eps_pos: "0 < eps" "eps < 1 / 2"
  by (simp_all add: eps_def)

lemma normal0_nonneg: "normal0 x \<Longrightarrow> 0 \<le> x"
  using zero_less_power_int [of "2 :: rat" "- 100"] by (auto simp: normal0_def simp del: zero_less_power_int)

lemma f64_round_rel:
  assumes "normal0 x"
  shows "f64_round x \<le> x * (1 + eps)" "x * (1 - eps) \<le> f64_round x"
proof -
  have "\<bar>f64_round x - x\<bar> \<le> x * eps"
  proof (cases "x = 0")
    case False
    have "(2 :: rat) powi (- 1000) \<le> 2 powi (- 100)" by (simp only: two_powi_le_iff)
    then have "2 powi (- 1000) \<le> x" using assms False by (auto simp only: normal0_def)
    then show ?thesis using f64_round_error by (simp add: eps_def)
  qed simp
  then show "f64_round x \<le> x * (1 + eps)" "x * (1 - eps) \<le> f64_round x"
    by (simp_all add: algebra_simps abs_le_iff)
qed

lemma as_secs_f64_0 [simp]: "as_secs_f64 0 = 0"
  by (simp add: as_secs_f64_def f64_of_nat_def f64_div_def f64_add_def)

lemma as_secs_f64_bounds:
  shows "as_secs_f64 d \<le> of_nat d / 10 ^ 9 * (1 + eps) ^ 2" "0 < d \<Longrightarrow> 1 / 2 ^ 40 \<le> as_secs_f64 d"
proof -
  define s m where "s = d div 10 ^ 9" and "m = d mod 10 ^ 9"
  let ?a = "f64_of_nat s" and ?b = "f64_div (f64_of_nat m) (10 ^ 9)"
  have d: "(of_nat d :: rat) = of_nat s * 10 ^ 9 + of_nat m"
  proof -
    have "d = s * 10 ^ 9 + m" by (simp add: s_def m_def)
    then show ?thesis by (metis of_nat_add of_nat_mult of_nat_numeral of_nat_power)
  qed
  have "m \<le> 2 ^ 53" using mod_less_divisor [of "10 ^ 9" d] by (simp add: m_def)
  then have m: "f64_of_nat m = of_nat m" by (rule f64_of_nat_exact)
  have "(2 :: rat) powi (- 100) \<le> 1 / 10 ^ 9" by simp
  then have nm: "0 < m \<Longrightarrow> 2 powi (- 100) \<le> (of_nat m / 10 ^ 9 :: rat)"
    by (rule order_trans) (intro divide_right_mono, simp_all)
  then have nb: "normal0 (of_nat m / 10 ^ 9)" unfolding normal0_def by (cases "m = 0") auto
  have ns: "normal0 (of_nat s)"
  proof (cases "s = 0")
    case False
    have "(2 :: rat) powi (- 100) \<le> 1" by simp
    also have "1 \<le> (of_nat s :: rat)" using False by simp
    finally show ?thesis by (simp only: normal0_def simp_thms)
  qed (simp add: normal0_def)
  have a: "?a \<le> of_nat s * (1 + eps)" "of_nat s * (1 - eps) \<le> ?a"
    unfolding f64_of_nat_def using f64_round_rel [OF ns] by blast+
  have b: "?b \<le> of_nat m / 10 ^ 9 * (1 + eps)" "of_nat m / 10 ^ 9 * (1 - eps) \<le> ?b"
    unfolding f64_div_def m using f64_round_rel [OF nb] by blast+
  have half: "x / 2 \<le> x * (1 - eps)" if "0 \<le> x" for x
  proof -
    have "x * (1 / 2) \<le> x * (1 - eps)" using that eps_pos(2) by (intro mult_left_mono) auto
    then show ?thesis by simp
  qed
  have low: "1 / 2 ^ 39 \<le> ?a + ?b" if "0 < d"
  proof -
    have "of_nat s / 2 \<le> ?a" "of_nat m / 10 ^ 9 / 2 \<le> ?b"
      using half [of "of_nat s"] half [of "of_nat m / 10 ^ 9"] a(2) b(2) by simp_all
    moreover have "1 / 2 ^ 39 \<le> (of_nat s / 2 + of_nat m / 10 ^ 9 / 2 :: rat)"
    proof -
      have "(1 :: rat) \<le> of_nat d" using that by simp
      then have "1 / (2 * 10 ^ 9) \<le> (of_nat d / (2 * 10 ^ 9) :: rat)" by (intro divide_right_mono) auto
      also have "\<dots> = of_nat s / 2 + of_nat m / 10 ^ 9 / 2" by (simp add: d field_simps)
      finally show ?thesis by simp
    qed
    ultimately show ?thesis by linarith
  qed
  have n: "normal0 (?a + ?b)"
  proof (cases "d = 0")
    case True
    then show ?thesis by (simp add: s_def m_def normal0_def f64_of_nat_def f64_div_def)
  next
    case False
    have "(2 :: rat) powi (- 100) \<le> 1 / 2 ^ 39" by simp
    then have "2 powi (- 100) \<le> ?a + ?b" using low False by linarith
    then show ?thesis by (simp only: normal0_def simp_thms)
  qed
  have r: "as_secs_f64 d = f64_round (?a + ?b)" by (simp add: as_secs_f64_def s_def m_def f64_add_def)
  have "as_secs_f64 d \<le> (?a + ?b) * (1 + eps)" unfolding r by (rule f64_round_rel(1) [OF n])
  also have "\<dots> \<le> (of_nat s * (1 + eps) + of_nat m / 10 ^ 9 * (1 + eps)) * (1 + eps)"
    using a(1) b(1) eps_pos by (intro mult_right_mono add_mono) auto
  also have "\<dots> = of_nat d / 10 ^ 9 * (1 + eps) ^ 2" by (simp add: d field_simps power2_eq_square)
  finally show "as_secs_f64 d \<le> of_nat d / 10 ^ 9 * (1 + eps) ^ 2" .
  assume "0 < d"
  have "(1 / 2 ^ 40 :: rat) = 1 / 2 ^ 39 / 2" by simp
  also have "\<dots> \<le> (?a + ?b) / 2" using low [OF \<open>0 < d\<close>] by (intro divide_right_mono) auto
  also have "\<dots> \<le> as_secs_f64 d"
    using half [OF normal0_nonneg [OF n]] f64_round_rel(2) [OF n] unfolding r by linarith
  finally show "1 / 2 ^ 40 \<le> as_secs_f64 d" .
qed

end
