(* ===== verification/Rate_Limit.thy ===== *)
theory Rate_Limit
  imports Lru F64
begin

text \<open>
  \<open>ullm-gateway/rate_limit.rs\<close>: one token bucket per tenant in a table of at
  most \<open>max_tenants\<close> buckets with a recency index, refilled in \<open>f64\<close> arithmetic.
  \<open>try_charge\<close> takes the instant it reads; \<open>None\<close> is a panic of its \<open>expect\<close>.
  Shown: the table and its index stay in step and bounded and no call panics,
  and over any run of charges the bytes admitted for a tenant are bounded by
  bursts and elapsed time, up to the rounding of \<open>f64\<close>.
\<close>

declare of_nat_unat [simp del]

section \<open>rate_limit.rs\<close>

record RateLimiterConfig =
  bytes_per_sec :: u64
  burst_bytes :: u64
  max_tenants :: nat

definition RateLimiterConfig_default :: RateLimiterConfig where
  "RateLimiterConfig_default =
    \<lparr>bytes_per_sec = 1000000, burst_bytes = 4000000, max_tenants = 16 * 1024\<rparr>"

record Bucket =
  tokens :: f64
  last_refill :: instant
  b_lru_seq :: u64

record RateInner =
  buckets :: "(string \<times> Bucket) list"
  rl_index :: "(instant \<times> u64 \<times> string) list"
  rl_next_seq :: u64
  last_eviction :: "instant option"

record RateLimiter =
  rl_cfg :: RateLimiterConfig
  rl_inner :: RateInner

definition EVICTION_COOLDOWN_SECS :: f64 where "EVICTION_COOLDOWN_SECS = 60"
definition COLD_BURST_FRACTION :: f64 where "COLD_BURST_FRACTION = 1 / 8"

definition RateInner_empty :: RateInner where
  "RateInner_empty = \<lparr>buckets = [], rl_index = [], rl_next_seq = 0, last_eviction = None\<rparr>"

definition RateLimiter_new :: "RateLimiterConfig \<Rightarrow> RateLimiter" where
  "RateLimiter_new cfg = \<lparr>rl_cfg = cfg, rl_inner = RateInner_empty\<rparr>"

definition rl_evict :: "RateLimiterConfig \<Rightarrow> RateInner \<Rightarrow> bool \<times> RateInner" where
  "rl_evict cfg inn =
    (if max_tenants cfg > 0 \<and> length (buckets inn) \<ge> max_tenants cfg then
       case bt_first (rl_index inn) of
         Some (victim_ts, victim_seq, victim_key) \<Rightarrow>
           (True, inn\<lparr>buckets := AList.delete victim_key (buckets inn),
                      rl_index := bt_remove (victim_ts, victim_seq, victim_key) (rl_index inn)\<rparr>)
       | None \<Rightarrow> (False, inn)
     else (False, inn))"

definition under_pressure :: "instant \<Rightarrow> bool \<Rightarrow> RateInner \<Rightarrow> bool" where
  "under_pressure now evicted_now inn \<longleftrightarrow> evicted_now \<or>
    (case last_eviction inn of
       None \<Rightarrow> False
     | Some t \<Rightarrow> as_secs_f64 (duration_since now t) < EVICTION_COOLDOWN_SECS)"

definition starting_tokens :: "RateLimiterConfig \<Rightarrow> bool \<Rightarrow> f64" where
  "starting_tokens cfg pressure =
    (let burst = f64_of_nat (unat (burst_bytes cfg))
     in if pressure then f64_mul burst COLD_BURST_FRACTION else burst)"

text \<open>The branch for a tenant without a bucket.\<close>

definition rl_admit :: "RateLimiterConfig \<Rightarrow> instant \<Rightarrow> string \<Rightarrow> RateInner \<Rightarrow> RateInner" where
  "rl_admit cfg now tenant inn =
    (let (evicted_now, inn) = rl_evict cfg inn;
         start = starting_tokens cfg (under_pressure now evicted_now inn);
         inn = (if evicted_now then inn\<lparr>last_eviction := Some now\<rparr> else inn);
         new_seq = rl_next_seq inn
     in inn\<lparr>rl_next_seq := rl_next_seq inn + 1,
            buckets := AList.update tenant \<lparr>tokens = start, last_refill = now, b_lru_seq = new_seq\<rparr>
              (buckets inn),
            rl_index := bt_insert (now, new_seq, tenant) (rl_index inn)\<rparr>)"

definition refilled :: "RateLimiterConfig \<Rightarrow> instant \<Rightarrow> Bucket \<Rightarrow> f64" where
  "refilled cfg now b =
    (let elapsed = as_secs_f64 (duration_since now (last_refill b))
     in min (f64_add (tokens b) (f64_mul elapsed (f64_of_nat (unat (bytes_per_sec cfg)))))
          (f64_of_nat (unat (burst_bytes cfg))))"

definition charge_bucket :: "RateLimiterConfig \<Rightarrow> instant \<Rightarrow> u64 \<Rightarrow> u64 \<Rightarrow> Bucket \<Rightarrow> bool \<times> Bucket" where
  "charge_bucket cfg now new_seq n b =
    (let t = refilled cfg now b;
         b = b\<lparr>tokens := t, last_refill := now, b_lru_seq := new_seq\<rparr>
     in if t \<ge> f64_of_nat (unat n) then (True, b\<lparr>tokens := f64_sub t (f64_of_nat (unat n))\<rparr>)
        else (False, b))"

definition try_charge_inner ::
  "RateLimiterConfig \<Rightarrow> instant \<Rightarrow> string \<Rightarrow> u64 \<Rightarrow> RateInner \<Rightarrow> (bool \<times> RateInner) option" where
  "try_charge_inner cfg now tenant n inn =
    (let inn = (if map_of (buckets inn) tenant = None then rl_admit cfg now tenant inn else inn)
     in case map_of (buckets inn) tenant of
          None \<Rightarrow> None
        | Some b \<Rightarrow>
          let index = bt_remove (last_refill b, b_lru_seq b, tenant) (rl_index inn);
              new_seq = rl_next_seq inn;
              (ok, b') = charge_bucket cfg now new_seq n b
          in Some (ok, inn\<lparr>rl_next_seq := rl_next_seq inn + 1,
                           rl_index := bt_insert (now, new_seq, tenant) index,
                           buckets := AList.update tenant b' (buckets inn)\<rparr>))"

definition try_charge :: "instant \<Rightarrow> string \<Rightarrow> u64 \<Rightarrow> RateLimiter \<Rightarrow> (bool \<times> RateLimiter) option" where
  "try_charge now tenant n rl =
    map_option (\<lambda>(ok, inn). (ok, rl\<lparr>rl_inner := inn\<rparr>)) (try_charge_inner (rl_cfg rl) now tenant n (rl_inner rl))"

definition rl_tenant_count :: "RateLimiter \<Rightarrow> nat" where
  "rl_tenant_count rl = length (buckets (rl_inner rl))"

section \<open>The table\<close>

abbreviation bucket_stamp :: "Bucket \<Rightarrow> instant \<times> u64" where
  "bucket_stamp b \<equiv> (last_refill b, b_lru_seq b)"

definition rl_inv :: "RateLimiterConfig \<Rightarrow> RateInner \<Rightarrow> bool" where
  "rl_inv cfg inn \<longleftrightarrow> bt_invar (rl_index inn) \<and>
    in_step bucket_stamp (buckets inn) (set (rl_index inn)) \<and>
    (max_tenants cfg > 0 \<longrightarrow> length (buckets inn) \<le> max_tenants cfg)"

lemma rl_inv_empty: "rl_inv cfg RateInner_empty"
  by (simp add: rl_inv_def RateInner_empty_def bt_invar_def in_step_def)

lemma rl_evict_step:
  assumes "rl_inv cfg inn" "rl_evict cfg inn = (e, inn')"
  shows "rl_inv cfg inn'" "max_tenants cfg > 0 \<Longrightarrow> length (buckets inn') < max_tenants cfg"
    "map_of (buckets inn') k = Some b \<Longrightarrow> map_of (buckets inn) k = Some b"
    "length (buckets inn) < max_tenants cfg \<or> max_tenants cfg = 0 \<Longrightarrow> inn' = inn \<and> \<not> e"
proof -
  have inv: "bt_invar (rl_index inn)" "in_step bucket_stamp (buckets inn) (set (rl_index inn))"
    using assms(1) by (simp_all add: rl_inv_def)
  have "rl_inv cfg inn' \<and> (max_tenants cfg > 0 \<longrightarrow> length (buckets inn') < max_tenants cfg) \<and>
    (map_of (buckets inn') k = Some b \<longrightarrow> map_of (buckets inn) k = Some b)"
  proof (cases "max_tenants cfg > 0 \<and> length (buckets inn) \<ge> max_tenants cfg")
    case True
    then have l: "length (buckets inn) = max_tenants cfg" using assms(1) by (simp add: rl_inv_def)
    then obtain t q v where f: "bt_first (rl_index inn) = Some (t, q, v)"
      using lru.first_exists [OF inv] True by fastforce
    note mem = bt.first(2) [OF inv(1) f, THEN conjunct1]
    have d: "distinct (map fst (buckets inn))" using inv(2) by (simp add: in_step_def)
    have "v \<in> fst ` set (buckets inn)"
      using lru.first_is_lru(1) [OF inv f] by (metis fst_conv image_eqI map_of_SomeD)
    then have "length (AList.delete v (buckets inn)) < max_tenants cfg"
      using length_alist_delete [OF d, of v] l True by simp
    then show ?thesis
      using lru.in_step_drop [OF inv mem] bt.remove(1) [OF inv(1)] assms(2) True f
      by (auto simp: rl_evict_def rl_inv_def delete_conv' split: if_splits simp del: map_of_eq_Some_iff)
  next
    case False
    then show ?thesis using assms by (auto simp: rl_evict_def)
  qed
  then show "rl_inv cfg inn'" "max_tenants cfg > 0 \<Longrightarrow> length (buckets inn') < max_tenants cfg"
    "map_of (buckets inn') k = Some b \<Longrightarrow> map_of (buckets inn) k = Some b"
    by blast+
  show "length (buckets inn) < max_tenants cfg \<or> max_tenants cfg = 0 \<Longrightarrow> inn' = inn \<and> \<not> e"
    using assms(2) by (auto simp: rl_evict_def)
qed

lemma rl_admit_step:
  assumes "rl_inv cfg inn" "map_of (buckets inn) k = None"
  obtains b where "rl_inv cfg (rl_admit cfg now k inn)" "last_refill b = now"
    "map_of (buckets (rl_admit cfg now k inn)) = (map_of (buckets (snd (rl_evict cfg inn))))(k \<mapsto> b)"
    "\<exists>p. tokens b = starting_tokens cfg p"
proof -
  obtain e inn' where ev: "rl_evict cfg inn = (e, inn')" by (cases "rl_evict cfg inn")
  note st = rl_evict_step [OF assms(1) ev]
  have none: "map_of (buckets inn') k = None"
    using st(3) [of k] assms(2) by (cases "map_of (buckets inn') k") auto
  let ?b = "\<lparr>tokens = starting_tokens cfg (under_pressure now e inn'), last_refill = now,
    b_lru_seq = rl_next_seq inn'\<rparr>"
  have inv: "bt_invar (rl_index inn')" "in_step bucket_stamp (buckets inn') (set (rl_index inn'))"
    using st(1) by (simp_all add: rl_inv_def)
  have "rl_inv cfg (rl_admit cfg now k inn)"
    using lru.admit_step [OF inv none, of ?b now "rl_next_seq inn'"] bt.insert(1) [OF inv(1)] st(2)
    by (auto simp: rl_admit_def ev rl_inv_def length_alist_update Let_def)
  moreover have "map_of (buckets (rl_admit cfg now k inn)) = (map_of (buckets (snd (rl_evict cfg inn))))(k \<mapsto> ?b)"
    by (auto simp: rl_admit_def ev update_conv' Let_def)
  ultimately show thesis by (intro that [of ?b]) auto
qed

text \<open>
  One charge never panics, keeps the invariant, and puts the charged bucket in
  the table in place of the bucket of the tenant or of a new one.
\<close>

lemma try_charge_step:
  assumes "rl_inv cfg inn"
  obtains ok inn' b b' B seq where "try_charge_inner cfg now k n inn = Some (ok, inn')" "rl_inv cfg inn'"
    "charge_bucket cfg now seq n b = (ok, b')" "map_of (buckets inn') = B(k \<mapsto> b')"
    "map_of (buckets inn) k = Some b \<and> B = map_of (buckets inn) \<or>
     map_of (buckets inn) k = None \<and> B = map_of (buckets (snd (rl_evict cfg inn))) \<and>
       last_refill b = now \<and> (\<exists>p. tokens b = starting_tokens cfg p)"
proof -
  let ?inn = "if map_of (buckets inn) k = None then rl_admit cfg now k inn else inn"
  obtain b B where b: "rl_inv cfg ?inn" "map_of (buckets ?inn) = B(k \<mapsto> b)"
    and alt: "map_of (buckets inn) k = Some b \<and> B = map_of (buckets inn) \<or>
      map_of (buckets inn) k = None \<and> B = map_of (buckets (snd (rl_evict cfg inn))) \<and>
       last_refill b = now \<and> (\<exists>p. tokens b = starting_tokens cfg p)"
  proof (cases "map_of (buckets inn) k")
    case None
    then show ?thesis using rl_admit_step [OF assms None, of now] that by auto
  next
    case (Some b)
    then show ?thesis using that [of "map_of (buckets inn)" b] assms by (simp add: fun_upd_idem)
  qed
  obtain ok b' where c: "charge_bucket cfg now (rl_next_seq ?inn) n b = (ok, b')" by fastforce
  have st: "bucket_stamp b' = (now, rl_next_seq ?inn)"
    using c by (auto simp: charge_bucket_def Let_def split: if_splits)
  have k: "map_of (buckets ?inn) k = Some b" using b(2) by simp
  let ?inn' = "?inn\<lparr>rl_next_seq := rl_next_seq ?inn + 1,
    rl_index := bt_insert (now, rl_next_seq ?inn, k) (bt_remove (last_refill b, b_lru_seq b, k) (rl_index ?inn)),
    buckets := AList.update k b' (buckets ?inn)\<rparr>"
  have "try_charge_inner cfg now k n inn = Some (ok, ?inn')"
    unfolding try_charge_inner_def Let_def k by (simp add: c)
  moreover have "rl_inv cfg ?inn'"
  proof -
    have inv: "bt_invar (rl_index ?inn)" "in_step bucket_stamp (buckets ?inn) (set (rl_index ?inn))"
      "max_tenants cfg > 0 \<longrightarrow> length (buckets ?inn) \<le> max_tenants cfg"
      using b(1) unfolding rl_inv_def by blast+
    have "length (AList.update k b' (buckets ?inn)) = length (buckets ?inn)"
      using k by (simp add: length_alist_update map_of_eq_None_iff [symmetric])
    then show ?thesis
      using lru.refresh_step [OF inv(1,2) k refl st] inv(3)
        bt.insert(1) [OF bt.remove(1) [OF inv(1)], of "(now, rl_next_seq ?inn, k)"]
      unfolding rl_inv_def by simp
  qed
  moreover have "map_of (buckets ?inn') = B(k \<mapsto> b')" using b(2) by (simp add: update_conv')
  ultimately show thesis using c alt by (intro that) auto
qed

section \<open>The bucket\<close>

definition cfg_ok :: "RateLimiterConfig \<Rightarrow> bool" where
  "cfg_ok cfg \<longleftrightarrow> unat (burst_bytes cfg) < 2 ^ 53 \<and> unat (bytes_per_sec cfg) < 2 ^ 53"

abbreviation burst :: "RateLimiterConfig \<Rightarrow> rat" where "burst cfg \<equiv> of_nat (unat (burst_bytes cfg))"

text \<open>Bytes per nanosecond, with the relative error of the three roundings of a refill.\<close>

definition rate :: "RateLimiterConfig \<Rightarrow> rat" where
  "rate cfg = of_nat (unat (bytes_per_sec cfg)) / 10 ^ 9 * (1 + 1 / 2 ^ 51)"

definition slack :: "RateLimiterConfig \<Rightarrow> rat" where "slack cfg = max 1 (burst cfg) / 2 ^ 52"

definition bucket_ok :: "RateLimiterConfig \<Rightarrow> Bucket \<Rightarrow> bool" where
  "bucket_ok cfg b \<longleftrightarrow> 0 \<le> tokens b \<and> tokens b \<le> burst cfg"

lemma rate_nonneg: "0 \<le> rate cfg"
  by (simp add: rate_def)

lemma f64_mul_refill:
  assumes "unat (bytes_per_sec cfg) < 2 ^ 53"
  shows "f64_mul (as_secs_f64 d) (f64_of_nat (unat (bytes_per_sec cfg))) \<le> rate cfg * of_nat d"
    "0 \<le> f64_mul (as_secs_f64 d) (f64_of_nat (unat (bytes_per_sec cfg)))"
proof -
  let ?r = "of_nat (unat (bytes_per_sec cfg)) :: rat" and ?s = "as_secs_f64 d"
  have r: "f64_of_nat (unat (bytes_per_sec cfg)) = ?r" using assms by (intro f64_of_nat_exact) simp
  have s0: "0 \<le> ?s" using as_secs_f64_bounds(2) [of d] by (cases "d = 0") force+
  have n: "normal0 (?s * ?r)"
  proof (cases "d = 0 \<or> unat (bytes_per_sec cfg) = 0")
    case False
    then have "1 / 2 ^ 40 \<le> ?s" "1 \<le> ?r" using as_secs_f64_bounds(2) [of d] by (simp_all add: Suc_leI)
    then have "1 / 2 ^ 40 * 1 \<le> ?s * ?r" by (intro mult_mono) auto
    moreover have "(2 :: rat) powi (- 100) \<le> 1 / 2 ^ 40 * 1" by simp
    ultimately have "2 powi (- 100) \<le> ?s * ?r" by linarith
    then show ?thesis by (simp only: normal0_def simp_thms)
  qed (auto simp: normal0_def)
  have "f64_mul ?s ?r \<le> ?s * ?r * (1 + eps)" unfolding f64_mul_def by (rule f64_round_rel(1) [OF n])
  also have "\<dots> \<le> of_nat d / 10 ^ 9 * (1 + eps) ^ 2 * ?r * (1 + eps)"
    using as_secs_f64_bounds(1) [of d] eps_pos by (intro mult_right_mono) auto
  also have "\<dots> = ?r / 10 ^ 9 * of_nat d * (1 + eps) ^ 3" by (simp add: power2_eq_square power3_eq_cube)
  also have "\<dots> \<le> ?r / 10 ^ 9 * of_nat d * (1 + 1 / 2 ^ 51)"
    by (intro mult_left_mono) (simp_all add: eps_def power3_eq_cube)
  finally show "f64_mul ?s (f64_of_nat (unat (bytes_per_sec cfg))) \<le> rate cfg * of_nat d"
    unfolding r by (simp add: rate_def mult_ac)
  show "0 \<le> f64_mul ?s (f64_of_nat (unat (bytes_per_sec cfg)))"
    unfolding r f64_mul_def using s0 by (intro f64_round_nonneg) simp
qed

lemma starting_tokens_ok:
  assumes "unat (burst_bytes cfg) < 2 ^ 53"
  shows "0 \<le> starting_tokens cfg p \<and> starting_tokens cfg p \<le> burst cfg"
proof -
  let ?n = "unat (burst_bytes cfg)"
  have e: "f64_of_nat ?n = of_nat ?n" using assms by (intro f64_of_nat_exact) simp
  have "f64_round (of_nat ?n * (1 / 8)) \<le> f64_round (of_nat ?n)" by (intro f64_round_mono) auto
  also have "\<dots> = of_nat ?n" using e by (simp add: f64_of_nat_def)
  finally show ?thesis
    by (simp add: starting_tokens_def Let_def e f64_mul_def COLD_BURST_FRACTION_def f64_round_nonneg)
qed

lemma charge_bucket_bound:
  assumes "cfg_ok cfg" "bucket_ok cfg b" "last_refill b \<le> now" "charge_bucket cfg now seq n b = (ok, b')"
  shows "bucket_ok cfg b'" "last_refill b' = now"
    "(if ok then of_nat (unat n) else 0) + tokens b'
      \<le> tokens b + rate cfg * (of_nat now - of_nat (last_refill b)) + slack cfg"
proof -
  let ?B = "burst cfg" and ?m = "max 1 (burst cfg) / 2 ^ 53"
  let ?fill = "f64_mul (as_secs_f64 (duration_since now (last_refill b))) (f64_of_nat (unat (bytes_per_sec cfg)))"
  define s where "s = tokens b + ?fill"
  define t where "t = refilled cfg now b"
  have e: "f64_of_nat (unat (burst_bytes cfg)) = ?B"
    using assms(1) by (intro f64_of_nat_exact) (simp add: cfg_ok_def)
  have rate: "unat (bytes_per_sec cfg) < 2 ^ 53" using assms(1) by (simp add: cfg_ok_def)
  have s0: "0 \<le> s" using f64_mul_refill(2) [OF rate] assms(2) by (simp add: s_def bucket_ok_def)
  have t: "t = min (f64_round s) ?B" by (simp add: t_def refilled_def Let_def f64_add_def s_def e)
  have t0: "0 \<le> t" "t \<le> ?B" using f64_round_nonneg [OF s0] by (simp_all add: t)
  have m0: "0 \<le> ?m" by simp
  have "t \<le> s + ?m"
  proof (cases "s \<le> ?B")
    case True
    then have "max 1 s / 2 ^ 53 \<le> ?m" by (intro divide_right_mono) auto
    then show ?thesis using f64_round_le [OF s0] unfolding t by linarith
  next
    case False
    then show ?thesis using m0 unfolding t by linarith
  qed
  moreover have "s \<le> tokens b + rate cfg * (of_nat now - of_nat (last_refill b))"
    using f64_mul_refill(1) [OF rate, of "duration_since now (last_refill b)"] assms(3)
    by (simp add: s_def duration_since_def of_nat_diff)
  ultimately have ts: "t \<le> tokens b + rate cfg * (of_nat now - of_nat (last_refill b)) + ?m" by linarith
  have sl: "slack cfg = ?m + ?m" by (simp add: slack_def)
  show "last_refill b' = now" using assms(4) by (auto simp: charge_bucket_def Let_def split: if_splits)
  show "bucket_ok cfg b'" "(if ok then of_nat (unat n) else 0) + tokens b'
      \<le> tokens b + rate cfg * (of_nat now - of_nat (last_refill b)) + slack cfg"
  proof (atomize (full), cases ok)
    case False
    then have "tokens b' = t"
      using assms(4) by (auto simp: charge_bucket_def Let_def t_def split: if_splits)
    then show "bucket_ok cfg b' \<and> (if ok then of_nat (unat n) else 0) + tokens b'
      \<le> tokens b + rate cfg * (of_nat now - of_nat (last_refill b)) + slack cfg"
      using False t0 ts m0 by (simp add: bucket_ok_def sl)
  next
    case True
    then have b': "tokens b' = f64_round (t - f64_of_nat (unat n))" and le: "f64_of_nat (unat n) \<le> t"
      using assms(4) by (auto simp: charge_bucket_def Let_def t_def f64_sub_def split: if_splits)
    have "unat n < 2 ^ 53"
      using f64_of_nat_small [of "unat n" "unat (burst_bytes cfg)"] le t0(2) assms(1) by (simp add: cfg_ok_def)
    then have n: "f64_of_nat (unat n) = of_nat (unat n)" by (intro f64_of_nat_exact) simp
    have d: "0 \<le> t - of_nat (unat n)" "t - of_nat (unat n) \<le> ?B" using le t0(2) n by simp_all
    have "max 1 (t - of_nat (unat n)) / 2 ^ 53 \<le> ?m" using d(2) by (intro divide_right_mono) auto
    then have "tokens b' \<le> t - of_nat (unat n) + ?m"
      using f64_round_le [OF d(1)] unfolding b' n by linarith
    moreover have "0 \<le> tokens b'" unfolding b' n by (rule f64_round_nonneg [OF d(1)])
    moreover have "tokens b' \<le> ?B"
    proof -
      have "tokens b' \<le> f64_round ?B" unfolding b' n by (rule f64_round_mono [OF d])
      then show ?thesis using e by (simp add: f64_of_nat_def)
    qed
    ultimately show "bucket_ok cfg b' \<and> (if ok then of_nat (unat n) else 0) + tokens b'
      \<le> tokens b + rate cfg * (of_nat now - of_nat (last_refill b)) + slack cfg"
      using True ts by (simp add: bucket_ok_def sl)
  qed
qed

section \<open>Runs of charges\<close>

type_synonym charge = "instant \<times> string \<times> u64"

fun rl_run :: "RateLimiterConfig \<Rightarrow> charge list \<Rightarrow> RateInner \<Rightarrow> (bool list \<times> RateInner) option" where
  "rl_run cfg [] inn = Some ([], inn)"
| "rl_run cfg ((now, k, n) # evs) inn =
    (case try_charge_inner cfg now k n inn of
       None \<Rightarrow> None
     | Some (ok, inn) \<Rightarrow> map_option (\<lambda>(oks, inn). (ok # oks, inn)) (rl_run cfg evs inn))"

definition admitted :: "string \<Rightarrow> charge list \<Rightarrow> bool list \<Rightarrow> nat" where
  "admitted k evs oks = (\<Sum>((now, t, n), ok) \<leftarrow> zip evs oks. if t = k \<and> ok then unat n else 0)"

definition charges_of :: "string \<Rightarrow> charge list \<Rightarrow> nat" where
  "charges_of k evs = length (filter (\<lambda>(now, t, n). t = k) evs)"

text \<open>How often a run gives the tenant a new bucket.\<close>

fun new_buckets :: "RateLimiterConfig \<Rightarrow> string \<Rightarrow> charge list \<Rightarrow> RateInner \<Rightarrow> nat" where
  "new_buckets cfg k [] inn = 0"
| "new_buckets cfg k ((now, t, n) # evs) inn =
    (if t = k \<and> map_of (buckets inn) k = None then 1 else 0) +
    (case try_charge_inner cfg now t n inn of
       None \<Rightarrow> 0
     | Some (ok, inn) \<Rightarrow> new_buckets cfg k evs inn)"

definition buckets_ok :: "RateLimiterConfig \<Rightarrow> instant \<Rightarrow> RateInner \<Rightarrow> bool" where
  "buckets_ok cfg t inn \<longleftrightarrow>
    (\<forall>k b. map_of (buckets inn) k = Some b \<longrightarrow> bucket_ok cfg b \<and> last_refill b \<le> t)"

text \<open>What a tenant may still be admitted until the instant \<open>t1\<close> without a new bucket.\<close>

definition allowance :: "RateLimiterConfig \<Rightarrow> string \<Rightarrow> instant \<Rightarrow> instant \<Rightarrow> RateInner \<Rightarrow> rat" where
  "allowance cfg k t1 t inn =
    (case map_of (buckets inn) k of
       None \<Rightarrow> rate cfg * (of_nat t1 - of_nat t)
     | Some b \<Rightarrow> tokens b + rate cfg * (of_nat t1 - of_nat (last_refill b)))"

lemma allowance_charge:
  assumes "cfg_ok cfg" "rl_inv cfg inn" "buckets_ok cfg t inn" "t \<le> now" "now \<le> t1"
    and "try_charge_inner cfg now u n inn = Some (ok, inn')"
  shows "buckets_ok cfg now inn'"
    "(if u = k \<and> ok then of_nat (unat n) else 0) + allowance cfg k t1 now inn'
      \<le> allowance cfg k t1 t inn + (if u = k \<and> map_of (buckets inn) k = None then burst cfg else 0)
        + (if u = k then slack cfg else 0)"
proof -
  obtain ok2 inn2 b b' B seq where st2: "try_charge_inner cfg now u n inn = Some (ok2, inn2)"
    "charge_bucket cfg now seq n b = (ok2, b')" "map_of (buckets inn2) = B(u \<mapsto> b')"
    "map_of (buckets inn) u = Some b \<and> B = map_of (buckets inn) \<or>
     map_of (buckets inn) u = None \<and> B = map_of (buckets (snd (rl_evict cfg inn))) \<and>
       last_refill b = now \<and> (\<exists>p. tokens b = starting_tokens cfg p)"
    by (rule try_charge_step [OF assms(2)])
  have eq: "ok2 = ok" "inn2 = inn'" using st2(1) assms(6) by simp_all
  note st = st2(2-4) [unfolded eq]
  have B: "map_of (buckets inn) v = Some c" if "B v = Some c" for v c
    using st(3) that rl_evict_step(3) [OF assms(2) surjective_pairing] by auto
  have old: "bucket_ok cfg c" "last_refill c \<le> t" if "map_of (buckets inn) v = Some c" for v c
    using assms(3) that unfolding buckets_ok_def by blast+
  have b: "bucket_ok cfg b \<and> last_refill b \<le> now"
    using st(3) old [of u b] assms(1,4) starting_tokens_ok [of cfg] unfolding cfg_ok_def bucket_ok_def
    by (auto intro: order_trans)
  note c = charge_bucket_bound [OF assms(1) b [THEN conjunct1] b [THEN conjunct2] st(1)]
  have "bucket_ok cfg d \<and> last_refill d \<le> now" if "(B(u \<mapsto> b')) v = Some d" for v d
  proof (cases "v = u")
    case False
    then have "B v = Some d" using that by simp
    then show ?thesis using old [OF B] assms(4) le_trans by blast
  qed (use that c(1,2) in auto)
  then show "buckets_ok cfg now inn'" unfolding buckets_ok_def st(2) by blast
  have mono: "rate cfg * (of_nat t1 - of_nat now) \<le> rate cfg * (of_nat t1 - of_nat s)" if "s \<le> now" for s
    using that by (intro mult_left_mono rate_nonneg) auto
  show "(if u = k \<and> ok then of_nat (unat n) else 0) + allowance cfg k t1 now inn'
      \<le> allowance cfg k t1 t inn + (if u = k \<and> map_of (buckets inn) k = None then burst cfg else 0)
        + (if u = k then slack cfg else 0)"
  proof (cases "u = k")
    case True
    then have a': "allowance cfg k t1 now inn' = tokens b' + rate cfg * (of_nat t1 - of_nat now)"
      by (simp add: allowance_def st(2) c(2))
    show ?thesis
    proof (cases "map_of (buckets inn) u")
      case None
      then have "tokens b \<le> burst cfg" "last_refill b = now" using b st(3) by (auto simp: bucket_ok_def)
      then show ?thesis
        using c(3) mono [OF assms(4)] True None unfolding a' by (simp add: allowance_def)
    next
      case (Some b0)
      then have "b0 = b" using st(3) by simp
      then show ?thesis
        using c(3) True Some unfolding a' by (simp add: allowance_def algebra_simps)
    qed
  next
    case False
    have "allowance cfg k t1 now inn' \<le> allowance cfg k t1 t inn"
    proof (cases "B k")
      case None
      then show ?thesis
        using False mono [OF assms(4)] mono [OF order_trans [OF old(2) assms(4)]] old(1)
        by (fastforce simp: allowance_def st(2) bucket_ok_def split: option.split)
    next
      case (Some c)
      then show ?thesis using False B [OF Some] by (simp add: allowance_def st(2))
    qed
    then show ?thesis using False by simp
  qed
qed

lemma allowance_nonneg:
  assumes "buckets_ok cfg t inn" "t \<le> t1"
  shows "0 \<le> allowance cfg k t1 t inn"
proof (cases "map_of (buckets inn) k")
  case (Some b)
  then have "0 \<le> tokens b" "last_refill b \<le> t" using assms(1) by (auto simp: buckets_ok_def bucket_ok_def)
  then have "0 \<le> tokens b" "last_refill b \<le> t1" using assms(2) by auto
  then show ?thesis using Some rate_nonneg [of cfg] by (simp add: allowance_def)
qed (use assms(2) rate_nonneg [of cfg] in \<open>simp add: allowance_def\<close>)

lemma rl_run_bound:
  assumes "cfg_ok cfg" "rl_inv cfg inn" "buckets_ok cfg t inn" "sorted (t # map fst evs)"
    and "\<forall>now \<in> fst ` set evs. now \<le> t1" "t \<le> t1"
  shows "\<exists>oks inn'. rl_run cfg evs inn = Some (oks, inn') \<and> rl_inv cfg inn' \<and> length oks = length evs \<and>
    of_nat (admitted k evs oks) \<le> allowance cfg k t1 t inn + of_nat (new_buckets cfg k evs inn) * burst cfg
      + of_nat (charges_of k evs) * slack cfg"
  using assms
proof (induction evs arbitrary: inn t)
  case Nil
  show ?case using Nil.prems allowance_nonneg [OF Nil.prems(3,6)] by (simp add: admitted_def charges_of_def)
next
  case (Cons ev evs)
  obtain now u n where ev: "ev = (now, u, n)" by (cases ev)
  obtain ok inn' where tc: "try_charge_inner cfg now u n inn = Some (ok, inn')" and inv: "rl_inv cfg inn'"
    by (rule try_charge_step [OF Cons.prems(2), of now u n])
  have t: "t \<le> now" "now \<le> t1" using Cons.prems(4,5) by (auto simp: ev)
  note st = allowance_charge(1) [OF Cons.prems(1-3) t tc] allowance_charge(2) [OF Cons.prems(1-3) t tc, of k]
  obtain oks inn'' where IH: "rl_run cfg evs inn' = Some (oks, inn'')" "rl_inv cfg inn''" "length oks = length evs"
    "of_nat (admitted k evs oks) \<le> allowance cfg k t1 now inn' + of_nat (new_buckets cfg k evs inn') * burst cfg
      + of_nat (charges_of k evs) * slack cfg"
    using Cons.IH [OF Cons.prems(1) inv st(1)] Cons.prems(4,5) t(2) by (auto simp: ev)
  have "of_nat (admitted k (ev # evs) (ok # oks)) \<le>
      allowance cfg k t1 t inn + of_nat (new_buckets cfg k (ev # evs) inn) * burst cfg
      + of_nat (charges_of k (ev # evs)) * slack cfg"
    using st(2) IH(4) by (auto simp: admitted_def charges_of_def ev tc algebra_simps split: if_splits)
  then show ?case using IH tc by (simp add: ev)
qed

text \<open>While there is room for every tenant, none is evicted and none gets a second bucket.\<close>

lemma new_buckets_roomy:
  assumes "rl_inv cfg inn" "finite T" "fst ` set (buckets inn) \<union> (fst \<circ> snd) ` set evs \<subseteq> T"
    and "max_tenants cfg = 0 \<or> card T \<le> max_tenants cfg"
  shows "new_buckets cfg k evs inn \<le> (if map_of (buckets inn) k = None then 1 else 0)"
  using assms(1,3)
proof (induction evs arbitrary: inn)
  case (Cons ev evs)
  obtain now u n where ev: "ev = (now, u, n)" by (cases ev)
  obtain ok inn' b b' B seq where st: "try_charge_inner cfg now u n inn = Some (ok, inn')" "rl_inv cfg inn'"
    "map_of (buckets inn') = B(u \<mapsto> b')"
    "map_of (buckets inn) u = Some b \<and> B = map_of (buckets inn) \<or>
     map_of (buckets inn) u = None \<and> B = map_of (buckets (snd (rl_evict cfg inn))) \<and>
       last_refill b = now \<and> (\<exists>p. tokens b = starting_tokens cfg p)"
    by (rule try_charge_step [OF Cons.prems(1)])
  have keys: "fst ` set (buckets inn) \<subseteq> T" "u \<in> T" using Cons.prems(2) by (auto simp: ev)
  have "B = map_of (buckets inn)"
  proof (cases "map_of (buckets inn) u")
    case None
    have "distinct (map fst (buckets inn))" using Cons.prems(1) by (simp add: rl_inv_def in_step_def)
    from distinct_card [OF this] have "card (fst ` set (buckets inn)) = length (buckets inn)" by simp
    moreover have "u \<notin> fst ` set (buckets inn)" using None by (simp add: map_of_eq_None_iff)
    then have "card (fst ` set (buckets inn)) < card T"
      using keys by (intro psubset_card_mono assms(2)) auto
    ultimately have "length (buckets inn) < max_tenants cfg \<or> max_tenants cfg = 0" using assms(4) by auto
    then have "snd (rl_evict cfg inn) = inn"
      using rl_evict_step(4) [OF Cons.prems(1) surjective_pairing] by blast
    then show ?thesis using st(4) None by auto
  qed (use st(4) in auto)
  then have m: "map_of (buckets inn') = (map_of (buckets inn))(u \<mapsto> b')" using st(3) by simp
  have "fst ` set (buckets inn') = dom (map_of (buckets inn'))" by (simp add: dom_map_of_conv_image_fst)
  also have "\<dots> \<subseteq> T" using keys by (auto simp: m dom_map_of_conv_image_fst)
  finally have "new_buckets cfg k evs inn' \<le> (if map_of (buckets inn') k = None then 1 else 0)"
    using Cons.IH [OF st(2)] Cons.prems(2) by (auto simp: ev)
  then show ?case by (auto simp: ev st(1) m split: if_splits)
qed simp

lemma fresh_run_bound:
  assumes "unat (burst_bytes cfg) < 2 ^ 53" "unat (bytes_per_sec cfg) < 2 ^ 53"
    and "sorted (t0 # map fst evs)" "\<forall>now \<in> fst ` set evs. now \<le> t1" "t0 \<le> t1"
    and "rl_run cfg evs RateInner_empty = Some (oks, inn)"
  shows "of_nat (admitted k evs oks) \<le>
      of_nat (new_buckets cfg k evs RateInner_empty) * (of_nat (unat (burst_bytes cfg)) :: rat)
      + of_nat (unat (bytes_per_sec cfg)) * (of_nat (t1 - t0) / 10 ^ 9) * (1 + 1 / 2 ^ 51)
      + of_nat (charges_of k evs) * (max 1 (of_nat (unat (burst_bytes cfg))) / 2 ^ 52)"
proof -
  have empty: "buckets RateInner_empty = []" by (simp add: RateInner_empty_def)
  have "buckets_ok cfg t0 RateInner_empty" by (simp add: buckets_ok_def empty)
  then have "of_nat (admitted k evs oks) \<le> allowance cfg k t1 t0 RateInner_empty
      + of_nat (new_buckets cfg k evs RateInner_empty) * burst cfg + of_nat (charges_of k evs) * slack cfg"
    using rl_run_bound [of cfg RateInner_empty t0 evs t1 k] assms rl_inv_empty [of cfg] by (auto simp: cfg_ok_def)
  moreover have "allowance cfg k t1 t0 RateInner_empty =
      of_nat (unat (bytes_per_sec cfg)) * (of_nat (t1 - t0) / 10 ^ 9) * (1 + 1 / 2 ^ 51)"
    using assms(5) by (simp add: allowance_def empty rate_def of_nat_diff)
  ultimately show ?thesis unfolding slack_def by auto
qed

section \<open>Property\<close>

text \<open>
  C7. Rate limiting.  Charge a fresh limiter with burst and rate below 2 to the
  power 53 at instants that never go back.  No call panics, the table never holds
  more than \<open>max_tenants\<close> tenants, and the bytes admitted for a tenant are at most
  one burst for each bucket the tenant was given plus the rate times the elapsed
  time, plus the rounding of \<open>f64\<close>: a factor of \<open>1 + 2 ^ - 51\<close> on the refill and
  \<open>2 ^ - 52\<close> of a burst per charge.  A tenant gets one bucket only, as long as the
  tenants charged fit in the table.
\<close>

theorem rate_limit_bound:
  assumes "unat (burst_bytes cfg) < 2 ^ 53" "unat (bytes_per_sec cfg) < 2 ^ 53"
    and "sorted (map fst evs)" "\<forall>now \<in> fst ` set evs. t0 \<le> now \<and> now \<le> t1" "t0 \<le> t1"
  shows "\<exists>oks inn. rl_run cfg evs (rl_inner (RateLimiter_new cfg)) = Some (oks, inn) \<and>
    (max_tenants cfg > 0 \<longrightarrow> length (buckets inn) \<le> max_tenants cfg) \<and>
    of_nat (admitted k evs oks) \<le>
      of_nat (new_buckets cfg k evs (rl_inner (RateLimiter_new cfg))) * (of_nat (unat (burst_bytes cfg)) :: rat)
      + of_nat (unat (bytes_per_sec cfg)) * (of_nat (t1 - t0) / 10 ^ 9) * (1 + 1 / 2 ^ 51)
      + of_nat (charges_of k evs) * (max 1 (of_nat (unat (burst_bytes cfg))) / 2 ^ 52) \<and>
    (max_tenants cfg = 0 \<or> card ((fst \<circ> snd) ` set evs) \<le> max_tenants cfg \<longrightarrow>
      new_buckets cfg k evs (rl_inner (RateLimiter_new cfg)) \<le> 1)"
proof -
  let ?inn = "rl_inner (RateLimiter_new cfg)"
  have inn: "?inn = RateInner_empty" by (simp add: RateLimiter_new_def)
  have empty: "buckets RateInner_empty = []" by (simp add: RateInner_empty_def)
  have so: "sorted (t0 # map fst evs)" using assms(3,4) by auto
  have "buckets_ok cfg t0 ?inn" by (simp add: buckets_ok_def inn empty)
  then obtain oks inn' where run: "rl_run cfg evs ?inn = Some (oks, inn')" "rl_inv cfg inn'"
    using rl_run_bound [of cfg ?inn t0 evs t1 k] assms rl_inv_empty [of cfg] by (auto simp: cfg_ok_def inn)
  have "\<forall>now \<in> fst ` set evs. now \<le> t1" using assms(4) by blast
  note fresh_run_bound [OF assms(1,2) so this assms(5), folded inn, OF run(1), of k]
  moreover have "new_buckets cfg k evs ?inn \<le> 1"
    if "max_tenants cfg = 0 \<or> card ((fst \<circ> snd) ` set evs) \<le> max_tenants cfg"
    using new_buckets_roomy [OF rl_inv_empty, of "(fst \<circ> snd) ` set evs"] that by (auto simp: inn empty)
  ultimately show ?thesis using run unfolding rl_inv_def by auto
qed

theorem rate_limit_bound_witness:
  "\<exists>oks inn. rl_run \<lparr>bytes_per_sec = 1000, burst_bytes = 500, max_tenants = 1\<rparr>
      [(0, ''a'', 400), (10 ^ 9, ''b'', 100), (2 * 10 ^ 9, ''a'', 450)]
      (rl_inner (RateLimiter_new \<lparr>bytes_per_sec = 1000, burst_bytes = 500, max_tenants = 1\<rparr>)) = Some (oks, inn) \<and>
    length (buckets inn) \<le> 1"
proof -
  let ?cfg = "\<lparr>bytes_per_sec = 1000, burst_bytes = 500, max_tenants = 1\<rparr>"
  let ?evs = "[(0, ''a'', 400), (10 ^ 9, ''b'', 100), (2 * 10 ^ 9, ''a'', 450)] :: charge list"
  have "unat (burst_bytes ?cfg) < 2 ^ 53" "unat (bytes_per_sec ?cfg) < 2 ^ 53"
    "sorted (map fst ?evs)" "\<forall>now \<in> fst ` set ?evs. 0 \<le> now \<and> now \<le> 2 * 10 ^ 9" "(0 :: nat) \<le> 2 * 10 ^ 9"
    by simp_all
  from rate_limit_bound [OF this] obtain oks inn where
    run: "rl_run ?cfg ?evs (rl_inner (RateLimiter_new ?cfg)) = Some (oks, inn)"
    and "max_tenants ?cfg > 0 \<longrightarrow> length (buckets inn) \<le> max_tenants ?cfg"
    by blast
  then have "length (buckets inn) \<le> 1" by simp
  with run show ?thesis by blast
qed

end
