(* ===== verification/Merkle.thy ===== *)
theory Merkle
  imports Codecs
begin

text \<open>
  \<open>ullm-transparency\<close>: log entries (\<open>log.rs\<close>, data part), the Merkle tree
  (\<open>merkle.rs\<close>) and inclusion proofs (\<open>inclusion.rs\<close>).  The two nested
  \<open>while\<close> loops of \<open>root_of_leaves\<close> are \<open>next_level\<close> (one pass over a level)
  and \<open>root_loop\<close> (until one node is left); they terminate because a level of
  more than one node shrinks.  Shown: the proof built for an entry verifies
  against the root, and a proof that verifies opens to an entry of the log
  unless SHA-256 collides on the inputs that were hashed.
\<close>

section \<open>Entries and hashes\<close>

record LogEntry =
  le_seq :: u64
  id_pk_hex :: string
  evidence_sha256_hex :: string
  observed_at_unix :: u64

definition LogEntry_canonical_bytes :: "codecs \<Rightarrow> LogEntry \<Rightarrow> bytes" where
  "LogEntry_canonical_bytes J e = json_object J
    [(''evidence_sha256_hex'', JString (evidence_sha256_hex e)),
     (''id_pk_hex'', JString (id_pk_hex e)),
     (''observed_at_unix'', JNumber (observed_at_unix e)),
     (''seq'', JNumber (le_seq e))]"

definition LogEntry_from_evidence ::
  "'r prims \<Rightarrow> codecs \<Rightarrow> u64 \<Rightarrow> bytes \<Rightarrow> bytes \<Rightarrow> u64 \<Rightarrow> LogEntry" where
  "LogEntry_from_evidence P J seq id_pk evidence_bytes observed =
    \<lparr>le_seq = seq, id_pk_hex = hex_encode J id_pk,
     evidence_sha256_hex = hex_encode J (sha256 P evidence_bytes),
     observed_at_unix = observed\<rparr>"

definition LEAF_DOMAIN :: bytes where "LEAF_DOMAIN = str_bytes ''ULLM-transparency-v1 leaf''"
definition NODE_DOMAIN :: bytes where "NODE_DOMAIN = str_bytes ''ULLM-transparency-v1 node''"
definition EMPTY_DOMAIN :: bytes where "EMPTY_DOMAIN = str_bytes ''ULLM-transparency-v1 empty''"

definition empty_root :: "'r prims \<Rightarrow> bytes" where
  "empty_root P = sha256 P EMPTY_DOMAIN"

definition leaf_input :: "codecs \<Rightarrow> LogEntry \<Rightarrow> bytes" where
  "leaf_input J e = LEAF_DOMAIN @ LogEntry_canonical_bytes J e"

definition leaf_hash :: "'r prims \<Rightarrow> codecs \<Rightarrow> LogEntry \<Rightarrow> bytes" where
  "leaf_hash P J e = sha256 P (leaf_input J e)"

definition node_input :: "bytes \<Rightarrow> bytes \<Rightarrow> bytes" where
  "node_input l r = NODE_DOMAIN @ l @ r"

definition node_hash :: "'r prims \<Rightarrow> bytes \<Rightarrow> bytes \<Rightarrow> bytes" where
  "node_hash P l r = sha256 P (node_input l r)"

section \<open>merkle.rs\<close>

fun next_level :: "'r prims \<Rightarrow> bytes list \<Rightarrow> bytes list" where
  "next_level P [] = []"
| "next_level P [x] = [node_hash P x x]"
| "next_level P (x # y # zs) = node_hash P x y # next_level P zs"

lemma length_next_level: "length (next_level P xs) = (length xs + 1) div 2"
  by (induction P xs rule: next_level.induct) auto

function root_loop :: "'r prims \<Rightarrow> bytes list \<Rightarrow> bytes" where
  "root_loop P level = (if length level > 1 then root_loop P (next_level P level) else level ! 0)"
  by pat_completeness auto

termination
  by (relation "measure (\<lambda>(P, level). length level)") (auto simp: length_next_level)

declare root_loop.simps [simp del]

definition root_of_leaves :: "'r prims \<Rightarrow> bytes list \<Rightarrow> bytes" where
  "root_of_leaves P leaves = (if leaves = [] then empty_root P else root_loop P leaves)"

definition merkle_root :: "'r prims \<Rightarrow> codecs \<Rightarrow> LogEntry list \<Rightarrow> bytes" where
  "merkle_root P J entries =
    (if entries = [] then empty_root P
     else let leaves = map (leaf_hash P J) entries in root_of_leaves P leaves)"

section \<open>inclusion.rs\<close>

record InclusionProof =
  ip_seq :: u64
  ip_tree_size :: u64
  leaf_hash_hex :: string
  siblings_hex :: "string list"
  directions :: "bool list"

function build_path :: "'r prims \<Rightarrow> bytes list \<Rightarrow> nat \<Rightarrow> (bytes \<times> bool) list" where
  "build_path P level idx =
    (if length level > 1 then
       let is_left = (idx mod 2 = 0);
           sibling_idx = (if is_left then idx + 1 else idx - 1);
           sibling = (if sibling_idx < length level then level ! sibling_idx else level ! idx)
       in (sibling, is_left) # build_path P (next_level P level) (idx div 2)
     else [])"
  by pat_completeness auto

termination
  by (relation "measure (\<lambda>(P, level, idx). length level)") (auto simp: length_next_level)

declare build_path.simps [simp del]

definition InclusionProof_build ::
  "'r prims \<Rightarrow> codecs \<Rightarrow> LogEntry list \<Rightarrow> u64 \<Rightarrow> InclusionProof option" where
  "InclusionProof_build P J entries seq =
    (if unat seq \<ge> length entries then None
     else let leaves = map (leaf_hash P J) entries;
              path = build_path P leaves (unat seq)
          in Some \<lparr>ip_seq = seq, ip_tree_size = word_of_nat (length entries),
                   leaf_hash_hex = hex_encode J (leaves ! unat seq),
                   siblings_hex = map (\<lambda>(s, d). hex_encode J s) path,
                   directions = map snd path\<rparr>)"

fun verify_path ::
  "'r prims \<Rightarrow> codecs \<Rightarrow> bytes \<Rightarrow> (string \<times> bool) list \<Rightarrow> bytes option" where
  "verify_path P J current [] = Some current"
| "verify_path P J current ((sib_hex, is_left) # rest) =
    (case decode32 J sib_hex of
       None \<Rightarrow> None
     | Some sibling \<Rightarrow>
         verify_path P J (if is_left then node_hash P current sibling
                          else node_hash P sibling current) rest)"

definition InclusionProof_verify ::
  "'r prims \<Rightarrow> codecs \<Rightarrow> InclusionProof \<Rightarrow> bytes \<Rightarrow> LogEntry \<Rightarrow> bool" where
  "InclusionProof_verify P J pf expected_root expected_entry =
    (if length (siblings_hex pf) \<noteq> length (directions pf) then False
     else let expected_leaf = leaf_hash P J expected_entry in
     case decode32 J (leaf_hash_hex pf) of
       None \<Rightarrow> False
     | Some claimed_leaf \<Rightarrow>
         if claimed_leaf \<noteq> expected_leaf then False
         else verify_path P J expected_leaf (zip (siblings_hex pf) (directions pf))
                = Some expected_root)"

section \<open>A built proof verifies\<close>

lemma length_hashes [simp]:
  assumes "sha2_law P"
  shows "length (leaf_hash P J e) = 32" "length (node_hash P l r) = 32"
    "length (empty_root P) = 32"
  using assms by (simp_all add: sha2_law_def leaf_hash_def node_hash_def empty_root_def)

lemma next_level_32:
  "sha2_law P \<Longrightarrow> \<forall>x \<in> set (next_level P xs). length x = 32"
  by (induction P xs rule: next_level.induct) auto

lemma nth_next_level:
  "2 * j < length xs \<Longrightarrow> next_level P xs ! j =
    node_hash P (xs ! (2 * j))
      (if 2 * j + 1 < length xs then xs ! (2 * j + 1) else xs ! (2 * j))"
proof (induction P xs arbitrary: j rule: next_level.induct)
  case (3 P x y zs)
  then show ?case by (cases j) auto
qed auto

lemma root_loop_32:
  "sha2_law P \<Longrightarrow> xs \<noteq> [] \<Longrightarrow> \<forall>x \<in> set xs. length x = 32 \<Longrightarrow> length (root_loop P xs) = 32"
proof (induction P xs rule: root_loop.induct)
  case (1 P level)
  show ?case
  proof (cases "length level > 1")
    case True
    then have "next_level P level \<noteq> []" by (auto simp: length_next_level simp flip: length_0_conv)
    then show ?thesis using 1 True next_level_32 [of P level]
      by (simp add: root_loop.simps [of P level])
  next
    case False
    then show ?thesis using 1 by (simp add: root_loop.simps [of P level])
  qed
qed

lemma length_merkle_root [simp]: "sha2_law P \<Longrightarrow> length (merkle_root P J es) = 32"
  by (auto simp: merkle_root_def root_of_leaves_def Let_def root_loop_32)

text \<open>One step of the path hashes to the parent of the current node.\<close>

lemma parent_hash:
  assumes "idx < length level" "length level > 1"
  shows "(if idx mod 2 = 0
    then node_hash P (level ! idx)
      (if idx + 1 < length level then level ! (idx + 1) else level ! idx)
    else node_hash P (level ! (idx - 1)) (level ! idx)) = next_level P level ! (idx div 2)"
proof (cases "idx mod 2 = 0")
  case True
  then have "2 * (idx div 2) = idx" by auto
  then show ?thesis using True assms nth_next_level [of "idx div 2" level P] by simp
next
  case False
  then have "2 * (idx div 2) = idx - 1" "idx - 1 + 1 = idx" by presburger+
  then show ?thesis using False assms nth_next_level [of "idx div 2" level P] by simp
qed

lemma verify_build_path:
  assumes "sha2_law P" "hex_law J" "idx < length level" "\<forall>x \<in> set level. length x = 32"
  shows "verify_path P J (level ! idx)
      (map (\<lambda>(s, d). (hex_encode J s, d)) (build_path P level idx))
    = Some (root_loop P level)"
  using assms
proof (induction P level idx rule: build_path.induct)
  case (1 P level idx)
  show ?case
  proof (cases "length level > 1")
    case False
    then have "length level = 1" using "1.prems"(3) by simp
    then have "idx = 0" using "1.prems"(3) by simp
    then show ?thesis using False
      by (simp add: build_path.simps [of P level] root_loop.simps [of P level])
  next
    case True
    have lt: "idx div 2 < length (next_level P level)"
      using "1.prems"(3) by (simp add: length_next_level)
    have IH: "verify_path P J (next_level P level ! (idx div 2))
        (map (\<lambda>(s, d). (hex_encode J s, d)) (build_path P (next_level P level) (idx div 2)))
      = Some (root_loop P (next_level P level))"
      by (rule "1.IH" [OF True refl refl refl])
        (use "1.prems" lt next_level_32 [of P level] in auto)
    have root: "root_loop P level = root_loop P (next_level P level)"
      using True by (simp add: root_loop.simps [of P level])
    note step = parent_hash [OF "1.prems"(3) True, of P] build_path.simps [of P level idx]
    show ?thesis
    proof (cases "idx mod 2 = 0")
      case left: True
      let ?s = "if idx + 1 < length level then level ! (idx + 1) else level ! idx"
      have "length ?s = 32" using "1.prems" by simp
      then show ?thesis using step left True IH root "1.prems"(2)
        by (cases "Suc idx < length level") (simp_all add: Let_def)
    next
      case right: False
      have "idx - 1 < length level" using "1.prems"(3) by simp
      moreover from this have "length (level ! (idx - 1)) = 32" using "1.prems"(4) by simp
      ultimately show ?thesis using step right True IH root "1.prems"(2) by (simp add: Let_def)
    qed
  qed
qed

lemma build_verifies:
  assumes "sha2_law P" "hex_law J" "InclusionProof_build P J es i = Some pf"
  shows "InclusionProof_verify P J pf (merkle_root P J es) (es ! unat i)"
proof -
  let ?leaves = "map (leaf_hash P J) es" and ?p = "build_path P (map (leaf_hash P J) es) (unat i)"
  have lt: "unat i < length es"
    and pf: "pf = \<lparr>ip_seq = i, ip_tree_size = word_of_nat (length es),
      leaf_hash_hex = hex_encode J (?leaves ! unat i),
      siblings_hex = map (\<lambda>(s, d). hex_encode J s) ?p, directions = map snd ?p\<rparr>"
    using assms(3) by (auto simp: InclusionProof_build_def Let_def split: if_splits)
  have z: "zip (map (\<lambda>(s, d). hex_encode J s) ps) (map snd ps) = map (\<lambda>(s, d). (hex_encode J s, d)) ps"
    for ps :: "(bytes \<times> bool) list"
    by (induction ps) auto
  have "verify_path P J (?leaves ! unat i) (map (\<lambda>(s, d). (hex_encode J s, d)) ?p)
      = Some (root_loop P ?leaves)"
    using assms lt by (intro verify_build_path) auto
  moreover have "es \<noteq> []" using lt by auto
  ultimately show ?thesis
    using assms lt by (simp add: InclusionProof_verify_def pf z merkle_root_def root_of_leaves_def
        split: option.splits)
qed

lemma build_Some: "unat i < length es \<Longrightarrow> \<exists>pf. InclusionProof_build P J es i = Some pf"
  by (simp add: InclusionProof_build_def Let_def)

section \<open>A verified proof opens to an entry\<close>

text \<open>The strings hashed when the root of \<open>es\<close> is computed, and along a proof path.\<close>

fun pair_inputs :: "bytes list \<Rightarrow> bytes list" where
  "pair_inputs [] = []"
| "pair_inputs [x] = [node_input x x]"
| "pair_inputs (x # y # zs) = node_input x y # pair_inputs zs"

function tree_inputs :: "'r prims \<Rightarrow> bytes list \<Rightarrow> bytes list" where
  "tree_inputs P level =
    (if length level > 1 then pair_inputs level @ tree_inputs P (next_level P level) else [])"
  by pat_completeness auto

termination
  by (relation "measure (\<lambda>(P, level). length level)") (auto simp: length_next_level)

declare tree_inputs.simps [simp del]

definition root_inputs :: "'r prims \<Rightarrow> codecs \<Rightarrow> LogEntry list \<Rightarrow> bytes list" where
  "root_inputs P J es = EMPTY_DOMAIN # map (leaf_input J) es @ tree_inputs P (map (leaf_hash P J) es)"

fun path_inputs :: "'r prims \<Rightarrow> codecs \<Rightarrow> bytes \<Rightarrow> (string \<times> bool) list \<Rightarrow> bytes list" where
  "path_inputs P J current [] = []"
| "path_inputs P J current ((sib_hex, is_left) # rest) =
    (case decode32 J sib_hex of
       None \<Rightarrow> []
     | Some sibling \<Rightarrow>
         let inp = (if is_left then node_input current sibling else node_input sibling current)
         in inp # path_inputs P J (sha256 P inp) rest)"

definition proof_inputs :: "'r prims \<Rightarrow> codecs \<Rightarrow> InclusionProof \<Rightarrow> LogEntry \<Rightarrow> bytes list" where
  "proof_inputs P J pf e =
    leaf_input J e # path_inputs P J (leaf_hash P J e) (zip (siblings_hex pf) (directions pf))"

text \<open>All hash values in the tree over \<open>leaves\<close>.\<close>

definition tree_nodes :: "'r prims \<Rightarrow> bytes list \<Rightarrow> bytes set" where
  "tree_nodes P leaves = set leaves \<union> sha256 P ` set (tree_inputs P leaves)"

lemma sha_pair_inputs: "map (sha256 P) (pair_inputs xs) = next_level P xs"
  by (induction P xs rule: next_level.induct) (auto simp: node_hash_def)

lemma pair_inputs_mem:
  "x \<in> set (pair_inputs xs) \<Longrightarrow> \<exists>a\<in>set xs. \<exists>b\<in>set xs. x = node_input a b"
  by (induction xs rule: pair_inputs.induct) auto

lemma tree_inputs_mem:
  "x \<in> set (tree_inputs P xs) \<Longrightarrow>
    \<exists>a\<in>tree_nodes P xs. \<exists>b\<in>tree_nodes P xs. x = node_input a b"
proof (induction P xs rule: tree_inputs.induct)
  case (1 P xs)
  have gt: "length xs > 1" using "1.prems" by (simp add: tree_inputs.simps [of P xs] split: if_splits)
  have ti: "tree_inputs P xs = pair_inputs xs @ tree_inputs P (next_level P xs)"
    using gt by (simp add: tree_inputs.simps [of P xs])
  have sub: "tree_nodes P (next_level P xs) \<subseteq> tree_nodes P xs"
    unfolding tree_nodes_def ti sha_pair_inputs [symmetric] by auto
  show ?case
  proof (cases "x \<in> set (pair_inputs xs)")
    case True
    then show ?thesis using pair_inputs_mem unfolding tree_nodes_def by fast
  next
    case False
    then have "x \<in> set (tree_inputs P (next_level P xs))" using "1.prems" ti by simp
    from "1.IH" [OF gt this] sub show ?thesis by blast
  qed
qed

lemma root_in_nodes: "xs \<noteq> [] \<Longrightarrow> root_loop P xs \<in> tree_nodes P xs"
proof (induction P xs rule: root_loop.induct)
  case (1 P xs)
  show ?case
  proof (cases "length xs > 1")
    case True
    then have "next_level P xs \<noteq> []" by (auto simp: length_next_level simp flip: length_0_conv)
    then have "root_loop P (next_level P xs) \<in> tree_nodes P (next_level P xs)" using 1 True by simp
    then show ?thesis using True
      by (auto simp: root_loop.simps [of P xs] tree_nodes_def tree_inputs.simps [of P xs]
          simp flip: sha_pair_inputs)
  next
    case False
    then show ?thesis using 1 by (simp add: root_loop.simps [of P xs] tree_nodes_def)
  qed
qed

lemma domains_differ:
  "leaf_input J e \<noteq> node_input a b" "EMPTY_DOMAIN \<noteq> node_input a b" "EMPTY_DOMAIN \<noteq> leaf_input J e"
  by (auto simp: leaf_input_def node_input_def LEAF_DOMAIN_def NODE_DOMAIN_def EMPTY_DOMAIN_def
      str_bytes_def)

lemma node_input_inject:
  "length a = length c \<Longrightarrow> node_input a b = node_input c d \<longleftrightarrow> a = c \<and> b = d"
  by (simp add: node_input_def)

lemma LogEntry_canonical_inject:
  "json_law J \<Longrightarrow> LogEntry_canonical_bytes J e = LogEntry_canonical_bytes J e' \<longleftrightarrow> e = e'"
  by (auto simp: json_law_def LogEntry_canonical_bytes_def dest!: spec)

lemma leaf_input_inject: "json_law J \<Longrightarrow> leaf_input J e = leaf_input J e' \<longleftrightarrow> e = e'"
  by (simp add: leaf_input_def LogEntry_canonical_inject)

text \<open>Walking a path backwards never leaves the tree.\<close>

lemma path_stays_in_tree:
  assumes sha: "sha2_law P" and "length c = 32"
    and inj: "inj_on (sha256 P) (set (map (leaf_input J) es) \<union>
      set (tree_inputs P (map (leaf_hash P J) es)) \<union> set (path_inputs P J c ps))"
    and "verify_path P J c ps = Some v" "v \<in> tree_nodes P (map (leaf_hash P J) es)"
  shows "c \<in> tree_nodes P (map (leaf_hash P J) es)"
  using assms(2-)
proof (induction ps arbitrary: c)
  case Nil
  then show ?case by simp
next
  case (Cons p ps)
  let ?L = "map (leaf_hash P J) es"
  obtain sh left where p: "p = (sh, left)" by (cases p)
  obtain sib where sib: "decode32 J sh = Some sib" "length sib = 32"
    using Cons.prems(3) p decode32_length by (auto split: option.splits)
  define inp where "inp = (if left then node_input c sib else node_input sib c)"
  have pi: "path_inputs P J c (p # ps) = inp # path_inputs P J (sha256 P inp) ps"
    and vp: "verify_path P J (sha256 P inp) ps = Some v"
    using Cons.prems(3) p sib by (auto simp: inp_def node_hash_def Let_def)
  have "inj_on (sha256 P) (set (map (leaf_input J) es) \<union>
      set (tree_inputs P ?L) \<union> set (path_inputs P J (sha256 P inp) ps))"
    by (rule inj_on_subset [OF Cons.prems(2)]) (auto simp: pi)
  moreover have "length (sha256 P inp) = 32" using sha by (simp add: sha2_law_def)
  ultimately have nd: "sha256 P inp \<in> tree_nodes P ?L"
    using Cons.IH vp Cons.prems(4) by blast
  have same: "inp = y" if "sha256 P inp = sha256 P y"
    "y \<in> set (map (leaf_input J) es) \<union> set (tree_inputs P ?L)" for y
    by (rule inj_onD [OF Cons.prems(2) that(1)]) (use that(2) pi in auto)
  have "sha256 P inp \<noteq> x" if "x \<in> set ?L" for x
  proof
    assume "sha256 P inp = x"
    then obtain e where "e \<in> set es" "sha256 P inp = sha256 P (leaf_input J e)"
      using \<open>x \<in> set ?L\<close> by (auto simp: leaf_hash_def)
    then have "inp = leaf_input J e" by (intro same) auto
    then show False using domains_differ(1) unfolding inp_def by metis
  qed
  then obtain x where x: "x \<in> set (tree_inputs P ?L)" "sha256 P inp = sha256 P x"
    using nd unfolding tree_nodes_def by blast
  then have "inp = x" by (intro same) auto
  moreover obtain a b where ab: "a \<in> tree_nodes P ?L" "b \<in> tree_nodes P ?L" "x = node_input a b"
    using tree_inputs_mem [OF x(1)] by blast
  moreover have "length a = 32"
    using ab(1) sha by (auto simp: tree_nodes_def sha2_law_def)
  ultimately show ?case using Cons.prems(1) sib by (auto simp: inp_def node_input_inject split: if_splits)
qed

lemma verify_sound:
  assumes "sha2_law P" "json_law J"
    and inj: "inj_on (sha256 P) (set (root_inputs P J es) \<union> set (proof_inputs P J pf e))"
    and ver: "InclusionProof_verify P J pf (merkle_root P J es) e"
  shows "e \<in> set es"
proof -
  let ?ps = "zip (siblings_hex pf) (directions pf)" and ?L = "map (leaf_hash P J) es"
  have path: "verify_path P J (leaf_hash P J e) ?ps = Some (merkle_root P J es)"
    using ver by (auto simp: InclusionProof_verify_def Let_def split: if_splits option.splits)
  have mem: "merkle_root P J es \<in> tree_nodes P ?L" if "es \<noteq> []"
    using that root_in_nodes [of ?L P] by (simp add: merkle_root_def root_of_leaves_def)
  have leaf: "leaf_input J e = x" if "sha256 P (leaf_input J e) = sha256 P x" "x \<in> set (root_inputs P J es)" for x
    using inj_onD [OF inj that(1)] that(2) by (simp add: proof_inputs_def)
  show ?thesis
  proof (cases "es = []")
    case True
    have last: "c = v \<or> (\<exists>a b. v = sha256 P (node_input a b) \<and> node_input a b \<in> set (path_inputs P J c ps))"
      if "verify_path P J c ps = Some v" for c ps v
      using that
      by (induction ps arbitrary: c)
        (force simp: node_hash_def Let_def split: option.splits if_splits prod.splits)+
    have "merkle_root P J es = sha256 P EMPTY_DOMAIN" using True by (simp add: merkle_root_def empty_root_def)
    then have "leaf_input J e = EMPTY_DOMAIN \<or> (\<exists>a b. EMPTY_DOMAIN = node_input a b)"
      using last [OF path] leaf [of EMPTY_DOMAIN] inj_onD [OF inj, of EMPTY_DOMAIN]
      by (auto simp: leaf_hash_def root_inputs_def proof_inputs_def)
    then show ?thesis using domains_differ(2) domains_differ(3) [of J e] by auto
  next
    case False
    have "inj_on (sha256 P) (set (map (leaf_input J) es) \<union> set (tree_inputs P ?L) \<union>
        set (path_inputs P J (leaf_hash P J e) ?ps))"
      by (rule inj_on_subset [OF inj]) (auto simp: root_inputs_def proof_inputs_def)
    then have "leaf_hash P J e \<in> tree_nodes P ?L"
      using path_stays_in_tree [OF assms(1) _ _ path mem [OF False]] assms(1) by simp
    then obtain x where x: "sha256 P (leaf_input J e) = sha256 P x"
      "x \<in> set (map (leaf_input J) es) \<union> set (tree_inputs P ?L)"
      by (auto simp: tree_nodes_def leaf_hash_def)
    then have "leaf_input J e = x" using leaf by (auto simp: root_inputs_def)
    then show ?thesis
      using x(2) tree_inputs_mem [of x P ?L] domains_differ(1) [of J e] leaf_input_inject [OF assms(2)]
      by auto
  qed
qed

section \<open>The root determines a well-numbered log\<close>

lemma length_pair_inputs: "length (pair_inputs xs) = (length xs + 1) div 2"
  by (induction xs rule: pair_inputs.induct) auto

lemma nth_pair_inputs:
  "2 * j < length xs \<Longrightarrow> pair_inputs xs ! j =
    node_input (xs ! (2 * j))
      (if 2 * j + 1 < length xs then xs ! (2 * j + 1) else xs ! (2 * j))"
proof (induction xs arbitrary: j rule: pair_inputs.induct)
  case (3 x y zs)
  then show ?case by (cases j) auto
qed auto

lemma parent_input:
  assumes "idx < length level"
  shows "(if idx mod 2 = 0
    then node_input (level ! idx)
      (if idx + 1 < length level then level ! (idx + 1) else level ! idx)
    else node_input (level ! (idx - 1)) (level ! idx)) \<in> set (pair_inputs level)" (is "?x \<in> _")
proof -
  have "?x = pair_inputs level ! (idx div 2)"
  proof (cases "idx mod 2 = 0")
    case True
    then have "2 * (idx div 2) = idx" by auto
    then show ?thesis using True assms nth_pair_inputs [of "idx div 2" level] by simp
  next
    case False
    then have "2 * (idx div 2) = idx - 1" "idx - 1 + 1 = idx" by presburger+
    then show ?thesis using False assms nth_pair_inputs [of "idx div 2" level] by simp
  qed
  moreover have "idx div 2 < length (pair_inputs level)" using assms by (simp add: length_pair_inputs)
  ultimately show ?thesis by simp
qed

lemma build_path_inputs:
  assumes "sha2_law P" "hex_law J" "idx < length level" "\<forall>x \<in> set level. length x = 32"
  shows "set (path_inputs P J (level ! idx)
      (map (\<lambda>(s, d). (hex_encode J s, d)) (build_path P level idx)))
    \<subseteq> set (tree_inputs P level)"
  using assms
proof (induction P level idx rule: build_path.induct)
  case (1 P level idx)
  show ?case
  proof (cases "length level > 1")
    case False
    then show ?thesis by (simp add: build_path.simps [of P level])
  next
    case True
    have lt: "idx div 2 < length (next_level P level)"
      using "1.prems"(3) by (simp add: length_next_level)
    have IH: "set (path_inputs P J (next_level P level ! (idx div 2))
        (map (\<lambda>(s, d). (hex_encode J s, d)) (build_path P (next_level P level) (idx div 2))))
      \<subseteq> set (tree_inputs P (next_level P level))"
      by (rule "1.IH" [OF True refl refl refl])
        (use "1.prems" lt next_level_32 [of P level] in auto)
    have ti: "tree_inputs P level = pair_inputs level @ tree_inputs P (next_level P level)"
      using True by (simp add: tree_inputs.simps [of P level])
    note step = parent_hash [OF "1.prems"(3) True, of P, unfolded node_hash_def]
      parent_input [OF "1.prems"(3)] build_path.simps [of P level idx]
    show ?thesis
    proof (cases "idx mod 2 = 0")
      case left: True
      let ?s = "if idx + 1 < length level then level ! (idx + 1) else level ! idx"
      have "length ?s = 32" using "1.prems" by simp
      then show ?thesis using step left True IH ti "1.prems"(2)
        by (cases "Suc idx < length level") (auto simp: Let_def)
    next
      case right: False
      have "idx - 1 < length level" using "1.prems"(3) by simp
      moreover from this have "length (level ! (idx - 1)) = 32" using "1.prems"(4) by simp
      ultimately show ?thesis using step right True IH ti "1.prems"(2) by (auto simp: Let_def)
    qed
  qed
qed

lemma root_binding_mem:
  assumes laws: "sha2_law P" "hex_law J" "json_law J"
    and inj: "inj_on (sha256 P) (set (root_inputs P J es) \<union> set (root_inputs P J es'))"
    and eq: "merkle_root P J es = merkle_root P J es'"
    and len: "length es < 2 ^ 64" and e: "e \<in> set es"
  shows "e \<in> set es'"
proof -
  let ?L = "map (leaf_hash P J) es"
  obtain n where n: "n < length es" "e = es ! n" using e by (metis in_set_conv_nth)
  then have un: "unat (word_of_nat n :: u64) = n" using len by (simp add: unat_of_nat)
  then obtain pf where pf: "InclusionProof_build P J es (word_of_nat n) = Some pf"
    using build_Some [of "word_of_nat n" es P J] n by auto
  have ver: "InclusionProof_verify P J pf (merkle_root P J es') e"
    using build_verifies [OF laws(1,2) pf] un n eq by simp
  have z: "zip (siblings_hex pf) (directions pf) =
    map (\<lambda>(s, d). (hex_encode J s, d)) (build_path P ?L n)"
    using pf un n
    by (auto simp: InclusionProof_build_def Let_def zip_map_map zip_same_conv_map split: if_splits)
  have "set (path_inputs P J (?L ! n) (map (\<lambda>(s, d). (hex_encode J s, d)) (build_path P ?L n)))
    \<subseteq> set (tree_inputs P ?L)"
    using laws n by (intro build_path_inputs) auto
  then have "set (proof_inputs P J pf e) \<subseteq> set (root_inputs P J es)"
    using n by (auto simp: proof_inputs_def root_inputs_def z)
  then have "inj_on (sha256 P) (set (root_inputs P J es') \<union> set (proof_inputs P J pf e))"
    using inj by (auto intro: inj_on_subset)
  then show ?thesis using verify_sound [OF laws(1,3) _ ver] by blast
qed

definition well_numbered :: "LogEntry list \<Rightarrow> bool" where
  "well_numbered es \<longleftrightarrow> map le_seq es = map word_of_nat [0..<length es] \<and> length es < 2 ^ 64"

lemma well_numbered_nth:
  assumes "well_numbered es" "n < length es" shows "unat (le_seq (es ! n)) = n"
proof -
  have "map le_seq es ! n = map word_of_nat [0..<length es] ! n"
    using assms by (simp add: well_numbered_def)
  then have "le_seq (es ! n) = word_of_nat n" using assms(2) by simp
  then show ?thesis using assms by (simp add: well_numbered_def unat_of_nat)
qed

lemma well_numbered_eqI:
  assumes "well_numbered es" "well_numbered es'" "set es = set es'"
  shows "es = es'"
proof -
  have inj: "n = m" if "well_numbered xs" "n < length xs" "m < length ys" "well_numbered ys" "xs ! n = ys ! m"
    for xs ys n m using that well_numbered_nth by metis
  have sub: "xs ! n = ys ! n \<and> n < length ys"
    if "well_numbered xs" "well_numbered ys" "set xs = set ys" "n < length xs" for xs ys n
    using that inj by (metis in_set_conv_nth nth_mem)
  have "length es = length es'"
    using sub [of es es'] sub [of es' es] assms by (metis linorder_neqE_nat order_less_irrefl)
  then show ?thesis using sub [OF assms] by (intro nth_equalityI) blast+
qed

section \<open>Properties\<close>

text \<open>Concrete entries for the witnesses below.\<close>

definition sample_entry :: "u64 \<Rightarrow> LogEntry" where
  "sample_entry n = \<lparr>le_seq = n, id_pk_hex = ''0a'', evidence_sha256_hex = ''0b'',
    observed_at_unix = 7\<rparr>"

abbreviation "sample_log \<equiv> [sample_entry 0, sample_entry 1]"

definition sample_proof :: "LogEntry list \<Rightarrow> u64 \<Rightarrow> InclusionProof" where
  "sample_proof es i = the (InclusionProof_build model_prims model_codecs es i)"

lemma inj_on_list:
  "distinct (map f (remdups (xs @ ys))) \<Longrightarrow> inj_on f (set xs \<union> set ys)"
  by (simp add: distinct_map)

lemma sample_inj:
  "inj_on (sha256 model_prims) (set (root_inputs model_prims model_codecs sample_log) \<union>
    set (proof_inputs model_prims model_codecs (sample_proof sample_log 1) (sample_entry 1)))"
  by (rule inj_on_list) code_simp

lemma sample_verifies:
  "InclusionProof_verify model_prims model_codecs (sample_proof sample_log 1)
    (merkle_root model_prims model_codecs sample_log) (sample_entry 1)"
proof -
  obtain pf where "InclusionProof_build model_prims model_codecs sample_log 1 = Some pf"
    using build_Some [of 1 sample_log] by fastforce
  then show ?thesis using build_verifies [OF model_sha2_law model_hex_law]
    by (fastforce simp: sample_proof_def)
qed

text \<open>
  Inclusion proofs are complete: for every position of a log, \<open>build\<close>
  returns a proof, and that proof verifies against the Merkle root of the log
  and the entry at that position.  (SHA-256 returns 32 bytes and hex decoding
  inverts hex encoding.)
\<close>

theorem inclusion_proof_complete:
  assumes "sha2_law P" "hex_law J" "unat i < length es"
  shows "\<exists>pf. InclusionProof_build P J es i = Some pf \<and>
    InclusionProof_verify P J pf (merkle_root P J es) (es ! unat i)"
  using build_Some [OF assms(3)] build_verifies [OF assms(1,2)] by blast

theorem inclusion_proof_complete_witness:
  "sha2_law model_prims \<and> hex_law model_codecs \<and> unat (1 :: u64) < length sample_log \<and>
   (\<exists>pf. InclusionProof_build model_prims model_codecs sample_log 1 = Some pf \<and>
    InclusionProof_verify model_prims model_codecs pf
      (merkle_root model_prims model_codecs sample_log) (sample_log ! unat (1 :: u64)))"
  using inclusion_proof_complete [OF model_sha2_law model_hex_law, of 1 sample_log]
    model_sha2_law model_hex_law by simp

text \<open>
  C12. Inclusion proofs are sound: if a proof, of any shape and from any
  source, verifies against the Merkle root of a log and an entry, then the entry
  is in the log, unless SHA-256 collides on the strings hashed while computing
  that root and that proof.
\<close>

theorem inclusion_proof_sound:
  assumes "sha2_law P" "json_law J"
    and "inj_on (sha256 P) (set (root_inputs P J es) \<union> set (proof_inputs P J pf e))"
    and "InclusionProof_verify P J pf (merkle_root P J es) e"
  shows "e \<in> set es"
  using assms by (rule verify_sound)

theorem inclusion_proof_sound_witness:
  "inj_on (sha256 model_prims) (set (root_inputs model_prims model_codecs sample_log) \<union>
     set (proof_inputs model_prims model_codecs (sample_proof sample_log 1) (sample_entry 1))) \<and>
   InclusionProof_verify model_prims model_codecs (sample_proof sample_log 1)
     (merkle_root model_prims model_codecs sample_log) (sample_entry 1) \<and>
   sample_entry 1 \<in> set sample_log"
  using inclusion_proof_sound [OF model_sha2_law model_json_law sample_inj sample_verifies]
    sample_inj sample_verifies by blast



end
