(* ===== verification/Log.thy ===== *)
theory Log
  imports Merkle Rust_Text
begin

text \<open>
  \<open>ullm-transparency/log.rs\<close>: the append-only log and its file.  The file is its
  content plus the length of the prefix known to be on stable storage (what the
  last successful \<open>sync_data\<close> covered).  Each call that reaches the operating
  system takes the outcome of its I/O as an argument: a write succeeds or fails
  after some bytes, a sync succeeds or fails.  The JSON line codec of
  \<open>serde_json\<close> for \<open>LogEntry\<close> is a parameter.  A crash keeps some prefix of the
  content that is no shorter than the synced one.

  Shown: the log is append-only and numbered by position under every sequence
  of operations and I/O outcomes; after a crash, reopening recovers a prefix of
  the log that misses no entry under \<open>Always\<close> and at most \<open>n - 1\<close> under
  \<open>Periodic n\<close>, whether or not the last line is torn; and a failed sync leaves
  a line on disk that makes a later reopen fail.
\<close>

section \<open>Data\<close>

datatype FsyncPolicy = Always | Periodic u32

record logfile =
  content :: bytes
  synced :: nat

record LogState =
  entries :: "LogEntry list"
  log_file :: "logfile option"
  appends_since_sync :: u32
  fsync_policy :: FsyncPolicy

record LogStatus =
  ls_size :: u64
  ls_root_hex :: string

datatype IoError =
    IoFailure
  | SerializeFailed
  | LineTooLong (io_offset: nat) (io_len: nat)
  | BadUtf8 (io_offset: nat)
  | TooDeep (io_offset: nat)
  | BadJson (io_offset: nat)
  | Tampered (io_offset: nat) (io_position: nat) (io_seq: u64)

record entry_codec =
  entry_to_json :: "LogEntry \<Rightarrow> bytes option"
  entry_from_json :: "bytes \<Rightarrow> LogEntry option"

text \<open>The outcome of the three system calls of an append; \<open>None\<close> is success.\<close>

record append_io =
  w_line :: "nat option"
  w_newline :: "nat option"
  sync_ok :: bool

definition io_good :: append_io where
  "io_good = \<lparr>w_line = None, w_newline = None, sync_ok = True\<rparr>"

section \<open>Operations\<close>

definition TransparencyLog_new :: LogState where
  "TransparencyLog_new =
    \<lparr>entries = [], log_file = None, appends_since_sync = 0, fsync_policy = Always\<rparr>"

definition set_fsync_policy :: "FsyncPolicy \<Rightarrow> LogState \<Rightarrow> LogState" where
  "set_fsync_policy p st = st\<lparr>fsync_policy := p, appends_since_sync := 0\<rparr>"

definition sync_data :: "logfile \<Rightarrow> logfile" where
  "sync_data f = f\<lparr>synced := length (content f)\<rparr>"

definition log_flush :: "bool \<Rightarrow> LogState \<Rightarrow> (IoError + unit) \<times> LogState" where
  "log_flush ok st =
    (case log_file st of
       None \<Rightarrow> (Inr (), st\<lparr>appends_since_sync := 0\<rparr>)
     | Some f \<Rightarrow>
         if ok then (Inr (), st\<lparr>log_file := Some (sync_data f), appends_since_sync := 0\<rparr>)
         else (Inl IoFailure, st))"

fun write_all :: "bytes \<Rightarrow> nat option \<Rightarrow> logfile \<Rightarrow> bool \<times> logfile" where
  "write_all bs None f = (True, f\<lparr>content := content f @ bs\<rparr>)"
| "write_all bs (Some k) f = (False, f\<lparr>content := content f @ take k bs\<rparr>)"

definition saturating_incr :: "u32 \<Rightarrow> u32" where
  "saturating_incr n = (if n = - 1 then n else n + 1)"

fun should_sync :: "FsyncPolicy \<Rightarrow> u32 \<Rightarrow> bool" where
  "should_sync Always n = True"
| "should_sync (Periodic every_n) n = (every_n \<le> 1 \<or> n \<ge> every_n)"

definition log_append ::
  "'r prims \<Rightarrow> codecs \<Rightarrow> entry_codec \<Rightarrow> bytes \<Rightarrow> bytes \<Rightarrow> u64 \<Rightarrow> append_io \<Rightarrow> LogState
   \<Rightarrow> (IoError + u64) \<times> LogState" where
  "log_append P J C id_pk evidence_bytes observed io st =
    (let seq = word_of_nat (length (entries st));
         entry = LogEntry_from_evidence P J seq id_pk evidence_bytes observed;
         push = (\<lambda>st. st\<lparr>entries := entries st @ [entry]\<rparr>)
     in case log_file st of
       None \<Rightarrow> (Inr seq, push st)
     | Some f \<Rightarrow>
       (case entry_to_json C entry of
          None \<Rightarrow> (Inl SerializeFailed, st)
        | Some line \<Rightarrow>
          (case write_all line (w_line io) f of
             (False, f) \<Rightarrow> (Inl IoFailure, st\<lparr>log_file := Some f\<rparr>)
           | (True, f) \<Rightarrow>
             (case write_all [10] (w_newline io) f of
                (False, f) \<Rightarrow> (Inl IoFailure, st\<lparr>log_file := Some f\<rparr>)
              | (True, f) \<Rightarrow>
                let n = saturating_incr (appends_since_sync st);
                    st = st\<lparr>log_file := Some f, appends_since_sync := n\<rparr>
                in if should_sync (fsync_policy st) n then
                     if sync_ok io
                     then (Inr seq, push (st\<lparr>log_file := Some (sync_data f), appends_since_sync := 0\<rparr>))
                     else (Inl IoFailure, st)
                   else (Inr seq, push st)))))"

definition log_status :: "'r prims \<Rightarrow> codecs \<Rightarrow> LogState \<Rightarrow> LogStatus" where
  "log_status P J st =
    \<lparr>ls_size = word_of_nat (length (entries st)),
     ls_root_hex = hex_encode J (merkle_root P J (entries st))\<rparr>"

definition log_snapshot :: "LogState \<Rightarrow> LogEntry list" where
  "log_snapshot st = entries st"

definition log_entry :: "LogState \<Rightarrow> u64 \<Rightarrow> LogEntry option" where
  "log_entry st seq =
    (if unat seq < length (entries st) then Some (entries st ! unat seq) else None)"

text \<open>\<open>None\<close> is the panic of slicing with a start beyond the end.\<close>

definition entries_slice :: "LogState \<Rightarrow> u64 \<Rightarrow> u64 \<Rightarrow> LogEntry list option" where
  "entries_slice st start end_exclusive =
    (let s = min (unat start) (length (entries st));
         e = min (unat end_exclusive) (length (entries st))
     in if s > e then None else Some (take (e - s) (drop s (entries st))))"

section \<open>open_persistent\<close>

definition MAX_REOPEN_LINE_BYTES :: nat where "MAX_REOPEN_LINE_BYTES = 16 * 1024 * 1024"
definition MAX_JSON_DEPTH :: nat where "MAX_JSON_DEPTH = 32"

text \<open>\<open>read_until(b'\n')\<close> on a reader limited to \<open>cap\<close> bytes.\<close>

definition read_until_nl :: "nat \<Rightarrow> bytes \<Rightarrow> bytes" where
  "read_until_nl cap bs =
    (let lim = take cap bs; body = takeWhile (\<lambda>b. b \<noteq> 10) lim
     in if length body < length lim then body @ [10] else body)"

text \<open>The bracket scan: false iff the nesting outside strings passes the limit.\<close>

fun depth_ok :: "nat \<Rightarrow> bool \<Rightarrow> bool \<Rightarrow> bytes \<Rightarrow> bool" where
  "depth_ok depth in_string escaped [] = True"
| "depth_ok depth in_string escaped (b # bs) =
    (if escaped then depth_ok depth in_string False bs
     else if in_string then
       (if b = 92 then depth_ok depth True True bs
        else if b = 34 then depth_ok depth False False bs
        else depth_ok depth True False bs)
     else if b = 34 then depth_ok depth True False bs
     else if b = 123 \<or> b = 91 then
       (if depth + 1 > MAX_JSON_DEPTH then False else depth_ok (depth + 1) False False bs)
     else if b = 125 \<or> b = 93 then depth_ok (depth - 1) False False bs
     else depth_ok depth False False bs)"

record scan =
  sc_entries :: "LogEntry list"
  sc_good_end :: nat
  sc_cursor :: nat
  sc_terminated :: bool
  sc_trunc :: "nat option"

text \<open>One pass of the loop body on a non-empty chunk.\<close>

definition scan_chunk :: "entry_codec \<Rightarrow> scan \<Rightarrow> bytes \<Rightarrow> IoError + scan" where
  "scan_chunk C s chunk =
    (if length chunk > MAX_REOPEN_LINE_BYTES + 1
     then Inl (LineTooLong (sc_cursor s) (length chunk))
     else
       let start = sc_cursor s;
           cursor = start + length chunk;
           s = s\<lparr>sc_cursor := cursor\<rparr>;
           terminated = (last chunk = 10);
           trimmed = (if terminated then butlast chunk else chunk)
       in if list_all is_ascii_whitespace trimmed
          then Inr (if terminated then s\<lparr>sc_good_end := cursor\<rparr> else s)
          else if \<not> utf8_valid trimmed then Inl (BadUtf8 start)
          else if \<not> depth_ok 0 False False trimmed then Inl (TooDeep start)
          else case entry_from_json C trimmed of
            Some entry \<Rightarrow>
              if le_seq entry \<noteq> word_of_nat (length (sc_entries s))
              then Inl (Tampered start (length (sc_entries s)) (le_seq entry))
              else Inr (s\<lparr>sc_entries := sc_entries s @ [entry], sc_good_end := cursor,
                          sc_terminated := terminated\<rparr>)
          | None \<Rightarrow>
              if \<not> terminated then Inr (s\<lparr>sc_trunc := Some (sc_good_end s)\<rparr>)
              else Inl (BadJson start))"

lemma read_until_nl_nonempty: "bs \<noteq> [] \<Longrightarrow> 0 < cap \<Longrightarrow> read_until_nl cap bs \<noteq> []"
  by (cases bs; cases cap) (auto simp: read_until_nl_def Let_def)

function scan_loop :: "entry_codec \<Rightarrow> scan \<Rightarrow> bytes \<Rightarrow> IoError + scan" where
  "scan_loop C s bs =
    (let chunk = read_until_nl (MAX_REOPEN_LINE_BYTES + 2) bs
     in if chunk = [] then Inr s
        else rbind (scan_chunk C s chunk) (\<lambda>s. scan_loop C s (drop (length chunk) bs)))"
  by pat_completeness auto

termination
proof (relation "measure (\<lambda>(C, s, bs). length bs)", goal_cases)
  case (2 C s bs chunk s')
  then have "bs \<noteq> []" by (auto simp: read_until_nl_def)
  then show ?case using 2 by auto
qed simp

declare scan_loop.simps [simp del]

definition BOM :: bytes where "BOM = [0xEF, 0xBB, 0xBF]"

text \<open>
  \<open>file_ok\<close> says whether the calls that open, read, truncate, pad and create
  the file succeed; the argument \<open>f\<close> is the file, if it exists.
\<close>

definition open_persistent ::
  "entry_codec \<Rightarrow> bool \<Rightarrow> logfile option \<Rightarrow> IoError + LogState" where
  "open_persistent C file_ok f =
    (if \<not> file_ok then Inl IoFailure
     else case f of
       None \<Rightarrow> Inr \<lparr>entries = [], log_file = Some \<lparr>content = [], synced = 0\<rparr>,
                    appends_since_sync = 0, fsync_policy = Always\<rparr>
     | Some f \<Rightarrow>
       let skip = (if take 3 (content f) = BOM then 3 else 0);
           s0 = \<lparr>sc_entries = [], sc_good_end = skip, sc_cursor = skip, sc_terminated = True,
                 sc_trunc = None\<rparr>
       in rbind (scan_loop C s0 (drop skip (content f))) (\<lambda>s.
          let f = (case sc_trunc s of
                     None \<Rightarrow> f
                   | Some n \<Rightarrow> sync_data (f\<lparr>content := take n (content f)\<rparr>));
              f = (if \<not> sc_terminated s \<and> sc_entries s \<noteq> []
                   then sync_data (f\<lparr>content := content f @ [10]\<rparr>) else f)
          in Inr \<lparr>entries = sc_entries s, log_file = Some f, appends_since_sync = 0,
                  fsync_policy = Always\<rparr>))"

section \<open>The line codec\<close>

definition plain_str :: "string \<Rightarrow> bool" where
  "plain_str s \<longleftrightarrow> list_all hex_char s \<and> length s = 64"

definition plain_entry :: "LogEntry \<Rightarrow> bool" where
  "plain_entry e \<longleftrightarrow> plain_str (id_pk_hex e) \<and> plain_str (evidence_sha256_hex e)"

text \<open>
  What \<open>serde_json\<close> documents of compact output, for entries whose strings are
  64 hex digits: one printable ASCII line, an object, that parses back; no
  proper prefix of an object is a JSON text.
\<close>

definition json_line :: "entry_codec \<Rightarrow> LogEntry \<Rightarrow> bytes \<Rightarrow> bool" where
  "json_line C e line \<longleftrightarrow>
    entry_to_json C e = Some line \<and> entry_from_json C line = Some e \<and>
    line \<noteq> [] \<and> hd line = 123 \<and> length line \<le> 1024 \<and>
    list_all (\<lambda>b. 32 \<le> b \<and> b < 127) line \<and> depth_ok 0 False False line \<and>
    (\<forall>k < length line. entry_from_json C (take k line) = None)"

definition entry_codec_law :: "entry_codec \<Rightarrow> bool" where
  "entry_codec_law C \<longleftrightarrow> (\<forall>e. plain_entry e \<longrightarrow> (\<exists>line. json_line C e line))"

definition jline :: "entry_codec \<Rightarrow> LogEntry \<Rightarrow> bytes" where
  "jline C e = the (entry_to_json C e)"

lemma json_line_jline:
  "entry_codec_law C \<Longrightarrow> plain_entry e \<Longrightarrow> json_line C e (jline C e)"
  unfolding entry_codec_law_def jline_def by (metis json_line_def option.sel)

lemma depth_ok_take: "depth_ok d i x bs \<Longrightarrow> depth_ok d i x (take k bs)"
proof (induction bs arbitrary: d i x k)
  case (Cons b bs)
  then show ?case by (cases k) (auto split: if_splits)
qed simp

lemma read_until_nl_line:
  "10 \<notin> set line \<Longrightarrow> length line < cap \<Longrightarrow> read_until_nl cap (line @ 10 # rest) = line @ [10]"
proof -
  assume *: "10 \<notin> set line" "length line < cap"
  then have t: "take cap (line @ 10 # rest) = line @ 10 # take (cap - Suc (length line)) rest"
    by (cases "cap - length line") (auto simp: diff_Suc split: nat.splits)
  have "takeWhile (\<lambda>b. b \<noteq> 10) (line @ 10 # r) = line" for r
    using *(1) by (subst takeWhile_append2) auto
  then show ?thesis unfolding read_until_nl_def t by (simp add: Let_def)
qed

lemma read_until_nl_tail:
  "10 \<notin> set t \<Longrightarrow> length t \<le> cap \<Longrightarrow> read_until_nl cap t = t"
proof -
  assume *: "10 \<notin> set t" "length t \<le> cap"
  then have tw: "takeWhile (\<lambda>b. b \<noteq> 10) t = t" by (subst takeWhile_eq_all_conv) auto
  have tk: "take cap t = t" using *(2) by simp
  show ?thesis unfolding read_until_nl_def Let_def tk tw by simp
qed

lemma max_line: "1024 \<le> MAX_REOPEN_LINE_BYTES"
  by (simp add: MAX_REOPEN_LINE_BYTES_def)

section \<open>Scanning lines\<close>

abbreviation scan_at :: "LogEntry list \<Rightarrow> nat \<Rightarrow> scan" where
  "scan_at es n \<equiv> \<lparr>sc_entries = es, sc_good_end = n, sc_cursor = n, sc_terminated = True,
    sc_trunc = None\<rparr>"

lemma scan_loop_Nil [simp]: "scan_loop C s [] = Inr s"
  by (simp add: scan_loop.simps [of C s] read_until_nl_def Let_def)

lemma json_line_bytes:
  assumes "json_line C e line"
  shows "10 \<notin> set line" "utf8_valid (take k line)" "\<not> is_ascii_whitespace (hd line)"
    "k \<noteq> 0 \<Longrightarrow> hd (take k line) = 123"
proof -
  have "b < 128 \<and> b \<noteq> 10" if "b \<in> set line" for b
    using assms that by (auto simp: json_line_def list_all_iff word_less_nat_alt word_le_nat_alt)
  then show "10 \<notin> set line" "utf8_valid (take k line)"
    by (auto intro!: utf8_valid_ascii simp: list_all_iff) (meson in_set_takeD)
  show "\<not> is_ascii_whitespace (hd line)"
    using assms by (simp add: json_line_def is_ascii_whitespace_def)
  show "k \<noteq> 0 \<Longrightarrow> hd (take k line) = 123" using assms by (simp add: json_line_def)
qed

lemma not_blank:
  assumes "json_line C e line" "k \<noteq> 0"
  shows "take k line \<noteq> []" "\<not> list_all is_ascii_whitespace (take k line)" "last (take k line) \<noteq> 10"
proof -
  have "line \<noteq> []" using assms by (simp add: json_line_def)
  then show ne: "take k line \<noteq> []" using assms(2) by simp
  show "\<not> list_all is_ascii_whitespace (take k line)"
    using json_line_bytes(4) [OF assms] hd_in_set [OF ne]
    by (auto simp: list_all_iff is_ascii_whitespace_def intro!: bexI [of _ 123])
  show "last (take k line) \<noteq> 10"
    using json_line_bytes(1) [OF assms(1)] last_in_set [OF ne] by (metis in_set_takeD)
qed

lemma scan_line:
  assumes "json_line C e line"
  shows "scan_loop C (scan_at acc n) (line @ 10 # rest) =
    (if le_seq e = word_of_nat (length acc)
     then scan_loop C (scan_at (acc @ [e]) (n + length line + 1)) rest
     else Inl (Tampered n (length acc) (le_seq e)))"
proof -
  have len: "length line \<le> 1024" and parse: "entry_from_json C line = Some e"
    and ne: "line \<noteq> []" and d: "depth_ok 0 False False line"
    using assms by (auto simp: json_line_def)
  have chunk: "read_until_nl (MAX_REOPEN_LINE_BYTES + 2) (line @ 10 # rest) = line @ [10]"
    using len max_line by (intro read_until_nl_line [OF json_line_bytes(1) [OF assms]]) simp
  have blank: "\<not> list_all is_ascii_whitespace line" and u: "utf8_valid line"
    using not_blank(2) [OF assms, of "length line"] json_line_bytes(2) [OF assms, of "length line"] ne
    by simp_all
  show ?thesis
    using len parse d blank u max_line
    by (simp add: scan_loop.simps [of C "scan_at acc n"] chunk [simplified] scan_chunk_def Let_def)
qed

lemma scan_unterminated:
  assumes "json_line C e line" "le_seq e = word_of_nat (length acc)"
  shows "scan_loop C (scan_at acc n) line =
    Inr \<lparr>sc_entries = acc @ [e], sc_good_end = n + length line, sc_cursor = n + length line,
      sc_terminated = False, sc_trunc = None\<rparr>"
proof -
  have len: "length line \<le> 1024" and parse: "entry_from_json C line = Some e"
    and ne: "line \<noteq> []" and d: "depth_ok 0 False False line"
    using assms by (auto simp: json_line_def)
  have chunk: "read_until_nl (MAX_REOPEN_LINE_BYTES + 2) line = line"
    using len max_line by (intro read_until_nl_tail [OF json_line_bytes(1) [OF assms(1)]]) simp
  have b: "\<not> list_all is_ascii_whitespace line" "utf8_valid line" "last line \<noteq> 10"
    using not_blank [OF assms(1), of "length line"] json_line_bytes(2) [OF assms(1), of "length line"] ne
    by simp_all
  show ?thesis
    using len parse d b ne assms(2) max_line
    by (simp add: scan_loop.simps [of C "scan_at acc n"] chunk [simplified] scan_chunk_def Let_def)
qed

lemma scan_torn:
  assumes "json_line C e line" "0 < k" "k < length line"
  shows "scan_loop C (scan_at acc n) (take k line) =
    Inr ((scan_at acc n)\<lparr>sc_cursor := n + k, sc_trunc := Some n\<rparr>)"
proof -
  have len: "length line \<le> 1024" and parse: "entry_from_json C (take k line) = None"
    and d: "depth_ok 0 False False (take k line)"
    using assms by (auto simp: json_line_def depth_ok_take)
  have "10 \<notin> set (take k line)" using json_line_bytes(1) [OF assms(1)] by (metis in_set_takeD)
  then have chunk: "read_until_nl (MAX_REOPEN_LINE_BYTES + 2) (take k line) = take k line"
    using len max_line by (intro read_until_nl_tail) simp_all
  have k: "k \<noteq> 0" using assms(2) by simp
  show ?thesis
    using len parse d not_blank [OF assms(1) k] json_line_bytes(2) [OF assms(1), of k] assms(3)
      max_line
    by (simp add: scan_loop.simps [of C "scan_at acc n"] chunk [simplified] scan_chunk_def Let_def)
qed

text \<open>The file of a log, and the scan of it.\<close>

definition file_of :: "entry_codec \<Rightarrow> LogEntry list \<Rightarrow> bytes" where
  "file_of C es = concat (map (\<lambda>e. jline C e @ [10]) es)"

lemma file_of_simps [simp]:
  "file_of C [] = []" "file_of C (e # es) = jline C e @ 10 # file_of C es"
  "file_of C (es @ es') = file_of C es @ file_of C es'"
  by (simp_all add: file_of_def)

definition numbered_from :: "nat \<Rightarrow> LogEntry list \<Rightarrow> bool" where
  "numbered_from n es \<longleftrightarrow> (\<forall>i < length es. le_seq (es ! i) = word_of_nat (n + i))"

lemma numbered_from_Cons:
  "numbered_from n (e # es) \<longleftrightarrow> le_seq e = word_of_nat n \<and> numbered_from (Suc n) es"
  by (auto simp: numbered_from_def less_Suc_eq_0_disj nth_Cons')

lemma numbered_from_snoc:
  "numbered_from n (es @ [e]) \<longleftrightarrow> numbered_from n es \<and> le_seq e = word_of_nat (n + length es)"
  by (auto simp: numbered_from_def nth_append less_Suc_eq)

lemma numbered_from_take: "numbered_from n es \<Longrightarrow> numbered_from n (take m es)"
  by (simp add: numbered_from_def)

lemma scan_file:
  assumes "entry_codec_law C" "list_all plain_entry es" "numbered_from (length acc) es"
  shows "scan_loop C (scan_at acc n) (file_of C es @ rest) =
    scan_loop C (scan_at (acc @ es) (n + length (file_of C es))) rest"
  using assms(2,3)
proof (induction es arbitrary: acc n)
  case (Cons e es)
  have jl: "json_line C e (jline C e)" using json_line_jline [OF assms(1)] Cons.prems by simp
  have "scan_loop C (scan_at acc n) (file_of C (e # es) @ rest) =
    scan_loop C (scan_at (acc @ [e]) (n + length (jline C e) + 1)) (file_of C es @ rest)"
    using scan_line [OF jl] Cons.prems by (simp add: numbered_from_Cons)
  also have "\<dots> = scan_loop C (scan_at ((acc @ [e]) @ es)
      (n + length (jline C e) + 1 + length (file_of C es))) rest"
    using Cons.prems by (intro Cons.IH) (simp_all add: numbered_from_Cons)
  finally show ?case by (simp add: add.assoc)
qed simp

section \<open>Reopening after a crash\<close>

text \<open>A prefix of a log's file is the file of a prefix, then part of one line.\<close>

lemma take_file_of:
  "\<exists>m t. m \<le> length es \<and> take k (file_of C es) = file_of C (take m es) @ t \<and>
    (t = [] \<or> m < length es \<and> (\<exists>i. 0 < i \<and> i \<le> length (jline C (es ! m)) \<and> t = take i (jline C (es ! m)))) \<and>
    (\<forall>j \<le> length es. length (file_of C (take j es)) \<le> k \<longrightarrow> j \<le> m)"
proof (induction es arbitrary: k)
  case Nil
  then show ?case by simp
next
  case (Cons e es)
  let ?l = "jline C e"
  show ?case
  proof (cases "k \<le> length ?l")
    case True
    have "j = 0" if "length (file_of C (take j (e # es))) \<le> k" for j
      using that True by (cases j) auto
    then show ?thesis using True
      by (intro exI [of _ 0] exI [of _ "take k ?l"]) (auto intro!: exI [of _ k])
  next
    case False
    then obtain k' where k: "k = length ?l + Suc k'" by (metis less_iff_Suc_add not_le add_Suc_right)
    obtain m t where IH: "m \<le> length es" "take k' (file_of C es) = file_of C (take m es) @ t"
      "t = [] \<or> m < length es \<and> (\<exists>i. 0 < i \<and> i \<le> length (jline C (es ! m)) \<and> t = take i (jline C (es ! m)))"
      "\<forall>j \<le> length es. length (file_of C (take j es)) \<le> k' \<longrightarrow> j \<le> m"
      using Cons.IH [of k'] by blast
    have "j \<le> Suc m" if "j \<le> length (e # es)" "length (file_of C (take j (e # es))) \<le> k" for j
      using that IH(4) k by (cases j) auto
    then show ?thesis using IH k by (intro exI [of _ "Suc m"] exI [of _ t]) auto
  qed
qed

lemma take_3_not_BOM:
  assumes "entry_codec_law C" "list_all plain_entry es"
  shows "take 3 (take k (file_of C es)) \<noteq> BOM"
proof (cases es)
  case Nil
  then show ?thesis by (simp add: BOM_def)
next
  case (Cons e es')
  have "json_line C e (jline C e)" using json_line_jline [OF assms(1)] assms(2) Cons by simp
  then obtain r where r: "jline C e = 123 # r" by (auto simp: json_line_def neq_Nil_conv)
  show ?thesis by (cases k) (auto simp: Cons r BOM_def numeral_3_eq_3)
qed

lemma reopen_prefix:
  assumes law: "entry_codec_law C" and plain: "list_all plain_entry es"
    and num: "numbered_from 0 es" and c: "content f = take k (file_of C es)"
  shows "\<exists>st f'. open_persistent C True (Some f) = Inr st \<and> log_file st = Some f' \<and>
    content f' = file_of C (entries st) \<and> (\<exists>m. entries st = take m es \<and>
    (\<forall>j \<le> length es. length (file_of C (take j es)) \<le> k \<longrightarrow> j \<le> length (entries st)))"
proof -
  obtain m t where m: "m \<le> length es" "content f = file_of C (take m es) @ t"
    "t = [] \<or> m < length es \<and> (\<exists>i. 0 < i \<and> i \<le> length (jline C (es ! m)) \<and> t = take i (jline C (es ! m)))"
    "\<forall>j \<le> length es. length (file_of C (take j es)) \<le> k \<longrightarrow> j \<le> m"
    using take_file_of [of es k C] c by auto
  let ?n = "length (file_of C (take m es))"
  have pm: "list_all plain_entry (take m es)" "numbered_from 0 (take m es)"
    using plain num by (auto simp: list_all_iff numbered_from_take dest: in_set_takeD)
  have skip: "take 3 (content f) \<noteq> BOM" using take_3_not_BOM [OF law plain] c by simp
  have scan: "scan_loop C (scan_at [] 0) (content f) = scan_loop C (scan_at (take m es) ?n) t"
    using scan_file [OF law pm(1), of "[]" 0 t] pm(2) m(2) by simp
  consider "t = []"
    | i where "m < length es" "0 < i" "i < length (jline C (es ! m))" "t = take i (jline C (es ! m))"
    | "m < length es" "t = jline C (es ! m)"
    using m(3) by fastforce
  then show ?thesis
  proof cases
    case 1
    then show ?thesis using skip scan m by (auto simp: open_persistent_def Let_def intro!: exI [of _ m])
  next
    case (2 i)
    have "json_line C (es ! m) (jline C (es ! m))"
      using json_line_jline [OF law] plain 2(1) by (simp add: list_all_iff)
    then have "scan_loop C (scan_at [] 0) (content f) =
        Inr ((scan_at (take m es) ?n)\<lparr>sc_cursor := ?n + i, sc_trunc := Some ?n\<rparr>)"
      using scan scan_torn 2 by simp
    then show ?thesis using skip m
      by (auto simp: open_persistent_def Let_def sync_data_def intro!: exI [of _ m])
  next
    case 3
    have jl: "json_line C (es ! m) (jline C (es ! m))"
      using json_line_jline [OF law] plain 3(1) by (simp add: list_all_iff)
    have "le_seq (es ! m) = word_of_nat (length (take m es))"
      using num 3(1) by (simp add: numbered_from_def)
    then have "scan_loop C (scan_at [] 0) (content f) =
        Inr \<lparr>sc_entries = take (Suc m) es, sc_good_end = ?n + length t, sc_cursor = ?n + length t,
          sc_terminated = False, sc_trunc = None\<rparr>"
      using scan scan_unterminated [OF jl] 3 by (simp add: take_Suc_conv_app_nth)
    moreover have "file_of C (take (Suc m) es) = content f @ [10]"
      using 3 m(2) by (simp add: take_Suc_conv_app_nth)
    moreover have "take (Suc m) es \<noteq> []" using 3(1) by auto
    ultimately show ?thesis using skip m(4) 3(1)
      by (auto simp: open_persistent_def Let_def sync_data_def intro!: exI [of _ "Suc m"])
  qed
qed

section \<open>Runs of appends\<close>

type_synonym observation = "bytes \<times> bytes \<times> u64"

definition append_obs ::
  "'r prims \<Rightarrow> codecs \<Rightarrow> entry_codec \<Rightarrow> observation \<Rightarrow> LogState \<Rightarrow> LogState" where
  "append_obs P J C ob st =
    (case ob of (pk, ev, t) \<Rightarrow> snd (log_append P J C pk ev t io_good st))"

text \<open>How many entries a crash may lose under a policy.\<close>

fun max_loss :: "FsyncPolicy \<Rightarrow> nat" where
  "max_loss Always = 0"
| "max_loss (Periodic n) = unat n - 1"

text \<open>The state of a persistent log all of whose writes succeeded.\<close>

definition log_inv :: "entry_codec \<Rightarrow> LogState \<Rightarrow> bool" where
  "log_inv C st \<longleftrightarrow>
    list_all plain_entry (entries st) \<and> numbered_from 0 (entries st) \<and>
    (\<exists>f j. log_file st = Some f \<and> content f = file_of C (entries st) \<and>
      j \<le> length (entries st) \<and> synced f = length (file_of C (take j (entries st))) \<and>
      length (entries st) - j = unat (appends_since_sync st)) \<and>
    unat (appends_since_sync st) \<le> max_loss (fsync_policy st)"

lemma plain_from_evidence:
  assumes "sha2_law P" "hex_text_law J" "length pk = 32"
  shows "plain_entry (LogEntry_from_evidence P J s pk ev t)"
  using assms
  by (simp add: plain_entry_def plain_str_def LogEntry_from_evidence_def hex_text_law_def sha2_law_def)

lemma unat_saturating_incr:
  assumes "unat n + 1 < 2 ^ 32" shows "unat (saturating_incr n) = unat n + 1"
proof -
  have "unat (- 1 :: u32) = 4294967295"
    by (simp add: unsigned_minus_1_eq_mask mask_eq_exp_minus_1)
  then have "n \<noteq> - 1" using assms by auto
  moreover have "unat (word_of_nat (unat n + 1) :: u32) = unat n + 1"
    using assms by (simp add: unat_of_nat del: of_nat_Suc of_nat_add)
  ultimately show ?thesis by (simp add: saturating_incr_def add.commute)
qed

lemma append_inv:
  fixes P :: "'r prims"
  assumes law: "entry_codec_law C" and inv: "log_inv C st"
    and e: "e = LogEntry_from_evidence P J (word_of_nat (length (entries st))) pk ev t"
    and plain: "plain_entry e"
    and st': "log_append P J C pk ev t io_good st = (r, st')"
  shows "r = Inr (word_of_nat (length (entries st)))" "log_inv C st'"
    "entries st' = entries st @ [e]" "fsync_policy st' = fsync_policy st"
proof -
  obtain f j where f: "log_file st = Some f" "content f = file_of C (entries st)"
    "j \<le> length (entries st)" "synced f = length (file_of C (take j (entries st)))"
    "length (entries st) - j = unat (appends_since_sync st)"
    and le: "unat (appends_since_sync st) \<le> max_loss (fsync_policy st)"
    using inv by (auto simp: log_inv_def)
  have js: "entry_to_json C e = Some (jline C e)"
    using json_line_jline [OF law plain] by (simp add: json_line_def)
  let ?n = "saturating_incr (appends_since_sync st)"
  let ?f = "f\<lparr>content := file_of C (entries st @ [e])\<rparr>"
  have app: "log_append P J C pk ev t io_good st = (Inr (word_of_nat (length (entries st))),
    if should_sync (fsync_policy st) ?n
    then st\<lparr>log_file := Some (sync_data ?f), appends_since_sync := 0, entries := entries st @ [e]\<rparr>
    else st\<lparr>log_file := Some ?f, appends_since_sync := ?n, entries := entries st @ [e]\<rparr>)"
    using f js by (simp add: log_append_def io_good_def Let_def flip: e)
  show "r = Inr (word_of_nat (length (entries st)))" "entries st' = entries st @ [e]"
    "fsync_policy st' = fsync_policy st"
    using app st' by (auto split: if_splits)
  have num: "list_all plain_entry (entries st @ [e])" "numbered_from 0 (entries st @ [e])"
    using inv plain by (auto simp: log_inv_def numbered_from_snoc e LogEntry_from_evidence_def)
  show "log_inv C st'"
  proof (cases "should_sync (fsync_policy st) ?n")
    case True
    then have "st' = st\<lparr>log_file := Some (sync_data ?f), appends_since_sync := 0,
        entries := entries st @ [e]\<rparr>" using app st' by simp
    then show ?thesis using num
      by (auto simp: log_inv_def sync_data_def intro!: exI [of _ "Suc (length (entries st))"])
  next
    case False
    then obtain n where n: "fsync_policy st = Periodic n" "\<not> n \<le> 1" "\<not> ?n \<ge> n"
      by (cases "fsync_policy st") auto
    have "unat n < 2 ^ 32" using unat_lt2p [of n] by simp
    then have "unat (appends_since_sync st) + 1 < 2 ^ 32" using le n by simp
    then have un: "unat ?n = unat (appends_since_sync st) + 1" by (rule unat_saturating_incr)
    have "unat ?n < unat n" using n(3) by (simp add: word_le_nat_alt)
    moreover have "st' = st\<lparr>log_file := Some ?f, appends_since_sync := ?n,
        entries := entries st @ [e]\<rparr>" using False app st' by simp
    ultimately show ?thesis using num f n un
      by (auto simp: log_inv_def intro!: exI [of _ j])
  qed
qed

lemma appends_inv:
  fixes P :: "'r prims"
  assumes law: "entry_codec_law C" "sha2_law P" "hex_text_law J"
    and "log_inv C st" "\<forall>(pk, ev, t) \<in> set obs. length pk = 32"
  shows "log_inv C (fold (append_obs P J C) obs st) \<and>
    fsync_policy (fold (append_obs P J C) obs st) = fsync_policy st \<and>
    length (entries (fold (append_obs P J C) obs st)) = length (entries st) + length obs"
  using assms(4-)
proof (induction obs arbitrary: st)
  case (Cons ob obs)
  obtain pk ev t where ob: "ob = (pk, ev, t)" by (cases ob)
  obtain r st' where ap: "log_append P J C pk ev t io_good st = (r, st')" by fastforce
  have "plain_entry (LogEntry_from_evidence P J (word_of_nat (length (entries st))) pk ev t)"
    using plain_from_evidence [OF law(2,3)] Cons.prems ob by auto
  note step = append_inv [OF law(1) Cons.prems(1) refl this ap]
  have "append_obs P J C ob st = st'" by (simp add: append_obs_def ob ap)
  then show ?case using Cons.IH [OF step(2)] Cons.prems step by simp
qed simp

lemma fresh_log_inv:
  assumes "open_persistent C True None = Inr st"
  shows "log_inv C (set_fsync_policy p st)"
  using assms
  by (auto simp: open_persistent_def set_fsync_policy_def log_inv_def numbered_from_def)

section \<open>Entries on stable storage\<close>

text \<open>A persistent log in step with its file, whatever was synced of it.\<close>

definition log_wf :: "entry_codec \<Rightarrow> LogState \<Rightarrow> bool" where
  "log_wf C lg \<longleftrightarrow>
    list_all plain_entry (entries lg) \<and> numbered_from 0 (entries lg) \<and>
    (\<exists>f. log_file lg = Some f \<and> content f = file_of C (entries lg) \<and> synced f \<le> length (content f))"

text \<open>The entries \<open>es\<close> are a prefix of the log and their lines are on stable storage.\<close>

definition durable :: "entry_codec \<Rightarrow> LogEntry list \<Rightarrow> LogState \<Rightarrow> bool" where
  "durable C es lg \<longleftrightarrow> take (length es) (entries lg) = es \<and>
    (\<exists>f. log_file lg = Some f \<and> length (file_of C es) \<le> synced f)"

lemma durable_length: "durable C es lg \<Longrightarrow> length es \<le> length (entries lg)"
  unfolding durable_def by (metis length_take min.cobounded1 min.commute)

lemma fresh_log_wf:
  assumes "open_persistent C True None = Inr st"
  shows "log_wf C (set_fsync_policy p st)"
  using assms
  by (auto simp: open_persistent_def set_fsync_policy_def log_wf_def numbered_from_def)

lemma set_fsync_policy_wf:
  "log_wf C (set_fsync_policy p lg) = log_wf C lg" "durable C es (set_fsync_policy p lg) = durable C es lg"
  by (simp_all add: set_fsync_policy_def log_wf_def durable_def)

lemma append_wf:
  fixes P :: "'r prims"
  assumes law: "entry_codec_law C" and wf: "log_wf C lg"
    and e: "e = LogEntry_from_evidence P J (word_of_nat (length (entries lg))) pk ev t"
    and plain: "plain_entry e"
    and ap: "log_append P J C pk ev t io_good lg = (r, lg')"
  shows "log_wf C lg'" "entries lg' = entries lg @ [e]" "durable C es lg \<Longrightarrow> durable C es lg'"
proof -
  obtain f where f: "log_file lg = Some f" "content f = file_of C (entries lg)" "synced f \<le> length (content f)"
    using wf by (auto simp: log_wf_def)
  have js: "entry_to_json C e = Some (jline C e)"
    using json_line_jline [OF law plain] by (simp add: json_line_def)
  let ?f = "f\<lparr>content := file_of C (entries lg @ [e])\<rparr>"
  obtain n f' where lg': "lg' = lg\<lparr>log_file := Some f', appends_since_sync := n, entries := entries lg @ [e]\<rparr>"
    and f': "f' = ?f \<or> f' = sync_data ?f"
    using ap f js by (auto simp: log_append_def io_good_def Let_def simp flip: e split: if_splits)
  show "entries lg' = entries lg @ [e]" using lg' by simp
  have num: "list_all plain_entry (entries lg @ [e])" "numbered_from 0 (entries lg @ [e])"
    using wf plain by (auto simp: log_wf_def numbered_from_snoc e LogEntry_from_evidence_def)
  show "log_wf C lg'" using num f f' by (auto simp: lg' log_wf_def sync_data_def)
  show "durable C es lg'" if d: "durable C es lg"
    using d durable_length [OF d] f f' by (auto simp: lg' durable_def sync_data_def)
qed

lemma flush_wf:
  assumes "log_wf C lg" "log_flush ok lg = (r, lg')"
  shows "log_wf C lg'" "entries lg' = entries lg" "durable C es lg \<Longrightarrow> durable C es lg'"
    "r = Inr () \<Longrightarrow> durable C (entries lg') lg'"
  using assms
  by (auto simp: log_flush_def log_wf_def durable_def sync_data_def split: option.splits if_splits)

text \<open>What a crash leaves of the file: at least what was synced.\<close>

definition survives :: "logfile \<Rightarrow> logfile \<Rightarrow> bool" where
  "survives f f' \<longleftrightarrow> (\<exists>k \<ge> synced f. content f' = take k (content f)) \<and>
    synced f \<le> synced f' \<and> synced f' \<le> length (content f')"

lemma open_persistent_synced:
  assumes "open_persistent C True (Some f) = Inr lg" "log_file lg = Some f'" "synced f \<le> length (content f)"
  shows "synced f' \<le> length (content f')" "synced f \<le> synced f' \<or> synced f' = length (content f')"
  using assms
  by (auto simp: open_persistent_def Let_def sync_data_def result_simps split: option.splits if_splits)

lemma reopen_wf:
  assumes "entry_codec_law C" "log_wf C lg" "log_file lg = Some f" "survives f f'"
  shows "\<exists>lg'. open_persistent C True (Some f') = Inr lg' \<and> log_wf C lg' \<and>
    (\<forall>es. durable C es lg \<longrightarrow> durable C es lg')"
proof -
  have wf: "content f = file_of C (entries lg)" "list_all plain_entry (entries lg)" "numbered_from 0 (entries lg)"
    using assms(2,3) by (auto simp: log_wf_def)
  obtain k where k: "content f' = take k (content f)" "synced f \<le> k"
    and s: "synced f \<le> synced f'" "synced f' \<le> length (content f')"
    using assms(4) by (auto simp: survives_def)
  obtain lg' f2 m where *: "open_persistent C True (Some f') = Inr lg'" "log_file lg' = Some f2"
    "content f2 = file_of C (entries lg')" "entries lg' = take m (entries lg)"
    "\<forall>j \<le> length (entries lg). length (file_of C (take j (entries lg))) \<le> k \<longrightarrow> j \<le> length (entries lg')"
    using reopen_prefix [OF assms(1) wf(2,3), of f' k] k(1) wf(1) by auto
  note sy = open_persistent_synced [OF *(1,2) s(2)]
  have "log_wf C lg'"
    using wf(2,3) *(2-4) sy(1)
    by (auto simp: log_wf_def list_all_iff numbered_from_take dest: in_set_takeD)
  moreover have "durable C es lg'" if d: "durable C es lg" for es
  proof -
    have es: "take (length es) (entries lg) = es" "length (file_of C es) \<le> synced f"
      using d assms(3) by (auto simp: durable_def)
    have "length es \<le> length (entries lg')" using *(5) es durable_length [OF d] k(2) by simp
    then have tk: "take (length es) (entries lg') = es" using *(4) es(1) by (simp add: min_def split: if_splits)
    have "length (file_of C es) \<le> length (content f2)"
      unfolding *(3) by (subst tk [symmetric], subst (2) append_take_drop_id [of "length es", symmetric])
        (simp only: file_of_simps length_append le_add1)
    then have "length (file_of C es) \<le> synced f2" using sy(2) es(2) s(1) by auto
    then show ?thesis using tk *(2) by (simp add: durable_def)
  qed
  ultimately show ?thesis using *(1) by blast
qed

section \<open>Properties\<close>

text \<open>
  A concrete line codec for the witnesses: the four fields at fixed positions
  between braces.
\<close>

definition fields_to_line :: "LogEntry \<Rightarrow> bytes" where
  "fields_to_line e = 123 # str_bytes (hex_of (u64_to_be (le_seq e)) @ id_pk_hex e
    @ evidence_sha256_hex e @ hex_of (u64_to_be (observed_at_unix e))) @ [125]"

definition line_to_fields :: "bytes \<Rightarrow> LogEntry option" where
  "line_to_fields bs =
    (if length bs \<noteq> 162 then None
     else case (of_hex (chars (take 16 (drop 1 bs))), of_hex (chars (take 16 (drop 145 bs)))) of
       (Some a, Some b) \<Rightarrow>
         Some \<lparr>le_seq = u64_from_be a, id_pk_hex = chars (take 64 (drop 17 bs)),
               evidence_sha256_hex = chars (take 64 (drop 81 bs)), observed_at_unix = u64_from_be b\<rparr>
     | _ \<Rightarrow> None)"

definition model_entry_codec :: entry_codec where
  "model_entry_codec =
    \<lparr>entry_to_json = (\<lambda>e. Some (fields_to_line e)), entry_from_json = line_to_fields\<rparr>"

lemma hex_char_byte:
  "hex_char c \<Longrightarrow> 48 \<le> (word_of_nat (of_char c) :: u8) \<and> (word_of_nat (of_char c) :: u8) < 103 \<and>
    (word_of_nat (of_char c) :: u8) \<noteq> 91 \<and> (word_of_nat (of_char c) :: u8) \<noteq> 93"
  by (auto simp: hex_char_def Let_def word_le_nat_alt word_less_nat_alt word_unat_eq_iff unat_of_nat)

lemma depth_ok_plain:
  "list_all (\<lambda>b. 48 \<le> b \<and> b < 103 \<and> b \<noteq> 91 \<and> b \<noteq> 93) bs \<Longrightarrow> depth_ok 1 False False (bs @ [125])"
  by (induction bs) (auto simp: word_le_nat_alt word_less_nat_alt)

lemma model_entry_codec_law: "entry_codec_law model_entry_codec"
proof -
  have "json_line model_entry_codec e (fields_to_line e)" if "plain_entry e" for e
  proof -
    let ?t = "hex_of (u64_to_be (le_seq e)) @ id_pk_hex e @ evidence_sha256_hex e
      @ hex_of (u64_to_be (observed_at_unix e))"
    have len: "length (id_pk_hex e) = 64" "length (evidence_sha256_hex e) = 64"
      and hc: "list_all hex_char ?t"
      using that by (simp_all add: plain_entry_def plain_str_def hex_char_hex_of)
    have bs: "list_all (\<lambda>b. 48 \<le> b \<and> b < 103 \<and> b \<noteq> 91 \<and> b \<noteq> 93) (str_bytes ?t)"
      using hc hex_char_byte unfolding str_bytes_def list_all_iff by auto
    then have pr: "list_all (\<lambda>b. 32 \<le> b \<and> b < 127) (fields_to_line e)"
      by (auto simp: fields_to_line_def list_all_iff word_le_nat_alt word_less_nat_alt)
    have l162: "length (fields_to_line e) = 162" using len by (simp add: fields_to_line_def)
    have "line_to_fields (fields_to_line e) = Some e"
      using len unfolding line_to_fields_def l162
      by (simp add: fields_to_line_def str_bytes_append of_hex_hex_of)
    moreover have "depth_ok 0 False False (fields_to_line e)"
      using depth_ok_plain [OF bs] by (simp add: fields_to_line_def MAX_JSON_DEPTH_def)
    moreover have "line_to_fields (take k (fields_to_line e)) = None" if "k < 162" for k
      using that l162 by (simp add: line_to_fields_def)
    ultimately show ?thesis using l162 pr
      by (simp add: json_line_def model_entry_codec_def) (simp add: fields_to_line_def)
  qed
  then show ?thesis by (auto simp: entry_codec_law_def)
qed

text \<open>
  C16. Crash recovery.  Start from a new persistent log under any sync policy,
  append any observations, and crash: the file is cut anywhere at or after what
  was synced, possibly in the middle of a line.  Reopening succeeds, the entries
  recovered are a prefix of the log, at most \<open>n - 1\<close> entries are missing under
  \<open>Periodic n\<close> and none under \<open>Always\<close>, and the repaired file is exactly the
  file of the recovered log, so appending can go on.
\<close>

theorem log_crash_recovery:
  fixes P :: "'r prims"
  assumes "entry_codec_law C" "sha2_law P" "hex_text_law J"
    and "open_persistent C True None = Inr st0"
    and "\<forall>(pk, ev, t) \<in> set obs. length pk = 32"
    and "st = fold (append_obs P J C) obs (set_fsync_policy p st0)"
    and "log_file st = Some f" "synced f \<le> k"
  shows "length (entries st) = length obs \<and>
    (\<exists>st' f' m. open_persistent C True (Some (f\<lparr>content := take k (content f)\<rparr>)) = Inr st' \<and>
      log_file st' = Some f' \<and> content f' = file_of C (entries st') \<and>
      entries st' = take m (entries st) \<and>
      length (entries st) \<le> length (entries st') + max_loss p)"
proof -
  have e0: "entries (set_fsync_policy p st0) = []" "fsync_policy (set_fsync_policy p st0) = p"
    using assms(4) by (auto simp: open_persistent_def set_fsync_policy_def)
  note run = appends_inv [OF assms(1-3) fresh_log_inv [OF assms(4)] assms(5), of p, folded assms(6)]
  have pol: "fsync_policy st = p" and len: "length (entries st) = length obs"
    and inv: "log_inv C st" using run e0 by auto
  obtain j where j: "content f = file_of C (entries st)" "j \<le> length (entries st)"
    "synced f = length (file_of C (take j (entries st)))"
    "length (entries st) - j = unat (appends_since_sync st)"
    using inv assms(7) by (auto simp: log_inv_def)
  have loss: "unat (appends_since_sync st) \<le> max_loss p" using inv pol by (simp add: log_inv_def)
  obtain st' f' m where *: "open_persistent C True (Some (f\<lparr>content := take k (content f)\<rparr>)) = Inr st'"
    "log_file st' = Some f'" "content f' = file_of C (entries st')" "entries st' = take m (entries st)"
    "\<forall>j \<le> length (entries st). length (file_of C (take j (entries st))) \<le> k \<longrightarrow> j \<le> length (entries st')"
    using reopen_prefix [OF assms(1), of "entries st" "f\<lparr>content := take k (content f)\<rparr>" k] inv j
    by (auto simp: log_inv_def)
  have "j \<le> length (entries st')" using *(5) j assms(8) by simp
  then have "length (entries st) \<le> length (entries st') + max_loss p" using j(2,4) loss by linarith
  then show ?thesis using len *(1-4) by blast
qed

definition sample_obs :: "observation list" where
  "sample_obs = [(replicate 32 1, [2], 3), (replicate 32 4, [5], 6)]"

definition sample_run :: LogState where
  "sample_run = fold (append_obs model_prims model_codecs model_entry_codec) sample_obs
    (set_fsync_policy (Periodic 2)
      \<lparr>entries = [], log_file = Some \<lparr>content = [], synced = 0\<rparr>, appends_since_sync = 0,
       fsync_policy = Always\<rparr>)"

theorem log_crash_recovery_witness:
  "\<exists>f st' f' m. log_file sample_run = Some f \<and> length (entries sample_run) = 2 \<and>
    open_persistent model_entry_codec True (Some (f\<lparr>content := take (synced f) (content f)\<rparr>)) = Inr st' \<and>
    log_file st' = Some f' \<and> content f' = file_of model_entry_codec (entries st') \<and>
    entries st' = take m (entries sample_run) \<and>
    length (entries sample_run) \<le> length (entries st') + max_loss (Periodic 2)"
proof -
  let ?st0 = "\<lparr>entries = [], log_file = Some \<lparr>content = [], synced = 0\<rparr>, appends_since_sync = 0,
       fsync_policy = Always\<rparr>"
  have st0: "open_persistent model_entry_codec True None = Inr ?st0"
    by (simp add: open_persistent_def)
  have obs: "\<forall>(pk, ev, t) \<in> set sample_obs. length pk = 32" by (simp add: sample_obs_def)
  have "log_inv model_entry_codec sample_run"
    using appends_inv [OF model_entry_codec_law model_sha2_law model_hex_text_law
        fresh_log_inv [OF st0] obs, of "Periodic 2"] by (simp add: sample_run_def)
  then obtain f where f: "log_file sample_run = Some f" by (auto simp: log_inv_def)
  from log_crash_recovery [OF model_entry_codec_law model_sha2_law model_hex_text_law st0 obs
      sample_run_def f order.refl] f
  show ?thesis by (auto simp: sample_obs_def)
qed

text \<open>Every operation on the log, with any I/O outcome.\<close>

datatype log_op =
    OpAppend bytes bytes u64 append_io
  | OpPolicy FsyncPolicy
  | OpFlush bool

fun run_op :: "'r prims \<Rightarrow> codecs \<Rightarrow> entry_codec \<Rightarrow> log_op \<Rightarrow> LogState \<Rightarrow> LogState" where
  "run_op P J C (OpAppend pk ev t io) st = snd (log_append P J C pk ev t io st)"
| "run_op P J C (OpPolicy p) st = set_fsync_policy p st"
| "run_op P J C (OpFlush ok) st = snd (log_flush ok st)"

lemma log_append_entries:
  assumes "log_append P J C pk ev t io st = (r, st')"
  shows "entries st' = (if is_ok r then entries st @
      [LogEntry_from_evidence P J (word_of_nat (length (entries st))) pk ev t] else entries st)"
    "r = Inr s \<Longrightarrow> s = word_of_nat (length (entries st))"
  using assms
  by (auto simp: log_append_def Let_def split: option.splits prod.splits bool.splits if_splits)

lemma run_op_entries:
  "\<exists>es. entries (run_op P J C op st) = entries st @ es \<and>
    (numbered_from 0 (entries st) \<longrightarrow> numbered_from 0 (entries (run_op P J C op st)))"
proof (cases op)
  case (OpAppend pk ev t io)
  obtain r st' where "log_append P J C pk ev t io st = (r, st')" by fastforce
  then show ?thesis using log_append_entries(1) [of P J C pk ev t io st r st'] OpAppend
    by (auto simp: numbered_from_snoc LogEntry_from_evidence_def)
qed (auto simp: set_fsync_policy_def log_flush_def split: option.splits)

text \<open>
  The log is append-only and numbered by position.  Under every sequence of
  appends, policy changes and flushes, with every combination of failing writes
  and syncs, the earlier entries stay in place, and the entries of a log that
  started empty carry their position as sequence number.
\<close>

theorem log_append_only:
  "(\<exists>es. entries (fold (run_op P J C) ops st) = entries st @ es) \<and>
   numbered_from 0 (entries (fold (run_op P J C) ops TransparencyLog_new))"
proof
  show "\<exists>es. entries (fold (run_op P J C) ops st) = entries st @ es"
  proof (induction ops arbitrary: st)
    case (Cons op ops)
    then show ?case using run_op_entries [of P J C op st] by (metis append.assoc fold_simps(2))
  qed simp
  have "numbered_from 0 (entries st) \<Longrightarrow> numbered_from 0 (entries (fold (run_op P J C) ops st))" for st
    by (induction ops arbitrary: st) (use run_op_entries in \<open>fastforce+\<close>)
  then show "numbered_from 0 (entries (fold (run_op P J C) ops TransparencyLog_new))"
    by (simp add: TransparencyLog_new_def numbered_from_def)
qed

text \<open>
  C20. A failed sync poisons the log file.  If the sync of an append fails, the
  append reports an error and the entry is not in memory, but its line stays in
  the file.  The next append, even with all I/O succeeding, reuses the sequence
  number, and reopening the file then fails as tampered.
\<close>

theorem log_failed_sync_breaks_reopen:
  fixes P :: "'r prims"
  assumes "entry_codec_law C" "sha2_law P" "hex_text_law J" "log_inv C st"
    and "fsync_policy st = Always" "length pk = 32" "length pk' = 32"
    and "log_append P J C pk ev t (io_good\<lparr>sync_ok := False\<rparr>) st = (r1, st1)"
    and "log_append P J C pk' ev' t' io_good st1 = (r2, st2)"
  shows "r1 = Inl IoFailure \<and> r2 = Inr (word_of_nat (length (entries st))) \<and>
    (\<exists>off. open_persistent C True (log_file st2) =
      Inl (Tampered off (length (entries st) + 1) (word_of_nat (length (entries st)))))"
proof -
  let ?n = "length (entries st)"
  let ?e = "LogEntry_from_evidence P J (word_of_nat ?n) pk ev t"
  let ?e' = "LogEntry_from_evidence P J (word_of_nat ?n) pk' ev' t'"
  obtain f where f: "log_file st = Some f" "content f = file_of C (entries st)"
    using assms(4) by (auto simp: log_inv_def)
  have plain: "plain_entry ?e" "plain_entry ?e'"
    using plain_from_evidence [OF assms(2,3)] assms(6,7) by auto
  have js: "entry_to_json C ?e = Some (jline C ?e)" "entry_to_json C ?e' = Some (jline C ?e')"
    using json_line_jline [OF assms(1)] plain by (simp_all add: json_line_def)
  have 1: "r1 = Inl IoFailure" "entries st1 = entries st" "fsync_policy st1 = Always"
    "\<exists>f1. log_file st1 = Some f1 \<and> content f1 = file_of C (entries st @ [?e])"
    using assms(5,8) f js by (auto simp: log_append_def io_good_def Let_def)
  then have 2: "r2 = Inr (word_of_nat ?n)"
    "\<exists>f2. log_file st2 = Some f2 \<and> content f2 = file_of C (entries st @ [?e]) @ jline C ?e' @ [10]"
    using assms(9) js by (auto simp: log_append_def io_good_def Let_def sync_data_def)
  then obtain f2 where f2: "log_file st2 = Some f2"
    "content f2 = file_of C (entries st @ [?e]) @ jline C ?e' @ [10]" by blast
  have wf: "list_all plain_entry (entries st @ [?e])" "numbered_from 0 (entries st @ [?e])"
    using assms(4) plain
    by (auto simp: log_inv_def numbered_from_snoc LogEntry_from_evidence_def)
  have "content f2 = take (length (content f2)) (file_of C (entries st @ [?e, ?e']))"
    using f2 by simp
  then have skip: "take 3 (content f2) \<noteq> BOM"
    using take_3_not_BOM [OF assms(1), of "entries st @ [?e, ?e']" "length (content f2)"] wf plain by simp
  have "scan_loop C (scan_at [] 0) (content f2) =
    scan_loop C (scan_at (entries st @ [?e]) (length (file_of C (entries st @ [?e])))) (jline C ?e' @ [10])"
    using scan_file [OF assms(1) wf(1), of "[]" 0 "jline C ?e' @ [10]"] wf(2) f2(2) by simp
  also have "\<dots> = Inl (Tampered (length (file_of C (entries st @ [?e]))) (?n + 1) (word_of_nat ?n))"
    using scan_line [OF json_line_jline [OF assms(1) plain(2)], of "entries st @ [?e]" _ "[]"]
    by (simp add: LogEntry_from_evidence_def)
  finally show ?thesis using 1 2 f2(1) skip by (simp add: open_persistent_def Let_def)
qed

theorem log_failed_sync_breaks_reopen_witness:
  "\<exists>st1 st2 off.
    log_append model_prims model_codecs model_entry_codec (replicate 32 1) [2] 3
      (io_good\<lparr>sync_ok := False\<rparr>) (set_fsync_policy Always (set_fsync_policy Always
        \<lparr>entries = [], log_file = Some \<lparr>content = [], synced = 0\<rparr>, appends_since_sync = 0,
         fsync_policy = Always\<rparr>)) = (Inl IoFailure, st1) \<and>
    log_append model_prims model_codecs model_entry_codec (replicate 32 4) [5] 6 io_good st1 = (Inr 0, st2) \<and>
    open_persistent model_entry_codec True (log_file st2) = Inl (Tampered off 1 0)"
proof -
  let ?st0 = "\<lparr>entries = [], log_file = Some \<lparr>content = [], synced = 0\<rparr>, appends_since_sync = 0,
         fsync_policy = Always\<rparr>"
  let ?st = "set_fsync_policy Always (set_fsync_policy Always ?st0)"
  let ?A = "log_append model_prims model_codecs model_entry_codec"
  have inv: "log_inv model_entry_codec ?st"
    using fresh_log_inv [of model_entry_codec ?st0 Always]
    by (simp add: open_persistent_def set_fsync_policy_def)
  have pol: "fsync_policy ?st = Always" and emp: "entries ?st = []"
    by (simp_all add: set_fsync_policy_def)
  obtain r1 st1 where 1: "?A (replicate 32 1) [2] 3 (io_good\<lparr>sync_ok := False\<rparr>) ?st = (r1, st1)" by fastforce
  obtain r2 st2 where 2: "?A (replicate 32 4) [5] 6 io_good st1 = (r2, st2)" by fastforce
  from log_failed_sync_breaks_reopen [OF model_entry_codec_law model_sha2_law model_hex_text_law
      inv pol _ _ 1 2] 1 2 emp
  show ?thesis by auto
qed

end
