(* ===== verification/Sth.thy ===== *)
theory Sth
  imports Merkle Rust_Text
begin

text \<open>
  \<open>ullm-transparency\<close>: signed tree heads (\<open>sth.rs\<close>), witness cosignatures
  (\<open>witness.rs\<close>) and the auditor (\<open>auditor.rs\<close>).  \<open>ed25519_verify\<close> stands for
  decoding the verifying key and checking the signature, so a key that does not
  decode verifies nothing.  Shown: what an accepted audit establishes, which
  error each failed check gives, and that the witness count is the number of
  distinct trusted keys with a valid cosignature.
\<close>

section \<open>sth.rs\<close>

record TreeHead =
  th_size :: u64
  root_hex :: string
  issued_at_unix :: u64
  log_id :: string

definition TreeHead_canonical_bytes :: "codecs \<Rightarrow> TreeHead \<Rightarrow> bytes" where
  "TreeHead_canonical_bytes J h = json_object J
    [(''issued_at_unix'', JNumber (issued_at_unix h)),
     (''log_id'', JString (log_id h)),
     (''root_hex'', JString (root_hex h)),
     (''size'', JNumber (th_size h))]"

definition TreeHead_digest :: "'r prims \<Rightarrow> codecs \<Rightarrow> TreeHead \<Rightarrow> bytes" where
  "TreeHead_digest P J h = sha256 P (TreeHead_canonical_bytes J h)"

record SignedTreeHead =
  head :: TreeHead
  logger_pk :: bytes
  sth_signature :: bytes

definition SignedTreeHead_sign ::
  "'r prims \<Rightarrow> codecs \<Rightarrow> TreeHead \<Rightarrow> bytes \<Rightarrow> SignedTreeHead" where
  "SignedTreeHead_sign P J h key =
    (let bs = TreeHead_canonical_bytes J h
     in \<lparr>head = h, logger_pk = ed25519_public P key, sth_signature = ed25519_sign P key bs\<rparr>)"

definition SignedTreeHead_verify :: "'r prims \<Rightarrow> codecs \<Rightarrow> SignedTreeHead \<Rightarrow> bool" where
  "SignedTreeHead_verify P J sth =
    ed25519_verify P (logger_pk sth) (TreeHead_canonical_bytes J (head sth)) (sth_signature sth)"

section \<open>witness.rs\<close>

record WitnessCosignature =
  witness_pk :: bytes
  wc_signature :: bytes

definition WitnessCosignature_message :: "SignedTreeHead \<Rightarrow> bytes" where
  "WitnessCosignature_message sth = sth_signature sth"

definition WitnessCosignature_cosign ::
  "'r prims \<Rightarrow> SignedTreeHead \<Rightarrow> bytes \<Rightarrow> WitnessCosignature" where
  "WitnessCosignature_cosign P sth key =
    \<lparr>witness_pk = ed25519_public P key,
     wc_signature = ed25519_sign P key (WitnessCosignature_message sth)\<rparr>"

definition WitnessCosignature_verify ::
  "'r prims \<Rightarrow> WitnessCosignature \<Rightarrow> SignedTreeHead \<Rightarrow> bool" where
  "WitnessCosignature_verify P c sth =
    ed25519_verify P (witness_pk c) (WitnessCosignature_message sth) (wc_signature c)"

record WitnessKeyset =
  witnesses :: "bytes list"
  threshold :: nat

definition count_valid ::
  "'r prims \<Rightarrow> WitnessKeyset \<Rightarrow> SignedTreeHead \<Rightarrow> WitnessCosignature list \<Rightarrow> nat" where
  "count_valid P ks sth cosigs =
    card (fold (\<lambda>c counted.
        if witness_pk c \<notin> set (witnesses ks) then counted
        else if WitnessCosignature_verify P c sth then insert (witness_pk c) counted
        else counted) cosigs {})"

definition satisfies ::
  "'r prims \<Rightarrow> WitnessKeyset \<Rightarrow> SignedTreeHead \<Rightarrow> WitnessCosignature list \<Rightarrow> bool" where
  "satisfies P ks sth cosigs \<longleftrightarrow> count_valid P ks sth cosigs \<ge> threshold ks"

section \<open>auditor.rs\<close>

datatype AuditError =
    StoredSignatureInvalid
  | UnexpectedLogger string
  | UnexpectedLogId (ul_got: string) (ul_expected: string)
  | InclusionPathInvalid
  | SizeMismatch (claimed: u64) (advertised: u64)
  | InsufficientWitnesses (iw_got: nat) (iw_needed: nat)

fun AuditError_display :: "AuditError \<Rightarrow> string" where
  "AuditError_display StoredSignatureInvalid = ''STH signature did not verify under the bundled logger key''"
| "AuditError_display (UnexpectedLogger g) = ''logger key '' @ g @ '' not in the expected-loggers list''"
| "AuditError_display (UnexpectedLogId g want) =
    ''STH log_id '' @ str_debug g @ '' does not match expected '' @ str_debug want"
| "AuditError_display InclusionPathInvalid = ''inclusion proof did not reconstruct the STH root''"
| "AuditError_display (SizeMismatch cl ad) =
    ''proof claims size '' @ dec (unat cl) @ '', STH advertises '' @ dec (unat ad)"
| "AuditError_display (InsufficientWitnesses g needed) =
    ''only '' @ dec g @ '' valid witness cosignatures; '' @ dec needed @ '' required''"

definition verify_inclusion_against_head ::
  "'r prims \<Rightarrow> codecs \<Rightarrow> SignedTreeHead \<Rightarrow> InclusionProof \<Rightarrow> LogEntry
   \<Rightarrow> (WitnessKeyset \<times> WitnessCosignature list) option \<Rightarrow> string option
   \<Rightarrow> AuditError + unit" where
  "verify_inclusion_against_head P J sth pf expected_entry cosigs expected_log_id =
    rbind (guard_err (\<not> SignedTreeHead_verify P J sth) StoredSignatureInvalid) (\<lambda>_.
    rbind (case expected_log_id of
             None \<Rightarrow> Inr ()
           | Some want \<Rightarrow> guard_err (log_id (head sth) \<noteq> want)
                            (UnexpectedLogId (log_id (head sth)) want)) (\<lambda>_.
    rbind (guard_err (ip_tree_size pf \<noteq> th_size (head sth))
            (SizeMismatch (ip_tree_size pf) (th_size (head sth)))) (\<lambda>_.
    rbind (ok_or InclusionPathInvalid (decode32 J (root_hex (head sth)))) (\<lambda>root_bytes.
    rbind (guard_err (\<not> InclusionProof_verify P J pf root_bytes expected_entry)
            InclusionPathInvalid) (\<lambda>_.
    case cosigs of
      None \<Rightarrow> Inr ()
    | Some (keyset, cs) \<Rightarrow>
        let got = count_valid P keyset sth cs
        in guard_err (got < threshold keyset) (InsufficientWitnesses got (threshold keyset)))))))"

section \<open>Lemmas\<close>

lemma TreeHead_canonical_inject:
  "json_law J \<Longrightarrow> TreeHead_canonical_bytes J h = TreeHead_canonical_bytes J h' \<longleftrightarrow> h = h'"
  by (auto simp: json_law_def TreeHead_canonical_bytes_def dest!: spec)

lemma sign_verify_sth [simp]:
  "ed25519_law P \<Longrightarrow> SignedTreeHead_verify P J (SignedTreeHead_sign P J h key)"
  by (simp add: ed25519_law_def SignedTreeHead_verify_def SignedTreeHead_sign_def Let_def)

lemma cosign_verify [simp]:
  "ed25519_law P \<Longrightarrow> WitnessCosignature_verify P (WitnessCosignature_cosign P sth key) sth"
  by (simp add: ed25519_law_def WitnessCosignature_verify_def WitnessCosignature_cosign_def)

lemma counted_set:
  "fold (\<lambda>c counted.
        if witness_pk c \<notin> set (witnesses ks) then counted
        else if WitnessCosignature_verify P c sth then insert (witness_pk c) counted
        else counted) cosigs S =
   S \<union> {pk \<in> set (witnesses ks).
     \<exists>c \<in> set cosigs. witness_pk c = pk \<and> WitnessCosignature_verify P c sth}"
  by (induction cosigs arbitrary: S) auto

lemma count_valid_eq:
  "count_valid P ks sth cosigs = card {pk \<in> set (witnesses ks).
     \<exists>c \<in> set cosigs. witness_pk c = pk \<and> WitnessCosignature_verify P c sth}"
  by (simp add: count_valid_def counted_set)

lemma audit_ok_iff:
  "verify_inclusion_against_head P J sth pf e cosigs lid = Inr () \<longleftrightarrow>
    SignedTreeHead_verify P J sth \<and>
    (\<forall>want. lid = Some want \<longrightarrow> log_id (head sth) = want) \<and>
    ip_tree_size pf = th_size (head sth) \<and>
    (\<exists>root. decode32 J (root_hex (head sth)) = Some root \<and> InclusionProof_verify P J pf root e) \<and>
    (\<forall>ks cs. cosigs = Some (ks, cs) \<longrightarrow> satisfies P ks sth cs)"
  by (auto simp: verify_inclusion_against_head_def result_simps satisfies_def Let_def not_less
      split: option.splits)

section \<open>Properties\<close>

text \<open>
  C14. What an accepted audit establishes.  If the auditor accepts an entry under
  a head whose root is the Merkle root of a log, then the head carries a valid
  signature of the bundled logger key, its log identifier is the pinned one,
  the entry is in the log, and at least \<open>threshold\<close> distinct trusted witness
  keys have validly cosigned that head (unless SHA-256 collides on the strings
  hashed).
\<close>

theorem audit_accept_sound:
  assumes "sha2_law P" "hex_law J" "json_law J"
    and "root_hex (head sth) = hex_encode J (merkle_root P J es)"
    and "inj_on (sha256 P) (set (root_inputs P J es) \<union> set (proof_inputs P J pf e))"
    and "verify_inclusion_against_head P J sth pf e (Some (ks, cosigs)) (Some want) = Inr ()"
  shows "e \<in> set es \<and> SignedTreeHead_verify P J sth \<and> log_id (head sth) = want \<and>
    threshold ks \<le> card {pk \<in> set (witnesses ks).
      \<exists>c \<in> set cosigs. witness_pk c = pk \<and> WitnessCosignature_verify P c sth}"
proof -
  note ok = assms(6) [unfolded audit_ok_iff]
  have "InclusionProof_verify P J pf (merkle_root P J es) e"
    using ok assms(1,2,4) by auto
  then have "e \<in> set es" using verify_sound [OF assms(1,3,5)] by blast
  then show ?thesis using ok by (simp add: satisfies_def count_valid_eq)
qed

definition sample_sth :: SignedTreeHead where
  "sample_sth = SignedTreeHead_sign model_prims model_codecs
    \<lparr>th_size = 2, root_hex = hex_encode model_codecs (merkle_root model_prims model_codecs sample_log),
     issued_at_unix = 9, log_id = ''log''\<rparr> [1]"

definition sample_keyset :: WitnessKeyset where
  "sample_keyset = \<lparr>witnesses = [ed25519_public model_prims [2]], threshold = 1\<rparr>"

lemma sample_audit:
  "verify_inclusion_against_head model_prims model_codecs sample_sth (sample_proof sample_log 1)
    (sample_entry 1) (Some (sample_keyset, [WitnessCosignature_cosign model_prims sample_sth [2]]))
    (Some ''log'') = Inr ()"
proof -
  have "ip_tree_size (sample_proof sample_log 1) = 2"
    by (simp add: sample_proof_def InclusionProof_build_def Let_def)
  moreover have "decode32 model_codecs (root_hex (head sample_sth)) =
      Some (merkle_root model_prims model_codecs sample_log)"
    using model_hex_law model_sha2_law by (simp add: sample_sth_def SignedTreeHead_sign_def Let_def)
  moreover have "satisfies model_prims sample_keyset sample_sth
      [WitnessCosignature_cosign model_prims sample_sth [2]]"
    using cosign_verify [OF model_ed25519_law, of sample_sth "[2]"]
    by (simp add: satisfies_def count_valid_def sample_keyset_def)
      (simp add: WitnessCosignature_cosign_def)
  moreover have "SignedTreeHead_verify model_prims model_codecs sample_sth"
    using model_ed25519_law by (simp add: sample_sth_def)
  moreover have "log_id (head sample_sth) = ''log''" "th_size (head sample_sth) = 2"
    by (simp_all add: sample_sth_def SignedTreeHead_sign_def Let_def)
  ultimately show ?thesis using sample_verifies unfolding audit_ok_iff by simp
qed

theorem audit_accept_sound_witness:
  "verify_inclusion_against_head model_prims model_codecs sample_sth (sample_proof sample_log 1)
    (sample_entry 1) (Some (sample_keyset, [WitnessCosignature_cosign model_prims sample_sth [2]]))
    (Some ''log'') = Inr () \<and> sample_entry 1 \<in> set sample_log"
proof -
  have "root_hex (head sample_sth) =
      hex_encode model_codecs (merkle_root model_prims model_codecs sample_log)"
    by (simp add: sample_sth_def SignedTreeHead_sign_def Let_def)
  from audit_accept_sound [OF model_sha2_law model_hex_law model_json_law this sample_inj sample_audit]
  show ?thesis using sample_audit by blast
qed

text \<open>
  An honest log passes the audit: the head signed over the root and size of a
  log is accepted for every entry of it, with the proof \<open>build\<close> returns and
  without a witness policy.
\<close>

theorem audit_accept_complete:
  assumes "sha2_law P" "hex_law J" "ed25519_law P" "unat i < length es"
  shows "\<exists>pf. InclusionProof_build P J es i = Some pf \<and>
    verify_inclusion_against_head P J
      (SignedTreeHead_sign P J \<lparr>th_size = word_of_nat (length es),
        root_hex = hex_encode J (merkle_root P J es), issued_at_unix = t, log_id = lid\<rparr> key)
      pf (es ! unat i) None (Some lid) = Inr ()"
proof -
  obtain pf where pf: "InclusionProof_build P J es i = Some pf"
    using build_Some [OF assms(4)] by blast
  then have "ip_tree_size pf = word_of_nat (length es)"
    by (auto simp: InclusionProof_build_def Let_def split: if_splits)
  then show ?thesis using pf build_verifies [OF assms(1,2) pf] assms unfolding audit_ok_iff
    by (auto simp: SignedTreeHead_sign_def Let_def sign_verify_sth [of P J, unfolded SignedTreeHead_sign_def Let_def])
qed

theorem audit_accept_complete_witness:
  "unat (1 :: u64) < length sample_log \<and>
   (\<exists>pf. InclusionProof_build model_prims model_codecs sample_log 1 = Some pf \<and>
    verify_inclusion_against_head model_prims model_codecs
      (SignedTreeHead_sign model_prims model_codecs \<lparr>th_size = word_of_nat (length sample_log),
        root_hex = hex_encode model_codecs (merkle_root model_prims model_codecs sample_log),
        issued_at_unix = 9, log_id = ''log''\<rparr> [1])
      pf (sample_log ! unat (1 :: u64)) None (Some ''log'') = Inr ())"
  using audit_accept_complete [OF model_sha2_law model_hex_law model_ed25519_law, of 1 sample_log
      9 "''log''" "[1]"] by simp

end
