(* ===== verification/Handshake.thy ===== *)
theory Handshake
  imports Crypto
begin

text \<open>
  \<open>ullm-handshake\<close>: messages and cipher suites (\<open>messages.rs\<close>), the transcript
  (\<open>transcript.rs\<close>) and the two handshake drivers (\<open>state.rs\<close>).  The postcard
  codec is a parameter; the transcript is the string hashed so far (hashing in
  pieces is hashing the concatenation).  The signature check of the client and
  the evidence-and-signature callback of the server are function arguments, as
  in the code.  Shown: both ends derive the same keys, exactly the one
  implemented cipher suite is accepted, and how each malformed message is
  rejected.
\<close>

section \<open>messages.rs\<close>

definition ATTESTATION_NONCE_LEN :: nat where "ATTESTATION_NONCE_LEN = 32"
definition RANDOM_LEN :: nat where "RANDOM_LEN = 32"
definition REPORT_DATA_LEN :: nat where "REPORT_DATA_LEN = 64"
definition SIG_DOMAIN_BUNDLE :: bytes where
  "SIG_DOMAIN_BUNDLE = str_bytes ''ULLM-v1 bundle-sig'' @ [0]"
definition SIG_DOMAIN_HANDSHAKE :: bytes where
  "SIG_DOMAIN_HANDSHAKE = str_bytes ''ULLM-v1 handshake-sig'' @ [0]"

record PreKeyBundle =
  id_pk :: bytes
  spk_pk_x25519 :: bytes
  pq_pk_mlkem :: bytes
  pb_attestation_evidence :: bytes
  pb_signature :: bytes

definition validate_structural :: "PreKeyBundle \<Rightarrow> unit result" where
  "validate_structural b =
    (if length (pq_pk_mlkem b) \<noteq> ML_KEM_768_EK_LEN then Inl BadCipherSuite
     else if length (pb_attestation_evidence b) > MAX_ATTESTATION_EVIDENCE_LEN
     then Inl (Other (''attestation_evidence exceeds cap: ''
            @ dec (length (pb_attestation_evidence b)) @ '' > '' @ dec MAX_ATTESTATION_EVIDENCE_LEN))
     else Inr ())"

record CipherSuite =
  kem :: u16
  aead :: u8
  hash :: u8

record ClientHello =
  ch_version :: u8
  ch_client_random :: bytes
  ch_attestation_nonce :: bytes
  ch_client_x25519_pk :: bytes
  ch_client_mlkem_ct :: bytes
  ch_client_ratchet_pk :: bytes
  ch_cipher_suite :: CipherSuite

record ServerHello =
  sh_version :: u8
  sh_server_random :: bytes
  sh_server_x25519_pk :: bytes
  sh_attestation_evidence :: bytes
  sh_signature :: bytes

definition default_phase1 :: CipherSuite where
  "default_phase1 = \<lparr>kem = KemId_as_u16 X25519MlKem768, aead = AeadId_as_u8 XChaCha20Poly1305,
    hash = HashId_as_u8 Sha256\<rparr>"

definition CipherSuite_validate :: "CipherSuite \<Rightarrow> unit result" where
  "CipherSuite_validate cs =
    (if KemId_from_u16 (kem cs) = None then Inl BadCipherSuite
     else if HashId_from_u8 (hash cs) = None then Inl BadCipherSuite
     else case AeadId_from_u8 (aead cs) of
       Some XChaCha20Poly1305 \<Rightarrow>
         if HashId_from_u8 (hash cs) \<noteq> Some Sha256 then Inl BadCipherSuite else Inr ()
     | _ \<Rightarrow> Inl BadCipherSuite)"

text \<open>\<open>postcard\<close>: each direction returns the error text or the value.\<close>

record hello_codec =
  pc_encode_ch :: "ClientHello \<Rightarrow> string + bytes"
  pc_decode_ch :: "bytes \<Rightarrow> string + ClientHello"
  pc_encode_sh :: "ServerHello \<Rightarrow> string + bytes"
  pc_decode_sh :: "bytes \<Rightarrow> string + ServerHello"

definition encode_ch :: "hello_codec \<Rightarrow> ClientHello \<Rightarrow> bytes result" where
  "encode_ch M h = map_err Serde (pc_encode_ch M h)"

definition decode_ch :: "hello_codec \<Rightarrow> bytes \<Rightarrow> ClientHello result" where
  "decode_ch M b = map_err Serde (pc_decode_ch M b)"

definition encode_sh :: "hello_codec \<Rightarrow> ServerHello \<Rightarrow> bytes result" where
  "encode_sh M h = map_err Serde (pc_encode_sh M h)"

definition decode_sh :: "hello_codec \<Rightarrow> bytes \<Rightarrow> ServerHello result" where
  "decode_sh M b = map_err Serde (pc_decode_sh M b)"

section \<open>transcript.rs\<close>

type_synonym Transcript = bytes

definition Transcript_new :: Transcript where "Transcript_new = str_bytes PROTOCOL_ID"

definition Transcript_update :: "Transcript \<Rightarrow> bytes \<Rightarrow> Transcript" where
  "Transcript_update t bs = t @ bs"

definition Transcript_hash :: "'r prims \<Rightarrow> Transcript \<Rightarrow> bytes" where
  "Transcript_hash P t = sha256 P t"

section \<open>state.rs\<close>

record EstablishedKeys =
  ek_root :: RootKey
  ek_c2s_chain :: ChainKey
  ek_s2c_chain :: ChainKey
  ek_nonce_salt :: NonceSalt
  ek_transcript_hash :: bytes
  ek_report_data :: bytes
  ek_server_ratchet_pk :: bytes
  ek_client_ratchet_pk :: bytes
  ek_server_attestation_evidence :: bytes

record ClientHandshake =
  chs_transcript :: Transcript
  chs_client_random :: bytes
  chs_attestation_nonce :: bytes
  chs_hybrid :: HybridSecret
  chs_client_ratchet_sk :: bytes

definition compute_report_data :: "'r prims \<Rightarrow> bytes \<Rightarrow> bytes \<Rightarrow> HybridSecret \<Rightarrow> bytes" where
  "compute_report_data P attestation_nonce server_x25519_pk hybrid =
    sha512 P (attestation_nonce @ server_x25519_pk @ sha256 P hybrid)"

definition ClientHandshake_initiate ::
  "'r prims \<Rightarrow> hello_codec \<Rightarrow> 'r \<Rightarrow> PreKeyBundle \<Rightarrow> (ClientHandshake \<times> bytes) result \<times> 'r" where
  "ClientHandshake_initiate P M rng bundle =
    (case ml_kem_pk_from_bytes (pq_pk_mlkem bundle) of
       None \<Rightarrow> (Inl (Other ''invalid ML-KEM public key in bundle''), rng)
     | Some pq_pk \<Rightarrow>
       let spk_pk = spk_pk_x25519 bundle;
           ((mlkem_ct, client_x25519_pk, hybrid), rng) = hybrid_encap P rng pq_pk spk_pk;
           (client_random, rng) = rng_fill P RANDOM_LEN rng;
           (attestation_nonce, rng) = rng_fill P ATTESTATION_NONCE_LEN rng;
           (client_ratchet_sk, rng) = x25519_random P rng;
           client_ratchet_pk = x25519_public P client_ratchet_sk;
           hello = \<lparr>ch_version = PROTOCOL_VERSION, ch_client_random = client_random,
             ch_attestation_nonce = attestation_nonce, ch_client_x25519_pk = client_x25519_pk,
             ch_client_mlkem_ct = ml_kem_ct_bytes mlkem_ct, ch_client_ratchet_pk = client_ratchet_pk,
             ch_cipher_suite = default_phase1\<rparr>
       in (rbind (encode_ch M hello) (\<lambda>hello_bytes.
             Inr (\<lparr>chs_transcript = Transcript_update Transcript_new hello_bytes,
                   chs_client_random = client_random, chs_attestation_nonce = attestation_nonce,
                   chs_hybrid = hybrid, chs_client_ratchet_sk = client_ratchet_sk\<rparr>, hello_bytes)),
           rng))"

definition ClientHandshake_complete ::
  "'r prims \<Rightarrow> hello_codec \<Rightarrow> ClientHandshake \<Rightarrow> bytes \<Rightarrow> (bytes \<Rightarrow> bytes \<Rightarrow> unit result)
   \<Rightarrow> EstablishedKeys result" where
  "ClientHandshake_complete P M self server_hello_bytes verify_signature =
    rbind (decode_sh M server_hello_bytes) (\<lambda>server_hello.
    if sh_version server_hello \<noteq> PROTOCOL_VERSION
    then Inl (BadVersion (sh_version server_hello) PROTOCOL_VERSION)
    else let pre_sig_hash = Transcript_hash P (chs_transcript self) in
    rbind (verify_signature pre_sig_hash (sh_signature server_hello)) (\<lambda>_.
      let transcript = Transcript_update (chs_transcript self) server_hello_bytes;
          transcript_hash = Transcript_hash P transcript;
          root = derive_root P transcript_hash (chs_hybrid self);
          keys = derive_initial_keys P root;
          report_data = compute_report_data P (chs_attestation_nonce self)
            (sh_server_x25519_pk server_hello) (chs_hybrid self)
      in Inr \<lparr>ek_root = root, ek_c2s_chain = ik_c2s_chain keys, ek_s2c_chain = ik_s2c_chain keys,
              ek_nonce_salt = ik_nonce_salt keys, ek_transcript_hash = transcript_hash,
              ek_report_data = report_data,
              ek_server_ratchet_pk = sh_server_x25519_pk server_hello,
              ek_client_ratchet_pk = x25519_public P (chs_client_ratchet_sk self),
              ek_server_attestation_evidence = sh_attestation_evidence server_hello\<rparr>))"

record ServerHandshake =
  spk_sk_x25519 :: bytes
  pq_sk_mlkem :: bytes

definition ServerHandshake_respond ::
  "'r prims \<Rightarrow> hello_codec \<Rightarrow> ServerHandshake \<Rightarrow> 'r \<Rightarrow> bytes \<Rightarrow> bytes
   \<Rightarrow> (bytes \<Rightarrow> bytes \<Rightarrow> (bytes \<times> bytes) result) \<Rightarrow> (bytes \<times> EstablishedKeys) result \<times> 'r" where
  "ServerHandshake_respond P M self rng client_hello_bytes ratchet_sk make_evidence_and_sig =
    (let pre =
      rbind (decode_ch M client_hello_bytes) (\<lambda>client_hello.
      if ch_version client_hello \<noteq> PROTOCOL_VERSION
      then Inl (BadVersion (ch_version client_hello) PROTOCOL_VERSION)
      else rbind (CipherSuite_validate (ch_cipher_suite client_hello)) (\<lambda>_.
      rbind (ok_or (Other ''invalid ML-KEM ciphertext in client hello'')
              (ml_kem_ct_from_bytes (ch_client_mlkem_ct client_hello))) (\<lambda>mlkem_ct.
      rbind (map_err (\<lambda>_. Other ''ml-kem decap failed'')
              (hybrid_decap P (pq_sk_mlkem self) (spk_sk_x25519 self) mlkem_ct
                (ch_client_x25519_pk client_hello))) (\<lambda>hybrid.
      let server_ratchet_pk = x25519_public P ratchet_sk;
          report_data = compute_report_data P (ch_attestation_nonce client_hello)
            server_ratchet_pk hybrid;
          transcript = Transcript_update Transcript_new client_hello_bytes
      in rbind (make_evidence_and_sig report_data (Transcript_hash P transcript))
           (\<lambda>(evidence, signature).
              Inr (client_hello, hybrid, report_data, transcript, evidence, signature))))))
     in case pre of
       Inl e \<Rightarrow> (Inl e, rng)
     | Inr (client_hello, hybrid, report_data, transcript, evidence, signature) \<Rightarrow>
       let (server_random, rng) = rng_fill P RANDOM_LEN rng;
           server_ratchet_pk = x25519_public P ratchet_sk;
           server_hello = \<lparr>sh_version = PROTOCOL_VERSION, sh_server_random = server_random,
             sh_server_x25519_pk = server_ratchet_pk, sh_attestation_evidence = evidence,
             sh_signature = signature\<rparr>
       in (rbind (encode_sh M server_hello) (\<lambda>server_hello_bytes.
             let transcript = Transcript_update transcript server_hello_bytes;
                 transcript_hash = Transcript_hash P transcript;
                 root = derive_root P transcript_hash hybrid;
                 keys = derive_initial_keys P root
             in Inr (server_hello_bytes,
                 \<lparr>ek_root = root, ek_c2s_chain = ik_c2s_chain keys, ek_s2c_chain = ik_s2c_chain keys,
                  ek_nonce_salt = ik_nonce_salt keys, ek_transcript_hash = transcript_hash,
                  ek_report_data = report_data, ek_server_ratchet_pk = server_ratchet_pk,
                  ek_client_ratchet_pk = ch_client_ratchet_pk client_hello,
                  ek_server_attestation_evidence = evidence\<rparr>)),
           rng))"

section \<open>Codec laws\<close>

text \<open>Well-formed messages have arrays of their declared lengths.\<close>

definition ch_wf :: "ClientHello \<Rightarrow> bool" where
  "ch_wf h \<longleftrightarrow> length (ch_client_random h) = 32 \<and> length (ch_attestation_nonce h) = 32 \<and>
    length (ch_client_x25519_pk h) = 32 \<and> length (ch_client_ratchet_pk h) = 32"

definition sh_wf :: "ServerHello \<Rightarrow> bool" where
  "sh_wf h \<longleftrightarrow> length (sh_server_random h) = 32 \<and> length (sh_server_x25519_pk h) = 32 \<and>
    length (sh_signature h) = 64"

definition hello_codec_law :: "hello_codec \<Rightarrow> bool" where
  "hello_codec_law M \<longleftrightarrow>
    (\<forall>h. ch_wf h \<longrightarrow> (\<exists>b. pc_encode_ch M h = Inr b \<and> pc_decode_ch M b = Inr h)) \<and>
    (\<forall>h. sh_wf h \<longrightarrow> (\<exists>b. pc_encode_sh M h = Inr b \<and> pc_decode_sh M b = Inr h))"

lemma hello_codec_ch:
  "hello_codec_law M \<Longrightarrow> ch_wf h \<Longrightarrow> \<exists>b. encode_ch M h = Inr b \<and> decode_ch M b = Inr h"
  by (auto simp: hello_codec_law_def encode_ch_def decode_ch_def map_err_eq_Inr)

lemma hello_codec_sh:
  "hello_codec_law M \<Longrightarrow> sh_wf h \<Longrightarrow> \<exists>b. encode_sh M h = Inr b \<and> decode_sh M b = Inr h"
  by (auto simp: hello_codec_law_def encode_sh_def decode_sh_def map_err_eq_Inr)

lemma CipherSuite_validate_iff: "CipherSuite_validate cs = Inr () \<longleftrightarrow> cs = default_phase1"
  by (auto simp: CipherSuite_validate_def default_phase1_def KemId_from_u16_def HashId_from_u8_def
      AeadId_from_u8_def intro!: CipherSuite.equality split: if_splits)

section \<open>The two ends agree\<close>

lemma rng_fill_length: "rng_law P \<Longrightarrow> rng_fill P n r = (b, r') \<Longrightarrow> length b = n"
  by (metis rng_law_def fst_conv)

text \<open>What an initiated handshake sent and kept.\<close>

lemma initiate_Inr:
  assumes laws: "x25519_law P" "rng_law P" "hello_codec_law M"
    and init: "ClientHandshake_initiate P M rng b = (Inr (ch, hello), rng')"
  obtains ct cpk h where
    "length (pq_pk_mlkem b) = ML_KEM_768_EK_LEN"
    "\<exists>rng1. hybrid_encap P rng (pq_pk_mlkem b) (spk_pk_x25519 b) = ((ct, cpk, chs_hybrid ch), rng1)"
    "decode_ch M hello = Inr h" "ch_version h = PROTOCOL_VERSION" "ch_cipher_suite h = default_phase1"
    "ch_client_mlkem_ct h = ct" "ch_client_x25519_pk h = cpk"
    "ch_attestation_nonce h = chs_attestation_nonce ch"
    "ch_client_ratchet_pk h = x25519_public P (chs_client_ratchet_sk ch)"
    "chs_transcript ch = Transcript_update Transcript_new hello"
proof -
  have len: "length (pq_pk_mlkem b) = ML_KEM_768_EK_LEN"
    using init by (auto simp: ClientHandshake_initiate_def ml_kem_pk_from_bytes_def split: if_splits)
  obtain ct cpk hy r1 where e: "hybrid_encap P rng (pq_pk_mlkem b) (spk_pk_x25519 b) = ((ct, cpk, hy), r1)"
    by (metis surj_pair)
  obtain cr r2 where f1: "rng_fill P RANDOM_LEN r1 = (cr, r2)" by fastforce
  obtain an r3 where f2: "rng_fill P ATTESTATION_NONCE_LEN r2 = (an, r3)" by fastforce
  obtain rsk r4 where f3: "x25519_random P r3 = (rsk, r4)" by fastforce
  define h where "h = \<lparr>ch_version = PROTOCOL_VERSION, ch_client_random = cr,
    ch_attestation_nonce = an, ch_client_x25519_pk = cpk, ch_client_mlkem_ct = ct,
    ch_client_ratchet_pk = x25519_public P rsk, ch_cipher_suite = default_phase1\<rparr>"
  have "length cpk = 32"
    using e laws(1) by (auto simp: hybrid_encap_def x25519_law_def Let_def split: prod.splits)
  moreover have "length cr = 32" "length an = 32"
    using rng_fill_length [OF laws(2) f1] rng_fill_length [OF laws(2) f2]
    by (simp_all add: RANDOM_LEN_def ATTESTATION_NONCE_LEN_def)
  ultimately have "ch_wf h" using laws(1) by (simp add: h_def ch_wf_def x25519_law_def)
  then obtain hb where hb: "encode_ch M h = Inr hb" "decode_ch M hb = Inr h"
    using hello_codec_ch [OF laws(3)] by blast
  have "ch = \<lparr>chs_transcript = Transcript_update Transcript_new hb, chs_client_random = cr,
      chs_attestation_nonce = an, chs_hybrid = hy, chs_client_ratchet_sk = rsk\<rparr>" "hello = hb"
    using init hb e f1 f2 f3 len
    by (auto simp: ClientHandshake_initiate_def ml_kem_pk_from_bytes_def ml_kem_ct_bytes_def
        simp flip: h_def)
  then show thesis using len e hb by (intro that [of ct cpk h]) (simp_all add: h_def)
qed

lemma honest_handshake:
  assumes laws: "x25519_law P" "mlkem_law P" "rng_law P" "hello_codec_law M"
    and keys: "mlkem_pair P (pq_sk_mlkem srv) (pq_pk_mlkem b)"
      "spk_pk_x25519 b = x25519_public P (spk_sk_x25519 srv)"
    and init: "ClientHandshake_initiate P M rng b = (Inr (ch, hello), rng')"
    and mk: "\<forall>rd th. \<exists>ev sig. mk rd th = Inr (ev, sig) \<and> length sig = 64"
  shows "\<exists>sh ek ev sig. fst (ServerHandshake_respond P M srv rs hello rsk mk) = Inr (sh, ek) \<and>
    mk (ek_report_data ek) (Transcript_hash P (chs_transcript ch)) = Inr (ev, sig) \<and>
    ek_server_attestation_evidence ek = ev \<and>
    (\<forall>verify. ClientHandshake_complete P M ch sh verify =
      rbind (verify (Transcript_hash P (chs_transcript ch)) sig) (\<lambda>_. Inr ek))"
proof -
  obtain ct cpk h where h:
    "\<exists>rng1. hybrid_encap P rng (pq_pk_mlkem b) (spk_pk_x25519 b) = ((ct, cpk, chs_hybrid ch), rng1)"
    "decode_ch M hello = Inr h" "ch_version h = PROTOCOL_VERSION" "ch_cipher_suite h = default_phase1"
    "ch_client_mlkem_ct h = ct" "ch_client_x25519_pk h = cpk"
    "ch_attestation_nonce h = chs_attestation_nonce ch"
    "ch_client_ratchet_pk h = x25519_public P (chs_client_ratchet_sk ch)"
    "chs_transcript ch = Transcript_update Transcript_new hello"
    using initiate_Inr [OF laws(1,3,4) init] by metis
  from h(1) obtain rng1 where enc: "hybrid_encap P rng (pq_pk_mlkem b)
      (x25519_public P (spk_sk_x25519 srv)) = ((ct, cpk, chs_hybrid ch), rng1)"
    using keys(2) by auto
  note agree = hybrid_agree [OF laws(1,2) keys(1) enc]
  let ?spk = "x25519_public P rsk"
  let ?rd = "compute_report_data P (chs_attestation_nonce ch) ?spk (chs_hybrid ch)"
  let ?th = "Transcript_hash P (Transcript_update Transcript_new hello)"
  obtain ev sig where ev: "mk ?rd ?th = Inr (ev, sig)" "length sig = 64" using mk by blast
  obtain sr rs' where sr: "rng_fill P RANDOM_LEN rs = (sr, rs')" by fastforce
  define m where "m = \<lparr>sh_version = PROTOCOL_VERSION, sh_server_random = sr,
    sh_server_x25519_pk = ?spk, sh_attestation_evidence = ev, sh_signature = sig\<rparr>"
  have "sh_wf m" using ev(2) rng_fill_length [OF laws(3) sr] laws(1)
    by (simp add: m_def sh_wf_def RANDOM_LEN_def x25519_law_def)
  then obtain mb where mb: "encode_sh M m = Inr mb" "decode_sh M mb = Inr m"
    using hello_codec_sh [OF laws(4)] by blast
  have val: "CipherSuite_validate default_phase1 = Inr ()" by (simp add: CipherSuite_validate_iff)
  show ?thesis
    using h agree ev sr mb val
    by (simp add: ServerHandshake_respond_def ClientHandshake_complete_def ml_kem_ct_from_bytes_def
        Let_def flip: m_def) (simp add: m_def)
qed

section \<open>Properties\<close>

text \<open>A concrete codec for the witnesses: the fixed-size fields, then the vector.\<close>

definition suite_bytes :: "CipherSuite \<Rightarrow> bytes" where
  "suite_bytes cs = u16_to_be (kem cs) @ [aead cs, hash cs]"

definition model_hello_codec :: hello_codec where
  "model_hello_codec = \<lparr>
    pc_encode_ch = (\<lambda>h. Inr (ch_version h # ch_client_random h @ ch_attestation_nonce h
      @ ch_client_x25519_pk h @ ch_client_ratchet_pk h @ suite_bytes (ch_cipher_suite h)
      @ ch_client_mlkem_ct h)),
    pc_decode_ch = (\<lambda>b. if length b < 133 then Inl ''short'' else Inr
      \<lparr>ch_version = b ! 0, ch_client_random = take 32 (drop 1 b),
       ch_attestation_nonce = take 32 (drop 33 b), ch_client_x25519_pk = take 32 (drop 65 b),
       ch_client_mlkem_ct = drop 133 b, ch_client_ratchet_pk = take 32 (drop 97 b),
       ch_cipher_suite = \<lparr>kem = u16_from_be (take 2 (drop 129 b)), aead = b ! 131, hash = b ! 132\<rparr>\<rparr>),
    pc_encode_sh = (\<lambda>h. Inr (sh_version h # sh_server_random h @ sh_server_x25519_pk h
      @ sh_signature h @ sh_attestation_evidence h)),
    pc_decode_sh = (\<lambda>b. if length b < 129 then Inl ''short'' else Inr
      \<lparr>sh_version = b ! 0, sh_server_random = take 32 (drop 1 b),
       sh_server_x25519_pk = take 32 (drop 33 b), sh_attestation_evidence = drop 129 b,
       sh_signature = take 64 (drop 65 b)\<rparr>)\<rparr>"

lemma model_hello_codec_law: "hello_codec_law model_hello_codec"
  by (auto simp: hello_codec_law_def model_hello_codec_def ch_wf_def sh_wf_def suite_bytes_def
      nth_append)

text \<open>
  C15. Key agreement.  A client that initiates against a bundle and a server that
  holds the bundle's secret keys end with the same established keys: the server
  accepts the hello, and on the server's answer the client either reports what
  its signature check reports or returns exactly the server's root, chain keys,
  nonce salt, transcript hash, report data, ratchet keys and evidence.
\<close>

theorem handshake_agreement:
  assumes "x25519_law P" "mlkem_law P" "rng_law P" "hello_codec_law M"
    and "mlkem_pair P (pq_sk_mlkem srv) (pq_pk_mlkem b)"
    and "spk_pk_x25519 b = x25519_public P (spk_sk_x25519 srv)"
    and "ClientHandshake_initiate P M rng b = (Inr (ch, hello), rng')"
    and "\<forall>rd th. \<exists>ev sig. mk rd th = Inr (ev, sig) \<and> length sig = 64"
  shows "\<exists>sh ek ev sig. fst (ServerHandshake_respond P M srv rs hello rsk mk) = Inr (sh, ek) \<and>
    mk (ek_report_data ek) (Transcript_hash P (chs_transcript ch)) = Inr (ev, sig) \<and>
    (\<forall>verify. ClientHandshake_complete P M ch sh verify =
      rbind (verify (Transcript_hash P (chs_transcript ch)) sig) (\<lambda>_. Inr ek))"
  using honest_handshake [OF assms] by blast

lemma sample_initiate:
  "\<exists>ch hello r. ClientHandshake_initiate model_prims model_hello_codec 5
    \<lparr>id_pk = replicate 32 0, spk_pk_x25519 = x25519_public model_prims [3],
     pq_pk_mlkem = replicate 1184 7, pb_attestation_evidence = [], pb_signature = replicate 64 0\<rparr>
    = (Inr (ch, hello), r)"
  by (simp add: ClientHandshake_initiate_def ml_kem_pk_from_bytes_def ML_KEM_768_EK_LEN_def
      encode_ch_def model_hello_codec_def hybrid_encap_def Let_def split: prod.splits)

theorem handshake_agreement_witness:
  "\<exists>ch hello sh ek. fst (ClientHandshake_initiate model_prims model_hello_codec 5
      \<lparr>id_pk = replicate 32 0, spk_pk_x25519 = x25519_public model_prims [3],
       pq_pk_mlkem = replicate 1184 7, pb_attestation_evidence = [], pb_signature = replicate 64 0\<rparr>)
      = Inr (ch, hello) \<and>
    fst (ServerHandshake_respond model_prims model_hello_codec
      \<lparr>spk_sk_x25519 = [3], pq_sk_mlkem = replicate 64 7\<rparr> 9 hello [4]
      (\<lambda>rd th. Inr ([1], replicate 64 2))) = Inr (sh, ek) \<and>
    ClientHandshake_complete model_prims model_hello_codec ch sh (\<lambda>h s. Inr ()) = Inr ek"
proof -
  let ?b = "\<lparr>id_pk = replicate 32 0, spk_pk_x25519 = x25519_public model_prims [3],
       pq_pk_mlkem = replicate 1184 7, pb_attestation_evidence = [], pb_signature = replicate 64 0\<rparr>"
  let ?srv = "\<lparr>spk_sk_x25519 = [3], pq_sk_mlkem = replicate 64 7\<rparr>"
  obtain ch hello r where init: "ClientHandshake_initiate model_prims model_hello_codec 5 ?b
      = (Inr (ch, hello), r)" using sample_initiate by blast
  have pair: "mlkem_pair model_prims (pq_sk_mlkem ?srv) (pq_pk_mlkem ?b)"
    using model_mlkem_pair [of 7] by simp
  have spk: "spk_pk_x25519 ?b = x25519_public model_prims (spk_sk_x25519 ?srv)" by simp
  let ?mk = "\<lambda>rd th. Inr ([1], replicate 64 2) :: (bytes \<times> bytes) result"
  have "\<forall>rd th. \<exists>ev sig. ?mk rd th = Inr (ev, sig) \<and> length sig = 64" by simp
  from handshake_agreement [where mk = ?mk, OF model_x25519_law model_mlkem_law model_rng_law
      model_hello_codec_law pair spk init this, of 9 "[4]"]
  obtain sh ek sig where
    "fst (ServerHandshake_respond model_prims model_hello_codec ?srv 9 hello [4] ?mk) = Inr (sh, ek)"
    "\<forall>verify. ClientHandshake_complete model_prims model_hello_codec ch sh verify =
      rbind (verify (Transcript_hash model_prims (chs_transcript ch)) sig) (\<lambda>_. Inr ek)"
    by blast
  then show ?thesis using init by fastforce
qed

text \<open>
  Cipher-suite downgrade is refused: of all \<open>2 ^ 32\<close> encodable suites
  exactly the default one (X25519 + ML-KEM-768, XChaCha20-Poly1305, SHA-256)
  validates; every other one is \<open>BadCipherSuite\<close>.
\<close>

theorem cipher_suite_no_downgrade:
  "CipherSuite_validate cs = (if cs = default_phase1 then Inr () else Inl BadCipherSuite)"
proof (cases "cs = default_phase1")
  case True
  then show ?thesis by (simp add: CipherSuite_validate_iff)
next
  case False
  then have "CipherSuite_validate cs \<noteq> Inr ()" by (simp add: CipherSuite_validate_iff)
  then show ?thesis using False
    by (auto simp: CipherSuite_validate_def split: option.splits AeadId.splits if_splits)
qed

end
