(* ===== verification/Tee_Identity.thy ===== *)
theory Tee_Identity
  imports Attest Handshake
begin

text \<open>
  The two ends of a pre-key bundle: \<open>ullm-tee/identity.rs\<close>, which builds it, and
  \<open>ullm-client/attest_check.rs\<close>, which checks it.  Shown: what exactly the client
  accepts, and that a bundle of an identity is accepted for the nonce and the
  weight commitment it was built for and for no others, unless SHA-512 collides.
\<close>

section \<open>identity.rs\<close>

record TeeIdentity =
  id_sk :: bytes
  tee_spk_sk_x25519 :: bytes
  tee_spk_pk_x25519 :: bytes
  tee_pq_sk_mlkem :: bytes
  tee_pq_pk_mlkem :: bytes
  attest_issuer :: MockIssuer
  tee_weight_commit :: bytes

definition TeeIdentity_random :: "'r prims \<Rightarrow> 'r \<Rightarrow> bytes \<Rightarrow> TeeIdentity \<times> 'r" where
  "TeeIdentity_random P rng weight_commit =
    (let (sk, rng) = rng_fill P 32 rng;
         (spk_sk, rng) = x25519_random P rng;
         spk_pk = x25519_public P spk_sk;
         ((pq_sk, pq_pk), rng) = ml_kem_keypair P rng;
         (issuer, rng) = MockIssuer_random P rng
     in (\<lparr>id_sk = sk, tee_spk_sk_x25519 = spk_sk, tee_spk_pk_x25519 = spk_pk,
          tee_pq_sk_mlkem = pq_sk, tee_pq_pk_mlkem = pq_pk, attest_issuer = issuer,
          tee_weight_commit = weight_commit\<rparr>, rng))"

definition TeeIdentity_id_pk :: "'r prims \<Rightarrow> TeeIdentity \<Rightarrow> bytes" where
  "TeeIdentity_id_pk P self = ed25519_public P (id_sk self)"

definition bundle_payload :: "bytes \<Rightarrow> bytes \<Rightarrow> bytes \<Rightarrow> bytes \<Rightarrow> bytes \<Rightarrow> bytes" where
  "bundle_payload idk spk_pk pq_pk nonce weight_commit =
    str_bytes ''ULLM-v1 bundle-attest'' @ idk @ spk_pk @ pq_pk @ nonce @ weight_commit"

definition bundle_report_data ::
  "'r prims \<Rightarrow> bytes \<Rightarrow> bytes \<Rightarrow> bytes \<Rightarrow> bytes \<Rightarrow> bytes \<Rightarrow> bytes" where
  "bundle_report_data P idk spk_pk pq_pk nonce weight_commit =
    sha512 P (bundle_payload idk spk_pk pq_pk nonce weight_commit)"

text \<open>The \<open>expect\<close> on the encoder is a panic, \<open>None\<close>.\<close>

definition build_bundle ::
  "'r prims \<Rightarrow> evidence_codec \<Rightarrow> TeeIdentity \<Rightarrow> bytes \<Rightarrow> u64 \<Rightarrow> PreKeyBundle option" where
  "build_bundle P C self attestation_nonce now =
    (let pq_pk_bytes = ml_kem_pk_bytes (tee_pq_pk_mlkem self);
         id_pk_bytes = TeeIdentity_id_pk P self;
         spk_pk_bytes = tee_spk_pk_x25519 self;
         report_data = bundle_report_data P id_pk_bytes spk_pk_bytes pq_pk_bytes attestation_nonce
           (tee_weight_commit self);
         evidence = MockIssuer_issue P (attest_issuer self) report_data now
     in case encode_evidence C evidence of
       Inl _ \<Rightarrow> None
     | Inr evidence_bytes \<Rightarrow>
       let to_sign = SIG_DOMAIN_BUNDLE @ id_pk_bytes @ spk_pk_bytes @ pq_pk_bytes @ evidence_bytes;
           sig = ed25519_sign P (id_sk self) to_sign
       in Some \<lparr>id_pk = id_pk_bytes, spk_pk_x25519 = spk_pk_bytes, pq_pk_mlkem = pq_pk_bytes,
                pb_attestation_evidence = evidence_bytes, pb_signature = sig\<rparr>)"

section \<open>attest_check.rs\<close>

definition verify_bundle ::
  "'r prims \<Rightarrow> evidence_codec \<Rightarrow> PreKeyBundle \<Rightarrow> bytes \<Rightarrow> bytes \<Rightarrow> bytes \<Rightarrow> u64 \<Rightarrow> u64 \<Rightarrow> bytes result" where
  "verify_bundle P C bundle expected_nonce expected_weight_commit trust_root now max_age =
    (if \<not> ed25519_valid P (id_pk bundle) then Inl (AttestationFailed ''invalid id_pk'')
     else let to_verify = SIG_DOMAIN_BUNDLE @ id_pk bundle @ spk_pk_x25519 bundle
            @ pq_pk_mlkem bundle @ pb_attestation_evidence bundle in
     if \<not> ed25519_verify P (id_pk bundle) to_verify (pb_signature bundle)
     then Inl (AttestationFailed ''bad bundle signature'')
     else rbind (decode_evidence C (pb_attestation_evidence bundle)) (\<lambda>evidence.
       let report_data = bundle_report_data P (id_pk bundle) (spk_pk_x25519 bundle)
             (pq_pk_mlkem bundle) expected_nonce expected_weight_commit;
           ctx = \<lparr>expected_report_data = report_data, now_unix = now, max_age_sec = max_age\<rparr>
       in rbind (MockVerifier_verify P \<lparr>mv_trust_root = trust_root\<rparr> evidence ctx) (\<lambda>_.
            Inr (id_pk bundle))))"

section \<open>Lemmas\<close>

text \<open>Documented of \<open>postcard\<close>: what is encoded decodes to itself.\<close>

definition evidence_codec_law :: "evidence_codec \<Rightarrow> bool" where
  "evidence_codec_law C \<longleftrightarrow> (\<forall>ev. \<exists>b. ev_to_allocvec C ev = Inr b \<and> ev_from_bytes C b = Inr ev)"

lemma evidence_codec_lawD:
  "evidence_codec_law C \<Longrightarrow> \<exists>b. encode_evidence C ev = Inr b \<and> decode_evidence C b = Inr ev"
  unfolding evidence_codec_law_def encode_evidence_def decode_evidence_def map_err_eq_Inr by blast

lemma verify_bundle_iff:
  "verify_bundle P C b n w root now age = Inr pk \<longleftrightarrow>
    pk = id_pk b \<and> ed25519_valid P pk \<and>
    ed25519_verify P pk (SIG_DOMAIN_BUNDLE @ pk @ spk_pk_x25519 b @ pq_pk_mlkem b
      @ pb_attestation_evidence b) (pb_signature b) \<and>
    (\<exists>ev. decode_evidence C (pb_attestation_evidence b) = Inr ev \<and>
      MockVerifier_verify P \<lparr>mv_trust_root = root\<rparr> ev
        \<lparr>expected_report_data = bundle_report_data P pk (spk_pk_x25519 b) (pq_pk_mlkem b) n w,
         now_unix = now, max_age_sec = age\<rparr> = Inr ())"
  by (auto simp: verify_bundle_def Let_def rbind_eq_Inr)

lemma build_bundle_Some:
  assumes "evidence_codec_law C"
  obtains eb b where "build_bundle P C self n now = Some b"
    "id_pk b = TeeIdentity_id_pk P self" "spk_pk_x25519 b = tee_spk_pk_x25519 self"
    "pq_pk_mlkem b = tee_pq_pk_mlkem self" "pb_attestation_evidence b = eb"
    "pb_signature b = ed25519_sign P (id_sk self) (SIG_DOMAIN_BUNDLE @ TeeIdentity_id_pk P self
      @ tee_spk_pk_x25519 self @ tee_pq_pk_mlkem self @ eb)"
    "decode_evidence C eb = Inr (MockIssuer_issue P (attest_issuer self)
      (bundle_report_data P (TeeIdentity_id_pk P self) (tee_spk_pk_x25519 self)
        (tee_pq_pk_mlkem self) n (tee_weight_commit self)) now)"
proof -
  let ?ev = "MockIssuer_issue P (attest_issuer self) (bundle_report_data P (TeeIdentity_id_pk P self)
    (tee_spk_pk_x25519 self) (tee_pq_pk_mlkem self) n (tee_weight_commit self)) now"
  obtain eb where eb: "encode_evidence C ?ev = Inr eb" "decode_evidence C eb = Inr ?ev"
    using evidence_codec_lawD [OF assms] by blast
  have "build_bundle P C self n now = Some \<lparr>id_pk = TeeIdentity_id_pk P self,
      spk_pk_x25519 = tee_spk_pk_x25519 self, pq_pk_mlkem = tee_pq_pk_mlkem self,
      pb_attestation_evidence = eb, pb_signature = ed25519_sign P (id_sk self) (SIG_DOMAIN_BUNDLE @
        TeeIdentity_id_pk P self @ tee_spk_pk_x25519 self @ tee_pq_pk_mlkem self @ eb)\<rparr>"
    using eb(1) by (simp add: build_bundle_def ml_kem_pk_bytes_def Let_def)
  then show thesis by (rule that [OF _ _ _ _ _ _ eb(2)]) simp_all
qed

lemma bundle_verified_iff:
  assumes "ed25519_law P" "evidence_codec_law C" "build_bundle P C self n t = Some b"
  shows "verify_bundle P C b n' w' root now age = Inr pk \<longleftrightarrow>
    pk = TeeIdentity_id_pk P self \<and> root = MockIssuer_verifying_key P (attest_issuer self) \<and>
    unat now \<le> unat t + unat age \<and>
    bundle_report_data P (id_pk b) (spk_pk_x25519 b) (pq_pk_mlkem b) n (tee_weight_commit self) =
    bundle_report_data P (id_pk b) (spk_pk_x25519 b) (pq_pk_mlkem b) n' w'"
proof -
  obtain b' eb where b': "build_bundle P C self n t = Some b'"
    "id_pk b' = TeeIdentity_id_pk P self" "spk_pk_x25519 b' = tee_spk_pk_x25519 self"
    "pq_pk_mlkem b' = tee_pq_pk_mlkem self" "pb_attestation_evidence b' = eb"
    "pb_signature b' = ed25519_sign P (id_sk self) (SIG_DOMAIN_BUNDLE @ TeeIdentity_id_pk P self
      @ tee_spk_pk_x25519 self @ tee_pq_pk_mlkem self @ eb)"
    "decode_evidence C eb = Inr (MockIssuer_issue P (attest_issuer self)
      (bundle_report_data P (TeeIdentity_id_pk P self) (tee_spk_pk_x25519 self)
        (tee_pq_pk_mlkem self) n (tee_weight_commit self)) t)"
    by (rule build_bundle_Some [OF assms(2)])
  have "b' = b" using b'(1) assms(3) by simp
  moreover have "ed25519_valid P (TeeIdentity_id_pk P self)"
    "ed25519_verify P (TeeIdentity_id_pk P self) m (ed25519_sign P (id_sk self) m)" for m
    using assms(1) by (simp_all add: ed25519_law_def TeeIdentity_id_pk_def)
  ultimately show ?thesis
    using b'(2-7) by (auto simp: verify_bundle_iff MockIssuer_issue_accepted [OF assms(1)])
qed

section \<open>A concrete evidence codec\<close>

text \<open>Byte strings with a mark before each byte, and lists of them.\<close>

fun put_bytes :: "bytes \<Rightarrow> bytes" where
  "put_bytes [] = [0]"
| "put_bytes (b # bs) = 1 # b # put_bytes bs"

fun get_bytes :: "bytes \<Rightarrow> (bytes \<times> bytes) option" where
  "get_bytes [] = None"
| "get_bytes (t # r) =
    (if t = 0 then Some ([], r)
     else case r of
       [] \<Rightarrow> None
     | b # r \<Rightarrow> map_option (\<lambda>(bs, r). (b # bs, r)) (get_bytes r))"

fun put_list :: "bytes list \<Rightarrow> bytes" where
  "put_list [] = [0]"
| "put_list (x # xs) = 1 # put_bytes x @ put_list xs"

fun get_list :: "nat \<Rightarrow> bytes \<Rightarrow> bytes list option" where
  "get_list 0 r = None"
| "get_list (Suc n) r =
    (case r of
       [] \<Rightarrow> None
     | t # r \<Rightarrow> if t = 0 then Some []
         else case get_bytes r of
           None \<Rightarrow> None
         | Some (x, r) \<Rightarrow> map_option (\<lambda>xs. x # xs) (get_list n r))"

lemma get_put_bytes [simp]: "get_bytes (put_bytes x @ r) = Some (x, r)"
  by (induction x) auto

lemma get_put_list: "length xs < n \<Longrightarrow> get_list n (put_list xs) = Some xs"
proof (induction xs arbitrary: n)
  case Nil
  then show ?case by (cases n) auto
next
  case (Cons x xs)
  then show ?case by (cases n) auto
qed

lemma length_put_list: "length xs < length (put_list xs)"
  by (induction xs) auto

fun kind_byte :: "QuoteKind \<Rightarrow> u8" where
  "kind_byte QK_Tdx = 0"
| "kind_byte QK_Snp = 1"
| "kind_byte QK_Mock = 2"

definition model_evidence_codec :: evidence_codec where
  "model_evidence_codec = \<lparr>
    ev_to_allocvec = (\<lambda>ev. Inr (kind_byte (cpu_quote_kind ev) # u64_to_be (issued_at_unix ev)
      @ put_bytes (cpu_quote ev) @ put_bytes (gpu_quote ev) @ put_bytes (ev_report_data ev)
      @ put_list (cert_chain ev))),
    ev_from_bytes = (\<lambda>b. if length b < 9 then Inl ''short'' else
      case get_bytes (drop 9 b) of
        None \<Rightarrow> Inl ''cpu_quote''
      | Some (q, r) \<Rightarrow>
      (case get_bytes r of
         None \<Rightarrow> Inl ''gpu_quote''
       | Some (g, r) \<Rightarrow>
       (case get_bytes r of
          None \<Rightarrow> Inl ''report_data''
        | Some (d, r) \<Rightarrow>
        (case get_list (length r) r of
           None \<Rightarrow> Inl ''cert_chain''
         | Some c \<Rightarrow> Inr \<lparr>cpu_quote_kind = (if b ! 0 = 0 then QK_Tdx else if b ! 0 = 1 then QK_Snp else QK_Mock),
             cpu_quote = q, gpu_quote = g, cert_chain = c, ev_report_data = d,
             issued_at_unix = u64_from_be (take 8 (drop 1 b))\<rparr>))))\<rparr>"

lemma model_evidence_codec_law: "evidence_codec_law model_evidence_codec"
  unfolding evidence_codec_law_def
proof
  fix ev
  show "\<exists>b. ev_to_allocvec model_evidence_codec ev = Inr b \<and> ev_from_bytes model_evidence_codec b = Inr ev"
    by (cases "cpu_quote_kind ev")
      (auto simp: model_evidence_codec_def get_put_list [OF length_put_list] intro!: Evidence.equality)
qed

section \<open>Property\<close>

text \<open>
  C29. Pre-key bundles.  The client accepts a bundle that an identity built for
  nonce \<open>n\<close> at time \<open>t\<close> when it asks for the same nonce and the identity's weight
  commitment, trusts the identity's attestation key and the bundle is not older
  than allowed; it returns the identity's key.  When it accepts such a bundle,
  then under the same root and age conditions, and for another nonce or weight
  commitment only if two distinct payloads have the same SHA-512.
\<close>

theorem bundle_binds_nonce_and_weights:
  assumes "ed25519_law P" "evidence_codec_law C"
    and "build_bundle P C self n t = Some b"
    and "length n' = length n"
  defines "pay \<equiv> \<lambda>n w. bundle_payload (id_pk b) (spk_pk_x25519 b) (pq_pk_mlkem b) n w"
  shows "(root = MockIssuer_verifying_key P (attest_issuer self) \<and> unat now \<le> unat t + unat age \<longrightarrow>
      verify_bundle P C b n (tee_weight_commit self) root now age = Inr (TeeIdentity_id_pk P self)) \<and>
    (verify_bundle P C b n' w' root now age = Inr pk \<longrightarrow>
      pk = TeeIdentity_id_pk P self \<and> root = MockIssuer_verifying_key P (attest_issuer self) \<and>
      unat now \<le> unat t + unat age \<and>
      (n' = n \<and> w' = tee_weight_commit self \<or>
       pay n' w' \<noteq> pay n (tee_weight_commit self) \<and>
       sha512 P (pay n' w') = sha512 P (pay n (tee_weight_commit self))))"
proof -
  have "pay n' w' = pay n (tee_weight_commit self) \<Longrightarrow> n' = n \<and> w' = tee_weight_commit self"
    using assms(4) by (simp add: pay_def bundle_payload_def)
  then show ?thesis
    unfolding bundle_verified_iff [OF assms(1-3)] by (auto simp: bundle_report_data_def pay_def)
qed

definition sample_identity :: TeeIdentity where
  "sample_identity = fst (TeeIdentity_random model_prims 3 (replicate 32 9))"

theorem bundle_binds_nonce_and_weights_witness:
  "\<exists>b. build_bundle model_prims model_evidence_codec sample_identity (replicate 32 5) 100 = Some b \<and>
    verify_bundle model_prims model_evidence_codec b (replicate 32 5) (replicate 32 9)
      (MockIssuer_verifying_key model_prims (attest_issuer sample_identity)) 130 60 =
    Inr (TeeIdentity_id_pk model_prims sample_identity)"
proof -
  obtain b eb where b: "build_bundle model_prims model_evidence_codec sample_identity (replicate 32 5) 100 = Some b"
    by (rule build_bundle_Some [OF model_evidence_codec_law])
  moreover have "tee_weight_commit sample_identity = replicate 32 9"
    by (simp add: sample_identity_def TeeIdentity_random_def split: prod.split)
  moreover have "unat (130 :: u64) \<le> unat (100 :: u64) + unat (60 :: u64)" by simp
  ultimately show ?thesis
    using bundle_binds_nonce_and_weights [OF model_ed25519_law model_evidence_codec_law b refl] by metis
qed

end
