(* ===== verification/Receipts.thy ===== *)
theory Receipts
  imports Codecs
begin

text \<open>
  \<open>ullm-receipts\<close>: usage receipts, their structural check, signing and
  verification.  The canonical bytes are those of the \<open>postcard\<close> crate, a
  parameter.  Shown: exactly the structurally valid receipts are signed, what is
  signed verifies under the signer's key, and what verifies is structurally
  valid and carries a valid signature of its canonical bytes.
\<close>

section \<open>lib.rs\<close>

record Receipt =
  r_tenant :: TenantId
  r_session :: SessionId
  r_model :: string
  input_tokens :: u32
  output_tokens :: u32
  r_epoch :: u32
  r_issued_at_unix :: u64
  kv_blocks_cloaked :: u32
  output_digest_hex :: string
  output_string_digest_hex :: string
  weight_commit_hex :: string
  activation_commits_hex :: "string list"

definition is_ascii_hexdigit :: "char \<Rightarrow> bool" where
  "is_ascii_hexdigit c \<longleftrightarrow>
    (let v = (of_char c :: nat)
     in 48 \<le> v \<and> v \<le> 57 \<or> 97 \<le> v \<and> v \<le> 102 \<or> 65 \<le> v \<and> v \<le> 70)"

definition bad_hex32 :: "string \<Rightarrow> bool" where
  "bad_hex32 s \<longleftrightarrow> length s \<noteq> 64 \<or> \<not> list_all is_ascii_hexdigit s"

definition Receipt_validate_structural :: "Receipt \<Rightarrow> unit result" where
  "Receipt_validate_structural r =
    (if length (weight_commit_hex r) \<noteq> 64 then Inl BadReceipt
     else if \<not> list_all is_ascii_hexdigit (weight_commit_hex r) then Inl BadReceipt
     else if list_ex bad_hex32 (activation_commits_hex r) then Inl BadReceipt
     else if bad_hex32 (output_digest_hex r) then Inl BadReceipt
     else if bad_hex32 (output_string_digest_hex r) then Inl BadReceipt
     else Inr ())"

record SignedReceipt =
  sr_receipt :: Receipt
  sr_signature :: bytes

record ReceiptEnvelope =
  signed_receipt :: SignedReceipt
  zk_layer_proofs :: "bytes list"

text \<open>\<open>canonical\<close> stands for \<open>postcard::to_allocvec\<close> on receipts.\<close>

definition receipt_sign ::
  "'r prims \<Rightarrow> (Receipt \<Rightarrow> bytes) \<Rightarrow> bytes \<Rightarrow> Receipt \<Rightarrow> SignedReceipt result" where
  "receipt_sign P canonical key receipt =
    rbind (Receipt_validate_structural receipt) (\<lambda>_.
      let bytes = canonical receipt; sig = ed25519_sign P key bytes
      in Inr \<lparr>sr_receipt = receipt, sr_signature = sig\<rparr>)"

definition receipt_verify ::
  "'r prims \<Rightarrow> (Receipt \<Rightarrow> bytes) \<Rightarrow> SignedReceipt \<Rightarrow> bytes \<Rightarrow> unit result" where
  "receipt_verify P canonical rec tee_pk =
    rbind (Receipt_validate_structural (sr_receipt rec)) (\<lambda>_.
      let bytes = canonical (sr_receipt rec)
      in if ed25519_verify P tee_pk bytes (sr_signature rec) then Inr () else Inl BadReceipt)"

section \<open>Lemmas\<close>

definition receipt_ok :: "Receipt \<Rightarrow> bool" where
  "receipt_ok r \<longleftrightarrow> \<not> bad_hex32 (weight_commit_hex r) \<and> \<not> bad_hex32 (output_digest_hex r) \<and>
    \<not> bad_hex32 (output_string_digest_hex r) \<and> (\<forall>c \<in> set (activation_commits_hex r). \<not> bad_hex32 c)"

lemma Receipt_validate_structural_iff:
  "Receipt_validate_structural r = (if receipt_ok r then Inr () else Inl BadReceipt)"
  by (auto simp: Receipt_validate_structural_def receipt_ok_def bad_hex32_def list_ex_iff)

lemma receipt_verify_iff:
  "receipt_verify P canonical s pk =
    (if receipt_ok (sr_receipt s) \<and> ed25519_verify P pk (canonical (sr_receipt s)) (sr_signature s)
     then Inr () else Inl BadReceipt)"
  by (simp add: receipt_verify_def Receipt_validate_structural_iff Let_def)

lemma receipt_sign_iff:
  "receipt_sign P canonical key r =
    (if receipt_ok r
     then Inr \<lparr>sr_receipt = r, sr_signature = ed25519_sign P key (canonical r)\<rparr> else Inl BadReceipt)"
  by (simp add: receipt_sign_def Receipt_validate_structural_iff Let_def)

lemma hex_text_ok: "hex_text_law J \<Longrightarrow> length b = 32 \<Longrightarrow> \<not> bad_hex32 (hex_encode J b)"
  unfolding hex_text_law_def bad_hex32_def list_all_iff
  by (auto simp: hex_char_def is_ascii_hexdigit_def Let_def)

section \<open>Property\<close>

text \<open>
  Receipts: the signer signs exactly the receipts whose digests and
  commitments are all 64 hex digits, what it signs verifies under its public
  key, and a receipt that verifies under any key has that shape and carries a
  valid signature of its canonical bytes under that key; every refusal is
  \<open>BadReceipt\<close>.
\<close>

theorem receipt_sign_verify:
  assumes "ed25519_law P"
  shows "(receipt_ok r \<longrightarrow> (\<exists>s. receipt_sign P canonical key r = Inr s \<and> sr_receipt s = r \<and>
            receipt_verify P canonical s (ed25519_public P key) = Inr ())) \<and>
    (\<not> receipt_ok r \<longrightarrow> receipt_sign P canonical key r = Inl BadReceipt) \<and>
    (receipt_verify P canonical s' pk = Inr () \<longleftrightarrow>
       receipt_ok (sr_receipt s') \<and> ed25519_verify P pk (canonical (sr_receipt s')) (sr_signature s')) \<and>
    (receipt_verify P canonical s' pk \<noteq> Inr () \<longrightarrow> receipt_verify P canonical s' pk = Inl BadReceipt)"
  using assms by (simp add: receipt_sign_iff receipt_verify_iff ed25519_law_def)

definition sample_receipt :: Receipt where
  "sample_receipt = \<lparr>r_tenant = TenantId ''acme'', r_session = replicate 16 1, r_model = ''m'',
     input_tokens = 3, output_tokens = 4, r_epoch = 0, r_issued_at_unix = 100, kv_blocks_cloaked = 4,
     output_digest_hex = replicate 64 (CHR ''a''), output_string_digest_hex = replicate 64 (CHR ''0''),
     weight_commit_hex = replicate 64 (CHR ''F''), activation_commits_hex = [replicate 64 (CHR ''9'')]\<rparr>"

theorem receipt_sign_verify_witness:
  "\<exists>s. receipt_sign model_prims (\<lambda>r. [1]) [5] sample_receipt = Inr s \<and>
     receipt_verify model_prims (\<lambda>r. [1]) s (ed25519_public model_prims [5]) = Inr ()"
proof -
  have "receipt_ok sample_receipt"
    by (simp add: sample_receipt_def receipt_ok_def bad_hex32_def is_ascii_hexdigit_def list_all_iff)
  then show ?thesis using receipt_sign_verify [OF model_ed25519_law] by blast
qed

end
