(* ===== verification/Ws.thy ===== *)
theory Ws
  imports Tee_Identity Receipts Fp_Model
begin

text \<open>
  The inputs of a session that its two ends share: the WebSocket and the codecs.
  A connection is the events it will deliver, in order, the messages
  sent so far and what becomes of each send; the third-party WebSocket crates and
  the scheduler are behind these.  Reading past the last event finds the stream
  ended.
\<close>

datatype ws_event =
    WsBinary bytes
  | WsPing
  | WsPong
  | WsClose
  | WsOther string \<comment> \<open>any other message, by its \<open>Debug\<close> rendering\<close>
  | WsErr string
  | WsIdle \<comment> \<open>nothing arrives for the length of a read timeout\<close>

datatype send_outcome = Flushed | SendFailed string | NotDrained

text \<open>\<open>outcomes n\<close> is what becomes of the \<open>n\<close>-th send.\<close>

record 'r world =
  incoming :: "ws_event list"
  sent :: "bytes list"
  outcomes :: "nat \<Rightarrow> send_outcome"
  rng :: 'r

text \<open>Running a computation over the generator, and a draw from it.\<close>

definition with_rng :: "('r \<Rightarrow> ('e + 'a) \<times> 'r) \<Rightarrow> (('r, 'z) world_scheme, 'e, 'a) smonad" where
  "with_rng f w = (let (x, r) = f (rng w) in (x, w\<lparr>rng := r\<rparr>))"

definition draw :: "('r \<Rightarrow> 'a \<times> 'r) \<Rightarrow> (('r, 'z) world_scheme, 'e, 'a) smonad" where
  "draw f = with_rng (\<lambda>r. let (x, r) = f r in (Inr x, r))"

definition push_sent :: "bytes \<Rightarrow> ('r, 'z) world_scheme \<Rightarrow> ('r, 'z) world_scheme" where
  "push_sent b w = w\<lparr>sent := sent w @ [b]\<rparr>"

definition outcome :: "('r, 'z) world_scheme \<Rightarrow> send_outcome" where
  "outcome w = outcomes w (length (sent w))"

lemma push_sent_simps [simp]:
  "incoming (push_sent b w) = incoming w" "sent (push_sent b w) = sent w @ [b]"
  "outcomes (push_sent b w) = outcomes w" "rng (push_sent b w) = rng w"
  by (simp_all add: push_sent_def)

text \<open>
  \<open>postcard\<close>, \<open>hex\<close> and the field, as both ends use them; \<open>hex_error\<close> renders the
  error of decoding a text that is not hex.
\<close>

record 'f session_lib =
  sl_hello :: hello_codec
  sl_evidence :: evidence_codec
  sl_text :: codecs
  sl_fp :: "'f fp_lib"
  hex_error :: "string \<Rightarrow> string"
  bundle_to_bytes :: "PreKeyBundle \<Rightarrow> string + bytes"
  bundle_from_bytes :: "bytes \<Rightarrow> string + PreKeyBundle"
  receipt_bytes :: "Receipt \<Rightarrow> bytes"
  envelope_to_bytes :: "ReceiptEnvelope \<Rightarrow> string + bytes"
  envelope_from_bytes :: "bytes \<Rightarrow> string + ReceiptEnvelope"

end
