(* ===== verification/Tls.thy ===== *)
theory Tls
  imports Primitives Rust_Text
begin

text \<open>
  \<open>ullm-tls\<close>: the certificate verifier that pins one certificate by its SHA-256
  fingerprint, and the client configurations built around it.  Of \<open>rustls\<close> the
  model has what the sources set: the named groups, the protocol version and the
  verifier; the groups of the default provider and the validation by a root store
  are arguments.  Generation of certificates belongs to \<open>rcgen\<close>.  Shown: what the
  verifier accepts, and that it accepts any handshake signature.
\<close>

section \<open>lib.rs\<close>

datatype ServerName = DnsName string | IpAddress string | UnknownName string

datatype RustlsError = General string

datatype kx_group = KX_X25519MLKEM768 | KX_X25519 | KX_SECP256R1 | KX_Other nat

datatype tls_version = TLS12 | TLS13

datatype SignatureScheme =
    ECDSA_NISTP256_SHA256 | ECDSA_NISTP384_SHA384 | ED25519 | RSA_PSS_SHA256 | RSA_PSS_SHA384

record FingerprintVerifier =
  fv_expected :: bytes
  fv_expected_sans :: "string list"

definition to_ascii_lower :: "string \<Rightarrow> string" where
  "to_ascii_lower s = map to_ascii_lowercase s"

fun sni_allowed :: "FingerprintVerifier \<Rightarrow> ServerName \<Rightarrow> bool" where
  "sni_allowed self server_name =
    (if fv_expected_sans self = [] then True
     else case server_name of
       DnsName d \<Rightarrow> list_ex (\<lambda>s. to_ascii_lower s = to_ascii_lower d) (fv_expected_sans self)
     | IpAddress ip \<Rightarrow> list_ex (\<lambda>s. to_ascii_lower s = to_ascii_lower ip) (fv_expected_sans self)
     | UnknownName _ \<Rightarrow> False)"

declare sni_allowed.simps [simp del]

definition constant_eq :: "bytes \<Rightarrow> bytes \<Rightarrow> bool" where
  "constant_eq a b \<longleftrightarrow> fold (\<lambda>i d. d OR (a ! i XOR b ! i)) [0..<32] (0 :: u8) = 0"

text \<open>\<open>name_debug\<close> is the \<open>Debug\<close> rendering of a server name.\<close>

definition verify_server_cert ::
  "'r prims \<Rightarrow> (ServerName \<Rightarrow> string) \<Rightarrow> FingerprintVerifier \<Rightarrow> bytes \<Rightarrow> ServerName \<Rightarrow> RustlsError + unit" where
  "verify_server_cert P name_debug self end_entity server_name =
    (let fp = sha256 P end_entity in
     if \<not> constant_eq fp (fv_expected self) then Inl (General ''pinned cert fingerprint mismatch'')
     else if \<not> sni_allowed self server_name
     then Inl (General (''TLS SNI '' @ name_debug server_name @ '' not in pinned SAN list''))
     else Inr ())"

definition verify_tls12_signature ::
  "FingerprintVerifier \<Rightarrow> bytes \<Rightarrow> bytes \<Rightarrow> bytes \<Rightarrow> RustlsError + unit" where
  "verify_tls12_signature self message cert dss = Inl (General ''TLS 1.2 not supported'')"

definition verify_tls13_signature ::
  "FingerprintVerifier \<Rightarrow> bytes \<Rightarrow> bytes \<Rightarrow> bytes \<Rightarrow> RustlsError + unit" where
  "verify_tls13_signature self message cert dss = Inr ()"

definition supported_verify_schemes :: "SignatureScheme list" where
  "supported_verify_schemes =
    [ECDSA_NISTP256_SHA256, ECDSA_NISTP384_SHA384, ED25519, RSA_PSS_SHA256, RSA_PSS_SHA384]"

datatype cert_check = Pinned FingerprintVerifier | RootStore bytes

record ClientConfig =
  cc_groups :: "kx_group list"
  cc_versions :: "tls_version list"
  cc_check :: cert_check

definition strict_pq_groups :: "kx_group list" where "strict_pq_groups = [KX_X25519MLKEM768]"

definition client_config_pinned :: "kx_group list \<Rightarrow> bytes \<Rightarrow> string list \<Rightarrow> ClientConfig" where
  "client_config_pinned pq_groups fp sans =
    \<lparr>cc_groups = pq_groups, cc_versions = [TLS13],
     cc_check = Pinned \<lparr>fv_expected = fp, fv_expected_sans = sans\<rparr>\<rparr>"

definition client_config_pinned_strict_pq :: "bytes \<Rightarrow> string list \<Rightarrow> ClientConfig" where
  "client_config_pinned_strict_pq fp sans =
    \<lparr>cc_groups = strict_pq_groups, cc_versions = [TLS13],
     cc_check = Pinned \<lparr>fv_expected = fp, fv_expected_sans = sans\<rparr>\<rparr>"

definition client_config_with_root :: "kx_group list \<Rightarrow> bytes \<Rightarrow> ClientConfig" where
  "client_config_with_root pq_groups root_cert_der =
    \<lparr>cc_groups = pq_groups, cc_versions = [TLS13], cc_check = RootStore root_cert_der\<rparr>"

text \<open>
  The client side of a TLS 1.3 handshake, as far as the verifier decides it: the
  certificate of the peer, then the signature of the peer over the transcript.
\<close>

definition pinned_handshake ::
  "'r prims \<Rightarrow> (ServerName \<Rightarrow> string) \<Rightarrow> FingerprintVerifier \<Rightarrow> ServerName \<Rightarrow> bytes \<Rightarrow> bytes \<Rightarrow> bytes
   \<Rightarrow> RustlsError + unit" where
  "pinned_handshake P name_debug self server_name cert transcript dss =
    rbind (verify_server_cert P name_debug self cert server_name) (\<lambda>_.
      verify_tls13_signature self transcript cert dss)"

section \<open>Lemmas\<close>

lemma fold_or_zero: "fold (\<lambda>i d. d OR f i) xs d = (0 :: 'a::len word) \<longleftrightarrow> d = 0 \<and> (\<forall>i \<in> set xs. f i = 0)"
  by (induction xs arbitrary: d) (auto simp: or_eq_0_iff)

lemma xor_zero_iff: "a XOR b = (0 :: 'a::len word) \<longleftrightarrow> a = b"
  by (metis xor.assoc xor.right_neutral xor_self_eq xor.left_neutral)

lemma constant_eq_iff: "length a = 32 \<Longrightarrow> length b = 32 \<Longrightarrow> constant_eq a b \<longleftrightarrow> a = b"
  unfolding constant_eq_def fold_or_zero by (auto simp: list_eq_iff_nth_eq xor_zero_iff)

fun shown_name :: "ServerName \<Rightarrow> string option" where
  "shown_name (DnsName d) = Some d"
| "shown_name (IpAddress ip) = Some ip"
| "shown_name (UnknownName _) = None"

lemma sni_allowed_iff:
  "sni_allowed v n \<longleftrightarrow> fv_expected_sans v = [] \<or>
    (\<exists>s \<in> set (fv_expected_sans v). \<exists>d. shown_name n = Some d \<and> eq_ignore_ascii_case s d)"
  by (cases n) (auto simp: sni_allowed.simps list_ex_iff eq_ignore_ascii_case_def to_ascii_lower_def)

section \<open>Properties\<close>

text \<open>
  The pinning verifier accepts a certificate exactly when its SHA-256 is the
  pinned fingerprint (the constant-time loop compares all 32 bytes) and the name
  connected to is, up to ASCII case, one of the pinned names; an empty list of
  names allows every name.
\<close>

theorem pinned_cert_exact:
  assumes "sha2_law P" "length (fv_expected v) = 32"
  shows "verify_server_cert P dbg v cert n = Inr () \<longleftrightarrow>
    sha256 P cert = fv_expected v \<and>
    (fv_expected_sans v = [] \<or>
     (\<exists>s \<in> set (fv_expected_sans v). \<exists>d. shown_name n = Some d \<and> eq_ignore_ascii_case s d))"
proof -
  have "constant_eq (sha256 P cert) (fv_expected v) \<longleftrightarrow> sha256 P cert = fv_expected v"
    using assms by (intro constant_eq_iff) (simp_all add: sha2_law_def)
  then show ?thesis by (simp add: verify_server_cert_def sni_allowed_iff)
qed

theorem pinned_cert_exact_witness:
  "verify_server_cert model_prims (\<lambda>_. []) \<lparr>fv_expected = sha256 model_prims [1, 2],
     fv_expected_sans = [''Localhost'']\<rparr> [1, 2] (DnsName ''localhost'') = Inr ()"
proof -
  have "length (sha256 model_prims [1, 2]) = 32" using model_sha2_law by (simp add: sha2_law_def)
  moreover have "eq_ignore_ascii_case ''Localhost'' ''localhost''"
    by code_simp
  ultimately show ?thesis by (subst pinned_cert_exact [OF model_sha2_law]) simp_all
qed

text \<open>
  The verifier does not ask the peer to prove that it holds the key of the
  pinned certificate: whoever presents the certificate, which every server sends
  in the clear to every client, passes the verifier with any transcript and any
  signature.
\<close>

theorem pinned_cert_without_key:
  assumes "verify_server_cert P dbg v cert n = Inr ()"
  shows "\<forall>transcript dss. pinned_handshake P dbg v n cert transcript dss = Inr ()"
  using assms by (simp add: pinned_handshake_def verify_tls13_signature_def)

theorem pinned_cert_without_key_witness:
  "pinned_handshake model_prims (\<lambda>_. []) \<lparr>fv_expected = sha256 model_prims [1, 2],
     fv_expected_sans = []\<rparr> (DnsName ''localhost'') [1, 2] [3] [] = Inr ()"
proof -
  have "length (sha256 model_prims [1, 2]) = 32" using model_sha2_law by (simp add: sha2_law_def)
  then have "verify_server_cert model_prims (\<lambda>_. []) \<lparr>fv_expected = sha256 model_prims [1, 2],
     fv_expected_sans = []\<rparr> [1, 2] (DnsName ''localhost'') = Inr ()"
    by (simp add: verify_server_cert_def constant_eq_iff sni_allowed.simps)
  then show ?thesis by (rule pinned_cert_without_key [rule_format])
qed

end
