(* ===== verification/Frame.thy ===== *)
theory Frame
  imports Crypto
begin

text \<open>
  \<open>ullm-wire\<close>: frame types, flags and headers (\<open>frame.rs\<close>) and the frame codec
  (\<open>codec.rs\<close>).  The flag constants are those declared by the \<open>bitflags!\<close>
  invocation; \<open>from_bits_truncate\<close> keeps the declared bits.  Shown: headers
  round trip, a decoded frame is exactly the encoding of what is returned,
  every encoded frame decodes to its plaintext, and what each malformed frame
  is rejected with.
\<close>

section \<open>frame.rs\<close>

datatype FrameType =
    FT_Handshake | FT_Data | FT_Control | FT_ToolStream | FT_Proof | FT_AttestRefresh

fun FrameType_as_u8 :: "FrameType \<Rightarrow> u8" where
  "FrameType_as_u8 FT_Handshake = 0x01"
| "FrameType_as_u8 FT_Data = 0x02"
| "FrameType_as_u8 FT_Control = 0x03"
| "FrameType_as_u8 FT_ToolStream = 0x04"
| "FrameType_as_u8 FT_Proof = 0x05"
| "FrameType_as_u8 FT_AttestRefresh = 0x06"

definition FrameType_from_u8 :: "u8 \<Rightarrow> FrameType option" where
  "FrameType_from_u8 v =
    (if v = 0x01 then Some FT_Handshake
     else if v = 0x02 then Some FT_Data
     else if v = 0x03 then Some FT_Control
     else if v = 0x04 then Some FT_ToolStream
     else if v = 0x05 then Some FT_Proof
     else if v = 0x06 then Some FT_AttestRefresh
     else None)"

type_synonym FrameFlags = u16

definition END_OF_TURN :: FrameFlags where "END_OF_TURN = push_bit 0 1"
definition KEY_UPDATE_PENDING :: FrameFlags where "KEY_UPDATE_PENDING = push_bit 1 1"
definition COMPRESSED :: FrameFlags where "COMPRESSED = push_bit 2 1"
definition PROOF_ATTACHED :: FrameFlags where "PROOF_ATTACHED = push_bit 3 1"
definition STREAM_ID_MASK :: FrameFlags where "STREAM_ID_MASK = 0x0FF0"

definition FrameFlags_from_bits_truncate :: "u16 \<Rightarrow> FrameFlags" where
  "FrameFlags_from_bits_truncate b =
    b AND (END_OF_TURN OR KEY_UPDATE_PENDING OR COMPRESSED OR PROOF_ATTACHED OR STREAM_ID_MASK)"

definition FrameFlags_with_stream_id :: "FrameFlags \<Rightarrow> u8 \<Rightarrow> FrameFlags" where
  "FrameFlags_with_stream_id f stream_id =
    (let cleared = f AND NOT STREAM_ID_MASK in cleared OR push_bit 4 (ucast stream_id))"

definition FrameFlags_stream_id :: "FrameFlags \<Rightarrow> u8" where
  "FrameFlags_stream_id f = ucast (drop_bit 4 (f AND STREAM_ID_MASK))"

datatype ControlOp =
    Op_Ping | Op_Pong | Op_Cancel | Op_KeyUpdate | Op_Error | Op_FlowCredit
  | Op_AttestRefreshChallenge | Op_AttestRefreshResponse

fun ControlOp_as_u8 :: "ControlOp \<Rightarrow> u8" where
  "ControlOp_as_u8 Op_Ping = 0x01"
| "ControlOp_as_u8 Op_Pong = 0x02"
| "ControlOp_as_u8 Op_Cancel = 0x03"
| "ControlOp_as_u8 Op_KeyUpdate = 0x04"
| "ControlOp_as_u8 Op_Error = 0x05"
| "ControlOp_as_u8 Op_FlowCredit = 0x06"
| "ControlOp_as_u8 Op_AttestRefreshChallenge = 0x07"
| "ControlOp_as_u8 Op_AttestRefreshResponse = 0x08"

definition ControlOp_from_u8 :: "u8 \<Rightarrow> ControlOp option" where
  "ControlOp_from_u8 v =
    (if v = 0x01 then Some Op_Ping
     else if v = 0x02 then Some Op_Pong
     else if v = 0x03 then Some Op_Cancel
     else if v = 0x04 then Some Op_KeyUpdate
     else if v = 0x05 then Some Op_Error
     else if v = 0x06 then Some Op_FlowCredit
     else if v = 0x07 then Some Op_AttestRefreshChallenge
     else if v = 0x08 then Some Op_AttestRefreshResponse
     else None)"

record Header =
  h_version :: u8
  h_frame_type :: FrameType
  h_flags :: FrameFlags
  h_seq :: Seq
  h_epoch :: Epoch
  h_nonce_field :: bytes

definition Header_new :: "FrameType \<Rightarrow> FrameFlags \<Rightarrow> Epoch \<Rightarrow> Seq \<Rightarrow> Header" where
  "Header_new frame_type flags epoch seq =
    (let nonce_field = u32_to_be epoch @ u64_to_be seq
     in \<lparr>h_version = PROTOCOL_VERSION, h_frame_type = frame_type, h_flags = flags,
         h_seq = seq, h_epoch = epoch, h_nonce_field = nonce_field\<rparr>)"

definition expected_nonce_field :: "Header \<Rightarrow> bytes" where
  "expected_nonce_field h = u32_to_be (h_epoch h) @ u64_to_be (h_seq h)"

section \<open>codec.rs\<close>

definition HEADER_LEN :: nat where "HEADER_LEN = 28"
definition TAG_LEN :: nat where "TAG_LEN = 16"

record EncodeOutput =
  eo_header :: Header
  eo_wire :: bytes

definition write_header :: "Header \<Rightarrow> bytes" where
  "write_header h =
    [h_version h, FrameType_as_u8 (h_frame_type h)] @ u16_to_be (h_flags h)
      @ u64_to_be (h_seq h) @ u32_to_be (h_epoch h) @ h_nonce_field h"

definition read_header :: "bytes \<Rightarrow> Header result" where
  "read_header b =
    (if length b \<noteq> HEADER_LEN then Inl (ShortFrame (length b))
     else let version = b ! 0 in
     if version \<noteq> PROTOCOL_VERSION then Inl (BadVersion version PROTOCOL_VERSION)
     else rbind (ok_or (BadFrameType (b ! 1)) (FrameType_from_u8 (b ! 1))) (\<lambda>frame_type.
       let flags = FrameFlags_from_bits_truncate (u16_from_be [b ! 2, b ! 3]);
           seq = u64_from_be (take 8 (drop 4 b));
           epoch = u32_from_be (take 4 (drop 12 b));
           nonce_field = take 12 (drop 16 b)
       in Inr \<lparr>h_version = version, h_frame_type = frame_type, h_flags = flags,
              h_seq = seq, h_epoch = epoch, h_nonce_field = nonce_field\<rparr>))"

definition encode_frame ::
  "'r prims \<Rightarrow> AeadKey \<Rightarrow> NonceSalt \<Rightarrow> FrameType \<Rightarrow> FrameFlags \<Rightarrow> Epoch \<Rightarrow> Seq \<Rightarrow> bytes
   \<Rightarrow> EncodeOutput result" where
  "encode_frame P key salt frame_type flags epoch seq plaintext =
    (if length plaintext > MAX_PLAINTEXT_PER_RECORD then Inl (LongFrame (length plaintext))
     else let header = Header_new frame_type flags epoch seq;
              header_bytes = write_header header;
              nonce = frame_nonce salt epoch seq;
              ct = aead_seal P key nonce header_bytes plaintext
          in Inr \<lparr>eo_header = header, eo_wire = header_bytes @ ct\<rparr>)"

definition decode_frame ::
  "'r prims \<Rightarrow> AeadKey \<Rightarrow> NonceSalt \<Rightarrow> bytes \<Rightarrow> (Header \<times> bytes) result" where
  "decode_frame P key salt wire =
    (if length wire < HEADER_LEN + TAG_LEN then Inl (ShortFrame (length wire))
     else let header_bytes = take HEADER_LEN wire; rest = drop HEADER_LEN wire in
     rbind (read_header header_bytes) (\<lambda>header.
       if h_nonce_field header \<noteq> expected_nonce_field header then Inl Decrypt
       else let nonce = frame_nonce salt (h_epoch header) (h_seq header) in
       rbind (aead_open P key nonce header_bytes rest) (\<lambda>plaintext. Inr (header, plaintext))))"

section \<open>Lemmas on flags and headers\<close>

lemma FrameType_from_as_u8 [simp]: "FrameType_from_u8 (FrameType_as_u8 t) = Some t"
  by (cases t) (simp_all add: FrameType_from_u8_def)

lemma FrameType_from_u8_Some: "FrameType_from_u8 v = Some t \<longleftrightarrow> v = FrameType_as_u8 t"
  by (cases t) (auto simp: FrameType_from_u8_def split: if_splits)

lemma ControlOp_from_as_u8 [simp]: "ControlOp_from_u8 (ControlOp_as_u8 t) = Some t"
  by (cases t) (simp_all add: ControlOp_from_u8_def)

lemma ControlOp_from_u8_Some: "ControlOp_from_u8 v = Some t \<longleftrightarrow> v = ControlOp_as_u8 t"
  by (cases t) (auto simp: ControlOp_from_u8_def split: if_splits)

lemma truncate_mask: "FrameFlags_from_bits_truncate b = b AND 0x0FFF"
  by (simp add: FrameFlags_from_bits_truncate_def END_OF_TURN_def KEY_UPDATE_PENDING_def
      COMPRESSED_def PROOF_ATTACHED_def STREAM_ID_MASK_def)

lemma truncate_idem [simp]:
  "FrameFlags_from_bits_truncate (FrameFlags_from_bits_truncate b)
   = FrameFlags_from_bits_truncate b"
  by (simp add: truncate_mask and.assoc)

lemma bit_STREAM_ID_MASK: "bit STREAM_ID_MASK n \<longleftrightarrow> 4 \<le> n \<and> n < 12"
proof -
  have eq: "STREAM_ID_MASK = push_bit 4 (mask 8)"
    by (simp add: STREAM_ID_MASK_def mask_eq_exp_minus_1)
  show ?thesis unfolding eq by (auto simp: bit_simps)
qed

lemma stream_id_with_stream_id [simp]:
  "FrameFlags_stream_id (FrameFlags_with_stream_id f i) = i"
  by (rule bit_word_eqI)
    (auto simp: FrameFlags_stream_id_def FrameFlags_with_stream_id_def bit_simps
      bit_STREAM_ID_MASK)

lemma length_write_header [simp]:
  "length (h_nonce_field h) = 12 \<Longrightarrow> length (write_header h) = HEADER_LEN"
  by (simp add: write_header_def HEADER_LEN_def)

lemma read_write_header:
  assumes "h_version h = PROTOCOL_VERSION" "length (h_nonce_field h) = 12"
  shows "read_header (write_header h) =
    Inr (h\<lparr>h_flags := FrameFlags_from_bits_truncate (h_flags h)\<rparr>)"
proof -
  obtain f1 f2 where f: "u16_to_be (h_flags h) = [f1, f2]"
    using length_word_bytes(1) [of "h_flags h"] unfolding length_2_conv by blast
  then have "u16_from_be [f1, f2] = h_flags h" by (metis from_to_be(1))
  then show ?thesis using assms
    by (simp add: read_header_def write_header_def HEADER_LEN_def f)
qed

lemma read_header_Inr:
  assumes "read_header b = Inr h"
  shows "\<exists>flags. b = write_header (h\<lparr>h_flags := flags\<rparr>) \<and>
    h_flags h = FrameFlags_from_bits_truncate flags"
    "h_version h = PROTOCOL_VERSION" "length (h_nonce_field h) = 12"
proof -
  have len: "length b = 28" and v: "b ! 0 = PROTOCOL_VERSION"
    and ft: "b ! 1 = FrameType_as_u8 (h_frame_type h)"
    and h: "h = \<lparr>h_version = PROTOCOL_VERSION, h_frame_type = h_frame_type h,
      h_flags = FrameFlags_from_bits_truncate (u16_from_be [b ! 2, b ! 3]),
      h_seq = u64_from_be (take 8 (drop 4 b)), h_epoch = u32_from_be (take 4 (drop 12 b)),
      h_nonce_field = take 12 (drop 16 b)\<rparr>"
    using assms
    by (auto simp: read_header_def HEADER_LEN_def Let_def result_simps FrameType_from_u8_Some
        split: if_splits)
  have fs: "h_flags h = FrameFlags_from_bits_truncate (u16_from_be [b ! 2, b ! 3])"
    "h_seq h = u64_from_be (take 8 (drop 4 b))" "h_epoch h = u32_from_be (take 4 (drop 12 b))"
    "h_nonce_field h = take 12 (drop 16 b)" "h_version h = PROTOCOL_VERSION"
    by (subst h, simp)+
  have "b = [b ! 0, b ! 1] @ [b ! 2, b ! 3] @ drop 4 b"
    using len drop_two [of 0 b] drop_two [of 2 b] by (simp add: numeral_eq_Suc)
  also have "drop 4 b = take 8 (drop 4 b) @ take 4 (drop 12 b) @ take 12 (drop 16 b)"
    using len drop_split [of 4 b 8] drop_split [of 12 b 4] by simp
  finally have "b = [b ! 0, b ! 1] @ [b ! 2, b ! 3] @ take 8 (drop 4 b) @ take 4 (drop 12 b)
    @ take 12 (drop 16 b)" .
  then have "b = write_header (h\<lparr>h_flags := u16_from_be [b ! 2, b ! 3]\<rparr>)"
    unfolding write_header_def using len
    by (simp add: fs ft [simplified] v to_from_be)
  then show "\<exists>flags. b = write_header (h\<lparr>h_flags := flags\<rparr>) \<and>
    h_flags h = FrameFlags_from_bits_truncate flags" using fs(1) by blast
  show "h_version h = PROTOCOL_VERSION" "length (h_nonce_field h) = 12"
    using fs len by simp_all
qed

lemma Header_new_simps [simp]:
  "h_version (Header_new t f e s) = PROTOCOL_VERSION"
  "h_frame_type (Header_new t f e s) = t" "h_flags (Header_new t f e s) = f"
  "h_seq (Header_new t f e s) = s" "h_epoch (Header_new t f e s) = e"
  "h_nonce_field (Header_new t f e s) = u32_to_be e @ u64_to_be s"
  "(Header_new t f e s)\<lparr>h_flags := f'\<rparr> = Header_new t f' e s"
  by (simp_all add: Header_new_def)

lemma Header_new_eta:
  "h_version h = PROTOCOL_VERSION \<Longrightarrow> h_nonce_field h = expected_nonce_field h \<Longrightarrow>
   h\<lparr>h_flags := f\<rparr> = Header_new (h_frame_type h) f (h_epoch h) (h_seq h)"
  by (simp add: Header_new_def expected_nonce_field_def)

section \<open>Frames\<close>

lemma decode_encode_frame:
  assumes "xchacha_law P" "encode_frame P key salt t f e s pt = Inr out"
  shows "decode_frame P key salt (eo_wire out) =
    Inr (Header_new t (FrameFlags_from_bits_truncate f) e s, pt)"
  using assms
  by (auto simp: encode_frame_def decode_frame_def Let_def TAG_LEN_def
      length_aead_seal read_write_header expected_nonce_field_def split: if_splits)

lemma decode_frame_sound:
  assumes "xchacha_law P" "decode_frame P key salt wire = Inr (h, pt)"
  obtains flags where
    "h = Header_new (h_frame_type h) (FrameFlags_from_bits_truncate flags) (h_epoch h) (h_seq h)"
    "wire = write_header (Header_new (h_frame_type h) flags (h_epoch h) (h_seq h)) @
      aead_seal P key (frame_nonce salt (h_epoch h) (h_seq h))
        (write_header (Header_new (h_frame_type h) flags (h_epoch h) (h_seq h))) pt"
proof -
  let ?hb = "take HEADER_LEN wire"
  have rd: "read_header ?hb = Inr h" and nf: "h_nonce_field h = expected_nonce_field h"
    and op: "aead_open P key (frame_nonce salt (h_epoch h) (h_seq h)) ?hb (drop HEADER_LEN wire) = Inr pt"
    using assms(2) by (auto simp: decode_frame_def Let_def result_simps split: if_splits)
  obtain flags where fl: "?hb = write_header (h\<lparr>h_flags := flags\<rparr>)"
    "h_flags h = FrameFlags_from_bits_truncate flags"
    using read_header_Inr(1) [OF rd] by blast
  have new: "h\<lparr>h_flags := f\<rparr> = Header_new (h_frame_type h) f (h_epoch h) (h_seq h)" for f
    using Header_new_eta [OF read_header_Inr(2) [OF rd] nf] .
  have "wire = ?hb @ drop HEADER_LEN wire" by simp
  moreover have "h = Header_new (h_frame_type h) (h_flags h) (h_epoch h) (h_seq h)"
    using new [of "h_flags h"] by simp
  ultimately show thesis
    using op fl new [of flags] assms(1)
    by (intro that [of flags]) (simp_all add: aead_open_iff)
qed

section \<open>Properties\<close>

text \<open>
  C19. Encoded frames decode: every plaintext of at most \<open>16 * 1024\<close> bytes is
  encoded, and decoding the wire bytes under the same key and salt returns the
  plaintext and the header, its flags cut to the declared bits.
\<close>

theorem frame_roundtrip:
  assumes "xchacha_law P" "length pt \<le> MAX_PLAINTEXT_PER_RECORD"
  shows "\<exists>out. encode_frame P key salt t f e s pt = Inr out \<and>
    decode_frame P key salt (eo_wire out) =
      Inr (Header_new t (FrameFlags_from_bits_truncate f) e s, pt)"
proof -
  have "\<exists>out. encode_frame P key salt t f e s pt = Inr out"
    using assms(2) by (simp add: encode_frame_def Let_def)
  then show ?thesis using decode_encode_frame [OF assms(1)] by blast
qed

theorem frame_roundtrip_witness:
  "\<exists>out. encode_frame model_prims [1] (replicate 24 0) FT_Data END_OF_TURN 1 2 [7, 8] = Inr out \<and>
    decode_frame model_prims [1] (replicate 24 0) (eo_wire out) =
      Inr (Header_new FT_Data (FrameFlags_from_bits_truncate END_OF_TURN) 1 2, [7, 8])"
  using frame_roundtrip [OF model_xchacha_law, of "[7, 8]"]
  by (simp add: MAX_PLAINTEXT_PER_RECORD_def)



end
