(* ===== verification/Control.thy ===== *)
theory Control
  imports Frame
begin

text \<open>
  \<open>ullm-wire/control.rs\<close>: the plaintext body of control frames, one operation
  byte and a fixed-size payload.  Shown: decoding is the exact inverse of
  encoding, in both directions, so no two bodies decode to one message and no
  malformed body is accepted.
\<close>

datatype Control =
    Ping u64
  | Pong u64
  | Cancel u16
  | KeyUpdate bytes
  | Control_Error u16
  | FlowCredit u32

text \<open>\<open>new_pk\<close> is an array of 32 bytes.\<close>

fun Control_wf :: "Control \<Rightarrow> bool" where
  "Control_wf (KeyUpdate new_pk) \<longleftrightarrow> length new_pk = 32"
| "Control_wf _ \<longleftrightarrow> True"

fun Control_encode :: "Control \<Rightarrow> bytes" where
  "Control_encode (Ping ts) = ControlOp_as_u8 Op_Ping # u64_to_be ts"
| "Control_encode (Pong ts) = ControlOp_as_u8 Op_Pong # u64_to_be ts"
| "Control_encode (Cancel code) = ControlOp_as_u8 Op_Cancel # u16_to_be code"
| "Control_encode (KeyUpdate new_pk) = ControlOp_as_u8 Op_KeyUpdate # new_pk"
| "Control_encode (Control_Error code) = ControlOp_as_u8 Op_Error # u16_to_be code"
| "Control_encode (FlowCredit n) = ControlOp_as_u8 Op_FlowCredit # u32_to_be n"

definition read_u16 :: "bytes \<Rightarrow> u16 result" where
  "read_u16 b =
    (if length b \<noteq> 2 then Inl (Other (''expected 2-byte payload, got '' @ dec (length b)))
     else Inr (u16_from_be b))"

definition read_u32 :: "bytes \<Rightarrow> u32 result" where
  "read_u32 b =
    (if length b \<noteq> 4 then Inl (Other (''expected 4-byte payload, got '' @ dec (length b)))
     else Inr (u32_from_be b))"

definition read_u64 :: "bytes \<Rightarrow> u64 result" where
  "read_u64 b =
    (if length b \<noteq> 8 then Inl (Other (''expected 8-byte payload, got '' @ dec (length b)))
     else Inr (u64_from_be b))"

fun Control_decode :: "bytes \<Rightarrow> Control result" where
  "Control_decode [] = Inl (Other ''empty control body'')"
| "Control_decode (op_byte # rest) =
    rbind (ok_or (Other (''unknown control op '' @ hex02 op_byte)) (ControlOp_from_u8 op_byte))
    (\<lambda>op. case op of
       Op_Ping \<Rightarrow> rbind (read_u64 rest) (\<lambda>ts. Inr (Ping ts))
     | Op_Pong \<Rightarrow> rbind (read_u64 rest) (\<lambda>ts. Inr (Pong ts))
     | Op_Cancel \<Rightarrow> rbind (read_u16 rest) (\<lambda>code. Inr (Cancel code))
     | Op_KeyUpdate \<Rightarrow>
         (if length rest \<noteq> 32 then Inl (Other ''KeyUpdate payload != 32 bytes'')
          else Inr (KeyUpdate rest))
     | Op_Error \<Rightarrow> rbind (read_u16 rest) (\<lambda>code. Inr (Control_Error code))
     | Op_FlowCredit \<Rightarrow> rbind (read_u32 rest) (\<lambda>n. Inr (FlowCredit n))
     | Op_AttestRefreshChallenge \<Rightarrow>
         Inl (Other ''unsupported control op AttestRefreshChallenge'')
     | Op_AttestRefreshResponse \<Rightarrow>
         Inl (Other ''unsupported control op AttestRefreshResponse''))"

lemma read_uint_Inr:
  "read_u16 b = Inr v \<longleftrightarrow> b = u16_to_be v"
  "read_u32 b = Inr w \<longleftrightarrow> b = u32_to_be w"
  "read_u64 b = Inr x \<longleftrightarrow> b = u64_to_be x"
  by (auto simp: read_u16_def read_u32_def read_u64_def to_from_be)

lemma Control_decode_encode [simp]:
  "Control_wf c \<Longrightarrow> Control_decode (Control_encode c) = Inr c"
  by (cases c) (simp_all add: ControlOp_from_u8_def read_u16_def read_u32_def read_u64_def)

lemma Control_decode_Inr:
  assumes "Control_decode b = Inr c"
  shows "Control_wf c \<and> b = Control_encode c"
proof (cases b)
  case (Cons op_byte rest)
  then obtain op where op: "op_byte = ControlOp_as_u8 op"
    using assms by (auto simp: result_simps ControlOp_from_u8_Some)
  show ?thesis using assms Cons op
    by (cases op) (auto simp: result_simps read_uint_Inr
        simp del: ControlOp_as_u8.simps split: if_splits)
qed (use assms in simp)

text \<open>
  Control bodies: a byte string decodes to a message exactly when it is the
  encoding of that message (and the message is well formed, its key being 32
  bytes).  Decoding therefore inverts encoding and accepts nothing else.
\<close>

theorem control_codec_exact:
  "Control_decode b = Inr c \<longleftrightarrow> Control_wf c \<and> b = Control_encode c"
  using Control_decode_Inr by auto

end
