(* ===== verification/Replay.thy ===== *)
theory Replay
  imports Core
begin

text \<open>
  \<open>ullm-wire/replay.rs\<close>: the 64-slot sliding replay window.  The specification
  is a set of accepted sequence numbers; \<open>window_sim\<close> relates the bitmap to it
  and every call is shown to answer as the specification does.  From it: no
  sequence number is ever accepted twice, whatever is received in whatever
  order, and a new number inside the window is always accepted.
\<close>

section \<open>replay.rs\<close>

definition WINDOW_BITS :: nat where "WINDOW_BITS = 64"

record ReplayWindow =
  high :: u64
  bitmap :: u64
  seen_zero_at_init :: bool

definition ReplayWindow_new :: ReplayWindow where
  "ReplayWindow_new = \<lparr>high = 0, bitmap = 0, seen_zero_at_init = False\<rparr>"

definition check_and_update :: "ReplayWindow \<Rightarrow> Seq \<Rightarrow> unit result \<times> ReplayWindow" where
  "check_and_update w s =
    (if s > high w then
       let gap = s - high w in
       if gap > (- 1) div 2 then (Inl (SeqGap gap), w)
       else let b = (if gap \<ge> word_of_nat WINDOW_BITS then 0 else drop_bit (unat gap) (bitmap w));
                b = b OR push_bit (WINDOW_BITS - 1) 1
            in (Inr (), w\<lparr>bitmap := b, high := s\<rparr>)
     else if s = 0 \<and> high w = 0 then
       if seen_zero_at_init w then (Inl (Replay 0), w)
       else (Inr (), w\<lparr>seen_zero_at_init := True,
                      bitmap := bitmap w OR push_bit (WINDOW_BITS - 1) 1\<rparr>)
     else
       let diff = high w - s in
       if diff \<ge> word_of_nat WINDOW_BITS then (Inl (SeqGap diff), w)
       else let bit_ix = word_of_nat WINDOW_BITS - 1 - diff;
                m = push_bit (unat bit_ix) 1 in
            if bitmap w AND m \<noteq> 0 then (Inl (Replay s), w)
            else (Inr (), w\<lparr>bitmap := bitmap w OR m\<rparr>))"

text \<open>A run over received sequence numbers, with the numbers accepted, latest first.\<close>

fun replay_run :: "ReplayWindow \<Rightarrow> Seq list \<Rightarrow> Seq list \<Rightarrow> ReplayWindow \<times> Seq list" where
  "replay_run w acc [] = (w, acc)"
| "replay_run w acc (s # ss) =
    (case check_and_update w s of
       (Inl e, w') \<Rightarrow> replay_run w' acc ss
     | (Inr _, w') \<Rightarrow> replay_run w' (s # acc) ss)"

section \<open>Specification\<close>

text \<open>
  The abstract window is the set of sequence numbers accepted so far; its high
  mark is the largest of them, 0 at the start.
\<close>

definition spec_high :: "Seq set \<Rightarrow> u64" where
  "spec_high H = Max (insert 0 H)"

definition spec_check :: "Seq set \<Rightarrow> Seq \<Rightarrow> unit result \<times> Seq set" where
  "spec_check H s =
    (if s > spec_high H \<and> unat s - unat (spec_high H) \<ge> 2 ^ 63 then (Inl (SeqGap (s - spec_high H)), H)
     else if unat s + 64 \<le> unat (spec_high H) then (Inl (SeqGap (spec_high H - s)), H)
     else if s \<in> H then (Inl (Replay s), H)
     else (Inr (), insert s H))"

definition window_sim :: "ReplayWindow \<Rightarrow> Seq set \<Rightarrow> bool" where
  "window_sim w H \<longleftrightarrow>
    high w = spec_high H \<and>
    (\<forall>s. s \<le> high w \<longrightarrow> unat (high w) < unat s + 64 \<longrightarrow>
      (s \<in> H \<longleftrightarrow> bit (bitmap w) (63 - (unat (high w) - unat s)))) \<and>
    (high w = 0 \<longrightarrow> (seen_zero_at_init w \<longleftrightarrow> 0 \<in> H))"

section \<open>Refinement\<close>

lemma spec_high_ge: "s \<in> H \<Longrightarrow> s \<le> spec_high H"
  by (simp add: spec_high_def)

lemma spec_high_insert: "spec_high (insert s H) = max s (spec_high H)"
proof -
  have "insert 0 (insert s H) = insert s (insert 0 H)" by blast
  then show ?thesis by (simp add: spec_high_def)
qed

lemma window_sim_new: "window_sim ReplayWindow_new {}"
  by (simp add: window_sim_def ReplayWindow_new_def spec_high_def)

lemma half_max: "(- 1 :: u64) div 2 = 9223372036854775807"
  by simp

lemma and_push_bit_zero: "w AND push_bit n 1 \<noteq> (0 :: u64) \<longleftrightarrow> bit w n"
  by (metis and_exp_eq_0_iff_not_bit push_bit_of_1)

lemma bit_top_iff: "bit (push_bit 63 1 :: u64) n \<longleftrightarrow> n = 63"
  by (simp only: push_bit_of_1 bit_exp_iff) auto

lemma window_sim_advance:
  assumes sim: "window_sim w H" and s: "high w < s"
    and b: "b = (if s - high w \<ge> 64 then 0 else drop_bit (unat (s - high w)) (bitmap w))"
  shows "window_sim (w\<lparr>bitmap := b OR push_bit 63 1, high := s\<rparr>) (insert s H)"
proof -
  have hi: "high w = spec_high H" and bits: "\<And>t. t \<le> high w \<Longrightarrow> unat (high w) < unat t + 64 \<Longrightarrow>
      (t \<in> H \<longleftrightarrow> bit (bitmap w) (63 - (unat (high w) - unat t)))"
    using sim by (auto simp: window_sim_def)
  have lt: "unat (high w) < unat s" using s by (simp add: word_less_nat_alt)
  have gap: "unat (s - high w) = unat s - unat (high w)"
    using s by (simp add: unat_sub order.strict_implies_order)
  have H: "t \<le> high w" if "t \<in> H" for t using that hi spec_high_ge by metis
  have "t \<in> insert s H \<longleftrightarrow> bit (b OR push_bit 63 1) (63 - (unat s - unat t))"
    if t: "t \<le> s" "unat s < unat t + 64" for t
  proof (cases "t = s")
    case True
    then show ?thesis by (simp only: bit_or_iff bit_top_iff) simp
  next
    case False
    then have "t < s" using t(1) by simp
    then have ts: "unat t < unat s" by (simp add: word_less_nat_alt)
    have top: "\<not> bit (push_bit 63 1 :: u64) (63 - (unat s - unat t))"
      using ts by (auto simp only: bit_top_iff)
    show ?thesis
    proof (cases "t \<le> high w")
      case True
      then have le: "unat t \<le> unat (high w)" by (simp add: word_le_nat_alt)
      then have "unat (s - high w) < 64" using t lt gap by simp
      then have b': "b = drop_bit (unat s - unat (high w)) (bitmap w)"
        by (simp add: b gap word_le_nat_alt)
      have "unat s - unat (high w) + (63 - (unat s - unat t)) = 63 - (unat (high w) - unat t)"
        using le lt t by simp
      then have "bit b (63 - (unat s - unat t)) \<longleftrightarrow> bit (bitmap w) (63 - (unat (high w) - unat t))"
        by (simp add: b' bit_simps)
      then show ?thesis using bits [OF True] t lt False top by (simp add: bit_or_iff)
    next
      case False
      then have "t \<notin> H" using H by blast
      moreover have "unat (high w) < unat t" using False by (simp add: word_le_nat_alt)
      then have "64 \<le> unat s - unat (high w) + (63 - (unat s - unat t))" using ts t by simp
      then have "\<not> bit b (63 - (unat s - unat t))"
        by (auto simp: b gap bit_simps dest: bit_imp_le_length)
      ultimately show ?thesis using \<open>t \<noteq> s\<close> top by (simp add: bit_or_iff)
    qed
  qed
  moreover have "spec_high (insert s H) = s" using s hi by (simp add: spec_high_insert)
  moreover have "s \<noteq> 0" using s by auto
  ultimately show ?thesis by (simp add: window_sim_def)
qed

lemma window_sim_fill:
  assumes sim: "window_sim w H" and s: "s \<le> high w" "unat (high w) < unat s + 64"
  shows "window_sim (w\<lparr>seen_zero_at_init := seen_zero_at_init w \<or> (s = 0 \<and> high w = 0),
      bitmap := bitmap w OR push_bit (63 - (unat (high w) - unat s)) 1\<rparr>) (insert s H)"
proof -
  have hi: "high w = spec_high H" and bits: "\<And>t. t \<le> high w \<Longrightarrow> unat (high w) < unat t + 64 \<Longrightarrow>
      (t \<in> H \<longleftrightarrow> bit (bitmap w) (63 - (unat (high w) - unat t)))"
    using sim by (auto simp: window_sim_def)
  have "bit (push_bit (63 - (unat (high w) - unat s)) (1 :: u64)) (63 - (unat (high w) - unat t))
      \<longleftrightarrow> t = s"
    if t: "t \<le> high w" "unat (high w) < unat t + 64" for t
  proof -
    have "unat t \<le> unat (high w)" "unat s \<le> unat (high w)" using t s by (simp_all add: word_le_nat_alt)
    then have "63 - (unat (high w) - unat t) = 63 - (unat (high w) - unat s) \<longleftrightarrow> unat t = unat s"
      using t s by linarith
    then show ?thesis by (auto simp: bit_simps word_unat_eq_iff)
  qed
  moreover have "spec_high (insert s H) = high w" using s hi by (simp add: spec_high_insert)
  ultimately show ?thesis using sim bits s hi
    by (auto simp: window_sim_def bit_or_iff)
qed

text \<open>Every call answers as the specification and keeps the relation.\<close>

lemma check_and_update_refines:
  assumes sim: "window_sim w H" and cu: "check_and_update w s = (r, w')"
  shows "spec_check H s = (r, if is_ok r then insert s H else H) \<and>
    window_sim w' (if is_ok r then insert s H else H)"
proof (cases "s > high w")
  case True
  have hi: "high w = spec_high H" using sim by (simp add: window_sim_def)
  have gap: "unat (s - high w) = unat s - unat (high w)"
    using True by (simp add: unat_sub order.strict_implies_order)
  have "s \<notin> H" using True hi spec_high_ge by (metis leD)
  moreover have "unat (high w) < unat s" using True by (simp add: word_less_nat_alt)
  moreover have "s - high w > (- 1) div 2 \<longleftrightarrow> unat s - unat (high w) \<ge> 2 ^ 63"
    unfolding half_max word_less_nat_alt gap by simp linarith
  ultimately show ?thesis
    using cu True sim hi window_sim_advance [OF sim True refl]
    by (auto simp: check_and_update_def spec_check_def WINDOW_BITS_def Let_def)
next
  case False
  then have le: "s \<le> high w" by simp
  have hi: "high w = spec_high H" using sim by (simp add: window_sim_def)
  have diff: "unat (high w - s) = unat (high w) - unat s" using le by (simp add: unat_sub)
  have len: "unat s \<le> unat (high w)" using le by (simp add: word_le_nat_alt)
  have in_win: "\<not> (high w - s \<ge> 64) \<longleftrightarrow> unat (high w) < unat s + 64"
    using len by (auto simp: word_le_nat_alt diff)
  show ?thesis
  proof (cases "unat (high w) < unat s + 64")
    case win: True
    have ix: "unat (63 - (high w - s)) = 63 - (unat (high w) - unat s)"
    proof -
      have "high w - s \<le> 63" using win len by (simp add: word_le_nat_alt diff)
      then show ?thesis by (simp add: unat_sub diff)
    qed
    have mem: "s \<in> H \<longleftrightarrow> bit (bitmap w) (63 - (unat (high w) - unat s))"
      using sim le win by (simp add: window_sim_def)
    have zero: "s = 0 \<and> high w = 0 \<Longrightarrow> seen_zero_at_init w \<longleftrightarrow> s \<in> H"
      using sim by (auto simp: window_sim_def)
    have "check_and_update w s = (if s \<in> H then (Inl (Replay s), w)
      else (Inr (), w\<lparr>seen_zero_at_init := seen_zero_at_init w \<or> (s = 0 \<and> high w = 0),
        bitmap := bitmap w OR push_bit (63 - (unat (high w) - unat s)) 1\<rparr>))"
      using False win in_win mem zero
      by (auto simp: check_and_update_def WINDOW_BITS_def Let_def ix and_exp_eq_0_iff_not_bit)
    then show ?thesis
      using cu False win sim hi window_sim_fill [OF sim le win]
      by (auto simp: spec_check_def split: if_splits)
  next
    case out: False
    then have "\<not> (s = 0 \<and> high w = 0)" by auto
    then show ?thesis using cu False out in_win sim hi
      by (auto simp: check_and_update_def spec_check_def WINDOW_BITS_def Let_def)
  qed
qed

section \<open>Runs\<close>

lemma spec_check_fresh: "fst (spec_check H s) = Inr () \<Longrightarrow> s \<notin> H"
  by (auto simp: spec_check_def split: if_splits)

lemma replay_run_sim:
  assumes "window_sim w (set acc)" "distinct acc" "replay_run w acc ss = (w', acc')"
  shows "window_sim w' (set acc') \<and> distinct acc'"
  using assms
proof (induction ss arbitrary: w acc)
  case Nil
  then show ?case by simp
next
  case (Cons s ss)
  obtain r w1 where cu: "check_and_update w s = (r, w1)" by (cases "check_and_update w s")
  note step = check_and_update_refines [OF Cons.prems(1) cu]
  show ?case
  proof (cases r)
    case (Inl e)
    then show ?thesis using Cons.IH [of w1 acc] Cons.prems step cu by simp
  next
    case (Inr u)
    then have "s \<notin> set acc" using step spec_check_fresh [of "set acc" s] by simp
    then show ?thesis using Cons.IH [of w1 "s # acc"] Cons.prems step cu Inr by simp
  qed
qed

text \<open>
  C10. The replay window never accepts a sequence number twice: whatever numbers
  arrive, in whatever order and with whatever gaps, the accepted ones are
  pairwise distinct.
\<close>

theorem replay_window_at_most_once:
  "distinct (snd (replay_run ReplayWindow_new [] ss))"
  using replay_run_sim [of ReplayWindow_new "[]" ss] window_sim_new
  by (cases "replay_run ReplayWindow_new [] ss") simp

text \<open>
  C11. The bitmap implements the set of accepted numbers: after any sequence of
  received numbers, the answer to the next one (acceptance, \<open>Replay\<close> or
  \<open>SeqGap\<close> with its payload) is the answer of the set-based specification on
  the numbers accepted so far.  In particular a number not accepted before, less
  than 64 below and less than \<open>2 ^ 63\<close> above the highest one, is accepted.
\<close>

theorem replay_window_refines_set:
  "fst (check_and_update (fst (replay_run ReplayWindow_new [] ss)) s) =
   fst (spec_check (set (snd (replay_run ReplayWindow_new [] ss))) s)"
proof -
  obtain w acc where run: "replay_run ReplayWindow_new [] ss = (w, acc)" by fastforce
  obtain r w' where "check_and_update w s = (r, w')" by fastforce
  moreover have "window_sim w (set acc)"
    using replay_run_sim [of ReplayWindow_new "[]" ss] window_sim_new run by simp
  ultimately show ?thesis using check_and_update_refines [of w "set acc" s r w'] run by simp
qed

end
