(* ===== verification/Client_Session.thy ===== *)
theory Client_Session
  imports Ws Tls Frame Control Replay
begin

text \<open>
  \<open>ullm-client/session.rs\<close>: opening a session, sending a prompt, reading the
  decrypted token chunks and the signed receipt.  The network is the record
  \<open>net\<close>: what connecting and a request-response exchange yield.  A layer verifier
  is a function.  The loop of \<open>next_token\<close> ends because every turn takes an event
  of the connection.
\<close>

section \<open>TLS pinning\<close>

record TlsPinning =
  tls_config :: ClientConfig
  tls_server_name :: string

definition TlsPinning_pin :: "kx_group list \<Rightarrow> string \<Rightarrow> bytes \<Rightarrow> TlsPinning" where
  "TlsPinning_pin pq_groups name fp =
    \<lparr>tls_config = client_config_pinned pq_groups fp [name], tls_server_name = name\<rparr>"

definition TlsPinning_pin_multi :: "kx_group list \<Rightarrow> string \<Rightarrow> bytes \<Rightarrow> string list \<Rightarrow> TlsPinning" where
  "TlsPinning_pin_multi pq_groups name fp sans =
    \<lparr>tls_config = client_config_pinned pq_groups fp sans, tls_server_name = name\<rparr>"

definition TlsPinning_pin_strict_pq :: "string \<Rightarrow> bytes \<Rightarrow> TlsPinning" where
  "TlsPinning_pin_strict_pq name fp =
    \<lparr>tls_config = client_config_pinned_strict_pq fp [name], tls_server_name = name\<rparr>"

definition TlsPinning_pin_multi_strict_pq :: "string \<Rightarrow> bytes \<Rightarrow> string list \<Rightarrow> TlsPinning" where
  "TlsPinning_pin_multi_strict_pq name fp sans =
    \<lparr>tls_config = client_config_pinned_strict_pq fp sans, tls_server_name = name\<rparr>"

section \<open>URLs and HTTP\<close>

text \<open>
  \<open>exchange\<close> is the TLS handshake if any, writing the request and reading to the
  end of the stream.
\<close>

record net =
  tcp_connect :: "string \<Rightarrow> u16 \<Rightarrow> string + unit"
  parse_server_name :: "string \<Rightarrow> string + unit"
  exchange :: "TlsPinning option \<Rightarrow> string \<Rightarrow> u16 \<Rightarrow> bytes \<Rightarrow> string + bytes"
  ws_connect :: "string \<Rightarrow> TlsPinning option \<Rightarrow> string + unit"

record ParsedUrl =
  pu_host :: string
  pu_port :: u16
  pu_path :: string

definition show_bool :: "bool \<Rightarrow> string" where
  "show_bool b = (if b then ''true'' else ''false'')"

definition parse_http_url :: "string \<Rightarrow> bool \<Rightarrow> ParsedUrl result" where
  "parse_http_url url expect_tls =
    rbind (ok_or (Transport (''bad url: '' @ url)) (split_at_pat ''://'' url)) (\<lambda>(scheme, rest).
    if \<not> (scheme = ''http'' \<and> \<not> expect_tls \<or> scheme = ''https'' \<and> expect_tls)
    then Inl (Transport (''scheme '' @ scheme @ '' does not match TLS mode '' @ show_bool expect_tls))
    else let (host_port, path) = (case split_once (CHR ''/'') rest of
                Some (hp, p) \<Rightarrow> (hp, CHR ''/'' # p)
              | None \<Rightarrow> (rest, ''/''))
    in case split_once (CHR '':'') host_port of
         Some (h, p) \<Rightarrow>
           rbind (ok_or (Transport ''bad port'') (parse_uint 16 p)) (\<lambda>port.
             Inr \<lparr>pu_host = h, pu_port = word_of_nat port, pu_path = path\<rparr>)
       | None \<Rightarrow> Inr \<lparr>pu_host = host_port, pu_port = (if scheme = ''https'' then 443 else 80), pu_path = path\<rparr>)"

definition crlf :: string where "crlf = [CHR 0x0D, CHR 0x0A]"

text \<open>The response after it was read: the body when the status line says 200.\<close>

definition http_response_body :: "bytes \<Rightarrow> bytes result" where
  "http_response_body buf =
    rbind (ok_or (Transport ''bad HTTP response'') (split_at_pat (str_bytes (crlf @ crlf)) buf))
      (\<lambda>(hd, body).
    if \<not> utf8_valid hd then Inl (Transport ''non-utf8 HTTP header'')
    else let status_line = first_line (chars hd) in
    if split_at_pat '' 200 '' status_line = None then Inl (Transport (''HTTP status: '' @ status_line))
    else Inr body)"

definition http_get :: "net \<Rightarrow> string \<Rightarrow> TlsPinning option \<Rightarrow> bytes result" where
  "http_get N url tls =
    rbind (parse_http_url url (tls \<noteq> None)) (\<lambda>parsed.
    let req = ''GET '' @ pu_path parsed @ '' HTTP/1.1'' @ crlf @ ''Host: '' @ pu_host parsed @ crlf
          @ ''Connection: close'' @ crlf @ crlf in
    rbind (map_err Transport (tcp_connect N (pu_host parsed) (pu_port parsed))) (\<lambda>_.
    rbind (case tls of
             None \<Rightarrow> Inr ()
           | Some t \<Rightarrow> map_err (\<lambda>e. Transport (''bad server_name: '' @ e))
               (parse_server_name N (tls_server_name t))) (\<lambda>_.
    rbind (map_err Transport (exchange N tls (pu_host parsed) (pu_port parsed) (str_bytes req)))
      http_response_body)))"

definition attest_url :: "codecs \<Rightarrow> string \<Rightarrow> bytes \<Rightarrow> string" where
  "attest_url J base_url nonce =
    trim_end_matches (CHR ''/'') base_url @ ''/v1/attest?nonce='' @ hex_encode J nonce"

definition fetch_bundle ::
  "'f session_lib \<Rightarrow> net \<Rightarrow> string \<Rightarrow> bytes \<Rightarrow> TlsPinning option \<Rightarrow> PreKeyBundle result" where
  "fetch_bundle L N base_url nonce tls =
    rbind (http_get N (attest_url (sl_text L) base_url nonce) tls) (\<lambda>bs.
    rbind (map_err Serde (bundle_from_bytes L bs)) (\<lambda>bundle.
    rbind (validate_structural bundle) (\<lambda>_. Inr bundle)))"

definition ws_stream_url :: "string \<Rightarrow> bool \<Rightarrow> string" where
  "ws_stream_url base0 tls =
    (let base = trim_end_matches (CHR ''/'') base0 in
     case split_at_pat ''://'' base of
       None \<Rightarrow> ''ws://'' @ base @ ''/v1/stream''
     | Some (scheme, rest) \<Rightarrow>
       let ws_scheme =
         (if (scheme = ''http'' \<or> scheme = ''ws'') \<and> \<not> tls then ''ws''
          else if (scheme = ''https'' \<or> scheme = ''wss'') \<and> tls then ''wss''
          else if tls then ''wss'' else ''ws'')
       in ws_scheme @ ''://'' @ rest @ ''/v1/stream'')"

section \<open>The connection\<close>

definition WS_READ_TIMEOUT :: nat where "WS_READ_TIMEOUT = 60"

fun read_events :: "ws_event list \<Rightarrow> bytes result \<times> ws_event list" where
  "read_events [] = (Inl (Transport ''ws ended unexpectedly''), [])"
| "read_events (WsBinary b # es) = (Inr b, es)"
| "read_events (WsPing # es) = read_events es"
| "read_events (WsPong # es) = read_events es"
| "read_events (WsClose # es) = (Inl (Transport ''ws closed''), es)"
| "read_events (WsOther d # es) = (Inl (Transport (''unexpected ws msg: '' @ d)), es)"
| "read_events (WsErr e # es) = (Inl (Transport e), es)"
| "read_events (WsIdle # es) =
    (Inl (Transport (''ws idle for '' @ dec WS_READ_TIMEOUT @ ''s '' @ em_dash @ '' peer stalled (P4-8)'')), es)"

definition read_binary :: "(('r, 'z) world_scheme, Error, bytes) smonad" where
  "read_binary w = (let (r, es) = read_events (incoming w) in (r, w\<lparr>incoming := es\<rparr>))"

text \<open>Sending has no timeout: it waits until the peer drains.\<close>

definition ws_send :: "bytes \<Rightarrow> (('r, 'z) world_scheme, Error, unit) smonad" where
  "ws_send msg w =
    (case outcome w of
       SendFailed e \<Rightarrow> (Inl (Transport e), w)
     | _ \<Rightarrow> (Inr (), push_sent msg w))"

section \<open>Session\<close>

type_synonym LayerVerifier = "bytes list \<Rightarrow> bytes list \<Rightarrow> SessionId \<Rightarrow> bytes \<Rightarrow> unit result"

record Session =
  cs_s2c :: SymRatchet
  cs_nonce_salt :: NonceSalt
  cs_epoch :: Epoch
  s2c_replay :: ReplayWindow
  cs_c2s :: SymRatchet
  cs_c2s_seq :: u64
  cs_current_root :: RootKey
  server_ratchet_pk :: bytes
  client_ratchet_sk :: bytes
  tee_id_pk :: bytes
  tee_receipt_pk :: bytes
  layer_verifier :: "LayerVerifier option"
  expected_weight_commit :: bytes

definition verify_server_hello :: "'r prims \<Rightarrow> bytes \<Rightarrow> bytes \<Rightarrow> bytes \<Rightarrow> unit result" where
  "verify_server_hello P pk pre_hash sig =
    (let payload = SIG_DOMAIN_HANDSHAKE @ pre_hash in
     if ed25519_verify P pk payload sig then Inr ()
     else Inl (AttestationFailed ''bad ServerHello signature''))"

text \<open>The clock is read twice: after the bundle was fetched and after the server hello.\<close>

definition connect_with ::
  "'r prims \<Rightarrow> 'f session_lib \<Rightarrow> net \<Rightarrow> string \<Rightarrow> bytes \<Rightarrow> bytes \<Rightarrow> bytes \<Rightarrow> TlsPinning option
   \<Rightarrow> LayerVerifier option \<Rightarrow> int \<Rightarrow> int \<Rightarrow> ('r world, Error, Session) smonad" where
  "connect_with P L N base_url trust_root receipt_pk wc tls verifier clock1 clock2 =
    sbind (draw (rng_fill P ATTESTATION_NONCE_LEN)) (\<lambda>attestation_nonce.
    sbind (slift (fetch_bundle L N base_url attestation_nonce tls)) (\<lambda>bundle.
    sbind (slift (Core.now_unix clock1)) (\<lambda>now_bundle.
    sbind (slift (verify_bundle P (sl_evidence L) bundle attestation_nonce wc trust_root
            now_bundle NONCE_TTL_DEFAULT_SEC)) (\<lambda>id_pk.
    sbind (with_rng (\<lambda>r. ClientHandshake_initiate P (sl_hello L) r bundle)) (\<lambda>(client_state, hello).
    sbind (slift (map_err Transport (ws_connect N (ws_stream_url base_url (tls \<noteq> None)) tls))) (\<lambda>_.
    sbind (ws_send hello) (\<lambda>_.
    sbind read_binary (\<lambda>server_hello.
    sbind (slift (ClientHandshake_complete P (sl_hello L) client_state server_hello
            (verify_server_hello P id_pk))) (\<lambda>keys.
    sbind (slift (decode_evidence (sl_evidence L) (ek_server_attestation_evidence keys))) (\<lambda>evidence.
    sbind (slift (Core.now_unix clock2)) (\<lambda>now_handshake.
    sbind (slift (MockVerifier_verify P \<lparr>mv_trust_root = trust_root\<rparr> evidence
            \<lparr>expected_report_data = ek_report_data keys, now_unix = now_handshake,
             max_age_sec = NONCE_TTL_DEFAULT_SEC\<rparr>)) (\<lambda>_.
    sreturn \<lparr>cs_s2c = SymRatchet_new (ek_s2c_chain keys), cs_nonce_salt = ek_nonce_salt keys,
      cs_epoch = 0, s2c_replay = ReplayWindow_new, cs_c2s = SymRatchet_new (ek_c2s_chain keys),
      cs_c2s_seq = 0, cs_current_root = ek_root keys, server_ratchet_pk = ek_server_ratchet_pk keys,
      client_ratchet_sk = chs_client_ratchet_sk client_state, tee_id_pk = id_pk,
      tee_receipt_pk = receipt_pk, layer_verifier = verifier,
      expected_weight_commit = wc\<rparr>))))))))))))"

definition connect ::
  "'r prims \<Rightarrow> 'f session_lib \<Rightarrow> net \<Rightarrow> string \<Rightarrow> bytes \<Rightarrow> bytes \<Rightarrow> bytes \<Rightarrow> TlsPinning option
   \<Rightarrow> int \<Rightarrow> int \<Rightarrow> ('r world, Error, Session) smonad" where
  "connect P L N base_url trust_root receipt_pk wc tls clock1 clock2 =
    connect_with P L N base_url trust_root receipt_pk wc tls None clock1 clock2"

definition apply_key_update :: "'r prims \<Rightarrow> bytes \<Rightarrow> Session \<Rightarrow> Session" where
  "apply_key_update P new_server_pk s =
    (let (new_root, new_keys) = DhRatchet_step P (cs_current_root s) (client_ratchet_sk s) new_server_pk
     in s\<lparr>cs_current_root := new_root, cs_s2c := SymRatchet_new (ik_s2c_chain new_keys),
          cs_c2s := SymRatchet_new (ik_c2s_chain new_keys), cs_nonce_salt := ik_nonce_salt new_keys,
          server_ratchet_pk := new_server_pk, cs_epoch := cs_epoch s + 1, cs_c2s_seq := 0,
          s2c_replay := ReplayWindow_new\<rparr>)"

record TokenStream =
  tks_session :: Session
  ended :: bool

definition session_send :: "'r prims \<Rightarrow> bytes \<Rightarrow> Session \<Rightarrow> ('r world, Error, TokenStream) smonad" where
  "session_send P prompt s =
    (let (key, ratchet) = SymRatchet_next_key P (cs_c2s s) in
     sbind (slift (encode_frame P key (cs_nonce_salt s) FT_Data 0 (cs_epoch s) (cs_c2s_seq s) prompt))
       (\<lambda>frame.
     sbind (ws_send (eo_wire frame)) (\<lambda>_.
     if cs_c2s_seq s = - 1 then sfail (Other ''c2s seq overflow'')
     else sreturn \<lparr>tks_session = s\<lparr>cs_c2s := ratchet, cs_c2s_seq := cs_c2s_seq s + 1\<rparr>, ended = False\<rparr>)))"

text \<open>Derived \<open>Debug\<close> renderings.\<close>

fun FrameType_debug :: "FrameType \<Rightarrow> string" where
  "FrameType_debug FT_Handshake = ''Handshake''"
| "FrameType_debug FT_Data = ''Data''"
| "FrameType_debug FT_Control = ''Control''"
| "FrameType_debug FT_ToolStream = ''ToolStream''"
| "FrameType_debug FT_Proof = ''Proof''"
| "FrameType_debug FT_AttestRefresh = ''AttestRefresh''"

fun join :: "string \<Rightarrow> string list \<Rightarrow> string" where
  "join sep [] = []"
| "join sep [s] = s"
| "join sep (s # t # ss) = s @ sep @ join sep (t # ss)"

fun Control_debug :: "Control \<Rightarrow> string" where
  "Control_debug (Ping ts) = ''Ping('' @ dec (unat ts) @ '')''"
| "Control_debug (Pong ts) = ''Pong('' @ dec (unat ts) @ '')''"
| "Control_debug (Cancel code) = ''Cancel { code: '' @ dec (unat code) @ '' }''"
| "Control_debug (KeyUpdate pk) =
    ''KeyUpdate { new_pk: ['' @ join '', '' (map (\<lambda>b. dec (unat b)) pk) @ ''] }''"
| "Control_debug (Control_Error code) = ''Error { code: '' @ dec (unat code) @ '' }''"
| "Control_debug (FlowCredit n) = ''FlowCredit { bytes: '' @ dec (unat n) @ '' }''"

definition epoch_debug :: "Epoch \<Rightarrow> string" where
  "epoch_debug e = ''Epoch('' @ dec (unat e) @ '')''"

text \<open>
  One turn of the loop of \<open>next_token\<close> on a message: \<open>None\<close> goes round again,
  \<open>Some r\<close> returns \<open>Ok(r)\<close>.
\<close>

definition on_plaintext ::
  "'r prims \<Rightarrow> Header \<Rightarrow> bytes \<Rightarrow> TokenStream \<Rightarrow> bytes option option result \<times> TokenStream" where
  "on_plaintext P header plaintext ts =
    (case h_frame_type header of
       FT_Data \<Rightarrow>
         let eot = (h_flags header AND END_OF_TURN = END_OF_TURN);
             ts = (if eot then ts\<lparr>ended := True\<rparr> else ts)
         in if eot \<and> plaintext = [] then (Inr (Some None), ts)
            else if \<not> utf8_valid plaintext then (Inl (Other ''non-utf8 token chunk''), ts)
            else (Inr (Some (Some plaintext)), ts)
     | FT_Control \<Rightarrow>
         (case Control_decode plaintext of
            Inl e \<Rightarrow> (Inl e, ts)
          | Inr (KeyUpdate new_pk) \<Rightarrow>
              (Inr None, ts\<lparr>tks_session := apply_key_update P new_pk (tks_session ts)\<rparr>)
          | Inr ctrl \<Rightarrow> (Inl (Other (''unexpected control frame: '' @ Control_debug ctrl)), ts))
     | other \<Rightarrow> (Inl (Other (''unexpected frame type '' @ FrameType_debug other)), ts))"

definition on_frame ::
  "'r prims \<Rightarrow> bytes \<Rightarrow> TokenStream \<Rightarrow> bytes option option result \<times> TokenStream" where
  "on_frame P msg ts =
    (let s = tks_session ts;
         (key, ratchet) = SymRatchet_next_key P (cs_s2c s);
         s = s\<lparr>cs_s2c := ratchet\<rparr>
     in case decode_frame P key (cs_nonce_salt s) msg of
       Inl e \<Rightarrow> (Inl e, ts\<lparr>tks_session := s\<rparr>)
     | Inr (header, plaintext) \<Rightarrow>
       if h_epoch header \<noteq> cs_epoch s
       then (Inl (Other (''unexpected epoch transition: got '' @ epoch_debug (h_epoch header)
              @ '', have '' @ epoch_debug (cs_epoch s))), ts\<lparr>tks_session := s\<rparr>)
       else case check_and_update (s2c_replay s) (h_seq header) of
         (Inl e, win) \<Rightarrow> (Inl e, ts\<lparr>tks_session := s\<lparr>s2c_replay := win\<rparr>\<rparr>)
       | (Inr _, win) \<Rightarrow> on_plaintext P header plaintext (ts\<lparr>tks_session := s\<lparr>s2c_replay := win\<rparr>\<rparr>))"

lemma read_events_shorter: "read_events es = (Inr b, es') \<Longrightarrow> length es' < length es"
  by (induction es rule: read_events.induct) auto

lemma read_binary_shorter:
  "read_binary w = (Inr b, w') \<Longrightarrow> length (incoming w') < length (incoming w)"
  by (auto simp: read_binary_def split: prod.splits dest: read_events_shorter)

function next_token ::
  "'r prims \<Rightarrow> TokenStream \<Rightarrow> 'r world \<Rightarrow> bytes option result \<times> TokenStream \<times> 'r world" where
  "next_token P ts w =
    (if ended ts then (Inr None, ts, w)
     else case read_binary w of
       (Inl e, w) \<Rightarrow> (Inl e, ts, w)
     | (Inr msg, w) \<Rightarrow>
       (case on_frame P msg ts of
          (Inl e, ts) \<Rightarrow> (Inl e, ts, w)
        | (Inr None, ts) \<Rightarrow> next_token P ts w
        | (Inr (Some r), ts) \<Rightarrow> (Inr r, ts, w)))"
  by pat_completeness auto

termination
  by (relation "measure (\<lambda>(P, ts, w). length (incoming w))") (auto dest: read_binary_shorter [OF sym])

declare next_token.simps [simp del]

text \<open>The conversions of a receipt's hex fields to arrays of 32 bytes.\<close>

definition hex32 :: "codecs \<Rightarrow> (string \<Rightarrow> string) \<Rightarrow> string \<Rightarrow> string \<Rightarrow> string \<Rightarrow> bytes result" where
  "hex32 J err bad short h =
    (case hex_decode J h of
       None \<Rightarrow> Inl (Other (bad @ err h))
     | Some b \<Rightarrow> if length b \<noteq> 32 then Inl (Other short) else Inr b)"

fun decode_commits :: "codecs \<Rightarrow> (string \<Rightarrow> string) \<Rightarrow> string list \<Rightarrow> bytes list result" where
  "decode_commits J err [] = Inr []"
| "decode_commits J err (h # hs) =
    rbind (hex32 J err ''bad activation commit hex: '' ''activation commit not 32 bytes'' h) (\<lambda>b.
    rbind (decode_commits J err hs) (\<lambda>bs. Inr (b # bs)))"

definition check_envelope ::
  "'r prims \<Rightarrow> 'f session_lib \<Rightarrow> Session \<Rightarrow> ReceiptEnvelope \<Rightarrow> SignedReceipt result" where
  "check_envelope P L s envelope =
    (let signed_rec = signed_receipt envelope; receipt = sr_receipt signed_rec;
         J = sl_text L; err = hex_error L in
     rbind (receipt_verify P (receipt_bytes L) signed_rec (tee_receipt_pk s)) (\<lambda>_.
     rbind (hex32 J err ''bad weight_commit_hex: '' ''weight_commit_hex is not 32 bytes''
             (weight_commit_hex receipt)) (\<lambda>wc.
     if wc \<noteq> expected_weight_commit s
     then Inl (AttestationFailed ''receipt weight commit does not match expected'')
     else rbind (case layer_verifier s of
            None \<Rightarrow> Inr ()
          | Some verify \<Rightarrow>
              rbind (decode_commits J err (activation_commits_hex receipt)) (\<lambda>commits.
                verify commits (zk_layer_proofs envelope) (r_session receipt) (expected_weight_commit s)))
       (\<lambda>_. Inr signed_rec))))"

definition finalize ::
  "'r prims \<Rightarrow> 'f session_lib \<Rightarrow> TokenStream \<Rightarrow> ('r world, Error, SignedReceipt) smonad" where
  "finalize P L ts =
    sbind read_binary (\<lambda>raw.
    sbind (slift (map_err Serde (envelope_from_bytes L raw))) (\<lambda>envelope.
    slift (check_envelope P L (tks_session ts) envelope)))"

end
