(* ===== verification/Gateway.thy ===== *)
theory Gateway
  imports Rate_Limit Log Sth Inference Client_Session
begin

text \<open>
  \<open>ullm-gateway/proxy.rs\<close>: the handlers of the gateway over its state (rate
  limiter, transparency log, cached tree head) and the HTTP request to the service
  behind it.  A handler takes the instants and the wall clock it reads and the
  outcome of its file I/O; \<open>None\<close> is a panic.  A status code is a number, and the
  body of an error response is its bytes.

  Shown: every tree head the gateway serves is signed and can be audited after
  any later crash, and a metric label cannot end early.
\<close>

section \<open>Requests\<close>

definition tenant_from_headers :: "string option \<Rightarrow> string" where
  "tenant_from_headers header =
    (let raw = (case header of None \<Rightarrow> ''anonymous'' | Some v \<Rightarrow> v) in
     if raw = [] \<or> length raw > 128 then ''anonymous''
     else if \<not> list_all (\<lambda>c. is_ascii_alphanumeric c \<or> c \<in> {CHR ''_'', CHR ''-'', CHR ''.''}) raw
     then ''anonymous'' else raw)"

definition is_hex_nonce :: "string \<Rightarrow> bool" where
  "is_hex_nonce s \<longleftrightarrow> length s = 64 \<and> list_all is_ascii_hexdigit s"

definition http_to_ws :: "string \<Rightarrow> string" where
  "http_to_ws url =
    (if starts_with ''http://'' url then ''ws://'' @ drop 7 url
     else if starts_with ''https://'' url then ''wss://'' @ drop 8 url
     else url)"

record GwUrl =
  gu_host :: string
  gu_port :: u16
  gu_path :: string

text \<open>\<open>str::parse::<u16>\<close> with the text of its error.\<close>

fun parse_u16_loop :: "nat \<Rightarrow> string \<Rightarrow> string + u16" where
  "parse_u16_loop acc [] = Inr (word_of_nat acc)"
| "parse_u16_loop acc (c # cs) =
    (case digit_val c of
       None \<Rightarrow> Inl ''invalid digit found in string''
     | Some d \<Rightarrow>
       if acc * 10 \<ge> 2 ^ 16 \<or> acc * 10 + d \<ge> 2 ^ 16
       then Inl ''number too large to fit in target type''
       else parse_u16_loop (acc * 10 + d) cs)"

definition parse_u16 :: "string \<Rightarrow> string + u16" where
  "parse_u16 s =
    (if s = [] then Inl ''cannot parse integer from empty string''
     else if s = ''+'' \<or> s = ''-'' then Inl ''invalid digit found in string''
     else parse_u16_loop 0 (if hd s = CHR ''+'' then tl s else s))"

definition parse_url :: "string \<Rightarrow> string + GwUrl" where
  "parse_url url =
    rbind (ok_or ''bad url'' (split_at_pat ''://'' url)) (\<lambda>(scheme, rest).
    let (host_port, path) = (case split_once (CHR ''/'') rest of
          Some (hp, p) \<Rightarrow> (hp, CHR ''/'' # p)
        | None \<Rightarrow> (rest, ''/''))
    in case split_once (CHR '':'') host_port of
         Some (h, p) \<Rightarrow> rbind (parse_u16 p) (\<lambda>port. Inr \<lparr>gu_host = h, gu_port = port, gu_path = path\<rparr>)
       | None \<Rightarrow> Inr \<lparr>gu_host = host_port, gu_port = 80, gu_path = path\<rparr>)"

text \<open>\<open>split_whitespace\<close> on the characters of a line; \<open>char::is_whitespace\<close>.\<close>

definition is_whitespace :: "u32 \<Rightarrow> bool" where
  "is_whitespace c \<longleftrightarrow> 9 \<le> c \<and> c \<le> 13 \<or>
    c \<in> {32, 0x85, 0xA0, 0x1680, 0x2028, 0x2029, 0x202F, 0x205F, 0x3000} \<or> 0x2000 \<le> c \<and> c \<le> 0x200A"

fun split_whitespace_from :: "u32 list \<Rightarrow> u32 list \<Rightarrow> u32 list list" where
  "split_whitespace_from w [] = (if w = [] then [] else [w])"
| "split_whitespace_from w (c # cs) =
    (if is_whitespace c then (if w = [] then [] else [w]) @ split_whitespace_from [] cs
     else split_whitespace_from (w @ [c]) cs)"

definition split_whitespace :: "u32 list \<Rightarrow> u32 list list" where
  "split_whitespace cs = split_whitespace_from [] cs"

text \<open>The text of ASCII characters; a character that is not ASCII is no digit.\<close>

definition ascii_text :: "u32 list \<Rightarrow> string option" where
  "ascii_text cs = (if list_all (\<lambda>c. c < 0x80) cs then Some (map (\<lambda>c. char_of (unat c)) cs) else None)"

definition parse_status_code :: "u32 list \<Rightarrow> u16 option" where
  "parse_status_code cs =
    (case ascii_text cs of
       None \<Rightarrow> None
     | Some s \<Rightarrow> (case parse_u16 s of Inl _ \<Rightarrow> None | Inr n \<Rightarrow> Some n))"

text \<open>The response of the service after it was read: status code and body.\<close>

definition passthrough_response :: "bytes \<Rightarrow> string + (nat \<times> bytes)" where
  "passthrough_response buf =
    rbind (ok_or ''bad HTTP response'' (split_at_pat (str_bytes (crlf @ crlf)) buf)) (\<lambda>(hd, body).
    let line = (case split_at_pat (str_bytes crlf) buf of Some (l, r) \<Rightarrow> l | None \<Rightarrow> hd) in
    if \<not> utf8_valid line then Inl ''non-utf8 HTTP status line''
    else let words = split_whitespace (chars_of line) in
    case (if 1 < length words then parse_status_code (words ! 1) else None) of
      None \<Rightarrow> Inl (''malformed HTTP status line: '' @ chars line)
    | Some code \<Rightarrow>
      if \<not> (100 \<le> code \<and> code \<le> 999) then Inl (''bad HTTP status code '' @ dec (unat code))
      else Inr (unat code, body))"

definition http_get_request :: "GwUrl \<Rightarrow> string" where
  "http_get_request u =
    ''GET '' @ gu_path u @ '' HTTP/1.1'' @ crlf @ ''Host: '' @ gu_host u @ crlf
      @ ''Connection: close'' @ crlf @ crlf"

definition http_get_passthrough :: "net \<Rightarrow> string \<Rightarrow> string + (nat \<times> bytes)" where
  "http_get_passthrough N url =
    rbind (parse_url url) (\<lambda>u.
    rbind (tcp_connect N (gu_host u) (gu_port u)) (\<lambda>_.
    rbind (exchange N None (gu_host u) (gu_port u) (str_bytes (http_get_request u)))
      passthrough_response))"

section \<open>Handlers\<close>

definition STH_CACHE_TTL :: nat where "STH_CACHE_TTL = 10 ^ 9"

record GatewayState =
  tee_base_url :: string
  rate_limiter :: RateLimiter
  transparency :: LogState
  logger_signing_key :: bytes
  gw_log_id :: string
  sth_cache :: "(SignedTreeHead \<times> instant) option"

text \<open>The libraries: \<open>hex\<close> and JSON, the entry codec, and the texts of I/O errors.\<close>

record gw_lib =
  gl_text :: codecs
  gl_entry :: entry_codec
  io_error_text :: "IoError \<Rightarrow> string"

type_synonym http_error = "nat \<times> bytes"

definition proxy_attest ::
  "'r prims \<Rightarrow> gw_lib \<Rightarrow> net \<Rightarrow> instant \<Rightarrow> int \<Rightarrow> append_io \<Rightarrow> string \<Rightarrow> string option \<Rightarrow> GatewayState
   \<Rightarrow> (http_error + bytes) option \<times> GatewayState" where
  "proxy_attest P G N now clock io nonce header st =
    (let tenant = tenant_from_headers header in
     case try_charge now tenant 4096 (rate_limiter st) of
       None \<Rightarrow> (None, st)
     | Some (ok, rl) \<Rightarrow>
       let st = st\<lparr>rate_limiter := rl\<rparr> in
       if \<not> ok then (Some (Inl (429, str_bytes ''rate limit'')), st)
       else if \<not> is_hex_nonce nonce then (Some (Inl (400, str_bytes ''nonce must be 64 hex chars'')), st)
       else
         let url = trim_end_matches (CHR ''/'') (tee_base_url st) @ ''/v1/attest?nonce='' @ nonce in
         case http_get_passthrough N url of
           Inl e \<Rightarrow> (Some (Inl (502, str_bytes e)), st)
         | Inr (status, bs) \<Rightarrow>
           if \<not> (200 \<le> status \<and> status < 300) then (Some (Inl (status, from_utf8_lossy bs)), st)
           else if length bs \<ge> 32 then
             (case Core.now_unix clock of
                Inl e \<Rightarrow> (Some (Inl (500, str_bytes (''transparency log timestamp unavailable: ''
                   @ Error_display e))), st)
              | Inr t \<Rightarrow>
                (case log_append P (gl_text G) (gl_entry G) (take 32 bs) bs t io (transparency st) of
                   (Inl e, lg) \<Rightarrow> (Some (Inl (500, str_bytes (''transparency log: '' @ io_error_text G e))),
                                   st\<lparr>transparency := lg\<rparr>)
                 | (Inr _, lg) \<Rightarrow> (Some (Inr bs), st\<lparr>transparency := lg\<rparr>)))
           else (Some (Inr bs), st))"

definition transparency_head ::
  "'r prims \<Rightarrow> gw_lib \<Rightarrow> instant \<Rightarrow> int \<Rightarrow> bool \<Rightarrow> instant \<Rightarrow> GatewayState
   \<Rightarrow> (http_error + SignedTreeHead) \<times> GatewayState" where
  "transparency_head P G now clock flush_ok now' st =
    (let cached = (case sth_cache st of
           None \<Rightarrow> None
         | Some (sth, signed_at) \<Rightarrow> if duration_since now signed_at < STH_CACHE_TTL then Some sth else None)
     in case cached of
       Some sth \<Rightarrow> (Inr sth, st)
     | None \<Rightarrow>
       (case log_flush flush_ok (transparency st) of
          (Inl e, lg) \<Rightarrow> (Inl (500, str_bytes (''flush: '' @ io_error_text G e)), st\<lparr>transparency := lg\<rparr>)
        | (Inr _, lg) \<Rightarrow>
          let st = st\<lparr>transparency := lg\<rparr>;
              status = log_status P (gl_text G) lg;
              hd = \<lparr>th_size = ls_size status, root_hex = ls_root_hex status,
                    issued_at_unix = now_unix_or_zero clock, log_id = gw_log_id st\<rparr>;
              sth = SignedTreeHead_sign P (gl_text G) hd (logger_signing_key st)
          in (Inr sth, st\<lparr>sth_cache := Some (sth, now')\<rparr>)))"

definition transparency_status :: "'r prims \<Rightarrow> gw_lib \<Rightarrow> GatewayState \<Rightarrow> LogStatus" where
  "transparency_status P G st = log_status P (gl_text G) (transparency st)"

definition transparency_log :: "GatewayState \<Rightarrow> LogEntry list" where
  "transparency_log st = log_snapshot (transparency st)"

definition transparency_proof ::
  "'r prims \<Rightarrow> gw_lib \<Rightarrow> u64 \<Rightarrow> GatewayState \<Rightarrow> http_error + InclusionProof" where
  "transparency_proof P G seq st =
    (let es = log_snapshot (transparency st) in
     ok_or (404, str_bytes (''seq '' @ dec (unat seq) @ '' out of range (size='' @ dec (length es) @ '')''))
       (InclusionProof_build P (gl_text G) es seq))"

definition proxy_devkeys :: "net \<Rightarrow> GatewayState \<Rightarrow> http_error + (nat \<times> bytes)" where
  "proxy_devkeys N st =
    map_err (\<lambda>e. (502, str_bytes e))
      (http_get_passthrough N (trim_end_matches (CHR ''/'') (tee_base_url st) @ ''/v1/devkeys''))"

section \<open>Metrics\<close>

definition gw_parse_bearer_credential :: "string \<Rightarrow> string option" where
  "gw_parse_bearer_credential s =
    (let trimmed = trim_start s;
         scheme = takeWhile (\<lambda>c. \<not> is_ascii_whitespace_char c) trimmed;
         rest = dropWhile (\<lambda>c. \<not> is_ascii_whitespace_char c) trimmed
     in if \<not> eq_ignore_ascii_case scheme ''Bearer'' then None
        else case rest of [] \<Rightarrow> None | _ # cred \<Rightarrow> Some (trim_start cred))"

definition gw_metrics_auth_gate :: "string \<Rightarrow> string option \<Rightarrow> bool" where
  "gw_metrics_auth_gate token auth =
    (let presented = (case Option.bind auth gw_parse_bearer_credential of None \<Rightarrow> [] | Some c \<Rightarrow> c)
     in presented = token)"

text \<open>\<open>char::is_control\<close> is the general category Cc.\<close>

definition is_control :: "u32 \<Rightarrow> bool" where
  "is_control c \<longleftrightarrow> c < 0x20 \<or> 0x7F \<le> c \<and> c < 0xA0"

definition is_format_char :: "u32 \<Rightarrow> bool" where
  "is_format_char c \<longleftrightarrow> c = 0xFEFF \<or> 0x200B \<le> c \<and> c \<le> 0x200F \<or> 0x202A \<le> c \<and> c \<le> 0x202E \<or>
    0x2066 \<le> c \<and> c \<le> 0x2069"

definition hex_bytes :: "nat \<Rightarrow> u32 \<Rightarrow> bytes" where
  "hex_bytes w c = str_bytes (map (\<lambda>i. digit_char (unat c div 16 ^ (w - Suc i) mod 16)) [0..<w])"

definition sanitize_char :: "bytes \<Rightarrow> bytes" where
  "sanitize_char ch =
    (let c = code_point ch in
     if c = 92 then [92, 92]
     else if c = 34 then [92, 34]
     else if c = 10 then [92, 110]
     else if c = 13 then [92, 114]
     else if is_control c then [92, 120] @ hex_bytes 2 c
     else if is_format_char c then [92, 117] @ hex_bytes 4 c
     else ch)"

function sanitize_metric_label :: "bytes \<Rightarrow> bytes" where
  "sanitize_metric_label bs =
    (if bs = [] then []
     else sanitize_char (take (fst (utf8_step bs)) bs) @ sanitize_metric_label (drop (fst (utf8_step bs)) bs))"
  by pat_completeness auto

termination
  by (relation "measure length") (auto simp: utf8_step_pos)

declare sanitize_metric_label.simps [simp del]

definition metrics_body :: "'r prims \<Rightarrow> gw_lib \<Rightarrow> GatewayState \<Rightarrow> bytes" where
  "metrics_body P G st =
    (let log_size = ls_size (log_status P (gl_text G) (transparency st));
         bucket_count = rl_tenant_count (rate_limiter st);
         nl = [CHR 0x0A]
     in str_bytes (
          ''# HELP ullm_gateway_protocol_version Wire protocol version this binary speaks.'' @ nl
        @ ''# TYPE ullm_gateway_protocol_version gauge'' @ nl
        @ ''ullm_gateway_protocol_version '' @ dec (unat PROTOCOL_VERSION) @ nl
        @ ''# HELP ullm_gateway_transparency_log_size Append-only count of entries in the transparency log.'' @ nl
        @ ''# TYPE ullm_gateway_transparency_log_size gauge'' @ nl
        @ ''ullm_gateway_transparency_log_size{log_id='' @ [CHR 34])
        @ sanitize_metric_label (str_bytes (gw_log_id st))
        @ str_bytes ([CHR 34] @ ''} '' @ dec (unat log_size) @ nl
        @ ''# HELP ullm_gateway_rate_limiter_buckets Live tenant bucket count.'' @ nl
        @ ''# TYPE ullm_gateway_rate_limiter_buckets gauge'' @ nl
        @ ''ullm_gateway_rate_limiter_buckets '' @ dec bucket_count @ nl))"

text \<open>A reader of the exposition format takes a label value up to the first bare quote.\<close>

fun label_value :: "bytes \<Rightarrow> (bytes \<times> bytes) option" where
  "label_value [] = None"
| "label_value (b # bs) =
    (if b = 34 then Some ([], bs)
     else if b = 92 then
       (case bs of
          [] \<Rightarrow> None
        | c # cs \<Rightarrow> map_option (\<lambda>(v, r). (b # c # v, r)) (label_value cs))
     else map_option (\<lambda>(v, r). (b # v, r)) (label_value bs))"

definition plain_byte :: "u8 \<Rightarrow> bool" where
  "plain_byte b \<longleftrightarrow> b \<noteq> 34 \<and> b \<noteq> 92 \<and> 32 \<le> b \<and> b \<noteq> 127"

lemma label_value_plain:
  "list_all plain_byte v \<Longrightarrow> label_value (v @ bs) = map_option (\<lambda>(w, r). (v @ w, r)) (label_value bs)"
  by (cases "label_value bs"; induction v) (auto simp: plain_byte_def)

lemma plain_byte_unat: "plain_byte b \<longleftrightarrow> unat b \<noteq> 34 \<and> unat b \<noteq> 92 \<and> 32 \<le> unat b \<and> unat b \<noteq> 127"
  by (simp add: plain_byte_def word_unat_eq_iff word_le_nat_alt)

lemma digit_char_byte: "d < 16 \<Longrightarrow> plain_byte (word_of_nat (of_char (digit_char d)))"
  by (simp add: plain_byte_unat digit_char_def unat_of_nat)

lemma hex_bytes_plain: "list_all plain_byte (hex_bytes w c)"
  by (auto simp: hex_bytes_def str_bytes_def list_all_iff intro!: digit_char_byte)

text \<open>A character of two or more bytes has no ASCII byte.\<close>

lemma utf8_char_bytes:
  assumes "bs \<noteq> []" "snd (utf8_step bs)"
  shows "take (fst (utf8_step bs)) bs = [hd bs] \<or> (\<forall>b \<in> set (take (fst (utf8_step bs)) bs). 0x80 \<le> b)"
proof (cases "hd bs < 0x80")
  case True
  then show ?thesis using assms(1) by (cases bs) (simp_all add: utf8_step_def safe_get_def)
next
  case False
  have "0x80 \<le> b" if b: "b \<in> set (take (fst (utf8_step bs)) bs)" for b
  proof -
    obtain i where i: "i < fst (utf8_step bs)" "i < length bs" "b = bs ! i"
      using b by (auto simp: in_set_conv_nth)
    show ?thesis
    proof (cases "i = 0")
      case True
      then show ?thesis using i False assms(1) by (simp add: hd_conv_nth)
    next
      case nz: False
      then show ?thesis using utf8_step_cont [OF assms _ i(1)] i by (simp add: is_cont_def)
    qed
  qed
  then show ?thesis by blast
qed

lemma label_value_sanitize_char:
  assumes "ch = [a] \<or> (\<forall>b \<in> set ch. 0x80 \<le> b)"
  shows "label_value (sanitize_char ch @ bs) = map_option (\<lambda>(w, r). (sanitize_char ch @ w, r)) (label_value bs)"
proof -
  have plain: "list_all plain_byte ch"
    if "code_point ch \<noteq> 92" "code_point ch \<noteq> 34" "\<not> is_control (code_point ch)"
    using assms
  proof
    assume ch: "ch = [a]"
    have "unat (ucast a :: u32) = unat a" 
    proof -
      have "unat a < 2 ^ 32" by (rule order.strict_trans2 [OF unat_lt2p]) simp
      then show ?thesis by (simp add: unsigned_ucast_eq take_bit_nat_eq_self)
    qed
    then show ?thesis
      using that by (simp add: ch code_point_def is_control_def plain_byte_unat word_unat_eq_iff
          word_less_nat_alt word_le_nat_alt) linarith
  next
    assume "\<forall>b \<in> set ch. 0x80 \<le> b"
    then show ?thesis by (auto simp: list_all_iff plain_byte_unat word_le_nat_alt)
  qed
  show ?thesis
    using label_value_plain [OF plain]
    by (cases "label_value bs") (auto simp: sanitize_char_def Let_def label_value_plain [OF hex_bytes_plain])
qed

text \<open>The value a reader takes from the exposition is the sanitized identifier, up to its own quote.\<close>

lemma metric_label_closed:
  "utf8_valid s \<Longrightarrow> label_value (sanitize_metric_label s @ 34 # rest) = Some (sanitize_metric_label s, rest)"
proof (induction s rule: sanitize_metric_label.induct)
  case (1 s)
  show ?case
  proof (cases "s = []")
    case True
    then show ?thesis by (simp add: sanitize_metric_label.simps)
  next
    case False
    then have v: "snd (utf8_step s)" "utf8_valid (drop (fst (utf8_step s)) s)"
      using 1(2) utf8_valid_step by blast+
    show ?thesis
      using False 1(1) [OF False v(2)] label_value_sanitize_char [OF utf8_char_bytes [OF False v(1)]]
      by (simp add: sanitize_metric_label.simps [of s])
  qed
qed

section \<open>Served tree heads\<close>

text \<open>Requests to the gateway, with what they meet, and runs of them.\<close>

datatype gw_request =
    ReqAttest net instant int append_io string "string option"
  | ReqHead instant int bool instant
  | ReqProof u64

datatype gw_response =
    RespAttest "(http_error + bytes) option"
  | RespHead "http_error + SignedTreeHead"
  | RespProof "http_error + InclusionProof"

fun gw_step :: "'r prims \<Rightarrow> gw_lib \<Rightarrow> gw_request \<Rightarrow> GatewayState \<Rightarrow> gw_response \<times> GatewayState" where
  "gw_step P G (ReqAttest N now clock io nonce header) st =
    (let (r, st) = proxy_attest P G N now clock io nonce header st in (RespAttest r, st))"
| "gw_step P G (ReqHead now clock ok now') st =
    (let (r, st) = transparency_head P G now clock ok now' st in (RespHead r, st))"
| "gw_step P G (ReqProof seq) st = (RespProof (transparency_proof P G seq st), st)"

fun gw_run :: "'r prims \<Rightarrow> gw_lib \<Rightarrow> gw_request list \<Rightarrow> GatewayState \<Rightarrow> gw_response list \<times> GatewayState" where
  "gw_run P G [] st = ([], st)"
| "gw_run P G (q # qs) st =
    (let (r, st) = gw_step P G q st; (rs, st) = gw_run P G qs st in (r # rs, st))"

fun writes_succeed :: "gw_request \<Rightarrow> bool" where
  "writes_succeed (ReqAttest N now clock io nonce header) \<longleftrightarrow> io = io_good"
| "writes_succeed _ \<longleftrightarrow> True"

definition head_of :: "'r prims \<Rightarrow> gw_lib \<Rightarrow> GatewayState \<Rightarrow> LogEntry list \<Rightarrow> u64 \<Rightarrow> SignedTreeHead" where
  "head_of P G st es t =
    SignedTreeHead_sign P (gl_text G)
      \<lparr>th_size = word_of_nat (length es), root_hex = hex_encode (gl_text G) (merkle_root P (gl_text G) es),
       issued_at_unix = t, log_id = gw_log_id st\<rparr> (logger_signing_key st)"

definition backed :: "'r prims \<Rightarrow> gw_lib \<Rightarrow> GatewayState \<Rightarrow> SignedTreeHead \<Rightarrow> bool" where
  "backed P G st sth \<longleftrightarrow> (\<exists>es t. sth = head_of P G st es t \<and> durable (gl_entry G) es (transparency st))"

definition gw_inv :: "'r prims \<Rightarrow> gw_lib \<Rightarrow> GatewayState \<Rightarrow> bool" where
  "gw_inv P G st \<longleftrightarrow> log_wf (gl_entry G) (transparency st) \<and>
    (\<forall>sth t. sth_cache st = Some (sth, t) \<longrightarrow> backed P G st sth)"

lemma proxy_attest_log:
  assumes "proxy_attest P G N now clock io nonce header st = (r, st')"
  shows "sth_cache st' = sth_cache st \<and> gw_log_id st' = gw_log_id st \<and>
    logger_signing_key st' = logger_signing_key st \<and>
    (transparency st' = transparency st \<or>
     (\<exists>bs t s. 32 \<le> length bs \<and>
       log_append P (gl_text G) (gl_entry G) (take 32 bs) bs t io (transparency st) = (s, transparency st')))"
  using assms unfolding proxy_attest_def Let_def
  by (auto split: option.splits prod.splits if_splits sum.splits)

lemma backed_keep:
  assumes "backed P G st sth" "gw_log_id st' = gw_log_id st" "logger_signing_key st' = logger_signing_key st"
    and "\<And>es. durable (gl_entry G) es (transparency st) \<Longrightarrow> durable (gl_entry G) es (transparency st')"
  shows "backed P G st' sth"
  using assms unfolding backed_def head_of_def by metis

lemma gw_step_inv:
  assumes "entry_codec_law (gl_entry G)" "sha2_law P" "hex_text_law (gl_text G)"
    and "gw_inv P G st" "writes_succeed q" "gw_step P G q st = (r, st')"
  shows "gw_inv P G st'" "\<And>sth. backed P G st sth \<Longrightarrow> backed P G st' sth"
    "\<And>sth. r = RespHead (Inr sth) \<Longrightarrow> backed P G st' sth"
    "gw_log_id st' = gw_log_id st" "logger_signing_key st' = logger_signing_key st"
    "length (entries (transparency st')) \<le> Suc (length (entries (transparency st)))"
proof -
  let ?C = "gl_entry G" and ?lg = "transparency st" and ?lg' = "transparency st'"
  have inv: "log_wf ?C ?lg" and cache: "\<And>sth t. sth_cache st = Some (sth, t) \<Longrightarrow> backed P G st sth"
    using assms(4) by (auto simp: gw_inv_def)
  have "gw_log_id st' = gw_log_id st \<and> logger_signing_key st' = logger_signing_key st \<and> log_wf ?C ?lg' \<and>
    (\<forall>es. durable ?C es ?lg \<longrightarrow> durable ?C es ?lg') \<and> length (entries ?lg') \<le> Suc (length (entries ?lg)) \<and>
    (\<forall>sth t. sth_cache st' = Some (sth, t) \<longrightarrow> sth_cache st = Some (sth, t) \<or> backed P G st' sth) \<and>
    (\<forall>sth. r = RespHead (Inr sth) \<longrightarrow> (\<exists>t. sth_cache st = Some (sth, t)) \<or> backed P G st' sth)"
  proof (cases q)
    case (ReqAttest N now clock io nonce header)
    obtain x st2 where x: "proxy_attest P G N now clock io nonce header st = (x, st2)" by fastforce
    then have pa: "proxy_attest P G N now clock io nonce header st = (x, st')" and r: "r = RespAttest x"
      and io: "io = io_good"
      using assms(5,6) ReqAttest by simp_all
    note log = proxy_attest_log [OF pa]
    show ?thesis
    proof (cases "?lg' = ?lg")
      case True
      then show ?thesis using log inv r by auto
    next
      case False
      then obtain bs t s where ap: "log_append P (gl_text G) ?C (take 32 bs) bs t io_good ?lg = (s, ?lg')"
        "32 \<le> length bs"
        using log io by blast
      have "plain_entry (LogEntry_from_evidence P (gl_text G) (word_of_nat (length (entries ?lg))) (take 32 bs) bs t)"
        using plain_from_evidence [OF assms(2,3)] ap(2) by simp
      note st = append_wf [OF assms(1) inv refl this ap(1)]
      show ?thesis using st log r by auto
    qed
  next
    case (ReqHead now clock ok now')
    obtain x st2 where x: "transparency_head P G now clock ok now' st = (x, st2)" by fastforce
    then have th: "transparency_head P G now clock ok now' st = (x, st')" and r: "r = RespHead x"
      using assms(6) ReqHead by simp_all
    obtain y lg where fl: "log_flush ok ?lg = (y, lg)" by fastforce
    note fs = flush_wf [OF inv fl]
    show ?thesis
      using th inv fs r unfolding transparency_head_def Let_def fl
      by (auto simp: backed_def head_of_def log_status_def split: option.splits prod.splits if_splits sum.splits
          intro!: exI [of _ "entries ?lg"] exI [of _ "now_unix_or_zero clock"])
  next
    case (ReqProof seq)
    then show ?thesis using assms(6) inv by auto
  qed
  then have keep: "gw_log_id st' = gw_log_id st" "logger_signing_key st' = logger_signing_key st"
    "log_wf ?C ?lg'" "\<And>es. durable ?C es ?lg \<Longrightarrow> durable ?C es ?lg'"
    "length (entries ?lg') \<le> Suc (length (entries ?lg))"
    and new: "\<And>sth t. sth_cache st' = Some (sth, t) \<Longrightarrow> sth_cache st = Some (sth, t) \<or> backed P G st' sth"
    "\<And>sth. r = RespHead (Inr sth) \<Longrightarrow> (\<exists>t. sth_cache st = Some (sth, t)) \<or> backed P G st' sth"
    by blast+
  have b: "backed P G st' sth" if "backed P G st sth" for sth
    using backed_keep [OF that keep(1,2,4)] .
  show "gw_inv P G st'" unfolding gw_inv_def using keep(3) new(1) cache b by blast
  show "\<And>sth. backed P G st sth \<Longrightarrow> backed P G st' sth" by (rule b)
  show "\<And>sth. r = RespHead (Inr sth) \<Longrightarrow> backed P G st' sth" using new(2) cache b by blast
  show "gw_log_id st' = gw_log_id st" "logger_signing_key st' = logger_signing_key st"
    "length (entries ?lg') \<le> Suc (length (entries ?lg))" by (fact keep)+
qed

lemma gw_run_backed:
  assumes "entry_codec_law (gl_entry G)" "sha2_law P" "hex_text_law (gl_text G)"
    and "gw_inv P G st" "list_all writes_succeed qs" "gw_run P G qs st = (rs, st')"
  shows "gw_inv P G st'" "\<And>sth. backed P G st sth \<Longrightarrow> backed P G st' sth"
    "\<And>sth. RespHead (Inr sth) \<in> set rs \<Longrightarrow> backed P G st' sth"
    "gw_log_id st' = gw_log_id st" "logger_signing_key st' = logger_signing_key st"
    "length (entries (transparency st')) \<le> length (entries (transparency st)) + length qs"
  using assms(4-)
proof (atomize (full), induction qs arbitrary: st rs)
  case (Cons q qs)
  obtain r st1 where 1: "gw_step P G q st = (r, st1)" by fastforce
  obtain rs1 st2 where 2: "gw_run P G qs st1 = (rs1, st2)" by fastforce
  have eq: "rs = r # rs1" "st' = st2" using Cons.prems(3) 1 2 by simp_all
  have ws: "writes_succeed q" "list_all writes_succeed qs" using Cons.prems(2) by simp_all
  note step = gw_step_inv [OF assms(1-3) Cons.prems(1) ws(1) 1]
  note IH = Cons.IH [OF step(1) ws(2), of rs1, unfolded eq, OF 2]
  show ?case using IH step unfolding eq by (auto simp: eq)
qed simp

lemma head_of_audit:
  assumes "sha2_law P" "hex_law (gl_text G)" "ed25519_law P" "length es < 2 ^ 64" "i < length es"
  shows "\<exists>pf. InclusionProof_build P (gl_text G) es (word_of_nat i) = Some pf \<and>
    verify_inclusion_against_head P (gl_text G) (head_of P G st es t) pf (es ! i) None (Some (gw_log_id st)) = Inr ()"
proof -
  have i: "unat (word_of_nat i :: u64) = i" using assms(4,5) by (simp add: unat_of_nat)
  then obtain pf where pf: "InclusionProof_build P (gl_text G) es (word_of_nat i) = Some pf"
    using build_Some [of "word_of_nat i" es] assms(5) by auto
  have "ip_tree_size pf = word_of_nat (length es)"
    using pf by (auto simp: InclusionProof_build_def Let_def split: if_splits)
  moreover have "SignedTreeHead_verify P (gl_text G) (head_of P G st es t)"
    unfolding head_of_def by (rule sign_verify_sth [OF assms(3)])
  ultimately show ?thesis
    using pf build_verifies [OF assms(1,2) pf] assms(1,2) i unfolding audit_ok_iff
    by (auto simp: head_of_def SignedTreeHead_sign_def Let_def)
qed


definition sample_gw_lib :: gw_lib where
  "sample_gw_lib = \<lparr>gl_text = model_codecs, gl_entry = model_entry_codec, io_error_text = (\<lambda>_. [])\<rparr>"

definition sample_gateway :: GatewayState where
  "sample_gateway =
    \<lparr>tee_base_url = ''http://tee'', rate_limiter = RateLimiter_new RateLimiterConfig_default,
     transparency = set_fsync_policy (Periodic 8)
       \<lparr>entries = [], log_file = Some \<lparr>content = [], synced = 0\<rparr>, appends_since_sync = 0, fsync_policy = Always\<rparr>,
     logger_signing_key = [1], gw_log_id = ''log'', sth_cache = None\<rparr>"

definition sample_tee :: net where
  "sample_tee = \<lparr>tcp_connect = (\<lambda>_ _. Inr ()), parse_server_name = (\<lambda>_. Inr ()),
    exchange = (\<lambda>_ _ _ _. Inr (str_bytes (''HTTP/1.1 200 OK'' @ crlf @ crlf) @ replicate 40 1)),
    ws_connect = (\<lambda>_ _. Inr ())\<rparr>"


end
