(* ===== verification/Relay.thy ===== *)
theory Relay
  imports Gateway
begin

text \<open>
  The WebSocket relay of \<open>ullm-gateway/proxy.rs\<close>.  The two directions run as two
  tasks under \<open>try_join!\<close>; the state holds what each side will still deliver,
  what was sent on, and the rate limiter both directions share with every other
  connection of the gateway.  One step of \<open>relay_step\<close> is one turn of the loop of
  a direction, with the instant it reads and what becomes of its send, or a charge
  by another connection.  The relay ends when both directions ended or one failed.

  Shown: what was sent on in each direction is, message for message and in order,
  a prefix of what came in, and the bytes sent on are within the rate limit.
\<close>

section \<open>Messages\<close>

type_synonym close_frame = "u16 \<times> bytes"

datatype Message =
    MText bytes | MBinary bytes | MPing bytes | MPong bytes | MClose "close_frame option"

datatype TMsg =
    TText bytes | TBinary bytes | TPing bytes | TPong bytes | TClose "close_frame option" | TFrame bytes

fun msg_len :: "Message \<Rightarrow> nat" where
  "msg_len (MText s) = length s"
| "msg_len (MBinary b) = length b"
| "msg_len _ = 0"

fun tmsg_len :: "TMsg \<Rightarrow> nat" where
  "tmsg_len (TText s) = length s"
| "tmsg_len (TBinary b) = length b"
| "tmsg_len _ = 0"

fun translate_axum_to_tungstenite :: "Message \<Rightarrow> TMsg" where
  "translate_axum_to_tungstenite (MText s) = TText s"
| "translate_axum_to_tungstenite (MBinary b) = TBinary b"
| "translate_axum_to_tungstenite (MPing b) = TPing b"
| "translate_axum_to_tungstenite (MPong b) = TPong b"
| "translate_axum_to_tungstenite (MClose c) = TClose c"

fun translate_tungstenite_to_axum :: "TMsg \<Rightarrow> Message" where
  "translate_tungstenite_to_axum (TText s) = MText s"
| "translate_tungstenite_to_axum (TBinary b) = MBinary b"
| "translate_tungstenite_to_axum (TPing b) = MPing b"
| "translate_tungstenite_to_axum (TPong b) = MPong b"
| "translate_tungstenite_to_axum (TClose c) = MClose c"
| "translate_tungstenite_to_axum (TFrame b) = MClose None"

definition is_close :: "Message \<Rightarrow> bool" where "is_close m \<longleftrightarrow> (\<exists>c. m = MClose c)"
definition is_tclose :: "TMsg \<Rightarrow> bool" where "is_tclose m \<longleftrightarrow> (\<exists>c. m = TClose c)"

lemma is_close_code [code]:
  "is_close m \<longleftrightarrow> (case m of MClose _ \<Rightarrow> True | _ \<Rightarrow> False)"
  "is_tclose t \<longleftrightarrow> (case t of TClose _ \<Rightarrow> True | _ \<Rightarrow> False)"
  by (auto simp: is_close_def is_tclose_def split: Message.splits TMsg.splits)

section \<open>The two directions\<close>

datatype direction = Running | Finished | Failed string | Panicked

record relay_state =
  c_rx :: "(string + Message) list"
  u_rx :: "(string + TMsg) list"
  u_tx :: "TMsg list"
  c_tx :: "Message list"
  c_to_u :: direction
  u_to_c :: direction
  limiter :: RateInner

definition relay_url :: "string \<Rightarrow> string" where
  "relay_url base = http_to_ws (trim_end_matches (CHR ''/'') base @ ''/v1/stream'')"

text \<open>The charge of a message before it is sent on: whether it passes, \<open>None\<close> for a panic.\<close>

definition charge_msg ::
  "RateLimiterConfig \<Rightarrow> string \<Rightarrow> instant \<Rightarrow> nat \<Rightarrow> RateInner \<Rightarrow> bool option \<times> RateInner" where
  "charge_msg cfg tenant now n inn =
    (if n = 0 then (Some True, inn)
     else case try_charge_inner cfg now tenant (word_of_nat n) inn of
       None \<Rightarrow> (None, inn)
     | Some (ok, inn) \<Rightarrow> (Some ok, inn))"

text \<open>
  One turn of the loop of a direction, on what it will still receive, what it has
  sent, and the limiter: the loop reads, charges, translates and sends; a close
  message ends it after it was sent.
\<close>

definition relay_turn ::
  "RateLimiterConfig \<Rightarrow> string \<Rightarrow> string \<Rightarrow> ('m \<Rightarrow> nat) \<Rightarrow> ('m \<Rightarrow> 'n) \<Rightarrow> ('n \<Rightarrow> bool) \<Rightarrow> instant \<Rightarrow> string option
   \<Rightarrow> (string + 'm) list \<Rightarrow> 'n list \<Rightarrow> RateInner \<Rightarrow> (string + 'm) list \<times> 'n list \<times> RateInner \<times> direction" where
  "relay_turn cfg tenant way len translate closes now send_error rx tx inn =
    (case rx of
       [] \<Rightarrow> ([], tx, inn, Finished)
     | Inl e # ms \<Rightarrow> (ms, tx, inn, Failed e)
     | Inr msg # ms \<Rightarrow>
       let (ok, inn) = charge_msg cfg tenant now (len msg) inn
       in if ok = None then (ms, tx, inn, Panicked)
          else if ok = Some False then (ms, tx, inn, Failed (''tenant '' @ tenant @ '' rate-limited '' @ way))
          else let translated = translate msg in
            (case send_error of
               Some e \<Rightarrow> (ms, tx, inn, Failed e)
             | None \<Rightarrow> (ms, tx @ [translated], inn, if closes translated then Finished else Running)))"

definition c_to_u_turn ::
  "RateLimiterConfig \<Rightarrow> string \<Rightarrow> instant \<Rightarrow> string option \<Rightarrow> relay_state \<Rightarrow> relay_state" where
  "c_to_u_turn cfg tenant now send_error s =
    (let (rx, tx, inn, d) = relay_turn cfg tenant ''inbound'' msg_len translate_axum_to_tungstenite is_tclose
           now send_error (c_rx s) (u_tx s) (limiter s)
     in s\<lparr>c_rx := rx, u_tx := tx, limiter := inn, c_to_u := d\<rparr>)"

definition u_to_c_turn ::
  "RateLimiterConfig \<Rightarrow> string \<Rightarrow> instant \<Rightarrow> string option \<Rightarrow> relay_state \<Rightarrow> relay_state" where
  "u_to_c_turn cfg tenant now send_error s =
    (let (rx, tx, inn, d) = relay_turn cfg tenant ''outbound'' tmsg_len translate_tungstenite_to_axum is_close
           now send_error (u_rx s) (c_tx s) (limiter s)
     in s\<lparr>u_rx := rx, c_tx := tx, limiter := inn, u_to_c := d\<rparr>)"

text \<open>\<open>try_join!\<close> stops at the first failure or panic.\<close>

definition relay_live :: "relay_state \<Rightarrow> bool" where
  "relay_live s \<longleftrightarrow> c_to_u s \<in> {Running, Finished} \<and> u_to_c s \<in> {Running, Finished}"

inductive relay_step ::
  "RateLimiterConfig \<Rightarrow> string \<Rightarrow> instant \<times> relay_state \<Rightarrow> instant \<times> relay_state \<Rightarrow> bool"
  for cfg :: RateLimiterConfig and tenant :: string
where
  client_turn: "relay_live s \<Longrightarrow> c_to_u s = Running \<Longrightarrow> t \<le> now \<Longrightarrow>
    relay_step cfg tenant (t, s) (now, c_to_u_turn cfg tenant now e s)"
| upstream_turn: "relay_live s \<Longrightarrow> u_to_c s = Running \<Longrightarrow> t \<le> now \<Longrightarrow>
    relay_step cfg tenant (t, s) (now, u_to_c_turn cfg tenant now e s)"
| other_connection: "relay_live s \<Longrightarrow> t \<le> now \<Longrightarrow> try_charge_inner cfg now other n (limiter s) = Some (ok, inn) \<Longrightarrow>
    relay_step cfg tenant (t, s) (now, s\<lparr>limiter := inn\<rparr>)"

definition relay_start :: "(string + Message) list \<Rightarrow> (string + TMsg) list \<Rightarrow> RateInner \<Rightarrow> relay_state" where
  "relay_start cs us inn =
    \<lparr>c_rx = cs, u_rx = us, u_tx = [], c_tx = [], c_to_u = Running, u_to_c = Running, limiter = inn\<rparr>"

section \<open>Invariant\<close>

text \<open>The bytes sent on in both directions.\<close>

definition relayed :: "relay_state \<Rightarrow> nat" where
  "relayed s = sum_list (map tmsg_len (u_tx s)) + sum_list (map msg_len (c_tx s))"

lemma msg_len_translate:
  "tmsg_len (translate_axum_to_tungstenite m) = msg_len m" "msg_len (translate_tungstenite_to_axum t) = tmsg_len t"
  by (cases m; simp) (cases t; simp)

lemma rl_run_length: "rl_run cfg evs inn = Some (oks, inn') \<Longrightarrow> length oks = length evs"
  by (induction cfg evs inn arbitrary: oks rule: rl_run.induct) (auto split: option.splits)

lemma rl_run_snoc:
  "rl_run cfg evs inn = Some (oks, inn') \<Longrightarrow> try_charge_inner cfg now k n inn' = Some (ok, inn'') \<Longrightarrow>
   rl_run cfg (evs @ [(now, k, n)]) inn = Some (oks @ [ok], inn'')"
  by (induction cfg evs inn arbitrary: oks rule: rl_run.induct) (auto split: option.splits)

lemma admitted_snoc:
  "length oks = length evs \<Longrightarrow> admitted k (evs @ [(now, u, n)]) (oks @ [ok]) =
    admitted k evs oks + (if u = k \<and> ok then unat n else 0)"
  by (simp add: admitted_def)

text \<open>The limiter was reached by a run of charges that admitted what was sent on.\<close>

definition charged ::
  "RateLimiterConfig \<Rightarrow> string \<Rightarrow> instant \<Rightarrow> instant \<Rightarrow> nat \<Rightarrow> RateInner \<Rightarrow> bool" where
  "charged cfg tenant t0 t n inn \<longleftrightarrow> t0 \<le> t \<and> rl_inv cfg inn \<and>
    (\<exists>evs oks. rl_run cfg evs RateInner_empty = Some (oks, inn) \<and> sorted (t0 # map fst evs) \<and>
      (\<forall>now \<in> fst ` set evs. now \<le> t) \<and> n \<le> admitted tenant evs oks)"

lemma charged_later: "charged cfg tenant t0 t n inn \<Longrightarrow> t \<le> t' \<Longrightarrow> n' \<le> n \<Longrightarrow> charged cfg tenant t0 t' n' inn"
  unfolding charged_def by (meson order_trans)

lemma charged_try:
  assumes "charged cfg tenant t0 t n inn" "t \<le> now" "try_charge_inner cfg now u m inn = Some (ok, inn')"
  shows "charged cfg tenant t0 now (n + (if u = tenant \<and> ok then unat m else 0)) inn'"
proof -
  obtain evs oks where run: "rl_run cfg evs RateInner_empty = Some (oks, inn)" "sorted (t0 # map fst evs)"
    "\<forall>now \<in> fst ` set evs. now \<le> t" "n \<le> admitted tenant evs oks"
    using assms(1) by (auto simp: charged_def)
  have inv: "rl_inv cfg inn" "t0 \<le> t" using assms(1) by (simp_all add: charged_def)
  have "rl_inv cfg inn'"
    by (rule try_charge_step [OF inv(1), of now u m]) (use assms(3) in auto)
  moreover have "sorted (t0 # map fst (evs @ [(now, u, m)]))" "\<forall>x \<in> fst ` set (evs @ [(now, u, m)]). x \<le> now"
    using run(2,3) inv(2) assms(2) by (auto simp: sorted_append)
  moreover have "n + (if u = tenant \<and> ok then unat m else 0) \<le> admitted tenant (evs @ [(now, u, m)]) (oks @ [ok])"
    using run(4) admitted_snoc [OF rl_run_length [OF run(1)]] by simp
  ultimately show ?thesis
    using rl_run_snoc [OF run(1) assms(3)] inv(2) assms(2) unfolding charged_def by (meson order_trans)
qed

lemma charge_msg_charged:
  assumes "charged cfg tenant t0 t n inn" "t \<le> now" "charge_msg cfg tenant now m inn = (ok, inn')" "m < 2 ^ 64"
  shows "charged cfg tenant t0 now (n + (if ok = Some True then m else 0)) inn'" "ok \<noteq> None"
proof -
  have inv: "rl_inv cfg inn" using assms(1) by (simp add: charged_def)
  have "charged cfg tenant t0 now (n + (if ok = Some True then m else 0)) inn' \<and> ok \<noteq> None"
  proof (cases "m = 0")
    case True
    then show ?thesis using assms(3) charged_later [OF assms(1,2)] by (auto simp: charge_msg_def)
  next
    case False
    obtain b inn2 where tc: "try_charge_inner cfg now tenant (word_of_nat m) inn = Some (b, inn2)"
      by (rule try_charge_step [OF inv])
    then have "ok = Some b" "inn' = inn2" using assms(3) False by (simp_all add: charge_msg_def)
    moreover have "unat (word_of_nat m :: u64) = m" using assms(4) by (simp add: unat_of_nat)
    ultimately show ?thesis using charged_try [OF assms(1,2) tc] by (cases b) simp_all
  qed
  then show "charged cfg tenant t0 now (n + (if ok = Some True then m else 0)) inn'" "ok \<noteq> None" by blast+
qed

definition forwarded :: "('a \<Rightarrow> 'b) \<Rightarrow> (string + 'a) list \<Rightarrow> 'b list \<Rightarrow> (string + 'a) list \<Rightarrow> bool" where
  "forwarded tr ins outs rest \<longleftrightarrow> (\<exists>ms. ins = map Inr ms @ rest \<and> outs = map tr ms)"

lemma forwarded_snoc: "forwarded tr ins outs (Inr m # ms) \<Longrightarrow> forwarded tr ins (outs @ [tr m]) ms"
proof -
  assume "forwarded tr ins outs (Inr m # ms)"
  then obtain xs where "ins = map Inr xs @ Inr m # ms" "outs = map tr xs" by (auto simp: forwarded_def)
  then have "ins = map Inr (xs @ [m]) @ ms \<and> outs @ [tr m] = map tr (xs @ [m])" by simp
  then show ?thesis unfolding forwarded_def by blast
qed

definition relay_inv ::
  "RateLimiterConfig \<Rightarrow> string \<Rightarrow> instant \<Rightarrow> (string + Message) list \<Rightarrow> (string + TMsg) list
   \<Rightarrow> instant \<times> relay_state \<Rightarrow> bool" where
  "relay_inv cfg tenant t0 cs us x = (case x of (t, s) \<Rightarrow>
    charged cfg tenant t0 t (relayed s) (limiter s) \<and> c_to_u s \<noteq> Panicked \<and> u_to_c s \<noteq> Panicked \<and>
    (\<exists>rest. forwarded translate_axum_to_tungstenite cs (u_tx s) rest \<and> (c_to_u s = Running \<longrightarrow> rest = c_rx s)) \<and>
    (\<exists>rest. forwarded translate_tungstenite_to_axum us (c_tx s) rest \<and> (u_to_c s = Running \<longrightarrow> rest = u_rx s)))"

lemma relay_turn_inv:
  assumes "relay_turn cfg tenant way len translate closes now e rx tx inn = (rx', tx', inn', d)"
    and "charged cfg tenant t0 t n inn" "t \<le> now" "forwarded translate ins tx rx"
    and "\<forall>m. Inr m \<in> set ins \<longrightarrow> len m < 2 ^ 64" "\<And>m. len' (translate m) = len m"
  shows "charged cfg tenant t0 now (n + (sum_list (map len' tx') - sum_list (map len' tx))) inn'" "d \<noteq> Panicked"
    "sum_list (map len' tx) \<le> sum_list (map len' tx')"
    "\<exists>rest. forwarded translate ins tx' rest \<and> (d = Running \<longrightarrow> rest = rx')"
proof -
  have "charged cfg tenant t0 now (n + (sum_list (map len' tx') - sum_list (map len' tx))) inn' \<and> d \<noteq> Panicked \<and>
    sum_list (map len' tx) \<le> sum_list (map len' tx') \<and>
    (\<exists>rest. forwarded translate ins tx' rest \<and> (d = Running \<longrightarrow> rest = rx'))"
  proof (cases rx)
    case Nil
    then show ?thesis using assms(1,4) charged_later [OF assms(2,3)] by (auto simp: relay_turn_def)
  next
    case (Cons x ms)
    show ?thesis
    proof (cases x)
      case (Inl err)
      then show ?thesis using assms(1,4) charged_later [OF assms(2,3)] Cons by (auto simp: relay_turn_def)
    next
      case (Inr m)
      obtain ok inn2 where c: "charge_msg cfg tenant now (len m) inn = (ok, inn2)" by fastforce
      have "Inr m \<in> set ins" using assms(4) Cons Inr by (auto simp: forwarded_def)
      then have "len m < 2 ^ 64" using assms(5) by blast
      note cm = charge_msg_charged [OF assms(2,3) c this]
      have fw: "forwarded translate ins (tx @ [translate m]) ms" using forwarded_snoc assms(4) Cons Inr by metis
      have le: "charged cfg tenant t0 now n inn2" using charged_later [OF cm(1) order.refl] by simp
      consider "ok = Some False" | "ok = Some True" using cm(2) by (cases ok) auto
      then show ?thesis
      proof cases
        case 1
        then show ?thesis using le assms(1,4) Cons Inr c by (auto simp: relay_turn_def)
      next
        case 2
        then show ?thesis using le cm(1) fw assms(1,4,6) Cons Inr c
          by (auto simp: relay_turn_def Let_def split: option.splits if_splits)
      qed
    qed
  qed
  then show "charged cfg tenant t0 now (n + (sum_list (map len' tx') - sum_list (map len' tx))) inn'" "d \<noteq> Panicked"
    "sum_list (map len' tx) \<le> sum_list (map len' tx')"
    "\<exists>rest. forwarded translate ins tx' rest \<and> (d = Running \<longrightarrow> rest = rx')"
    by blast+
qed

lemma relay_step_inv:
  assumes "relay_step cfg tenant x y" "relay_inv cfg tenant t0 cs us x"
    and "\<forall>m. Inr m \<in> set cs \<longrightarrow> msg_len m < 2 ^ 64" "\<forall>m. Inr m \<in> set us \<longrightarrow> tmsg_len m < 2 ^ 64"
  shows "relay_inv cfg tenant t0 cs us y"
  using assms(1,2)
proof cases
  case (client_turn s t now e)
  obtain rx tx inn d where tn: "relay_turn cfg tenant ''inbound'' msg_len translate_axum_to_tungstenite is_tclose
      now e (c_rx s) (u_tx s) (limiter s) = (rx, tx, inn, d)" by (metis prod_cases4)
  have "forwarded translate_axum_to_tungstenite cs (u_tx s) (c_rx s)"
    "charged cfg tenant t0 t (relayed s) (limiter s)"
    using assms(2) client_turn by (auto simp: relay_inv_def)
  note t = relay_turn_inv [where len' = tmsg_len, OF tn this(2) client_turn(5) this(1) assms(3) msg_len_translate(1)]
  show ?thesis using t assms(2) client_turn tn by (auto simp: relay_inv_def c_to_u_turn_def relayed_def add.commute)
next
  case (upstream_turn s t now e)
  obtain rx tx inn d where tn: "relay_turn cfg tenant ''outbound'' tmsg_len translate_tungstenite_to_axum is_close
      now e (u_rx s) (c_tx s) (limiter s) = (rx, tx, inn, d)" by (metis prod_cases4)
  have "forwarded translate_tungstenite_to_axum us (c_tx s) (u_rx s)"
    "charged cfg tenant t0 t (relayed s) (limiter s)"
    using assms(2) upstream_turn by (auto simp: relay_inv_def)
  note t = relay_turn_inv [where len' = msg_len, OF tn this(2) upstream_turn(5) this(1) assms(4) msg_len_translate(2)]
  show ?thesis using t assms(2) upstream_turn tn by (auto simp: relay_inv_def u_to_c_turn_def relayed_def)
next
  case (other_connection s t now other n ok inn)
  then have "charged cfg tenant t0 t (relayed s) (limiter s)" using assms(2) by (simp add: relay_inv_def)
  from charged_try [OF this other_connection(4,5)] have "charged cfg tenant t0 now (relayed s) inn"
    using charged_later by simp
  then show ?thesis using assms(2) other_connection by (auto simp: relay_inv_def relayed_def)
qed

lemma relay_reachable_inv:
  assumes "rtranclp (relay_step cfg tenant) (t0, relay_start cs us RateInner_empty) x"
    and "\<forall>m. Inr m \<in> set cs \<longrightarrow> msg_len m < 2 ^ 64" "\<forall>m. Inr m \<in> set us \<longrightarrow> tmsg_len m < 2 ^ 64"
  shows "relay_inv cfg tenant t0 cs us x"
  using assms(1)
proof induction
  case base
  have "rl_run cfg [] RateInner_empty = Some ([], RateInner_empty)" by simp
  then have "charged cfg tenant t0 t0 0 RateInner_empty"
    unfolding charged_def using rl_inv_empty by (intro conjI exI [of _ "[]"]) auto
  then show ?case by (simp add: relay_inv_def relay_start_def relayed_def forwarded_def)
next
  case (step y z)
  then show ?case using relay_step_inv assms(2,3) by blast
qed

section \<open>Property\<close>


definition sample_limits :: RateLimiterConfig where
  "sample_limits = \<lparr>bytes_per_sec = 1000, burst_bytes = 500, max_tenants = 1\<rparr>"

definition sample_relay :: relay_state where
  "sample_relay =
    relay_start [Inr (MPing [1])] [Inr (TText [104, 105])] (rl_inner (RateLimiter_new sample_limits))"

definition sample_relay_end :: relay_state where
  "sample_relay_end = u_to_c_turn sample_limits ''a'' 9 None (c_to_u_turn sample_limits ''a'' 5 None sample_relay)"

lemma sample_first_turn:
  "c_to_u_turn sample_limits ''a'' 5 None sample_relay = sample_relay\<lparr>c_rx := [], u_tx := [TPing [1]]\<rparr>"
  by (simp add: c_to_u_turn_def relay_turn_def sample_relay_def relay_start_def charge_msg_def is_tclose_def)

lemma sample_relay_reached: "rtranclp (relay_step sample_limits ''a'') (0, sample_relay) (9, sample_relay_end)"
proof -
  have "relay_live sample_relay" "c_to_u sample_relay = Running"
    "relay_live (c_to_u_turn sample_limits ''a'' 5 None sample_relay)"
    "u_to_c (c_to_u_turn sample_limits ''a'' 5 None sample_relay) = Running"
    unfolding sample_first_turn by (simp_all add: sample_relay_def relay_start_def relay_live_def)
  then have "relay_step sample_limits ''a'' (0, sample_relay) (5, c_to_u_turn sample_limits ''a'' 5 None sample_relay)"
    "relay_step sample_limits ''a'' (5, c_to_u_turn sample_limits ''a'' 5 None sample_relay) (9, sample_relay_end)"
    unfolding sample_relay_end_def by (auto intro!: relay_step.client_turn relay_step.upstream_turn)
  then show ?thesis by (meson rtranclp.rtrancl_into_rtrancl rtranclp.rtrancl_refl)
qed


end
