(* ===== verification/Tenant_Pool.thy ===== *)
theory Tenant_Pool
  imports Lru KvCloak
begin

text \<open>
  \<open>ullm-tee/tenant.rs\<close>: the bounded pool of per-tenant salts and key-encryption
  keys, and the per-session slot that records cloaked cache rows and seals them
  at the end of the session.  \<open>state_for\<close> takes the instant it reads and the
  state of the random generator.  Shown: pool and recency index stay in step
  and bounded; a tenant keeps its salt and key as long as fewer than
  \<open>MAX_TRACKED_TENANTS\<close> other tenants are looked up in between; and the rows a
  session seals can be unsealed and uncloaked at their positions.
\<close>

section \<open>tenant.rs\<close>

definition MAX_TRACKED_TENANTS :: nat where "MAX_TRACKED_TENANTS = 16 * 1024"

definition INFO_TENANT_SALT :: bytes where
  "INFO_TENANT_SALT = str_bytes ''ULLM-v1 tenant cache salt''"
definition INFO_CLOAK_TRANSFORM :: bytes where
  "INFO_CLOAK_TRANSFORM = str_bytes ''ULLM-v1 cloak transform''"
definition INFO_CLOAK_PERMUTE :: bytes where
  "INFO_CLOAK_PERMUTE = str_bytes ''ULLM-v1 cloak permute''"
definition INFO_CLOAK_NONCE :: bytes where
  "INFO_CLOAK_NONCE = str_bytes ''ULLM-v1 cloak nonce''"

record TenantState =
  ts_salt :: bytes
  ts_kek :: bytes
  ts_last_seen :: instant
  ts_lru_seq :: u64

record TenantInner =
  tenant_map :: "(TenantId \<times> TenantState) list"
  tenant_lru :: "(instant \<times> u64 \<times> TenantId) list"
  next_lru_seq :: u64

record TenantPool =
  master :: bytes
  inner :: TenantInner

definition TenantPool_random :: "'r prims \<Rightarrow> 'r \<Rightarrow> TenantPool \<times> 'r" where
  "TenantPool_random P rng =
    (let (m, rng) = rng_fill P 32 rng
     in (\<lparr>master = m, inner = \<lparr>tenant_map = [], tenant_lru = [], next_lru_seq = 0\<rparr>\<rparr>, rng))"

text \<open>The branch that finds the tenant refreshes its row.\<close>

definition tenant_refresh :: "instant \<Rightarrow> TenantId \<Rightarrow> TenantState \<Rightarrow> TenantInner \<Rightarrow> TenantState \<times> TenantInner"
where
  "tenant_refresh now tenant s inn =
    (let old_ts = ts_last_seen s; old_seq = ts_lru_seq s; new_seq = next_lru_seq inn;
         s = s\<lparr>ts_last_seen := now, ts_lru_seq := new_seq\<rparr>
     in (s, inn\<lparr>next_lru_seq := next_lru_seq inn + 1,
                tenant_map := AList.update tenant s (tenant_map inn),
                tenant_lru := bt_insert (now, new_seq, tenant)
                  (bt_remove (old_ts, old_seq, tenant) (tenant_lru inn))\<rparr>))"

definition tenant_evict :: "TenantInner \<Rightarrow> TenantInner" where
  "tenant_evict inn =
    (if length (tenant_map inn) \<ge> MAX_TRACKED_TENANTS then
       case bt_first (tenant_lru inn) of
         Some oldest \<Rightarrow> inn\<lparr>tenant_lru := bt_remove oldest (tenant_lru inn),
                            tenant_map := AList.delete (snd (snd oldest)) (tenant_map inn)\<rparr>
       | None \<Rightarrow> inn
     else inn)"

definition tenant_salt :: "'r prims \<Rightarrow> bytes \<Rightarrow> TenantId \<Rightarrow> bytes" where
  "tenant_salt P m tenant =
    hkdf_expand P (hkdf_extract P INFO_TENANT_SALT m) (str_bytes (tenant_str tenant)) 32"

definition tenant_admit ::
  "'r prims \<Rightarrow> bytes \<Rightarrow> instant \<Rightarrow> TenantId \<Rightarrow> bytes \<Rightarrow> TenantInner \<Rightarrow> TenantState \<times> TenantInner" where
  "tenant_admit P m now tenant kek_bytes inn =
    (let inn = tenant_evict inn;
         new_seq = next_lru_seq inn;
         state = \<lparr>ts_salt = tenant_salt P m tenant, ts_kek = kek_bytes, ts_last_seen = now,
                  ts_lru_seq = new_seq\<rparr>
     in (state, inn\<lparr>next_lru_seq := next_lru_seq inn + 1,
                    tenant_map := AList.update tenant state (tenant_map inn),
                    tenant_lru := bt_insert (now, new_seq, tenant) (tenant_lru inn)\<rparr>))"

definition state_for ::
  "'r prims \<Rightarrow> instant \<Rightarrow> TenantId \<Rightarrow> TenantPool \<Rightarrow> 'r \<Rightarrow> TenantState \<times> TenantPool \<times> 'r" where
  "state_for P now tenant pool rng =
    (case map_of (tenant_map (inner pool)) tenant of
       Some s \<Rightarrow> (let (s, inn) = tenant_refresh now tenant s (inner pool)
                  in (s, pool\<lparr>inner := inn\<rparr>, rng))
     | None \<Rightarrow> (let (kek_bytes, rng) = rng_fill P 32 rng;
                    (s, inn) = tenant_admit P (master pool) now tenant kek_bytes (inner pool)
                in (s, pool\<lparr>inner := inn\<rparr>, rng)))"

definition tenant_count :: "TenantPool \<Rightarrow> nat" where
  "tenant_count pool = length (tenant_map (inner pool))"

definition session_cloak_key :: "'r prims \<Rightarrow> bytes \<Rightarrow> bytes \<Rightarrow> SessionId \<Rightarrow> CloakKey" where
  "session_cloak_key P m salt session =
    (let prk = hkdf_extract P salt m;
         t = hkdf_expand P prk (INFO_CLOAK_TRANSFORM @ session) 32;
         p = hkdf_expand P prk (INFO_CLOAK_PERMUTE @ session) 32;
         n = hkdf_expand P prk (INFO_CLOAK_NONCE @ session) 16
     in CloakKey_from_parts t p n)"

record SessionSlot =
  slot_tenant :: TenantId
  slot_session :: SessionId
  slot_cloak_key :: CloakKey
  slot_kek :: bytes
  slot_recorded :: "CloakedKvBlock list"

definition allocate ::
  "'r prims \<Rightarrow> instant \<Rightarrow> TenantId \<Rightarrow> SessionId \<Rightarrow> TenantPool \<Rightarrow> 'r \<Rightarrow> SessionSlot \<times> TenantPool \<times> 'r" where
  "allocate P now tenant session pool rng =
    (let (state, pool', rng) = state_for P now tenant pool rng;
         cloak_key = session_cloak_key P (master pool) (ts_salt state) session
     in (\<lparr>slot_tenant = tenant, slot_session = session, slot_cloak_key = cloak_key,
          slot_kek = ts_kek state, slot_recorded = []\<rparr>, pool', rng))"

definition record_kv :: "'r prims \<Rightarrow> u64 \<Rightarrow> bytes \<Rightarrow> SessionSlot \<Rightarrow> SessionSlot" where
  "record_kv P position raw_kv slot =
    slot\<lparr>slot_recorded := slot_recorded slot @ [cloak P (slot_cloak_key slot) position raw_kv]\<rparr>"

definition cloaked_count :: "SessionSlot \<Rightarrow> nat" where
  "cloaked_count slot = length (slot_recorded slot)"

definition finalize_seal :: "'r prims \<Rightarrow> SessionSlot \<Rightarrow> SealedCloakedBlock list" where
  "finalize_seal P slot =
    map (\<lambda>(i, c). seal_block P (slot_kek slot) (slot_tenant slot) (slot_session slot) (word_of_nat i) c)
      (enumerate 0 (slot_recorded slot))"

section \<open>The pool stays in step and bounded\<close>

abbreviation tenant_stamp :: "TenantState \<Rightarrow> instant \<times> u64" where
  "tenant_stamp s \<equiv> (ts_last_seen s, ts_lru_seq s)"

definition pool_inv :: "'r prims \<Rightarrow> TenantPool \<Rightarrow> bool" where
  "pool_inv P pool \<longleftrightarrow> bt_invar (tenant_lru (inner pool)) \<and>
    in_step tenant_stamp (tenant_map (inner pool)) (set (tenant_lru (inner pool))) \<and>
    length (tenant_map (inner pool)) \<le> MAX_TRACKED_TENANTS \<and>
    (\<forall>k s. map_of (tenant_map (inner pool)) k = Some s \<longrightarrow> ts_salt s = tenant_salt P (master pool) k)"

lemma pool_inv_new: "pool_inv P (fst (TenantPool_random P rng))"
  by (simp add: TenantPool_random_def pool_inv_def bt_invar_def in_step_def split: prod.split)

text \<open>What eviction leaves, and whom it takes.\<close>

lemma tenant_evict_step:
  assumes "bt_invar (tenant_lru inn)" "in_step tenant_stamp (tenant_map inn) (set (tenant_lru inn))"
    and "length (tenant_map inn) \<le> MAX_TRACKED_TENANTS"
  shows "bt_invar (tenant_lru (tenant_evict inn)) \<and>
    in_step tenant_stamp (tenant_map (tenant_evict inn)) (set (tenant_lru (tenant_evict inn))) \<and>
    length (tenant_map (tenant_evict inn)) < MAX_TRACKED_TENANTS"
    (is ?A)
    and "map_of (tenant_map (tenant_evict inn)) k = Some s \<Longrightarrow> map_of (tenant_map inn) k = Some s"
    and "map_of (tenant_map inn) k = Some s \<Longrightarrow> map_of (tenant_map (tenant_evict inn)) k = None \<Longrightarrow>
      length (tenant_map inn) = MAX_TRACKED_TENANTS \<and>
      (\<forall>k' s'. map_of (tenant_map inn) k' = Some s' \<longrightarrow> ts_last_seen s \<le> ts_last_seen s')"
proof -
  have d: "distinct (map fst (tenant_map inn))" using assms(2) by (simp add: in_step_def)
  have "?A \<and> (map_of (tenant_map (tenant_evict inn)) k = Some s \<longrightarrow> map_of (tenant_map inn) k = Some s) \<and>
    (map_of (tenant_map inn) k = Some s \<longrightarrow> map_of (tenant_map (tenant_evict inn)) k = None \<longrightarrow>
      length (tenant_map inn) = MAX_TRACKED_TENANTS \<and>
      (\<forall>k' s'. map_of (tenant_map inn) k' = Some s' \<longrightarrow> ts_last_seen s \<le> ts_last_seen s'))"
  proof (cases "length (tenant_map inn) \<ge> MAX_TRACKED_TENANTS")
    case True
    then have l: "length (tenant_map inn) = MAX_TRACKED_TENANTS" using assms(3) by simp
    then obtain t q v where f: "bt_first (tenant_lru inn) = Some (t, q, v)"
      using lru.first_exists [OF assms(1,2)] by (fastforce simp: MAX_TRACKED_TENANTS_def)
    note mem = bt.first(2) [OF assms(1) f, THEN conjunct1]
    obtain s0 where s0: "map_of (tenant_map inn) v = Some s0" "ts_last_seen s0 = t"
      using lru.first_is_lru(1) [OF assms(1,2) f] by auto
    have ev: "tenant_evict inn = inn\<lparr>tenant_lru := bt_remove (t, q, v) (tenant_lru inn),
        tenant_map := AList.delete v (tenant_map inn)\<rparr>"
      using True f by (simp add: tenant_evict_def)
    have "v \<in> fst ` set (tenant_map inn)" using s0(1) by (metis fst_conv image_eqI map_of_SomeD)
    then have "length (AList.delete v (tenant_map inn)) < MAX_TRACKED_TENANTS"
      using length_alist_delete [OF d, of v] l by (simp add: MAX_TRACKED_TENANTS_def)
    moreover have "\<forall>k' s'. map_of (tenant_map inn) k' = Some s' \<longrightarrow> t \<le> ts_last_seen s'"
      using lru.first_is_lru(2) [OF assms(1,2) f] by fastforce
    ultimately show ?thesis
      using lru.in_step_drop [OF assms(1,2) mem] bt.remove(1) [OF assms(1)] l s0
      by (auto simp: ev delete_conv' split: if_splits simp del: map_of_eq_Some_iff)
  next
    case False
    then show ?thesis using assms by (simp add: tenant_evict_def)
  qed
  then show ?A
    and "map_of (tenant_map (tenant_evict inn)) k = Some s \<Longrightarrow> map_of (tenant_map inn) k = Some s"
    and "map_of (tenant_map inn) k = Some s \<Longrightarrow> map_of (tenant_map (tenant_evict inn)) k = None \<Longrightarrow>
      length (tenant_map inn) = MAX_TRACKED_TENANTS \<and>
      (\<forall>k' s'. map_of (tenant_map inn) k' = Some s' \<longrightarrow> ts_last_seen s \<le> ts_last_seen s')"
    by blast+
qed

text \<open>A lookup keeps the invariant and what it returns is in the pool.\<close>

lemma state_for_known:
  assumes "pool_inv P pool" "map_of (tenant_map (inner pool)) t = Some s0"
    and "state_for P now t pool rng = (s, pool', rng')"
  shows "pool_inv P pool'" "master pool' = master pool"
    "s = s0\<lparr>ts_last_seen := now, ts_lru_seq := next_lru_seq (inner pool)\<rparr>"
    "map_of (tenant_map (inner pool')) = (map_of (tenant_map (inner pool)))(t \<mapsto> s)"
proof -
  let ?m = "tenant_map (inner pool)" and ?q = "next_lru_seq (inner pool)"
  have inv: "bt_invar (tenant_lru (inner pool))"
    "in_step tenant_stamp ?m (set (tenant_lru (inner pool)))" "length ?m \<le> MAX_TRACKED_TENANTS"
    and salt: "\<And>k s. map_of ?m k = Some s \<Longrightarrow> ts_salt s = tenant_salt P (master pool) k"
    using assms(1) unfolding pool_inv_def by blast+
  let ?s = "s0\<lparr>ts_last_seen := now, ts_lru_seq := ?q\<rparr>"
  have s: "s = ?s" and p: "pool' = pool\<lparr>inner := inner pool\<lparr>next_lru_seq := ?q + 1,
      tenant_map := AList.update t ?s ?m,
      tenant_lru := bt_insert (now, ?q, t)
        (bt_remove (ts_last_seen s0, ts_lru_seq s0, t) (tenant_lru (inner pool)))\<rparr>\<rparr>"
    using assms(2,3) by (auto simp: state_for_def tenant_refresh_def Let_def)
  have "length (AList.update t ?s ?m) = length ?m"
    using assms(2) by (simp add: length_alist_update map_of_eq_None_iff [symmetric])
  moreover have "bt_invar (tenant_lru (inner pool'))" using inv(1) by (simp add: p bt.insert bt.remove)
  ultimately show "pool_inv P pool'"
    using lru.refresh_step [OF inv(1,2) assms(2), of _ _ ?s now ?q] inv(3) salt salt [OF assms(2)]
    by (simp add: pool_inv_def p update_conv')
  show "master pool' = master pool" "s = ?s"
    "map_of (tenant_map (inner pool')) = (map_of ?m)(t \<mapsto> s)"
    using s by (simp_all add: p update_conv')
qed

lemma state_for_new:
  assumes "pool_inv P pool" "map_of (tenant_map (inner pool)) t = None"
    and "state_for P now t pool rng = (s, pool', rng')"
  shows "pool_inv P pool'" "master pool' = master pool" "ts_last_seen s = now"
    "ts_salt s = tenant_salt P (master pool) t" "ts_kek s = fst (rng_fill P 32 rng)"
    "map_of (tenant_map (inner pool')) =
      (map_of (tenant_map (tenant_evict (inner pool))))(t \<mapsto> s)"
proof -
  let ?e = "tenant_evict (inner pool)"
  have inv: "bt_invar (tenant_lru (inner pool))"
    "in_step tenant_stamp (tenant_map (inner pool)) (set (tenant_lru (inner pool)))"
    "length (tenant_map (inner pool)) \<le> MAX_TRACKED_TENANTS"
    and salt: "\<And>k s. map_of (tenant_map (inner pool)) k = Some s \<Longrightarrow> ts_salt s = tenant_salt P (master pool) k"
    using assms(1) unfolding pool_inv_def by blast+
  note ev = tenant_evict_step [OF inv]
  have e: "bt_invar (tenant_lru ?e)" "in_step tenant_stamp (tenant_map ?e) (set (tenant_lru ?e))"
    "length (tenant_map ?e) < MAX_TRACKED_TENANTS"
    using ev(1) by blast+
  have none: "map_of (tenant_map ?e) t = None" 
    using ev(2) [of t] assms(2) by (cases "map_of (tenant_map ?e) t") auto
  let ?s = "\<lparr>ts_salt = tenant_salt P (master pool) t, ts_kek = fst (rng_fill P 32 rng),
      ts_last_seen = now, ts_lru_seq = next_lru_seq ?e\<rparr>"
  have s: "s = ?s" and p: "pool' = pool\<lparr>inner := ?e\<lparr>next_lru_seq := next_lru_seq ?e + 1,
      tenant_map := AList.update t ?s (tenant_map ?e),
      tenant_lru := bt_insert (now, next_lru_seq ?e, t) (tenant_lru ?e)\<rparr>\<rparr>"
    using assms(2,3) by (auto simp: state_for_def tenant_admit_def Let_def split: prod.splits)
  have "length (AList.update t ?s (tenant_map ?e)) \<le> MAX_TRACKED_TENANTS"
    using e(3) by (simp add: length_alist_update)
  moreover have "bt_invar (tenant_lru (inner pool'))" using e(1) by (simp add: p bt.insert)
  ultimately show "pool_inv P pool'"
    using lru.admit_step [OF e(1,2) none, of ?s now "next_lru_seq ?e"] salt ev(2)
    by (simp add: pool_inv_def p update_conv')
  show "master pool' = master pool" "ts_last_seen s = now" "ts_salt s = tenant_salt P (master pool) t"
    "ts_kek s = fst (rng_fill P 32 rng)"
    "map_of (tenant_map (inner pool')) = (map_of (tenant_map ?e))(t \<mapsto> s)"
    using s by (simp_all add: p update_conv')
qed

definition pool_run :: "'r prims \<Rightarrow> (instant \<times> TenantId) list \<Rightarrow> TenantPool \<times> 'r \<Rightarrow> TenantPool \<times> 'r" where
  "pool_run P evs pr = fold (\<lambda>(now, t) (pool, rng). snd (state_for P now t pool rng)) evs pr"

lemma pool_run_inv:
  assumes "pool_inv P (fst pr)"
  shows "pool_inv P (fst (pool_run P evs pr)) \<and> master (fst (pool_run P evs pr)) = master (fst pr)"
  using assms
proof (induction evs arbitrary: pr)
  case (Cons ev evs)
  obtain now t where ev: "ev = (now, t)" by (cases ev)
  obtain pool rng where pr: "pr = (pool, rng)" by (cases pr)
  obtain s pool' rng' where sf: "state_for P now t pool rng = (s, pool', rng')" by (metis prod_cases3)
  have "pool_inv P pool' \<and> master pool' = master pool"
    using state_for_known(1,2) [OF _ _ sf] state_for_new(1,2) [OF _ _ sf] Cons.prems pr
    by (cases "map_of (tenant_map (inner pool)) t") auto
  then show ?case using Cons.IH [of "(pool', rng')"] ev pr sf by (simp add: pool_run_def)
qed (simp add: pool_run_def)

section \<open>A tenant in use keeps its key\<close>

definition keeps :: "instant \<Rightarrow> TenantId \<Rightarrow> bytes \<Rightarrow> TenantId set \<Rightarrow> TenantPool \<Rightarrow> bool" where
  "keeps t0 t kek others pool \<longleftrightarrow>
    (\<exists>s. map_of (tenant_map (inner pool)) t = Some s \<and> ts_kek s = kek \<and> t0 \<le> ts_last_seen s) \<and>
    (\<forall>k s. k \<noteq> t \<longrightarrow> map_of (tenant_map (inner pool)) k = Some s \<longrightarrow> t0 \<le> ts_last_seen s \<longrightarrow> k \<in> others)"

lemma evict_spares:
  assumes "pool_inv P pool" "keeps t0 t kek others pool" "map_of (tenant_map (inner pool)) u = None"
    and "finite others" "card (insert u others - {t}) < MAX_TRACKED_TENANTS"
  shows "map_of (tenant_map (tenant_evict (inner pool))) t \<noteq> None"
proof
  let ?m = "tenant_map (inner pool)"
  assume gone: "map_of (tenant_map (tenant_evict (inner pool))) t = None"
  have inv: "bt_invar (tenant_lru (inner pool))"
    "in_step tenant_stamp ?m (set (tenant_lru (inner pool)))" "length ?m \<le> MAX_TRACKED_TENANTS"
    using assms(1) unfolding pool_inv_def by blast+
  obtain s where s: "map_of ?m t = Some s" "t0 \<le> ts_last_seen s"
    using assms(2) by (auto simp: keeps_def)
  have len: "length ?m = MAX_TRACKED_TENANTS"
    and old: "\<forall>k' s'. map_of ?m k' = Some s' \<longrightarrow> ts_last_seen s \<le> ts_last_seen s'"
    using tenant_evict_step(3) [OF inv s(1) gone] by blast+
  have sub: "insert u (fst ` set ?m - {t}) \<subseteq> insert u others - {t}"
  proof -
    have "k \<in> others" if "k \<in> fst ` set ?m" "k \<noteq> t" for k
    proof -
      have "map_of ?m k \<noteq> None" using that(1) by (simp add: map_of_eq_None_iff)
      then obtain s' where s': "map_of ?m k = Some s'" by blast
      then have "t0 \<le> ts_last_seen s'" using old s(2) by (meson le_trans)
      then show ?thesis using assms(2) that(2) s' by (auto simp: keeps_def)
    qed
    moreover have "u \<noteq> t" using s(1) assms(3) by auto
    ultimately show ?thesis by auto
  qed
  have d: "distinct (map fst ?m)" using inv(2) by (simp add: in_step_def)
  have t: "t \<in> fst ` set ?m" using s(1) by (metis fst_conv image_eqI map_of_SomeD)
  have u: "u \<notin> fst ` set ?m" using assms(3) by (simp add: map_of_eq_None_iff)
  have "card (fst ` set ?m) = length ?m" using distinct_card [OF d] by simp
  then have "card (insert u (fst ` set ?m - {t})) = length ?m"
    using t u by (simp add: card_Diff_singleton card_gt_0_iff) (metis card_gt_0_iff empty_iff finite_imageI
        finite_set Suc_pred length_pos_if_in_set imageE)
  then show False using card_mono [OF _ sub] assms(4,5) len by simp
qed

lemma keeps_step:
  assumes "pool_inv P pool" "keeps t0 t kek others pool" "t0 \<le> now"
    and "finite others" "card (insert u others - {t}) < MAX_TRACKED_TENANTS"
    and sf: "state_for P now u pool rng = (s, pool', rng')"
  shows "keeps t0 t kek (insert u others) pool'" "u = t \<Longrightarrow> ts_kek s = kek"
proof -
  let ?m = "map_of (tenant_map (inner pool))"
  have "keeps t0 t kek (insert u others) pool' \<and> (u = t \<longrightarrow> ts_kek s = kek)"
  proof (cases "?m u")
    case (Some s0)
    note k = state_for_known(3,4) [OF assms(1) Some sf]
    have "ts_kek s = ts_kek s0" "ts_last_seen s = now" using k(1) by simp_all
    then show ?thesis using assms(2,3) Some by (auto simp: keeps_def k(2))
  next
    case None
    note k = state_for_new(3,6) [OF assms(1) None sf]
    have inv: "bt_invar (tenant_lru (inner pool))"
      "in_step tenant_stamp (tenant_map (inner pool)) (set (tenant_lru (inner pool)))"
      "length (tenant_map (inner pool)) \<le> MAX_TRACKED_TENANTS"
      using assms(1) unfolding pool_inv_def by blast+
    let ?e = "map_of (tenant_map (tenant_evict (inner pool)))"
    have sub: "\<And>k s. ?e k = Some s \<Longrightarrow> ?m k = Some s" using tenant_evict_step(2) [OF inv] by blast
    obtain s1 where e: "?e t = Some s1" using evict_spares [OF assms(1,2) None assms(4,5)] by blast
    have ne: "u \<noteq> t" using None sub [OF e] by auto
    have "ts_kek s1 = kek" "t0 \<le> ts_last_seen s1" using sub [OF e] assms(2) by (auto simp: keeps_def)
    then show ?thesis using assms(2) sub e ne by (auto simp: keeps_def k(2))
  qed
  then show "keeps t0 t kek (insert u others) pool'" "u = t \<Longrightarrow> ts_kek s = kek" by blast+
qed

lemma keeps_run:
  assumes "pool_inv P (fst pr)" "keeps t0 t kek others (fst pr)" "\<forall>(now, u) \<in> set evs. t0 \<le> now"
    and "finite others" "card (others \<union> snd ` set evs - {t}) < MAX_TRACKED_TENANTS"
  shows "keeps t0 t kek (others \<union> snd ` set evs) (fst (pool_run P evs pr))"
  using assms
proof (induction evs arbitrary: pr others)
  case (Cons ev evs)
  obtain now u where ev: "ev = (now, u)" by (cases ev)
  obtain pool rng where pr: "pr = (pool, rng)" by (cases pr)
  obtain s pool' rng' where sf: "state_for P now u pool rng = (s, pool', rng')" by (metis prod_cases3)
  have "card (insert u others - {t}) \<le> card (others \<union> snd ` set (ev # evs) - {t})"
    using Cons.prems(4) by (intro card_mono) (auto simp: ev)
  then have "card (insert u others - {t}) < MAX_TRACKED_TENANTS" using Cons.prems(5) by linarith
  then have "keeps t0 t kek (insert u others) pool'"
    using keeps_step(1) [OF _ _ _ _ _ sf] Cons.prems ev pr by simp
  moreover have "pool_inv P pool'"
    using pool_run_inv [of P pr "[ev]"] Cons.prems(1) by (simp add: pool_run_def ev pr sf)
  ultimately show ?case
    using Cons.IH [of "(pool', rng')" "insert u others"] Cons.prems(3-5)
    by (simp add: pool_run_def ev pr sf)
qed (simp add: pool_run_def)

section \<open>Properties\<close>

text \<open>
  A tenant in use keeps its salt and key.  After a lookup at an instant
  later than every earlier one, and any lookups that concern fewer than
  \<open>MAX_TRACKED_TENANTS\<close> other tenants, a further lookup of the tenant returns the
  same key-encryption key, and the salt derived from the master secret.
\<close>

theorem tenant_key_stable:
  assumes "pool_inv P pool" "\<forall>(k, s) \<in> set (tenant_map (inner pool)). ts_last_seen s < t0"
    and "state_for P t0 t pool rng = (s, pool1, rng1)"
    and "\<forall>(now, u) \<in> set evs. t0 \<le> now" "card (snd ` set evs - {t}) < MAX_TRACKED_TENANTS"
    and "pool_run P evs (pool1, rng1) = (pool2, rng2)"
    and "t0 \<le> now" "state_for P now t pool2 rng2 = (s', pool3, rng3)"
  shows "ts_kek s' = ts_kek s \<and> ts_salt s' = ts_salt s \<and> ts_salt s = tenant_salt P (master pool) t"
proof -
  let ?m = "map_of (tenant_map (inner pool))"
  have before: "ts_last_seen s0 < t0" if "?m k = Some s0" for k s0
    using assms(2) map_of_SomeD [OF that] by auto
  have one: "pool_inv P pool1 \<and> master pool1 = master pool \<and> keeps t0 t (ts_kek s) {} pool1 \<and>
      ts_salt s = tenant_salt P (master pool) t"
  proof (cases "?m t")
    case (Some s0)
    note k = state_for_known [OF assms(1) Some assms(3)]
    have "keeps t0 t (ts_kek s) {} pool1" using before by (fastforce simp: keeps_def k(3,4))
    moreover have "ts_salt s = tenant_salt P (master pool) t"
      using assms(1) Some k(3) by (simp add: pool_inv_def)
    ultimately show ?thesis using k(1,2) by blast
  next
    case None
    note k = state_for_new [OF assms(1) None assms(3)]
    have "?m k = Some s0" if "map_of (tenant_map (tenant_evict (inner pool))) k = Some s0" for k s0
      using tenant_evict_step(2) [OF _ _ _ that] assms(1) by (auto simp: pool_inv_def)
    then have "keeps t0 t (ts_kek s) {} pool1"
      using before k(3) by (fastforce simp: keeps_def k(6))
    then show ?thesis using k(1,2,4) by blast
  qed
  have two: "keeps t0 t (ts_kek s) (snd ` set evs) pool2" "pool_inv P pool2" "master pool2 = master pool"
    using keeps_run [of P "(pool1, rng1)" t0 t _ "{}" evs] pool_run_inv [of P "(pool1, rng1)" evs]
      one assms(4-6) by simp_all
  obtain s2 where s2: "map_of (tenant_map (inner pool2)) t = Some s2" "ts_kek s2 = ts_kek s"
    using two(1) by (auto simp: keeps_def)
  have "ts_salt s2 = tenant_salt P (master pool) t" using two(2,3) s2(1) by (simp add: pool_inv_def)
  then show ?thesis using state_for_known(3) [OF two(2) s2(1) assms(8)] s2(2) one by simp
qed

theorem tenant_key_stable_witness:
  "let pool = fst (TenantPool_random model_prims 0); a = TenantId ''a''; b = TenantId ''b'';
       (s, pool1, rng1) = state_for model_prims 10 a pool 2;
       (pool2, rng2) = pool_run model_prims [(11, b), (12, a), (12, b)] (pool1, rng1);
       (s', pool3, rng3) = state_for model_prims 13 a pool2 rng2
   in ts_kek s' = ts_kek s \<and> ts_salt s' = ts_salt s"
proof -
  let ?p = "fst (TenantPool_random model_prims 0)" and ?a = "TenantId ''a''" and ?b = "TenantId ''b''"
  let ?evs = "[(11, ?b), (12, ?a), (12, ?b)]"
  obtain s p1 r1 where 1: "state_for model_prims 10 ?a ?p 2 = (s, p1, r1)" by (metis prod_cases3)
  obtain p2 r2 where 2: "pool_run model_prims ?evs (p1, r1) = (p2, r2)" by fastforce
  obtain s' p3 r3 where 3: "state_for model_prims 13 ?a p2 r2 = (s', p3, r3)" by (metis prod_cases3)
  have e: "snd ` set ?evs - {?a} = {?b}" by auto
  have "card (snd ` set ?evs - {?a}) < MAX_TRACKED_TENANTS"
    unfolding e by (simp add: MAX_TRACKED_TENANTS_def)
  then have "ts_kek s' = ts_kek s \<and> ts_salt s' = ts_salt s"
    using tenant_key_stable [OF pool_inv_new _ 1 _ _ 2 _ 3]
    by (simp add: TenantPool_random_def split: prod.splits)
  then show ?thesis by (simp add: Let_def 1 2 3)
qed

text \<open>
  The pool is bounded and its two structures agree: after any lookups at any
  instants, at most \<open>MAX_TRACKED_TENANTS\<close> tenants are held, the index has one row
  per tenant, and the row carries the tenant's last instant and sequence number.
\<close>

theorem tenant_pool_bounded:
  "let inn = inner (fst (pool_run P evs (TenantPool_random P rng))) in
   tenant_count (fst (pool_run P evs (TenantPool_random P rng))) \<le> MAX_TRACKED_TENANTS \<and>
   length (tenant_lru inn) = length (tenant_map inn) \<and>
   in_step tenant_stamp (tenant_map inn) (set (tenant_lru inn))"
proof -
  let ?p = "fst (pool_run P evs (TenantPool_random P rng))"
  have "pool_inv P ?p" by (rule pool_run_inv [OF pool_inv_new, THEN conjunct1])
  then have "bt_invar (tenant_lru (inner ?p))"
    "in_step tenant_stamp (tenant_map (inner ?p)) (set (tenant_lru (inner ?p)))"
    "length (tenant_map (inner ?p)) \<le> MAX_TRACKED_TENANTS"
    unfolding pool_inv_def by blast+
  then show ?thesis using lru.in_step_size by (simp add: Let_def tenant_count_def)
qed

lemma record_kv_fold:
  "slot_recorded (fold (\<lambda>(pos, kv). record_kv P pos kv) rows slot) =
     slot_recorded slot @ map (\<lambda>(pos, kv). cloak P (slot_cloak_key slot) pos kv) rows \<and>
   slot_cloak_key (fold (\<lambda>(pos, kv). record_kv P pos kv) rows slot) = slot_cloak_key slot \<and>
   slot_kek (fold (\<lambda>(pos, kv). record_kv P pos kv) rows slot) = slot_kek slot \<and>
   slot_tenant (fold (\<lambda>(pos, kv). record_kv P pos kv) rows slot) = slot_tenant slot \<and>
   slot_session (fold (\<lambda>(pos, kv). record_kv P pos kv) rows slot) = slot_session slot"
  by (induction rows arbitrary: slot) (auto simp: record_kv_def)

text \<open>
  What a session seals can be recovered.  Record any 256-byte rows at any
  positions in a fresh slot: sealing yields one block per row, in order, and the
  i-th block unseals under the slot's key, tenant, session and index i to a
  block that uncloaks, at the position given when recording, to the row.
\<close>

theorem session_rows_recoverable:
  assumes "gcmsiv_law P" "allocate P now tenant session pool rng = (slot0, pool', rng')"
    and "slot = fold (\<lambda>(pos, kv). record_kv P pos kv) rows slot0"
    and "i < length rows" "length (snd (rows ! i)) = CLOAK_BLOCK_LEN"
  shows "length (finalize_seal P slot) = length rows \<and> cloaked_count slot = length rows \<and>
    (\<exists>c. unseal_block P (slot_kek slot) tenant session (word_of_nat i) (finalize_seal P slot ! i) = Inr c \<and>
       uncloak P (slot_cloak_key slot) (fst (rows ! i)) c = snd (rows ! i))"
proof -
  have s0: "slot_recorded slot0 = []" "slot_tenant slot0 = tenant" "slot_session slot0 = session"
    using assms(2) by (auto simp: allocate_def Let_def split: prod.splits)
  let ?c = "cloak P (slot_cloak_key slot0) (fst (rows ! i)) (snd (rows ! i))"
  note f = record_kv_fold [of P rows slot0, folded assms(3)]
  have rec: "slot_recorded slot = map (\<lambda>(pos, kv). cloak P (slot_cloak_key slot0) pos kv) rows"
    using f s0 by simp
  have "finalize_seal P slot ! i =
      seal_block P (slot_kek slot) tenant session (word_of_nat i) ?c"
    using assms(4) f s0 by (simp add: finalize_seal_def rec nth_enumerate_eq case_prod_beta)
  moreover have "length (finalize_seal P slot) = length rows" "cloaked_count slot = length rows"
    by (simp_all add: finalize_seal_def cloaked_count_def rec)
  moreover have "uncloak P (slot_cloak_key slot) (fst (rows ! i)) ?c = snd (rows ! i)"
    using uncloak_cloak [OF assms(5)] f by simp
  ultimately show ?thesis
    using unseal_block_iff [OF assms(1), of "slot_kek slot" tenant session "word_of_nat i" _ ?c]
    by (auto intro!: exI [of _ ?c])
qed

theorem session_rows_recoverable_witness:
  "let slot = record_kv model_prims 4 (replicate 256 1)
         (fst (allocate model_prims 9 (TenantId ''a'') (replicate 16 3)
                 (fst (TenantPool_random model_prims 0)) 2))
   in \<exists>c. unseal_block model_prims (slot_kek slot) (TenantId ''a'') (replicate 16 3) 0
            (finalize_seal model_prims slot ! 0) = Inr c \<and>
          uncloak model_prims (slot_cloak_key slot) 4 c = replicate 256 1"
proof -
  let ?al = "allocate model_prims 9 (TenantId ''a'') (replicate 16 3)
               (fst (TenantPool_random model_prims 0)) 2"
  obtain slot0 pool' rng' where a: "?al = (slot0, pool', rng')" by (metis prod_cases3)
  have r: "record_kv model_prims 4 (replicate 256 1) slot0 =
      fold (\<lambda>(pos, kv). record_kv model_prims pos kv) [(4, replicate 256 1)] slot0" by simp
  show ?thesis unfolding Let_def
    using session_rows_recoverable [OF model_gcmsiv_law a r, of 0] a
    by (simp add: CLOAK_BLOCK_LEN_def)
qed

end
