(* ===== verification/Nonce_Registry.thy ===== *)
theory Nonce_Registry
  imports Lru
begin

text \<open>
  \<open>ullm-tee/nonce_registry.rs\<close>: the registry that refuses repeated attestation
  nonces.  The table and its LRU index are those of theory \<open>Lru\<close>; \<open>observe\<close>
  takes the instant it reads from the clock.  Shown: table and index stay in
  step and bounded; a nonce is never accepted twice within the time to live as
  long as the clock is at least one time to live past its origin and fewer than
  the cap were observed within one; and that without the former a replay is
  accepted.
\<close>

section \<open>nonce_registry.rs\<close>

definition MAX_TRACKED_NONCES :: nat where "MAX_TRACKED_NONCES = 128 * 1024"

definition NONCE_TTL :: nat where
  "NONCE_TTL = unat NONCE_TTL_DEFAULT_SEC * 1000000000"

record NonceState =
  seen :: "(bytes \<times> instant \<times> u64) list"
  nonce_lru :: "(instant \<times> u64 \<times> bytes) list"
  nonce_next_seq :: u64

datatype NonceReplay = NonceReplay

definition NonceRegistry_new :: NonceState where
  "NonceRegistry_new = \<lparr>seen = [], nonce_lru = [], nonce_next_seq = 0\<rparr>"

text \<open>The garbage collection of rows before the cutoff.\<close>

definition nonce_cutoff :: "instant \<Rightarrow> instant" where
  "nonce_cutoff now = (case checked_sub now NONCE_TTL of Some c \<Rightarrow> c | None \<Rightarrow> now)"

definition nonce_gc :: "instant \<Rightarrow> NonceState \<Rightarrow> NonceState" where
  "nonce_gc now st =
    (let expired = bt_range_to (nonce_cutoff now, 0, replicate 32 0) (nonce_lru st)
     in fold (\<lambda>k st. st\<lparr>nonce_lru := bt_remove k (nonce_lru st),
                       seen := AList.delete (snd (snd k)) (seen st)\<rparr>) expired st)"

definition nonce_evict :: "NonceState \<Rightarrow> NonceState" where
  "nonce_evict st =
    (if length (seen st) \<ge> MAX_TRACKED_NONCES then
       case bt_first (nonce_lru st) of
         Some oldest \<Rightarrow> st\<lparr>nonce_lru := bt_remove oldest (nonce_lru st),
                           seen := AList.delete (snd (snd oldest)) (seen st)\<rparr>
       | None \<Rightarrow> st
     else st)"

definition nonce_record :: "instant \<Rightarrow> bytes \<Rightarrow> NonceState \<Rightarrow> NonceState" where
  "nonce_record now nonce st =
    (let new_seq = nonce_next_seq st
     in st\<lparr>nonce_next_seq := nonce_next_seq st + 1,
           seen := AList.update nonce (now, new_seq) (seen st),
           nonce_lru := bt_insert (now, new_seq, nonce) (nonce_lru st)\<rparr>)"

definition observe :: "instant \<Rightarrow> bytes \<Rightarrow> NonceState \<Rightarrow> (NonceReplay + unit) \<times> NonceState" where
  "observe now nonce st =
    (let st = nonce_gc now st in
     case map_of (seen st) nonce of
       Some (seen_ts, seen_seq) \<Rightarrow>
         if duration_since now seen_ts < NONCE_TTL then (Inl NonceReplay, st)
         else (Inr (), nonce_record now nonce (nonce_evict
                (st\<lparr>nonce_lru := bt_remove (seen_ts, seen_seq, nonce) (nonce_lru st)\<rparr>)))
     | None \<Rightarrow> (Inr (), nonce_record now nonce (nonce_evict st)))"

section \<open>The registry stays in step and bounded\<close>

definition nonce_inv :: "NonceState \<Rightarrow> bool" where
  "nonce_inv st \<longleftrightarrow> bt_invar (nonce_lru st) \<and>
    in_step (\<lambda>v. v) (seen st) (set (nonce_lru st)) \<and> length (seen st) \<le> MAX_TRACKED_NONCES"

lemma nonce_inv_new: "nonce_inv NonceRegistry_new"
  by (simp add: nonce_inv_def NonceRegistry_new_def bt_invar_def in_step_def)

lemma drop_rows:
  assumes "bt_invar (nonce_lru st)" "in_step (\<lambda>v. v) (seen st) (set (nonce_lru st))"
    and "set rows \<subseteq> set (nonce_lru st)" "distinct rows"
    and "st' = fold (\<lambda>k st. st\<lparr>nonce_lru := bt_remove k (nonce_lru st),
                       seen := AList.delete (snd (snd k)) (seen st)\<rparr>) rows st"
  shows "bt_invar (nonce_lru st') \<and> in_step (\<lambda>v. v) (seen st') (set (nonce_lru st')) \<and>
    set (nonce_lru st') = set (nonce_lru st) - set rows \<and> length (seen st') \<le> length (seen st) \<and>
    nonce_next_seq st' = nonce_next_seq st"
  using assms
proof (induction rows arbitrary: st)
  case (Cons row rows)
  obtain t q k where row: "row = (t, q, k)" by (cases row)
  let ?st = "st\<lparr>nonce_lru := bt_remove row (nonce_lru st), seen := AList.delete k (seen st)\<rparr>"
  have "in_step (\<lambda>v. v) (AList.delete k (seen st)) (set (bt_remove row (nonce_lru st)))"
    using lru.in_step_drop [OF Cons.prems(1,2), of t q k] Cons.prems(3) row by simp
  moreover have "bt_invar (bt_remove row (nonce_lru st))"
    "set (bt_remove row (nonce_lru st)) = set (nonce_lru st) - {row}"
    using Cons.prems(1) by (simp_all add: bt.remove)
  moreover have "length (AList.delete k (seen st)) \<le> length (seen st)" by (rule length_delete_le)
  moreover have "set rows \<subseteq> set (nonce_lru st) - {row}" "distinct rows"
    "st' = fold (\<lambda>k st. st\<lparr>nonce_lru := bt_remove k (nonce_lru st),
       seen := AList.delete (snd (snd k)) (seen st)\<rparr>) rows ?st"
    using Cons.prems(3-5) row by auto
  ultimately show ?case using Cons.IH [of ?st] by force
qed simp

lemma nonce_gc_inv:
  assumes "nonce_inv st"
  shows "nonce_inv (nonce_gc now st)"
    "set (nonce_lru (nonce_gc now st)) =
      {row \<in> set (nonce_lru st). \<not> row < (nonce_cutoff now, 0, replicate 32 0)}"
    "length (seen (nonce_gc now st)) \<le> length (seen st)"
proof -
  let ?rows = "bt_range_to (nonce_cutoff now, 0, replicate 32 0) (nonce_lru st)"
  have inv: "bt_invar (nonce_lru st)" "in_step (\<lambda>v. v) (seen st) (set (nonce_lru st))"
    using assms by (auto simp: nonce_inv_def)
  have sub: "set ?rows = {row \<in> set (nonce_lru st). row < (nonce_cutoff now, 0, replicate 32 0)}"
    by (rule bt.range_to [OF inv(1)])
  have "distinct ?rows"
    using bt_invar_distinct [OF inv(1)] by (simp add: bt_range_to_def)
  moreover have "set ?rows \<subseteq> set (nonce_lru st)" unfolding sub by blast
  ultimately have *: "bt_invar (nonce_lru (nonce_gc now st))"
    "in_step (\<lambda>v. v) (seen (nonce_gc now st)) (set (nonce_lru (nonce_gc now st)))"
    "set (nonce_lru (nonce_gc now st)) = set (nonce_lru st) - set ?rows"
    "length (seen (nonce_gc now st)) \<le> length (seen st)"
    using drop_rows [OF inv, of ?rows "nonce_gc now st"] unfolding nonce_gc_def Let_def by blast+
  show "nonce_inv (nonce_gc now st)" "length (seen (nonce_gc now st)) \<le> length (seen st)"
    using * assms by (auto simp: nonce_inv_def)
  show "set (nonce_lru (nonce_gc now st)) =
      {row \<in> set (nonce_lru st). \<not> row < (nonce_cutoff now, 0, replicate 32 0)}"
    using *(3) sub by auto
qed

lemma nonce_gc_lookup:
  assumes "nonce_inv st"
  shows "map_of (seen (nonce_gc now st)) n = Some (t, q) \<longleftrightarrow>
    map_of (seen st) n = Some (t, q) \<and> \<not> (t, q, n) < (nonce_cutoff now, 0, replicate 32 0)"
proof -
  have "in_step (\<lambda>v. v) (seen st) (set (nonce_lru st))"
    "in_step (\<lambda>v. v) (seen (nonce_gc now st)) (set (nonce_lru (nonce_gc now st)))"
    using assms nonce_gc_inv(1) [OF assms] by (auto simp: nonce_inv_def)
  from in_step_row [OF this(1), of t q n] in_step_row [OF this(2), of t q n]
  show ?thesis unfolding nonce_gc_inv(2) [OF assms] by auto
qed

lemma nonce_evict_except:
  assumes inv: "bt_invar (nonce_lru st)" "in_step_except (\<lambda>v. v) n (seen st) (set (nonce_lru st))"
    and len: "length (seen st) \<le> MAX_TRACKED_NONCES"
  shows "bt_invar (nonce_lru (nonce_evict st))"
    "in_step_except (\<lambda>v. v) n (seen (nonce_evict st)) (set (nonce_lru (nonce_evict st)))"
    "length (seen (nonce_evict st)) < MAX_TRACKED_NONCES"
    "length (seen st) < MAX_TRACKED_NONCES \<Longrightarrow> nonce_evict st = st"
proof -
  have d: "distinct (map fst (seen st))" using inv(2) by (simp add: in_step_except_def)
  have "bt_invar (nonce_lru (nonce_evict st)) \<and>
    in_step_except (\<lambda>v. v) n (seen (nonce_evict st)) (set (nonce_lru (nonce_evict st))) \<and>
    length (seen (nonce_evict st)) < MAX_TRACKED_NONCES"
  proof (cases "length (seen st) \<ge> MAX_TRACKED_NONCES")
    case True
    then have l: "length (seen st) = MAX_TRACKED_NONCES" using len by simp
    then obtain t q k where row: "bt_first (nonce_lru st) = Some (t, q, k)"
      "(t, q, k) \<in> set (nonce_lru st)" "k \<in> fst ` set (seen st)"
      using lru.except_first [OF inv] by (auto simp: MAX_TRACKED_NONCES_def)
    have "nonce_evict st = st\<lparr>nonce_lru := bt_remove (t, q, k) (nonce_lru st),
        seen := AList.delete k (seen st)\<rparr>"
      using True row(1) by (simp add: nonce_evict_def)
    then show ?thesis
      using lru.except_drop [OF inv row(2)] bt.remove(1) [OF inv(1)] length_alist_delete [OF d, of k] row(3) l
      by (simp add: MAX_TRACKED_NONCES_def)
  next
    case False
    then show ?thesis using inv by (simp add: nonce_evict_def)
  qed
  then show "bt_invar (nonce_lru (nonce_evict st))"
    "in_step_except (\<lambda>v. v) n (seen (nonce_evict st)) (set (nonce_lru (nonce_evict st)))"
    "length (seen (nonce_evict st)) < MAX_TRACKED_NONCES" by blast+
qed (simp add: nonce_evict_def)

lemma nonce_record_inv:
  assumes "bt_invar (nonce_lru st)" "in_step_except (\<lambda>v. v) n (seen st) (set (nonce_lru st))"
    and "length (seen st) < MAX_TRACKED_NONCES"
  shows "nonce_inv (nonce_record now n st)"
  using lru.except_insert [OF assms(1,2), of "(now, nonce_next_seq st)"] bt.insert(1) [OF assms(1)] assms(3)
  by (simp add: nonce_inv_def nonce_record_def Let_def length_alist_update)

text \<open>Both branches that accept do so from a state that agrees except on the nonce.\<close>

lemma observe_cases:
  assumes inv: "nonce_inv st" and ob: "observe now n st = (r, st')"
  obtains (replay) t q where "r = Inl NonceReplay" "st' = nonce_gc now st"
      "map_of (seen (nonce_gc now st)) n = Some (t, q)" "now - t < NONCE_TTL"
  | (fresh) s where "r = Inr ()" "st' = nonce_record now n (nonce_evict s)"
      "seen s = seen (nonce_gc now st)" "bt_invar (nonce_lru s)"
      "in_step_except (\<lambda>v. v) n (seen s) (set (nonce_lru s))"
      "\<And>t q. map_of (seen (nonce_gc now st)) n = Some (t, q) \<Longrightarrow> NONCE_TTL \<le> now - t"
proof -
  let ?g = "nonce_gc now st"
  have g: "bt_invar (nonce_lru ?g)" "in_step (\<lambda>v. v) (seen ?g) (set (nonce_lru ?g))"
    using nonce_gc_inv(1) [OF inv] by (auto simp: nonce_inv_def)
  show thesis
  proof (cases "map_of (seen ?g) n")
    case None
    then show ?thesis using ob g lru.except_new [OF g(2) None]
      by (intro fresh [of ?g]) (auto simp: observe_def Let_def)
  next
    case (Some v)
    obtain t q where v: "v = (t, q)" by (cases v)
    let ?s = "?g\<lparr>nonce_lru := bt_remove (t, q, n) (nonce_lru ?g)\<rparr>"
    show ?thesis
    proof (cases "now - t < NONCE_TTL")
      case True
      then show ?thesis using ob Some v
        by (intro replay) (auto simp: observe_def Let_def duration_since_def)
    next
      case False
      have "in_step_except (\<lambda>v. v) n (seen ?s) (set (nonce_lru ?s))"
        using lru.except_known [OF g Some, of t q] v by simp
      then show ?thesis using ob Some v False bt.remove(1) [OF g(1)]
        by (intro fresh [of ?s]) (auto simp: observe_def Let_def duration_since_def)
    qed
  qed
qed

lemma observe_inv:
  assumes "nonce_inv st" shows "nonce_inv (snd (observe now n st))"
proof -
  obtain r st' where ob: "observe now n st = (r, st')" by fastforce
  from assms ob show ?thesis
  proof (cases rule: observe_cases)
    case (fresh s)
    have "length (seen s) \<le> MAX_TRACKED_NONCES"
      using nonce_gc_inv(1) [OF assms] fresh(3) by (simp add: nonce_inv_def)
    from nonce_evict_except(1-3) [OF fresh(4,5) this] show ?thesis
      using nonce_record_inv fresh(2) ob by simp
  qed (use nonce_gc_inv(1) [OF assms] ob in simp)
qed

section \<open>Runs\<close>

text \<open>A run over observations, with those accepted so far, latest first.\<close>

type_synonym observed = "instant \<times> bytes"

definition nonce_step :: "NonceState \<times> observed list \<Rightarrow> observed \<Rightarrow> NonceState \<times> observed list" where
  "nonce_step s ev =
    (case observe (fst ev) (snd ev) (fst s) of
       (Inl _, st) \<Rightarrow> (st, snd s)
     | (Inr _, st) \<Rightarrow> (st, ev # snd s))"

definition nonce_run :: "observed list \<Rightarrow> NonceState \<times> observed list" where
  "nonce_run evs = foldl nonce_step (NonceRegistry_new, []) evs"

text \<open>
  Times are those of one monotonic clock, at least one time to live past its
  origin, and fewer than the cap are observed within one time to live.
\<close>

definition calm :: "observed list \<Rightarrow> bool" where
  "calm evs \<longleftrightarrow> sorted (map fst evs) \<and> (\<forall>ev \<in> set evs. NONCE_TTL \<le> fst ev) \<and>
    (\<forall>i < length evs. length (filter (\<lambda>ev. fst (evs ! i) \<le> fst ev + NONCE_TTL) (take i evs))
      < MAX_TRACKED_NONCES)"

definition spaced :: "observed list \<Rightarrow> bool" where
  "spaced acc \<longleftrightarrow> sorted_wrt (\<lambda>late early. snd late = snd early \<longrightarrow> fst early + NONCE_TTL \<le> fst late) acc"

definition run_inv :: "instant \<Rightarrow> observed list \<Rightarrow> NonceState \<times> observed list \<Rightarrow> bool" where
  "run_inv now evs s \<longleftrightarrow> nonce_inv (fst s) \<and> spaced (snd s) \<and> set (snd s) \<subseteq> set evs \<and>
    (\<forall>n t q. map_of (seen (fst s)) n = Some (t, q) \<longrightarrow> (t, n) \<in> set (snd s)) \<and>
    (\<forall>(t, n) \<in> set (snd s). now < t + NONCE_TTL \<longrightarrow>
      (\<exists>t' q. map_of (seen (fst s)) n = Some (t', q) \<and> t \<le> t'))"

lemma cutoff_late: "NONCE_TTL \<le> now \<Longrightarrow> nonce_cutoff now = now - NONCE_TTL"
  by (simp add: nonce_cutoff_def checked_sub_def)

lemma gc_keeps:
  assumes "nonce_inv st" "NONCE_TTL \<le> now" "map_of (seen st) n = Some (t, q)" "now < t + NONCE_TTL"
  shows "map_of (seen (nonce_gc now st)) n = Some (t, q)"
  using assms by (auto simp: nonce_gc_lookup cutoff_late less_prod_def)

text \<open>After collection only entries of the current window are left.\<close>

lemma gc_window:
  assumes "run_inv now0 evs s" "NONCE_TTL \<le> now"
  shows "length (seen (nonce_gc now (fst s))) \<le> length (filter (\<lambda>ev. now \<le> fst ev + NONCE_TTL) evs)"
proof -
  let ?g = "nonce_gc now (fst s)" and ?F = "filter (\<lambda>ev. now \<le> fst ev + NONCE_TTL) evs"
  have inv: "nonce_inv (fst s)" and ri: "\<And>n t q. map_of (seen (fst s)) n = Some (t, q) \<Longrightarrow> (t, n) \<in> set (snd s)"
    and sub: "set (snd s) \<subseteq> set evs" using assms(1) by (auto simp: run_inv_def)
  have d: "distinct (map fst (seen ?g))" using nonce_gc_inv(1) [OF inv] by (simp add: nonce_inv_def in_step_def)
  have "fst ` set (seen ?g) \<subseteq> snd ` set ?F"
  proof
    fix n assume "n \<in> fst ` set (seen ?g)"
    then obtain t q where "map_of (seen ?g) n = Some (t, q)"
      by (metis map_of_eq_None_iff not_None_eq surj_pair)
    then have "map_of (seen (fst s)) n = Some (t, q)" "now - NONCE_TTL \<le> t"
      using nonce_gc_lookup [OF inv, of now n t q] assms(2)
      by (auto simp: cutoff_late less_prod_def not_less)
    then have "(t, n) \<in> set ?F" using ri sub by auto
    then show "n \<in> snd ` set ?F" by force
  qed
  then have "card (fst ` set (seen ?g)) \<le> card (snd ` set ?F)" by (intro card_mono) simp_all
  also have "\<dots> \<le> length ?F" by (meson card_image_le card_length finite_set le_trans)
  finally have "card (fst ` set (seen ?g)) \<le> length ?F" .
  moreover have "card (fst ` set (seen ?g)) = length (seen ?g)"
    using distinct_card [OF d] by simp
  ultimately show ?thesis by simp
qed

lemma run_step:
  assumes ri: "run_inv now0 evs s" and le: "now0 \<le> now" "NONCE_TTL \<le> now"
    and mono: "\<forall>ev \<in> set evs. fst ev \<le> now"
    and room: "length (filter (\<lambda>ev. now \<le> fst ev + NONCE_TTL) evs) < MAX_TRACKED_NONCES"
  shows "run_inv now (evs @ [(now, n)]) (nonce_step s (now, n))"
proof -
  obtain st acc where s: "s = (st, acc)" by (cases s)
  obtain r st' where ob: "observe now n st = (r, st')" by fastforce
  let ?g = "nonce_gc now st"
  have inv: "nonce_inv st" and sp: "spaced acc" and sub: "set acc \<subseteq> set evs"
    and true: "\<And>m t q. map_of (seen st) m = Some (t, q) \<Longrightarrow> (t, m) \<in> set acc"
    and kept: "\<And>t m. (t, m) \<in> set acc \<Longrightarrow> now0 < t + NONCE_TTL \<Longrightarrow>
      \<exists>t' q. map_of (seen st) m = Some (t', q) \<and> t \<le> t'"
    using ri s by (auto simp: run_inv_def)
  have kept': "\<exists>t' q. map_of (seen ?g) m = Some (t', q) \<and> t \<le> t'"
    if tm: "(t, m) \<in> set acc" "now < t + NONCE_TTL" for t m
  proof -
    obtain t' q where "map_of (seen st) m = Some (t', q)" "t \<le> t'"
      using kept [OF tm(1)] tm(2) le(1) by fastforce
    then show ?thesis using gc_keeps [OF inv le(2), of m t' q] tm(2) by auto
  qed
  have true': "map_of (seen ?g) m = Some (t, q) \<Longrightarrow> (t, m) \<in> set acc" for m t q
    using nonce_gc_lookup [OF inv, of now m t q] true by blast
  have inv': "nonce_inv st'" using observe_inv [OF inv, of now n] ob by simp
  from inv ob show ?thesis
  proof (cases rule: observe_cases)
    case (replay t q)
    have "nonce_step s (now, n) = (?g, acc)" using replay s ob by (simp add: nonce_step_def)
    then show ?thesis using inv' replay(2) sp sub true' kept' by (auto simp: run_inv_def)
  next
    case (fresh x)
    have "length (seen x) < MAX_TRACKED_NONCES"
      using gc_window [OF ri le(2)] room fresh(3) s by simp
    then have "nonce_evict x = x"
      using nonce_evict_except(4) [OF fresh(4,5)] by simp
    then have lk: "map_of (seen st') m = (if m = n then Some (now, nonce_next_seq x) else map_of (seen ?g) m)" for m
      using fresh(2,3) by (simp add: nonce_record_def Let_def update_conv')
    have "t + NONCE_TTL \<le> now" if tn: "(t, n) \<in> set acc" for t
    proof (rule ccontr)
      assume "\<not> t + NONCE_TTL \<le> now"
      then obtain t' q where g: "map_of (seen ?g) n = Some (t', q)" "t \<le> t'" "now < t + NONCE_TTL"
        using kept' [OF tn] by auto
      then have "NONCE_TTL \<le> now - t'" using fresh(6) by blast
      moreover have "0 < NONCE_TTL" by (simp add: NONCE_TTL_def NONCE_TTL_DEFAULT_SEC_def)
      ultimately show False using g by linarith
    qed
    then have sp': "spaced ((now, n) # acc)" using sp by (auto simp: spaced_def)
    have step: "nonce_step s (now, n) = (st', (now, n) # acc)"
      using fresh s ob by (simp add: nonce_step_def)
    have kp: "\<forall>(t, m) \<in> set ((now, n) # acc). now < t + NONCE_TTL \<longrightarrow>
      (\<exists>t' q. map_of (seen st') m = Some (t', q) \<and> t \<le> t')"
    proof (intro ballI, clarify)
      fix t m assume tm: "(t, m) \<in> set ((now, n) # acc)" "now < t + NONCE_TTL"
      show "\<exists>t' q. map_of (seen st') m = Some (t', q) \<and> t \<le> t'"
      proof (cases "m = n")
        case True
        then have "t \<le> now" using tm(1) sub mono by fastforce
        then show ?thesis using True by (simp add: lk)
      next
        case False
        then have "(t, m) \<in> set acc" using tm(1) by simp
        from kept' [OF this tm(2)] show ?thesis using False by (simp add: lk)
      qed
    qed
    have tr: "\<forall>m t q. map_of (seen st') m = Some (t, q) \<longrightarrow> (t, m) \<in> set ((now, n) # acc)"
      using true' by (auto simp: lk)
    have "set ((now, n) # acc) \<subseteq> set (evs @ [(now, n)])" using sub by auto
    then show ?thesis using inv' sp' tr kp unfolding run_inv_def step fst_conv snd_conv by blast
  qed
qed

lemma calm_snoc:
  assumes "calm (evs @ [(now, n)])"
  shows "calm evs" "NONCE_TTL \<le> now" "\<forall>ev \<in> set evs. fst ev \<le> now"
    "length (filter (\<lambda>ev. now \<le> fst ev + NONCE_TTL) evs) < MAX_TRACKED_NONCES"
proof -
  have room: "length (filter (\<lambda>ev. fst ((evs @ [(now, n)]) ! i) \<le> fst ev + NONCE_TTL)
      (take i (evs @ [(now, n)]))) < MAX_TRACKED_NONCES" if "i < length (evs @ [(now, n)])" for i
    using assms that unfolding calm_def by blast
  have "length (filter (\<lambda>ev. fst (evs ! i) \<le> fst ev + NONCE_TTL) (take i evs)) < MAX_TRACKED_NONCES"
    if "i < length evs" for i
    using room [of i] that by (simp add: nth_append)
  then show "calm evs" using assms by (auto simp: calm_def sorted_append)
  show "NONCE_TTL \<le> now" "\<forall>ev \<in> set evs. fst ev \<le> now"
    using assms by (auto simp: calm_def sorted_append)
  show "length (filter (\<lambda>ev. now \<le> fst ev + NONCE_TTL) evs) < MAX_TRACKED_NONCES"
    using room [of "length evs"] by simp
qed

lemma nonce_run_inv:
  "calm evs \<Longrightarrow> run_inv (if evs = [] then 0 else fst (last evs)) evs (nonce_run evs)"
proof (induction evs rule: rev_induct)
  case Nil
  then show ?case
    by (simp add: nonce_run_def run_inv_def nonce_inv_new spaced_def) (simp add: NonceRegistry_new_def)
next
  case (snoc ev evs)
  obtain now n where ev: "ev = (now, n)" by (cases ev)
  note c = calm_snoc [OF snoc.prems [unfolded ev]]
  have "(if evs = [] then 0 else fst (last evs)) \<le> now" using c(3) by auto
  from run_step [OF snoc.IH [OF c(1)] this c(2-4)] show ?case
    by (simp add: nonce_run_def ev)
qed

section \<open>Properties\<close>

text \<open>
  C17. No attestation nonce is accepted twice within its time to live.  Over any
  sequence of observations on a monotonic clock that is at least one time to
  live past its origin, with fewer than \<open>MAX_TRACKED_NONCES\<close> observations in
  any window of that length, two acceptances of one nonce are at least
  \<open>NONCE_TTL\<close> apart.
\<close>

theorem nonce_no_replay:
  assumes "calm evs"
  shows "spaced (snd (nonce_run evs))"
  using nonce_run_inv [OF assms] by (simp add: run_inv_def)

definition sample_events :: "observed list" where
  "sample_events = [(NONCE_TTL, [1]), (NONCE_TTL + 5, [2]), (NONCE_TTL + 9, [1])]"

theorem nonce_no_replay_witness:
  "calm sample_events \<and> spaced (snd (nonce_run sample_events))"
proof -
  have "calm sample_events"
    by (auto simp: calm_def sample_events_def MAX_TRACKED_NONCES_def less_Suc_eq)
  then show ?thesis using nonce_no_replay by blast
qed

text \<open>
  The registry is bounded and its two structures agree: after any sequence
  of observations at any times, the table holds at most \<open>MAX_TRACKED_NONCES\<close>
  nonces, the index has exactly as many rows, and the rows are the table's
  entries.
\<close>

theorem nonce_registry_bounded:
  "length (seen (fst (nonce_run evs))) \<le> MAX_TRACKED_NONCES \<and>
   length (nonce_lru (fst (nonce_run evs))) = length (seen (fst (nonce_run evs))) \<and>
   in_step (\<lambda>v. v) (seen (fst (nonce_run evs))) (set (nonce_lru (fst (nonce_run evs))))"
proof -
  have "nonce_inv (fst (nonce_run evs))"
  proof (induction evs rule: rev_induct)
    case Nil
    then show ?case by (simp add: nonce_run_def nonce_inv_new)
  next
    case (snoc ev evs)
    have "fst (nonce_step s ev) = snd (observe (fst ev) (snd ev) (fst s))" for s
      by (simp add: nonce_step_def split: prod.splits sum.splits)
    then show ?case using observe_inv [OF snoc] by (simp add: nonce_run_def)
  qed
  then show ?thesis using lru.in_step_size by (auto simp: nonce_inv_def)
qed

text \<open>
  C21. Near the clock's origin the registry forgets at once.  When the clock
  reads less than \<open>NONCE_TTL\<close> past the earliest representable instant,
  \<open>checked_sub\<close> fails and the cutoff becomes the current instant, so every
  earlier nonce is collected and a repeated nonce is accepted however recent it
  is.
\<close>

theorem nonce_replay_accepted_early:
  assumes "t0 < t1" "t1 < NONCE_TTL"
  shows "snd (nonce_run [(t0, n), (t1, n)]) = [(t1, n), (t0, n)]"
proof -
  let ?s1 = "\<lparr>seen = [(n, t0, 0)], nonce_lru = [(t0, 0, n)], nonce_next_seq = 1\<rparr>"
  have first: "observe t0 n NonceRegistry_new = (Inr (), ?s1)"
    by (simp add: observe_def NonceRegistry_new_def nonce_gc_def bt_range_to_def nonce_evict_def
        nonce_record_def MAX_TRACKED_NONCES_def Let_def)
  have "nonce_cutoff t1 = t1" using assms by (simp add: nonce_cutoff_def checked_sub_def)
  then have "seen (nonce_gc t1 ?s1) = []"
    using assms by (simp add: nonce_gc_def bt_range_to_def Let_def)
  then have "fst (observe t1 n ?s1) = Inr ()" by (simp add: observe_def Let_def)
  then obtain s2 where "observe t1 n ?s1 = (Inr (), s2)" by (metis prod.collapse)
  then show ?thesis using first by (simp add: nonce_run_def nonce_step_def)
qed

theorem nonce_replay_accepted_early_witness:
  "(1 :: nat) < 2 \<and> 2 < NONCE_TTL \<and> snd (nonce_run [(1, [7]), (2, [7])]) = [(2, [7]), (1, [7])]"
proof -
  have "2 < NONCE_TTL" by (simp add: NONCE_TTL_def NONCE_TTL_DEFAULT_SEC_def)
  then show ?thesis using nonce_replay_accepted_early [of 1 2 "[7]"] by simp
qed

end
