(* ===== verification/Tee_Service.thy ===== *)
theory Tee_Service
  imports Ws Inference Frame Control Tenant_Pool Nonce_Registry
begin

text \<open>
  \<open>ullm-tee/service.rs\<close>: the attestation endpoint, the digests of a receipt and the
  session handler, from the client hello to the signed receipt.  The handler is
  split where its comments number it: \<open>accept_hello\<close> (1 and 2), \<open>receive_prompt\<close>
  (3), \<open>stream_chunk\<close> for one turn of the loop over the engine's chunks (4),
  \<open>end_of_turn\<close> (5) and \<open>issue_receipt\<close> (6 and 7).  The engine is the list of
  chunks it sends for a prompt; the layer prover is a function; \<open>postcard\<close>, \<open>hex\<close>
  and the field are in \<open>session_lib\<close>.  The state is the connection, the generator
  and the tenant pool, and what was sent and drawn before a failure stays sent.
\<close>

section \<open>Digests and encodings\<close>

definition CLOAK_ROW_INFO :: bytes where "CLOAK_ROW_INFO = str_bytes ''ULLM-v1 synth-kv''"

definition synthesize_kv_row :: "'r prims \<Rightarrow> bytes \<Rightarrow> u64 \<Rightarrow> bytes" where
  "synthesize_kv_row P chunk position =
    hkdf_expand P (hkdf_extract P (u64_to_be position) chunk) CLOAK_ROW_INFO CLOAK_BLOCK_LEN"

definition token_id_input :: "bytes \<Rightarrow> u32 list \<Rightarrow> bytes" where
  "token_id_input input_hash ids =
    (let count = (if length ids < 2 ^ 32 then word_of_nat (length ids) else - 1 :: u32)
     in str_bytes ''ULLM-v1 token-id-digest'' @ input_hash @ u32_to_le count @ concat (map u32_to_le ids))"

definition compute_token_id_digest :: "'r prims \<Rightarrow> bytes \<Rightarrow> u32 list \<Rightarrow> bytes" where
  "compute_token_id_digest P input_hash ids = sha256 P (token_id_input input_hash ids)"

definition compute_output_string_digest :: "'r prims \<Rightarrow> bytes \<Rightarrow> bytes \<Rightarrow> bytes" where
  "compute_output_string_digest P input_hash output_bytes =
    sha256 P (str_bytes ''ULLM-v1 string-digest'' @ input_hash @ output_bytes)"

definition compute_output_digest :: "'r prims \<Rightarrow> bytes \<Rightarrow> bytes \<Rightarrow> bytes" where
  "compute_output_digest P input_hash output_bytes = compute_output_string_digest P input_hash output_bytes"

definition encode_prompt_to_fp :: "bytes \<Rightarrow> ('f::comm_ring_1) list" where
  "encode_prompt_to_fp input_hash =
    map (\<lambda>i. of_nat (unat (u32_from_le (take 4 (drop (i * 4) input_hash))))) [0..<VEC_DIM]"

definition approx_token_count :: "bytes \<Rightarrow> u32" where
  "approx_token_count bs =
    (let n = word_of_nat (length bs) :: u32
     in n div 4 + (if n mod 4 = 0 then 0 else 1))"

section \<open>Metrics authorisation\<close>

definition parse_bearer_credential :: "string \<Rightarrow> string option" where
  "parse_bearer_credential s =
    (let trimmed = trim_start s;
         scheme = takeWhile (\<lambda>c. \<not> is_ascii_whitespace_char c) trimmed;
         rest = dropWhile (\<lambda>c. \<not> is_ascii_whitespace_char c) trimmed
     in if \<not> eq_ignore_ascii_case scheme ''Bearer'' then None
        else case rest of [] \<Rightarrow> None | _ # cred \<Rightarrow> Some (trim_start cred))"

text \<open>Whether the request is passed on, or answered 404; the header is absent or its text.\<close>

definition metrics_auth_gate :: "string \<Rightarrow> string option \<Rightarrow> bool" where
  "metrics_auth_gate token auth =
    (let presented = (case Option.bind auth parse_bearer_credential of None \<Rightarrow> [] | Some c \<Rightarrow> c)
     in presented = token)"

section \<open>Attestation endpoint\<close>

type_synonym status = nat

definition attest ::
  "'r prims \<Rightarrow> 'f session_lib \<Rightarrow> TeeIdentity \<Rightarrow> int \<Rightarrow> instant \<Rightarrow> string \<Rightarrow> NonceState
   \<Rightarrow> (status \<times> string + bytes) option \<times> NonceState" where
  "attest P L identity clock now_inst q reg =
    (case hex_decode (sl_text L) q of
       None \<Rightarrow> (Some (Inl (400, ''nonce is not hex'')), reg)
     | Some nonce \<Rightarrow>
       if length nonce \<noteq> 32 then (Some (Inl (400, ''nonce must be 32 bytes'')), reg)
       else case observe now_inst nonce reg of
         (Inl _, reg) \<Rightarrow> (Some (Inl (409, ''attestation_nonce replay'')), reg)
       | (Inr _, reg) \<Rightarrow>
         (case Core.now_unix clock of
            Inl e \<Rightarrow> (Some (Inl (500, ''system clock unusable: '' @ Error_display e)), reg)
          | Inr now \<Rightarrow>
            (case build_bundle P (sl_evidence L) identity nonce now of
               None \<Rightarrow> (None, reg)
             | Some bundle \<Rightarrow>
               (case bundle_to_bytes L bundle of
                  Inl e \<Rightarrow> (Some (Inl (500, Error_display (Serde e))), reg)
                | Inr bs \<Rightarrow> (Some (Inr bs), reg)))))"

definition sanitized_tenant :: "string option \<Rightarrow> string" where
  "sanitized_tenant header =
    (let raw = (case header of None \<Rightarrow> ''anonymous'' | Some v \<Rightarrow> v) in
     if raw = [] \<or> length raw > 128 then ''anonymous''
     else if \<not> list_all (\<lambda>c. is_ascii_alphanumeric c \<or> c \<in> {CHR ''_'', CHR ''-'', CHR ''.''}) raw
     then ''anonymous'' else raw)"

section \<open>Session\<close>

record 'f AppState =
  as_identity :: TeeIdentity
  as_engine :: "bytes \<Rightarrow> TokenChunk list"
  as_receipt_key :: bytes
  as_model_name :: string
  as_model :: "'f Model"
  as_layer_prover :: "('f Trace \<Rightarrow> SessionId \<Rightarrow> bytes \<Rightarrow> string + bytes list) option"

text \<open>\<open>anyhow::Error\<close> by where it comes from; a panic ends the session as well.\<close>

datatype session_error = Anyhow string | FromError Error | FromPostcard string | Panic

record 'r tee_world = "'r world" +
  tenants :: TenantPool

type_synonym ('r, 'a) session = "('r tee_world, session_error, 'a) smonad"

definition WS_SEND_TIMEOUT :: nat where "WS_SEND_TIMEOUT = 60"
definition KEY_UPDATE_EVERY_N_CHUNKS :: u32 where "KEY_UPDATE_EVERY_N_CHUNKS = 2"

definition send_ws :: "bytes \<Rightarrow> ('r, unit) session" where
  "send_ws msg w =
    (case outcome w of
       Flushed \<Rightarrow> (Inr (), push_sent msg w)
     | SendFailed e \<Rightarrow> (Inl (Anyhow (''ws send: '' @ e)), w)
     | NotDrained \<Rightarrow> (Inl (Anyhow (''ws send timeout after '' @ dec WS_SEND_TIMEOUT @ ''s '' @ em_dash
         @ '' peer not draining'')), w))"

text \<open>\<open>receiver.next()\<close> has no timeout: it waits through idle time.\<close>

definition receiver_next :: "('r, ws_event option) session" where
  "receiver_next w =
    (case dropWhile (\<lambda>e. e = WsIdle) (incoming w) of
       [] \<Rightarrow> (Inr None, w\<lparr>incoming := []\<rparr>)
     | e # es \<Rightarrow> (Inr (Some e), w\<lparr>incoming := es\<rparr>))"

definition expect_binary :: "string \<Rightarrow> ('r, bytes) session" where
  "expect_binary what =
    sbind receiver_next (\<lambda>e. case e of Some (WsBinary b) \<Rightarrow> sreturn b | _ \<Rightarrow> sfail (Anyhow what))"

record TeeSession =
  c2s :: SymRatchet
  s2c :: SymRatchet
  nonce_salt :: NonceSalt
  current_root :: RootKey
  server_ratchet_sk :: bytes
  client_ratchet_pk :: bytes
  c2s_seq :: u64
  s2c_seq :: u64
  epoch :: Epoch
  output_token_total :: u32
  output_bytes :: bytes
  output_token_ids :: "u32 list"
  kv_position :: u64
  chunks_since_update :: u32
  slot :: SessionSlot

definition allocate_slot :: "'r prims \<Rightarrow> instant \<Rightarrow> TenantId \<Rightarrow> SessionId \<Rightarrow> ('r, SessionSlot) session" where
  "allocate_slot P now_inst tenant session_id w =
    (let (s, pool, r) = allocate P now_inst tenant session_id (tenants w) (rng w)
     in (Inr s, w\<lparr>rng := r, tenants := pool\<rparr>))"

definition session_now :: "int \<Rightarrow> session_error + u64" where
  "session_now clock =
    map_err (\<lambda>e. Anyhow (''system clock unusable: '' @ Error_display e)) (Core.now_unix clock)"

text \<open>The closure that \<open>respond\<close> calls.\<close>

definition evidence_and_sig ::
  "'r prims \<Rightarrow> evidence_codec \<Rightarrow> TeeIdentity \<Rightarrow> u64 \<Rightarrow> bytes \<Rightarrow> bytes \<Rightarrow> (bytes \<times> bytes) result" where
  "evidence_and_sig P C identity now report_data pre_sig_hash =
    rbind (encode_evidence C (MockIssuer_issue P (attest_issuer identity) report_data now))
      (\<lambda>evidence_bytes.
        let payload = SIG_DOMAIN_HANDSHAKE @ pre_sig_hash;
            sig = ed25519_sign P (id_sk identity) payload
        in Inr (evidence_bytes, sig))"

definition accept_hello ::
  "'r prims \<Rightarrow> 'f session_lib \<Rightarrow> TeeIdentity \<Rightarrow> int \<Rightarrow> SessionSlot \<Rightarrow> ('r, u64 \<times> TeeSession) session" where
  "accept_hello P L identity clock slt =
    sbind (expect_binary ''expected ClientHello binary frame'') (\<lambda>hello_msg.
    let server = \<lparr>spk_sk_x25519 = tee_spk_sk_x25519 identity, pq_sk_mlkem = tee_pq_sk_mlkem identity\<rparr> in
    sbind (draw (x25519_random P)) (\<lambda>ratchet_sk.
    sbind (slift (session_now clock)) (\<lambda>now.
    sbind (with_rng (\<lambda>r. let (x, r) = ServerHandshake_respond P (sl_hello L) server r hello_msg ratchet_sk
             (evidence_and_sig P (sl_evidence L) identity now) in (map_err FromError x, r)))
      (\<lambda>(server_hello, keys).
    sbind (send_ws server_hello) (\<lambda>_.
    sreturn (now, \<lparr>c2s = SymRatchet_new (ek_c2s_chain keys), s2c = SymRatchet_new (ek_s2c_chain keys),
      nonce_salt = ek_nonce_salt keys, current_root = ek_root keys, server_ratchet_sk = ratchet_sk,
      client_ratchet_pk = ek_client_ratchet_pk keys, c2s_seq = 0, s2c_seq = 0, epoch = 0,
      output_token_total = 0, output_bytes = [], output_token_ids = [], kv_position = 0,
      chunks_since_update = 0, slot = slt\<rparr>))))))"

definition incr_seq :: "u64 \<Rightarrow> session_error + u64" where
  "incr_seq s = (if s = - 1 then Inl (Anyhow ''seq overflow'') else Inr (s + 1))"

definition receive_prompt ::
  "'r prims \<Rightarrow> TeeSession \<Rightarrow> ('r, TeeSession \<times> u32 \<times> bytes \<times> bytes) session" where
  "receive_prompt P ss =
    sbind (expect_binary ''expected encrypted prompt frame'') (\<lambda>prompt_frame.
    let (key, ratchet) = SymRatchet_next_key P (c2s ss) in
    sbind (slift (map_err FromError (decode_frame P key (nonce_salt ss) prompt_frame)))
      (\<lambda>(header, prompt_bytes).
    if h_frame_type header \<noteq> FT_Data then sfail (Anyhow ''unexpected frame type for prompt'')
    else if h_seq header \<noteq> c2s_seq ss
    then sfail (Anyhow (''client sent out-of-order frame seq='' @ dec (unat (h_seq header))))
    else sbind (slift (incr_seq (c2s_seq ss))) (\<lambda>seq.
      let input_tokens = approx_token_count prompt_bytes;
          input_hash = sha256 P prompt_bytes
      in if \<not> utf8_valid prompt_bytes then sfail (Anyhow ''prompt is not utf-8'')
         else sreturn (ss\<lparr>c2s := ratchet, c2s_seq := seq\<rparr>, input_tokens, input_hash, prompt_bytes))))"

text \<open>Sealing one frame under the current server-to-client key and sending it.\<close>

definition send_frame ::
  "'r prims \<Rightarrow> FrameType \<Rightarrow> FrameFlags \<Rightarrow> bytes \<Rightarrow> TeeSession \<Rightarrow> ('r, TeeSession) session" where
  "send_frame P ft flags plaintext ss =
    (let (key, ratchet) = SymRatchet_next_key P (s2c ss) in
     sbind (slift (map_err FromError
       (encode_frame P key (nonce_salt ss) ft flags (epoch ss) (s2c_seq ss) plaintext))) (\<lambda>frame.
     sbind (send_ws (eo_wire frame)) (\<lambda>_. sreturn (ss\<lparr>s2c := ratchet\<rparr>))))"

definition record_chunk :: "'r prims \<Rightarrow> TokenChunk \<Rightarrow> TeeSession \<Rightarrow> TeeSession" where
  "record_chunk P chunk ss =
    (let text_bytes = tc_text chunk;
         n = unat (output_token_total ss) + unat (word_of_nat (length (tc_ids chunk)) :: u32)
     in ss\<lparr>output_token_total := (if n < 2 ^ 32 then word_of_nat n else - 1),
           output_bytes := output_bytes ss @ text_bytes,
           output_token_ids := output_token_ids ss @ tc_ids chunk,
           slot := record_kv P (kv_position ss) (synthesize_kv_row P text_bytes (kv_position ss)) (slot ss),
           kv_position := kv_position ss + 1\<rparr>)"

definition key_update :: "'r prims \<Rightarrow> TeeSession \<Rightarrow> ('r, TeeSession) session" where
  "key_update P ss =
    sbind (draw (x25519_random P)) (\<lambda>new_sk.
    let new_pk = x25519_public P new_sk;
        (new_root, new_keys) = DhRatchet_step P (current_root ss) new_sk (client_ratchet_pk ss);
        body = Control_encode (KeyUpdate new_pk)
    in sbind (send_frame P FT_Control 0 body ss) (\<lambda>ss.
       sreturn (ss\<lparr>current_root := new_root, s2c := SymRatchet_new (ik_s2c_chain new_keys),
         c2s := SymRatchet_new (ik_c2s_chain new_keys), nonce_salt := ik_nonce_salt new_keys,
         server_ratchet_sk := new_sk, epoch := epoch ss + 1, s2c_seq := 0, c2s_seq := 0,
         chunks_since_update := 0\<rparr>)))"

definition stream_chunk :: "'r prims \<Rightarrow> TokenChunk \<Rightarrow> TeeSession \<Rightarrow> ('r, TeeSession) session" where
  "stream_chunk P chunk ss =
    (let ss = record_chunk P chunk ss in
     sbind (send_frame P FT_Data 0 (tc_text chunk) ss) (\<lambda>ss.
     sbind (slift (incr_seq (s2c_seq ss))) (\<lambda>seq.
     let ss = ss\<lparr>s2c_seq := seq, chunks_since_update := chunks_since_update ss + 1\<rparr> in
     if KEY_UPDATE_EVERY_N_CHUNKS > 0 \<and> chunks_since_update ss \<ge> KEY_UPDATE_EVERY_N_CHUNKS
     then key_update P ss else sreturn ss)))"

fun stream_chunks :: "'r prims \<Rightarrow> TokenChunk list \<Rightarrow> TeeSession \<Rightarrow> ('r, TeeSession) session" where
  "stream_chunks P [] ss = sreturn ss"
| "stream_chunks P (c # cs) ss = sbind (stream_chunk P c ss) (stream_chunks P cs)"

text \<open>\<open>finalize_seal\<close> has no effect here: the sealed blocks are dropped.\<close>

definition end_of_turn :: "'r prims \<Rightarrow> TeeSession \<Rightarrow> ('r, TeeSession) session" where
  "end_of_turn P ss = send_frame P FT_Data END_OF_TURN [] ss"

definition layer_proofs ::
  "'f AppState \<Rightarrow> 'f Trace \<Rightarrow> SessionId \<Rightarrow> bytes list" where
  "layer_proofs st trace session_id =
    (case as_layer_prover st of
       None \<Rightarrow> []
     | Some prove \<Rightarrow>
       (case prove trace session_id (tee_weight_commit (as_identity st)) of
          Inl _ \<Rightarrow> []
        | Inr proofs \<Rightarrow> proofs))"

definition session_receipt ::
  "'r prims \<Rightarrow> 'f session_lib \<Rightarrow> ('f::comm_ring_1) AppState \<Rightarrow> TenantId \<Rightarrow> SessionId \<Rightarrow> u64
   \<Rightarrow> u32 \<Rightarrow> bytes \<Rightarrow> bytes list \<Rightarrow> TeeSession \<Rightarrow> Receipt" where
  "session_receipt P L st tenant session_id now n_in input_hash commits ss =
    (let hex = hex_encode (sl_text L)
     in \<lparr>r_tenant = tenant, r_session = session_id, r_model = as_model_name st, input_tokens = n_in,
         output_tokens = output_token_total ss, r_epoch = epoch ss, r_issued_at_unix = now,
         kv_blocks_cloaked = word_of_nat (cloaked_count (slot ss)),
         output_digest_hex = hex (compute_token_id_digest P input_hash (output_token_ids ss)),
         output_string_digest_hex = hex (compute_output_string_digest P input_hash (output_bytes ss)),
         weight_commit_hex = hex (tee_weight_commit (as_identity st)),
         activation_commits_hex = map hex commits\<rparr>)"

definition issue_receipt ::
  "'r prims \<Rightarrow> 'f session_lib \<Rightarrow> ('f::comm_ring_1) AppState \<Rightarrow> TenantId \<Rightarrow> SessionId \<Rightarrow> u64
   \<Rightarrow> u32 \<Rightarrow> bytes \<Rightarrow> TeeSession \<Rightarrow> ('r, unit) session" where
  "issue_receipt P L st tenant session_id now n_in input_hash ss =
    (let trace = Model_run (as_model st) (encode_prompt_to_fp input_hash) in
     case Trace_commits (sl_fp L) trace of
       None \<Rightarrow> sfail Panic
     | Some commits \<Rightarrow>
       let proofs = layer_proofs st trace session_id;
           receipt = session_receipt P L st tenant session_id now n_in input_hash (tc_bytes commits) ss
       in sbind (slift (map_err FromError (receipt_sign P (receipt_bytes L) (as_receipt_key st) receipt)))
            (\<lambda>rec.
          sbind (slift (map_err FromPostcard
            (envelope_to_bytes L \<lparr>signed_receipt = rec, zk_layer_proofs = proofs\<rparr>))) (\<lambda>envelope_bytes.
          send_ws envelope_bytes)))"

definition handle_session ::
  "'r prims \<Rightarrow> 'f session_lib \<Rightarrow> ('f::comm_ring_1) AppState \<Rightarrow> u64 \<Rightarrow> instant \<Rightarrow> int \<Rightarrow> TenantId
   \<Rightarrow> ('r, unit) session" where
  "handle_session P L st seed now_inst clock tenant =
    (let session_id = SessionId_random seed in
     sbind (allocate_slot P now_inst tenant session_id) (\<lambda>slt.
     sbind (accept_hello P L (as_identity st) clock slt) (\<lambda>(now, ss).
     sbind (receive_prompt P ss) (\<lambda>(ss, n_in, input_hash, prompt).
     sbind (stream_chunks P (as_engine st prompt) ss) (\<lambda>ss.
     sbind (end_of_turn P ss) (\<lambda>ss.
     issue_receipt P L st tenant session_id now n_in input_hash ss))))))"

end
