(* ===== verification/Streaming.thy ===== *)
theory Streaming
  imports Tee_Service Client_Session
begin

text \<open>
  The two ends of a session together.  \<open>in_sync\<close> relates the server's session to
  the client's: same keys, salt, epoch and root, and a replay window that has
  seen exactly the sequence numbers the server used in this epoch.  Shown: every
  chunk the server streams reaches the client, unchanged and in order, across any
  number of key updates, and the whole of a session, from the attestation request
  to the receipt, succeeds at both ends.
\<close>

section \<open>Reading a stream to its end\<close>

lemma next_token_step:
  assumes "\<not> ended ts" "read_binary w = (Inr msg, w')"
  shows "next_token P ts w =
    (case on_frame P msg ts of
       (Inl e, ts) \<Rightarrow> (Inl e, ts, w')
     | (Inr None, ts) \<Rightarrow> next_token P ts w'
     | (Inr (Some r), ts) \<Rightarrow> (Inr r, ts, w'))"
  using assms by (subst next_token.simps) simp

lemma next_token_shorter:
  "next_token P ts w = (Inr (Some t), ts', w') \<Longrightarrow> length (incoming w') < length (incoming w)"
proof (induction P ts w rule: next_token.induct)
  case (1 P ts w)
  have running: "\<not> ended ts" using 1(2) next_token.simps [of P ts w] by (cases "ended ts") auto
  show ?case
  proof (cases "read_binary w")
    case (Pair m w1)
    show ?thesis
    proof (cases m)
      case (Inl e)
      then show ?thesis using 1(2) running Pair next_token.simps [of P ts w] by simp
    next
      case (Inr msg)
      have r: "read_binary w = (Inr msg, w1)" using Pair Inr by simp
      note step = next_token_step [OF running r, of P]
      obtain x ts1 where f: "on_frame P msg ts = (x, ts1)" by fastforce
      consider "x = Inr None" "next_token P ts1 w1 = (Inr (Some t), ts', w')" | "w' = w1"
        using 1(2) step f by (auto split: sum.splits option.splits)
      then show ?thesis
        using 1(1) [OF running r [symmetric] refl f [symmetric]] read_binary_shorter [OF r] by cases auto
    qed
  qed
qed

text \<open>\<open>next_token\<close> until it returns \<open>None\<close> or fails, with the chunks read.\<close>

function read_all ::
  "'r prims \<Rightarrow> TokenStream \<Rightarrow> 'r world \<Rightarrow> (Error option \<times> bytes list) \<times> TokenStream \<times> 'r world" where
  "read_all P ts w =
    (case next_token P ts w of
       (Inl e, ts, w) \<Rightarrow> ((Some e, []), ts, w)
     | (Inr None, ts, w) \<Rightarrow> ((None, []), ts, w)
     | (Inr (Some t), ts, w) \<Rightarrow> (case read_all P ts w of ((e, texts), r) \<Rightarrow> ((e, t # texts), r)))"
  by pat_completeness auto

termination
  by (relation "measure (\<lambda>(P, ts, w). length (incoming w))") (auto dest: next_token_shorter [OF sym])

declare read_all.simps [simp del]

lemma read_binary_Binary:
  "incoming w = WsBinary b # es \<Longrightarrow> read_binary w = (Inr b, w\<lparr>incoming := es\<rparr>)"
  by (simp add: read_binary_def)

lemma read_all_again:
  assumes "\<not> ended ts" "incoming w = WsBinary b # es" "on_frame P b ts = (Inr None, ts')"
  shows "read_all P ts w = read_all P ts' (w\<lparr>incoming := es\<rparr>)"
proof -
  have "next_token P ts w = next_token P ts' (w\<lparr>incoming := es\<rparr>)"
    using next_token_step [OF assms(1) read_binary_Binary [OF assms(2)], of P] assms(3) by simp
  then show ?thesis by (simp add: read_all.simps [of P ts w] read_all.simps [of P ts'])
qed

definition prepend :: "bytes list \<Rightarrow> ('e \<times> bytes list) \<times> 'x \<Rightarrow> ('e \<times> bytes list) \<times> 'x" where
  "prepend ts r = (case r of ((e, texts), x) \<Rightarrow> ((e, ts @ texts), x))"

lemma prepend_simps [simp]:
  "prepend [] r = r" "prepend xs (prepend ys r) = prepend (xs @ ys) r"
  "prepend xs ((e, texts), x) = ((e, xs @ texts), x)"
  by (simp_all add: prepend_def split: prod.splits)

lemma read_all_chunk:
  assumes "\<not> ended ts" "incoming w = WsBinary b # es" "on_frame P b ts = (Inr (Some (Some t)), ts')"
  shows "read_all P ts w = prepend [t] (read_all P ts' (w\<lparr>incoming := es\<rparr>))"
proof -
  have "next_token P ts w = (Inr (Some t), ts', w\<lparr>incoming := es\<rparr>)"
    using next_token_step [OF assms(1) read_binary_Binary [OF assms(2)], of P] assms(3) by simp
  then show ?thesis by (simp add: read_all.simps [of P ts w] prepend_def split: prod.splits)
qed

lemma read_all_end:
  assumes "\<not> ended ts" "incoming w = WsBinary b # es" "on_frame P b ts = (Inr (Some None), ts')"
  shows "read_all P ts w = ((None, []), ts', w\<lparr>incoming := es\<rparr>)"
proof -
  have "next_token P ts w = (Inr None, ts', w\<lparr>incoming := es\<rparr>)"
    using next_token_step [OF assms(1) read_binary_Binary [OF assms(2)], of P] assms(3) by simp
  then show ?thesis by (simp add: read_all.simps [of P ts w])
qed

section \<open>One frame\<close>

text \<open>The window accepts the next number of an unbroken sequence.\<close>

lemma window_next:
  assumes "window_sim win {s. s < n}" "unat n < 2 ^ 62"
  shows "\<exists>win'. check_and_update win n = (Inr (), win') \<and> window_sim win' {s. s < n + 1}"
proof -
  have suc: "unat (n + 1) = unat n + 1"
    using assms(2) unat_add_lem [of n 1] by simp
  have ins: "insert n {s. s < n} = {s. s < n + 1}"
    using suc by (auto simp: word_less_nat_alt word_unat_eq_iff)
  have high: "unat (spec_high {s. s < n}) \<le> unat n \<and> unat n \<le> unat (spec_high {s. s < n}) + 1"
  proof (cases "n = 0")
    case False
    then have "unat (n - 1) = unat n - 1" by (simp add: unat_minus_one)
    then have "n - 1 \<in> {s. s < n}" using False by (simp add: word_less_nat_alt unat_gt_0)
    then have "n - 1 \<le> spec_high {s. s < n}" by (rule spec_high_ge)
    moreover have "spec_high {s. s < n} \<in> insert 0 {s. s < n}"
      unfolding spec_high_def by (rule Max_in) auto
    ultimately show ?thesis using \<open>unat (n - 1) = unat n - 1\<close> False
      by (auto simp: word_le_nat_alt word_less_nat_alt)
  qed (simp add: spec_high_def)
  obtain r win' where cu: "check_and_update win n = (r, win')" by fastforce
  have "spec_check {s. s < n} n = (Inr (), insert n {s. s < n})"
    using high assms(2) by (auto simp: spec_check_def)
  then show ?thesis
    using check_and_update_refines [OF assms(1) cu] cu ins by auto
qed

definition all_flushed :: "('r, 'z) world_scheme \<Rightarrow> bool" where
  "all_flushed w \<longleftrightarrow> outcomes w = (\<lambda>_. Flushed)"

lemma all_flushed_push [simp]: "all_flushed (push_sent b w) = all_flushed w"
  by (simp add: all_flushed_def)

text \<open>Both ends of the server-to-client direction, within one epoch.\<close>

definition in_epoch :: "TeeSession \<Rightarrow> Session \<Rightarrow> bool" where
  "in_epoch ss c \<longleftrightarrow> s2c ss = cs_s2c c \<and> nonce_salt ss = cs_nonce_salt c \<and> epoch ss = cs_epoch c \<and>
    window_sim (s2c_replay c) {s. s < s2c_seq ss}"

lemma frame_delivered:
  fixes w :: "'r tee_world"
  assumes "xchacha_law P" "in_epoch ss c" "unat (s2c_seq ss) < 2 ^ 62"
    and "length pt \<le> MAX_PLAINTEXT_PER_RECORD" "all_flushed w"
  obtains wire win ratchet where
    "send_frame P ft flags pt ss w = (Inr (ss\<lparr>s2c := ratchet\<rparr>), push_sent wire w)"
    "window_sim win {s. s < s2c_seq ss + 1}"
    "\<forall>ts. tks_session ts = c \<longrightarrow> on_frame P wire ts =
      on_plaintext P (Header_new ft (FrameFlags_from_bits_truncate flags) (epoch ss) (s2c_seq ss)) pt
        (ts\<lparr>tks_session := c\<lparr>cs_s2c := ratchet, s2c_replay := win\<rparr>\<rparr>)"
proof -
  obtain key ratchet where k: "SymRatchet_next_key P (s2c ss) = (key, ratchet)" by fastforce
  obtain out where out: "encode_frame P key (nonce_salt ss) ft flags (epoch ss) (s2c_seq ss) pt = Inr out"
    using assms(4) by (simp add: encode_frame_def Let_def)
  note dec = decode_encode_frame [OF assms(1) out]
  obtain win where win: "check_and_update (s2c_replay c) (s2c_seq ss) = (Inr (), win)"
    "window_sim win {s. s < s2c_seq ss + 1}"
    using window_next [of "s2c_replay c" "s2c_seq ss"] assms(2,3) by (auto simp: in_epoch_def)
  show thesis
  proof (rule that [of ratchet "eo_wire out" win])
    show "send_frame P ft flags pt ss w = (Inr (ss\<lparr>s2c := ratchet\<rparr>), push_sent (eo_wire out) w)"
      using assms(5) k out
      by (simp add: send_frame_def smonad_simps send_ws_def outcome_def all_flushed_def sbind_def)
    show "\<forall>ts. tks_session ts = c \<longrightarrow> on_frame P (eo_wire out) ts =
      on_plaintext P (Header_new ft (FrameFlags_from_bits_truncate flags) (epoch ss) (s2c_seq ss)) pt
        (ts\<lparr>tks_session := c\<lparr>cs_s2c := ratchet, s2c_replay := win\<rparr>\<rparr>)"
      using assms(2) k dec win(1) by (simp add: on_frame_def in_epoch_def)
  qed (rule win(2))
qed

section \<open>One chunk\<close>

definition in_sync :: "'r prims \<Rightarrow> TeeSession \<Rightarrow> Session \<Rightarrow> bool" where
  "in_sync P ss c \<longleftrightarrow> in_epoch ss c \<and> current_root ss = cs_current_root c \<and>
    client_ratchet_pk ss = x25519_public P (client_ratchet_sk c)"

text \<open>What a client keeps for the whole of a session.\<close>

definition same_peer :: "Session \<Rightarrow> Session \<Rightarrow> bool" where
  "same_peer c c' \<longleftrightarrow> client_ratchet_sk c' = client_ratchet_sk c \<and> tee_receipt_pk c' = tee_receipt_pk c \<and>
    layer_verifier c' = layer_verifier c \<and> expected_weight_commit c' = expected_weight_commit c"

lemma truncate_zero [simp]: "FrameFlags_from_bits_truncate 0 = 0"
  by (simp add: truncate_mask)

lemma DhRatchet_agree:
  "x25519_law P \<Longrightarrow> DhRatchet_step P root a (x25519_public P b) = DhRatchet_step P root b (x25519_public P a)"
  by (simp add: DhRatchet_step_def x25519_law_def)

lemma key_update_delivered:
  fixes w :: "'r tee_world"
  assumes laws: "xchacha_law P" "x25519_law P" and sync: "in_sync P ss c"
    and "unat (s2c_seq ss) < 2 ^ 62" "all_flushed w"
  obtains ss' w' wire c' where
    "key_update P ss w = (Inr ss', w')" "sent w' = sent w @ [wire]" "incoming w' = incoming w"
    "all_flushed w'" "in_sync P ss' c'" "same_peer c c'" "s2c_seq ss' = 0" "chunks_since_update ss' = 0"
    "\<forall>ts. tks_session ts = c \<longrightarrow> on_frame P wire ts = (Inr None, ts\<lparr>tks_session := c'\<rparr>)"
proof -
  obtain sk r where sk: "x25519_random P (rng w) = (sk, r)" by fastforce
  let ?pk = "x25519_public P sk" and ?w = "w\<lparr>rng := r\<rparr>"
  obtain root keys where step: "DhRatchet_step P (current_root ss) sk (client_ratchet_pk ss) = (root, keys)"
    by fastforce
  have len: "length ?pk = 32" using laws(2) by (simp add: x25519_law_def)
  then have "length (Control_encode (KeyUpdate ?pk)) \<le> MAX_PLAINTEXT_PER_RECORD"
    by (simp add: MAX_PLAINTEXT_PER_RECORD_def)
  moreover have "all_flushed ?w" "in_epoch ss c" using assms by (simp_all add: all_flushed_def in_sync_def)
  ultimately obtain wire win ratchet where fr:
    "send_frame P FT_Control 0 (Control_encode (KeyUpdate ?pk)) ss ?w = (Inr (ss\<lparr>s2c := ratchet\<rparr>), push_sent wire ?w)"
    "\<forall>ts. tks_session ts = c \<longrightarrow> on_frame P wire ts =
      on_plaintext P (Header_new FT_Control (FrameFlags_from_bits_truncate 0) (epoch ss) (s2c_seq ss))
        (Control_encode (KeyUpdate ?pk)) (ts\<lparr>tks_session := c\<lparr>cs_s2c := ratchet, s2c_replay := win\<rparr>\<rparr>)"
    using frame_delivered [OF laws(1) _ assms(4)] by metis
  define ss' where "ss' = ss\<lparr>s2c := SymRatchet_new (ik_s2c_chain keys), current_root := root,
    c2s := SymRatchet_new (ik_c2s_chain keys), nonce_salt := ik_nonce_salt keys,
    server_ratchet_sk := sk, epoch := epoch ss + 1, s2c_seq := 0, c2s_seq := 0, chunks_since_update := 0\<rparr>"
  define c' where "c' = apply_key_update P ?pk (c\<lparr>cs_s2c := ratchet, s2c_replay := win\<rparr>)"
  have run: "key_update P ss w = (Inr ss', push_sent wire ?w)"
    using fr(1) by (simp add: key_update_def draw_def with_rng_def sk step sbind_def sreturn_def ss'_def)
  have "DhRatchet_step P (cs_current_root c) (client_ratchet_sk c) ?pk = (root, keys)"
    using step sync DhRatchet_agree [OF laws(2), of _ sk "client_ratchet_sk c"] by (simp add: in_sync_def)
  then have sync': "in_sync P ss' c'" "same_peer c c'"
    using sync window_sim_new
    by (simp_all add: c'_def ss'_def apply_key_update_def in_sync_def in_epoch_def same_peer_def)
  have dec: "Control_decode (Control_encode (KeyUpdate ?pk)) = Inr (KeyUpdate ?pk)"
    using len by (simp del: Control_encode.simps)
  show thesis
  proof (rule that [OF run _ _ _ sync'])
    show "\<forall>ts. tks_session ts = c \<longrightarrow> on_frame P wire ts = (Inr None, ts\<lparr>tks_session := c'\<rparr>)"
      using fr(2) dec by (simp add: on_plaintext_def c'_def del: Control_encode.simps)
  qed (use assms(5) in \<open>simp_all add: ss'_def all_flushed_def\<close>)
qed

text \<open>Between chunks the sequence number counts the chunks since the last key update.\<close>

definition between_chunks :: "TeeSession \<Rightarrow> bool" where
  "between_chunks ss \<longleftrightarrow> chunks_since_update ss < 2 \<and> unat (s2c_seq ss) = unat (chunks_since_update ss)"

lemma record_chunk_sync [simp]:
  "in_sync P (record_chunk P ch ss) c = in_sync P ss c"
  "s2c_seq (record_chunk P ch ss) = s2c_seq ss"
  "chunks_since_update (record_chunk P ch ss) = chunks_since_update ss"
  by (simp_all add: record_chunk_def in_sync_def in_epoch_def Let_def)

lemma incr_small: "unat (n :: 'a::len word) + 1 < 2 ^ LENGTH('a) \<Longrightarrow> unat (n + 1) = unat n + 1"
  using unat_add_lem [of n 1] by simp

lemma data_delivered:
  fixes w :: "'r tee_world"
  assumes law: "xchacha_law P" and sync: "in_sync P ss c" and small: "unat (s2c_seq ss) < 2 ^ 62"
    and "utf8_valid pt" and len: "length pt \<le> MAX_PLAINTEXT_PER_RECORD" "all_flushed w"
  obtains wire ratchet c1 where
    "send_frame P FT_Data 0 pt ss w = (Inr (ss\<lparr>s2c := ratchet\<rparr>), push_sent wire w)"
    "\<forall>n. in_sync P (ss\<lparr>s2c := ratchet, s2c_seq := s2c_seq ss + 1, chunks_since_update := n\<rparr>) c1"
    "same_peer c c1"
    "\<forall>ts. tks_session ts = c \<longrightarrow> on_frame P wire ts = (Inr (Some (Some pt)), ts\<lparr>tks_session := c1\<rparr>)"
proof -
  have ep: "in_epoch ss c" using sync by (simp add: in_sync_def)
  obtain wire win ratchet where fr:
    "send_frame P FT_Data 0 pt ss w = (Inr (ss\<lparr>s2c := ratchet\<rparr>), push_sent wire w)"
    "window_sim win {s. s < s2c_seq ss + 1}"
    "\<forall>ts. tks_session ts = c \<longrightarrow> on_frame P wire ts =
      on_plaintext P (Header_new FT_Data (FrameFlags_from_bits_truncate 0) (epoch ss) (s2c_seq ss))
        pt (ts\<lparr>tks_session := c\<lparr>cs_s2c := ratchet, s2c_replay := win\<rparr>\<rparr>)"
    by (rule frame_delivered [OF law ep small len, where ft = FT_Data and flags = 0]) (rule that)
  show thesis
  proof (rule that [of ratchet wire "c\<lparr>cs_s2c := ratchet, s2c_replay := win\<rparr>"])
    show "\<forall>ts. tks_session ts = c \<longrightarrow> on_frame P wire ts =
        (Inr (Some (Some pt)), ts\<lparr>tks_session := c\<lparr>cs_s2c := ratchet, s2c_replay := win\<rparr>\<rparr>)"
      using fr(3) assms(4) by (simp add: on_plaintext_def END_OF_TURN_def)
  qed (use fr sync in \<open>simp_all add: in_sync_def in_epoch_def same_peer_def\<close>)
qed

text \<open>The first part of a turn of the loop: the data frame and the counters.\<close>

definition after_data :: "'r prims \<Rightarrow> TokenChunk \<Rightarrow> SymRatchet \<Rightarrow> TeeSession \<Rightarrow> TeeSession" where
  "after_data P ch ratchet ss = (record_chunk P ch ss)\<lparr>s2c := ratchet, s2c_seq := s2c_seq ss + 1,
    chunks_since_update := chunks_since_update ss + 1\<rparr>"

lemma stream_chunk_run:
  assumes "send_frame P FT_Data 0 (tc_text ch) (record_chunk P ch ss) w =
      (Inr ((record_chunk P ch ss)\<lparr>s2c := ratchet\<rparr>), w')" "s2c_seq ss \<noteq> - 1"
  shows "stream_chunk P ch ss w =
    (if 2 \<le> chunks_since_update ss + 1 then key_update P (after_data P ch ratchet ss) w'
     else (Inr (after_data P ch ratchet ss), w'))"
  using assms
  by (simp add: stream_chunk_def sbind_def slift_def sreturn_def incr_seq_def after_data_def Let_def
      KEY_UPDATE_EVERY_N_CHUNKS_def)

lemma chunk_delivered:
  fixes w :: "'r tee_world"
  assumes laws: "xchacha_law P" "x25519_law P" and bc: "between_chunks ss" and sync: "in_sync P ss c"
    and ok: "utf8_valid (tc_text ch)" "length (tc_text ch) \<le> MAX_PLAINTEXT_PER_RECORD" "all_flushed w"
  obtains ss' w' c' ms where "stream_chunk P ch ss w = (Inr ss', w')"
    "incoming w' = incoming w" "all_flushed w'" "between_chunks ss'" "sent w' = sent w @ ms"
    "in_sync P ss' c'" "same_peer c c'"
    "\<And>ts (cw :: 'r world) es. tks_session ts = c \<Longrightarrow> \<not> ended ts \<Longrightarrow>
      read_all P ts (cw\<lparr>incoming := map WsBinary ms @ es\<rparr>) =
      prepend [tc_text ch] (read_all P (ts\<lparr>tks_session := c'\<rparr>) (cw\<lparr>incoming := es\<rparr>))"
proof -
  have seq: "unat (s2c_seq ss) < 2" using bc by (simp add: between_chunks_def word_less_nat_alt)
  have "in_sync P (record_chunk P ch ss) c" "unat (s2c_seq (record_chunk P ch ss)) < 2 ^ 62"
    using sync seq by simp_all
  note pre = this
  obtain wire ratchet c1 where fr:
    "send_frame P FT_Data 0 (tc_text ch) (record_chunk P ch ss) w =
      (Inr ((record_chunk P ch ss)\<lparr>s2c := ratchet\<rparr>), push_sent wire w)"
    "\<forall>n. in_sync P ((record_chunk P ch ss)\<lparr>s2c := ratchet, s2c_seq := s2c_seq (record_chunk P ch ss) + 1,
      chunks_since_update := n\<rparr>) c1" "same_peer c c1"
    "\<forall>ts. tks_session ts = c \<longrightarrow> on_frame P wire ts = (Inr (Some (Some (tc_text ch))), ts\<lparr>tks_session := c1\<rparr>)"
    by (rule data_delivered [OF laws(1) pre ok]) (rule that)
  let ?ss = "after_data P ch ratchet ss"
  have sync1: "in_sync P ?ss c1" using fr(2) by (simp add: after_data_def)
  have suc: "unat (s2c_seq ss + 1) = unat (s2c_seq ss) + 1"
    "unat (chunks_since_update ss + 1) = unat (chunks_since_update ss) + 1"
    using seq bc by (intro incr_small; simp add: between_chunks_def)+
  note run = stream_chunk_run [OF fr(1)]
  have ne: "s2c_seq ss \<noteq> - 1" using suc(1) by auto
  note chunk = read_all_chunk [OF _ _ fr(4) [rule_format]]
  show thesis
  proof (cases "2 \<le> chunks_since_update ss + 1")
    case False
    show thesis
    proof (rule that [of ?ss "push_sent wire w" "[wire]" c1])
      show "between_chunks ?ss" using False suc bc by (simp add: between_chunks_def after_data_def not_le)
      show "read_all P ts (cw\<lparr>incoming := map WsBinary [wire] @ es\<rparr>) =
          prepend [tc_text ch] (read_all P (ts\<lparr>tks_session := c1\<rparr>) (cw\<lparr>incoming := es\<rparr>))"
        if "tks_session ts = c" "\<not> ended ts" for ts cw es
        using that by (simp add: chunk)
    qed (use run [OF ne] False ok sync1 fr(3) in simp_all)
  next
    case True
    have small: "unat (s2c_seq ?ss) < 2 ^ 62" "all_flushed (push_sent wire w)"
      using suc seq ok(3) by (simp_all add: after_data_def)
    obtain ss' w' wire2 c' where ku:
      "key_update P ?ss (push_sent wire w) = (Inr ss', w')" "sent w' = sent (push_sent wire w) @ [wire2]"
      "incoming w' = incoming (push_sent wire w)" "all_flushed w'" "in_sync P ss' c'" "same_peer c1 c'"
      "s2c_seq ss' = 0" "chunks_since_update ss' = 0"
      "\<forall>ts. tks_session ts = c1 \<longrightarrow> on_frame P wire2 ts = (Inr None, ts\<lparr>tks_session := c'\<rparr>)"
      by (rule key_update_delivered [OF laws sync1 small]) (rule that)
    show thesis
    proof (rule that [of ss' w' "[wire, wire2]" c'])
      show "same_peer c c'" using fr(3) ku(6) by (simp add: same_peer_def)
      show "between_chunks ss'" using ku(7,8) by (simp add: between_chunks_def)
      show "read_all P ts (cw\<lparr>incoming := map WsBinary [wire, wire2] @ es\<rparr>) =
          prepend [tc_text ch] (read_all P (ts\<lparr>tks_session := c'\<rparr>) (cw\<lparr>incoming := es\<rparr>))"
        if "tks_session ts = c" "\<not> ended ts" for ts cw es
        using that by (simp add: chunk read_all_again [OF _ _ ku(9) [rule_format]])
    qed (use run [OF ne] True ku in simp_all)
  qed
qed

section \<open>A whole answer\<close>

lemma chunks_delivered:
  fixes w :: "'r tee_world"
  assumes laws: "xchacha_law P" "x25519_law P"
    and "\<forall>ch \<in> set chs. utf8_valid (tc_text ch) \<and> length (tc_text ch) \<le> MAX_PLAINTEXT_PER_RECORD"
    and "between_chunks ss" "in_sync P ss c" "all_flushed w"
  shows "\<exists>ss' w' c' ms. stream_chunks P chs ss w = (Inr ss', w') \<and>
    incoming w' = incoming w \<and> all_flushed w' \<and> between_chunks ss' \<and> sent w' = sent w @ ms \<and>
    in_sync P ss' c' \<and> same_peer c c' \<and>
    (\<forall>ts (cw :: 'r world) es. tks_session ts = c \<longrightarrow> \<not> ended ts \<longrightarrow>
      read_all P ts (cw\<lparr>incoming := map WsBinary ms @ es\<rparr>) =
      prepend (map tc_text chs) (read_all P (ts\<lparr>tks_session := c'\<rparr>) (cw\<lparr>incoming := es\<rparr>)))"
  using assms(3-6)
proof (induction chs arbitrary: ss c w)
  case Nil
  have "ts\<lparr>tks_session := tks_session ts\<rparr> = ts" for ts :: TokenStream by simp
  then show ?case
    using Nil by (intro exI [of _ ss] exI [of _ w] exI [of _ c] exI [of _ "[]"])
      (auto simp: sreturn_def same_peer_def)
next
  case (Cons ch chs)
  have ch: "utf8_valid (tc_text ch)" "length (tc_text ch) \<le> MAX_PLAINTEXT_PER_RECORD"
    using Cons.prems(1) by simp_all
  obtain ss1 w1 c1 ms1 where 1: "stream_chunk P ch ss w = (Inr ss1, w1)"
    "incoming w1 = incoming w" "all_flushed w1" "between_chunks ss1" "sent w1 = sent w @ ms1"
    "in_sync P ss1 c1" "same_peer c c1"
    "\<forall>ts (cw :: 'r world) es. tks_session ts = c \<longrightarrow> \<not> ended ts \<longrightarrow>
      read_all P ts (cw\<lparr>incoming := map WsBinary ms1 @ es\<rparr>) =
      prepend [tc_text ch] (read_all P (ts\<lparr>tks_session := c1\<rparr>) (cw\<lparr>incoming := es\<rparr>))"
    by (rule chunk_delivered [OF laws Cons.prems(2,3) ch Cons.prems(4)]) (rule that, blast+)
  obtain ss2 w2 c2 ms2 where 2: "stream_chunks P chs ss1 w1 = (Inr ss2, w2)"
    "incoming w2 = incoming w1" "all_flushed w2" "between_chunks ss2" "sent w2 = sent w1 @ ms2"
    "in_sync P ss2 c2" "same_peer c1 c2"
    "\<forall>ts (cw :: 'r world) es. tks_session ts = c1 \<longrightarrow> \<not> ended ts \<longrightarrow>
      read_all P ts (cw\<lparr>incoming := map WsBinary ms2 @ es\<rparr>) =
      prepend (map tc_text chs) (read_all P (ts\<lparr>tks_session := c2\<rparr>) (cw\<lparr>incoming := es\<rparr>))"
    using Cons.IH [OF _ 1(4,6,3)] Cons.prems(1) by (auto simp del: split_paired_Ex)
  have "read_all P ts (cw\<lparr>incoming := map WsBinary (ms1 @ ms2) @ es\<rparr>) =
      prepend (map tc_text (ch # chs)) (read_all P (ts\<lparr>tks_session := c2\<rparr>) (cw\<lparr>incoming := es\<rparr>))"
    if "tks_session ts = c" "\<not> ended ts" for ts and cw :: "'r world" and es
    using 1(8) [rule_format, OF that, of "map WsBinary ms2 @ es" cw]
      2(8) [rule_format, of "ts\<lparr>tks_session := c1\<rparr>" es cw] that by simp
  moreover have "stream_chunks P (ch # chs) ss w = (Inr ss2, w2)"
    using 1(1) 2(1) by (simp add: sbind_def)
  moreover have "same_peer c c2" using 1(7) 2(7) by (simp add: same_peer_def)
  ultimately show ?case
    using 1(2,5) 2(2-6)
    by (intro exI [of _ ss2] exI [of _ w2] exI [of _ c2] exI [of _ "ms1 @ ms2"]) simp
qed

text \<open>What the server accounts for while it streams.\<close>

lemma send_frame_keeps:
  "send_frame P ft fl pt ss w = (Inr ss', w') \<Longrightarrow> \<exists>r. ss' = ss\<lparr>s2c := r\<rparr>"
  by (auto simp: send_frame_def sbind_eq_Inr slift_def sreturn_def split: prod.splits)

lemma key_update_keeps:
  assumes "key_update P ss w = (Inr ss', w')"
  shows "output_bytes ss' = output_bytes ss \<and> output_token_ids ss' = output_token_ids ss \<and>
    slot ss' = slot ss"
  using assms
  by (auto simp: key_update_def sbind_eq_Inr sreturn_def Let_def case_prod_beta
      dest!: send_frame_keeps)

lemma stream_chunk_outputs:
  assumes "stream_chunk P ch ss w = (Inr ss', w')"
  shows "output_bytes ss' = output_bytes ss @ tc_text ch \<and>
    output_token_ids ss' = output_token_ids ss @ tc_ids ch \<and>
    cloaked_count (slot ss') = cloaked_count (slot ss) + 1"
  using assms
  by (auto simp: stream_chunk_def sbind_eq_Inr sreturn_def slift_def Let_def record_chunk_def
      record_kv_def cloaked_count_def split: if_splits dest!: send_frame_keeps key_update_keeps)

lemma stream_chunks_outputs:
  "stream_chunks P chs ss w = (Inr ss', w') \<Longrightarrow>
    output_bytes ss' = output_bytes ss @ concat (map tc_text chs) \<and>
    output_token_ids ss' = output_token_ids ss @ concat (map tc_ids chs) \<and>
    cloaked_count (slot ss') = cloaked_count (slot ss) + length chs"
proof (induction chs arbitrary: ss w)
  case (Cons ch chs)
  then obtain ss1 w1 where "stream_chunk P ch ss w = (Inr ss1, w1)" "stream_chunks P chs ss1 w1 = (Inr ss', w')"
    by (auto simp: sbind_eq_Inr)
  then show ?case using Cons.IH [of ss1 w1] stream_chunk_outputs [of P ch ss w ss1 w1] by simp
qed (simp add: sreturn_def)

lemma end_of_turn_delivered:
  fixes w :: "'r tee_world"
  assumes "xchacha_law P" "in_sync P ss c" "between_chunks ss" "all_flushed w"
  obtains wire ratchet c' where
    "end_of_turn P ss w = (Inr (ss\<lparr>s2c := ratchet\<rparr>), push_sent wire w)" "same_peer c c'"
    "\<forall>ts. tks_session ts = c \<longrightarrow> on_frame P wire ts =
      (Inr (Some None), ts\<lparr>tks_session := c', ended := True\<rparr>)"
proof -
  have ep: "in_epoch ss c" using assms(2) by (simp add: in_sync_def)
  have small: "unat (s2c_seq ss) < 2 ^ 62"
    using assms(3) by (simp add: between_chunks_def word_less_nat_alt)
  have len: "length [] \<le> MAX_PLAINTEXT_PER_RECORD" by simp
  obtain wire win ratchet where fr:
    "send_frame P FT_Data END_OF_TURN [] ss w = (Inr (ss\<lparr>s2c := ratchet\<rparr>), push_sent wire w)"
    "window_sim win {s. s < s2c_seq ss + 1}"
    "\<forall>ts. tks_session ts = c \<longrightarrow> on_frame P wire ts =
      on_plaintext P (Header_new FT_Data (FrameFlags_from_bits_truncate END_OF_TURN) (epoch ss) (s2c_seq ss))
        [] (ts\<lparr>tks_session := c\<lparr>cs_s2c := ratchet, s2c_replay := win\<rparr>\<rparr>)"
    by (rule frame_delivered [OF assms(1) ep small len assms(4), where ft = FT_Data and flags = END_OF_TURN])
      (rule that)
  show thesis
  proof (rule that [of ratchet wire "c\<lparr>cs_s2c := ratchet, s2c_replay := win\<rparr>"])
    show "\<forall>ts. tks_session ts = c \<longrightarrow> on_frame P wire ts =
        (Inr (Some None), ts\<lparr>tks_session := c\<lparr>cs_s2c := ratchet, s2c_replay := win\<rparr>, ended := True\<rparr>)"
      using fr(3) by (simp add: on_plaintext_def truncate_mask END_OF_TURN_def)
  qed (use fr in \<open>simp_all add: end_of_turn_def same_peer_def\<close>)
qed

end
