(* ===== verification/End_To_End.thy ===== *)
theory End_To_End
  imports Streaming
begin

text \<open>
  A whole session between the client and the service, over a network that delivers
  what each sends: attestation, handshake, prompt, answer and receipt.
\<close>

section \<open>What is relied on\<close>

text \<open>The codecs return what they were given.\<close>

definition session_lib_law :: "'f session_lib \<Rightarrow> bool" where
  "session_lib_law L \<longleftrightarrow> hello_codec_law (sl_hello L) \<and> evidence_codec_law (sl_evidence L) \<and>
    hex_law (sl_text L) \<and> hex_text_law (sl_text L) \<and>
    (\<forall>b. \<exists>bs. bundle_to_bytes L b = Inr bs \<and> bundle_from_bytes L bs = Inr b) \<and>
    (\<forall>e. \<exists>bs. envelope_to_bytes L e = Inr bs \<and> envelope_from_bytes L bs = Inr e) \<and>
    (\<forall>x. length (fp_to_repr (sl_fp L) x) = 32)"

definition prims_law :: "'r prims \<Rightarrow> bool" where
  "prims_law P \<longleftrightarrow> xchacha_law P \<and> x25519_law P \<and> mlkem_law P \<and> sha2_law P \<and> ed25519_law P \<and> rng_law P"

text \<open>The key pairs of an identity, as \<open>TeeIdentity::random\<close> makes them.\<close>

definition identity_ok :: "'r prims \<Rightarrow> TeeIdentity \<Rightarrow> bool" where
  "identity_ok P i \<longleftrightarrow> mlkem_pair P (tee_pq_sk_mlkem i) (tee_pq_pk_mlkem i) \<and>
    tee_spk_pk_x25519 i = x25519_public P (tee_spk_sk_x25519 i) \<and> length (tee_weight_commit i) = 32"

lemma TeeIdentity_random_ok:
  "length wc = 32 \<Longrightarrow> identity_ok P (fst (TeeIdentity_random P r wc))"
  by (auto simp: identity_ok_def TeeIdentity_random_def ml_kem_keypair_def mlkem_pair_def Let_def
      split: prod.splits) (metis fst_conv)

lemma identity_pq_length:
  "mlkem_law P \<Longrightarrow> identity_ok P i \<Longrightarrow> length (tee_pq_pk_mlkem i) = ML_KEM_768_EK_LEN"
  unfolding mlkem_law_def identity_ok_def ML_KEM_768_EK_LEN_def by blast

text \<open>Encoded evidence of the identity stays below the cap on bundles.\<close>

definition evidence_small :: "'r prims \<Rightarrow> 'f session_lib \<Rightarrow> TeeIdentity \<Rightarrow> bool" where
  "evidence_small P L i \<longleftrightarrow> (\<forall>rd t eb.
    encode_evidence (sl_evidence L) (MockIssuer_issue P (attest_issuer i) rd t) = Inr eb \<longrightarrow>
    length rd = 64 \<longrightarrow> length eb \<le> MAX_ATTESTATION_EVIDENCE_LEN)"

text \<open>
  The network answers an attestation request with what the service answers, and
  the WebSocket connects.
\<close>

definition served ::
  "'r prims \<Rightarrow> 'f session_lib \<Rightarrow> net \<Rightarrow> TeeIdentity \<Rightarrow> string \<Rightarrow> TlsPinning option \<Rightarrow> int \<Rightarrow> bool" where
  "served P L N i base tls clock \<longleftrightarrow>
    (\<forall>nonce. length nonce = 32 \<longrightarrow> (\<exists>inst reg bs reg'.
      attest P L i clock inst (hex_encode (sl_text L) nonce) reg = (Some (Inr bs), reg') \<and>
      http_get N (attest_url (sl_text L) base nonce) tls = Inr bs)) \<and>
    ws_connect N (ws_stream_url base (tls \<noteq> None)) tls = Inr ()"

text \<open>A layer verifier, when there is one, accepts what the prover makes of a run of the model.\<close>

definition layers_complete :: "('f::comm_ring_1) session_lib \<Rightarrow> 'f AppState \<Rightarrow> LayerVerifier option \<Rightarrow> bool" where
  "layers_complete L st lv \<longleftrightarrow>
    (\<forall>v. lv = Some v \<longrightarrow> (\<forall>input tc sid. vec8 input \<longrightarrow>
      Trace_commits (sl_fp L) (Model_run (as_model st) input) = Some tc \<longrightarrow>
      v (tc_bytes tc) (layer_proofs st (Model_run (as_model st) input) sid) sid
        (tee_weight_commit (as_identity st)) = Inr ()))"

section \<open>Attestation\<close>

lemma built_bundle_valid:
  assumes "prims_law P" "session_lib_law L" "identity_ok P i" "evidence_small P L i"
    and "build_bundle P (sl_evidence L) i nonce t = Some b"
  shows "validate_structural b = Inr ()" "pq_pk_mlkem b = tee_pq_pk_mlkem i" "spk_pk_x25519 b = tee_spk_pk_x25519 i"
proof -
  have laws: "mlkem_law P" "sha2_law P" using assms(1) by (simp_all add: prims_law_def)
  show keys: "pq_pk_mlkem b = tee_pq_pk_mlkem i" "spk_pk_x25519 b = tee_spk_pk_x25519 i"
    using assms(5) by (auto simp: build_bundle_def ml_kem_pk_bytes_def Let_def split: sum.splits)
  have "length (pb_attestation_evidence b) \<le> MAX_ATTESTATION_EVIDENCE_LEN"
    using assms(4,5) laws(2)
    by (auto simp: build_bundle_def evidence_small_def Let_def bundle_report_data_def sha2_law_def
        split: sum.splits)
  then show "validate_structural b = Inr ()"
    using keys(1) identity_pq_length [OF laws(1) assms(3)] by (simp add: validate_structural_def)
qed

lemma served_bundle:
  assumes P: "prims_law P" and L: "session_lib_law L" and i: "identity_ok P i" "evidence_small P L i"
    and srv: "served P L N i base tls clock0" and t0: "Core.now_unix clock0 = Inr t0"
    and n: "length nonce = 32"
  obtains b where "fetch_bundle L N base nonce tls = Inr b"
    "build_bundle P (sl_evidence L) i nonce t0 = Some b"
proof -
  have laws: "evidence_codec_law (sl_evidence L)" "hex_law (sl_text L)" "mlkem_law P" "sha2_law P"
    using P L by (simp_all add: session_lib_law_def prims_law_def)
  obtain inst reg bs reg' where at:
    "attest P L i clock0 inst (hex_encode (sl_text L) nonce) reg = (Some (Inr bs), reg')"
    "http_get N (attest_url (sl_text L) base nonce) tls = Inr bs"
    using srv n unfolding served_def by blast
  have "hex_decode (sl_text L) (hex_encode (sl_text L) nonce) = Some nonce"
    using laws(2) by (simp add: hex_law_def)
  then obtain b where b: "build_bundle P (sl_evidence L) i nonce t0 = Some b" "bundle_to_bytes L b = Inr bs"
    using at(1) n t0 by (auto simp: attest_def split: prod.splits sum.splits option.splits)
  have dec: "bundle_from_bytes L bs = Inr b"
    using L b(2) unfolding session_lib_law_def by (metis sum.inject(2))
  have "validate_structural b = Inr ()" by (rule built_bundle_valid [OF P L i b(1)])
  then show thesis using at(2) dec b(1) by (intro that) (simp_all add: fetch_bundle_def)
qed

section \<open>Handshake\<close>

text \<open>The closure of the service, against the client's two checks.\<close>

lemma evidence_and_sig_ok:
  assumes "ed25519_law P" "evidence_codec_law C"
  shows "\<exists>ev sig. evidence_and_sig P C i t rd th = Inr (ev, sig) \<and> length sig = 64 \<and>
    verify_server_hello P (TeeIdentity_id_pk P i) th sig = Inr () \<and>
    decode_evidence C ev = Inr (MockIssuer_issue P (attest_issuer i) rd t)"
proof -
  obtain ev where "encode_evidence C (MockIssuer_issue P (attest_issuer i) rd t) = Inr ev"
    "decode_evidence C ev = Inr (MockIssuer_issue P (attest_issuer i) rd t)"
    using evidence_codec_lawD [OF assms(2)] by blast
  then show ?thesis
    using assms(1)
    by (simp add: evidence_and_sig_def verify_server_hello_def ed25519_law_def TeeIdentity_id_pk_def)
qed

lemma initiate_total:
  assumes "x25519_law P" "rng_law P" "hello_codec_law M" "length (pq_pk_mlkem b) = ML_KEM_768_EK_LEN"
  obtains ch hello r' where "ClientHandshake_initiate P M r b = (Inr (ch, hello), r')"
proof -
  obtain ct cpk hy r1 where e: "hybrid_encap P r (pq_pk_mlkem b) (spk_pk_x25519 b) = ((ct, cpk, hy), r1)"
    by (metis surj_pair)
  obtain cr r2 where f1: "rng_fill P RANDOM_LEN r1 = (cr, r2)" by fastforce
  obtain an r3 where f2: "rng_fill P ATTESTATION_NONCE_LEN r2 = (an, r3)" by fastforce
  obtain rsk r4 where f3: "x25519_random P r3 = (rsk, r4)" by fastforce
  define h where "h = \<lparr>ch_version = PROTOCOL_VERSION, ch_client_random = cr,
    ch_attestation_nonce = an, ch_client_x25519_pk = cpk, ch_client_mlkem_ct = ct,
    ch_client_ratchet_pk = x25519_public P rsk, ch_cipher_suite = default_phase1\<rparr>"
  have "length cpk = 32"
    using e assms(1) by (auto simp: hybrid_encap_def x25519_law_def Let_def split: prod.splits)
  then have "ch_wf h"
    using assms(1) rng_fill_length [OF assms(2) f1] rng_fill_length [OF assms(2) f2]
    by (simp add: h_def ch_wf_def x25519_law_def RANDOM_LEN_def ATTESTATION_NONCE_LEN_def)
  then obtain hb where "encode_ch M h = Inr hb" using hello_codec_ch [OF assms(3)] by blast
  then show thesis
    using e f1 f2 f3 assms(4) that
    by (simp add: ClientHandshake_initiate_def ml_kem_pk_from_bytes_def ml_kem_ct_bytes_def flip: h_def)
qed

definition srv_of :: "TeeIdentity \<Rightarrow> ServerHandshake" where
  "srv_of i = \<lparr>spk_sk_x25519 = tee_spk_sk_x25519 i, pq_sk_mlkem = tee_pq_sk_mlkem i\<rparr>"

lemma handshake_stage:
  assumes P: "prims_law P" and L: "session_lib_law L" and i: "identity_ok P i"
    and b: "pq_pk_mlkem b = tee_pq_pk_mlkem i" "spk_pk_x25519 b = tee_spk_pk_x25519 i"
    and init: "ClientHandshake_initiate P (sl_hello L) rc b = (Inr (ch, hello), rc')"
  obtains sh ek r' where
    "ServerHandshake_respond P (sl_hello L) (srv_of i) r hello rsk (evidence_and_sig P (sl_evidence L) i t)
      = (Inr (sh, ek), r')"
    "ClientHandshake_complete P (sl_hello L) ch sh (verify_server_hello P (TeeIdentity_id_pk P i)) = Inr ek"
    "decode_evidence (sl_evidence L) (ek_server_attestation_evidence ek) =
      Inr (MockIssuer_issue P (attest_issuer i) (ek_report_data ek) t)"
    "ek_client_ratchet_pk ek = x25519_public P (chs_client_ratchet_sk ch)"
proof -
  let ?mk = "evidence_and_sig P (sl_evidence L) i t"
  have laws: "x25519_law P" "mlkem_law P" "rng_law P" "hello_codec_law (sl_hello L)"
    "ed25519_law P" "evidence_codec_law (sl_evidence L)"
    using P L by (simp_all add: prims_law_def session_lib_law_def)
  note mk = evidence_and_sig_ok [OF laws(5,6)]
  have keys: "mlkem_pair P (pq_sk_mlkem (srv_of i)) (pq_pk_mlkem b)"
    "spk_pk_x25519 b = x25519_public P (spk_sk_x25519 (srv_of i))"
    using i b by (simp_all add: identity_ok_def srv_of_def)
  have "\<forall>rd th. \<exists>ev sig. ?mk rd th = Inr (ev, sig) \<and> length sig = 64" using mk by metis
  from honest_handshake [OF laws(1-4) keys init this, of r rsk]
  obtain sh ek ev sig where hs:
    "fst (ServerHandshake_respond P (sl_hello L) (srv_of i) r hello rsk ?mk) = Inr (sh, ek)"
    "?mk (ek_report_data ek) (Transcript_hash P (chs_transcript ch)) = Inr (ev, sig)"
    "ek_server_attestation_evidence ek = ev"
    "\<forall>verify. ClientHandshake_complete P (sl_hello L) ch sh verify =
      rbind (verify (Transcript_hash P (chs_transcript ch)) sig) (\<lambda>_. Inr ek)"
    by blast
  have ok: "verify_server_hello P (TeeIdentity_id_pk P i) (Transcript_hash P (chs_transcript ch)) sig = Inr ()"
    "decode_evidence (sl_evidence L) ev = Inr (MockIssuer_issue P (attest_issuer i) (ek_report_data ek) t)"
    using mk [of i t "ek_report_data ek" "Transcript_hash P (chs_transcript ch)"] hs(2) by auto
  have comp: "ClientHandshake_complete P (sl_hello L) ch sh (verify_server_hello P (TeeIdentity_id_pk P i)) = Inr ek"
    using hs(4) ok(1) by simp
  then have "ek_client_ratchet_pk ek = x25519_public P (chs_client_ratchet_sk ch)"
    by (auto simp: ClientHandshake_complete_def rbind_eq_Inr Let_def split: if_splits)
  then show thesis using hs(1,3) ok(2) comp by (intro that [of sh ek]) (auto simp: prod_eq_iff)
qed

text \<open>What both ends hold after the handshake.\<close>

definition client_session ::
  "EstablishedKeys \<Rightarrow> bytes \<Rightarrow> bytes \<Rightarrow> bytes \<Rightarrow> LayerVerifier option \<Rightarrow> bytes \<Rightarrow> Session" where
  "client_session ek rsk idk rpk lv wc =
    \<lparr>cs_s2c = SymRatchet_new (ek_s2c_chain ek), cs_nonce_salt = ek_nonce_salt ek,
     cs_epoch = 0, s2c_replay = ReplayWindow_new, cs_c2s = SymRatchet_new (ek_c2s_chain ek),
     cs_c2s_seq = 0, cs_current_root = ek_root ek, server_ratchet_pk = ek_server_ratchet_pk ek,
     client_ratchet_sk = rsk, tee_id_pk = idk, tee_receipt_pk = rpk, layer_verifier = lv,
     expected_weight_commit = wc\<rparr>"

definition server_session :: "EstablishedKeys \<Rightarrow> bytes \<Rightarrow> SessionSlot \<Rightarrow> TeeSession" where
  "server_session ek rsk slt =
    \<lparr>c2s = SymRatchet_new (ek_c2s_chain ek), s2c = SymRatchet_new (ek_s2c_chain ek),
     nonce_salt = ek_nonce_salt ek, current_root = ek_root ek, server_ratchet_sk = rsk,
     client_ratchet_pk = ek_client_ratchet_pk ek, c2s_seq = 0, s2c_seq = 0, epoch = 0,
     output_token_total = 0, output_bytes = [], output_token_ids = [], kv_position = 0,
     chunks_since_update = 0, slot = slt\<rparr>"

lemma sessions_in_sync:
  "ek_client_ratchet_pk ek = x25519_public P rsk \<Longrightarrow>
   in_sync P (server_session ek ssk slt) (client_session ek rsk idk rpk lv wc)"
  using window_sim_new
  by (simp add: in_sync_def in_epoch_def server_session_def client_session_def)

lemma accept_hello_run:
  fixes w :: "'r tee_world"
  assumes "x25519_random P r = (rsk, r1)"
    and "ServerHandshake_respond P (sl_hello L) (srv_of i) r1 hello rsk
      (evidence_and_sig P (sl_evidence L) i t) = (Inr (sh, ek), r2)"
    and "Core.now_unix clock = Inr t" "incoming w = WsBinary hello # es" "all_flushed w" "rng w = r"
  shows "accept_hello P L i clock slt w =
    (Inr (t, server_session ek rsk slt), push_sent sh (w\<lparr>incoming := es, rng := r2\<rparr>))"
  using assms
  by (simp add: accept_hello_def expect_binary_def receiver_next_def draw_def with_rng_def session_now_def
      sbind_def sreturn_def slift_def send_ws_def outcome_def all_flushed_def srv_of_def server_session_def
      Let_def)

lemma connect_run:
  assumes P: "prims_law P" and L: "session_lib_law L" and i: "identity_ok P i" "evidence_small P L i"
    and srv: "served P L N i base tls clock0" "Core.now_unix clock0 = Inr t0"
    and clocks: "Core.now_unix clock1 = Inr t1" "unat t1 \<le> unat t0 + 60"
      "Core.now_unix clock3 = Inr t3" "unat t3 \<le> unat t2 + 60"
    and w: "wc = tee_weight_commit i" "root = MockIssuer_verifying_key P (attest_issuer i)"
  obtains hello csk where
    "\<And>rs rsk. \<exists>sh ek r' r. ServerHandshake_respond P (sl_hello L) (srv_of i) rs hello rsk
        (evidence_and_sig P (sl_evidence L) i t2) = (Inr (sh, ek), r') \<and>
      ek_client_ratchet_pk ek = x25519_public P csk \<and>
      (\<forall>es. connect_with P L N base root rpk wc tls lv clock1 clock3
        \<lparr>incoming = WsBinary sh # es, sent = [], outcomes = (\<lambda>_. Flushed), rng = rc\<rparr> =
       (Inr (client_session ek csk (TeeIdentity_id_pk P i) rpk lv wc),
        \<lparr>incoming = es, sent = [hello], outcomes = (\<lambda>_. Flushed), rng = r\<rparr>))"
proof -
  have laws: "ed25519_law P" "evidence_codec_law (sl_evidence L)" "rng_law P" "x25519_law P" "mlkem_law P"
    "hello_codec_law (sl_hello L)"
    using P L by (simp_all add: prims_law_def session_lib_law_def)
  obtain nonce rc1 where n: "rng_fill P ATTESTATION_NONCE_LEN rc = (nonce, rc1)" by fastforce
  have "length nonce = 32" using rng_fill_length [OF laws(3) n] by (simp add: ATTESTATION_NONCE_LEN_def)
  then obtain b where b: "fetch_bundle L N base nonce tls = Inr b"
    "build_bundle P (sl_evidence L) i nonce t0 = Some b"
    by (rule served_bundle [OF P L i srv])
  have age: "unat NONCE_TTL_DEFAULT_SEC = 60" by (simp add: NONCE_TTL_DEFAULT_SEC_def)
  have vb: "verify_bundle P (sl_evidence L) b nonce wc root t1 NONCE_TTL_DEFAULT_SEC =
      Inr (TeeIdentity_id_pk P i)"
    using bundle_verified_iff [OF laws(1,2) b(2)] clocks(2) w age by simp
  note keys = built_bundle_valid(2,3) [OF P L i b(2)]
  then have "length (pq_pk_mlkem b) = ML_KEM_768_EK_LEN"
    using identity_pq_length [OF laws(5) i(1)] by simp
  then obtain ch hello rc2 where init: "ClientHandshake_initiate P (sl_hello L) rc1 b = (Inr (ch, hello), rc2)"
    by (rule initiate_total [OF laws(4,3,6)])
  show thesis
  proof (rule that [of hello "chs_client_ratchet_sk ch"])
    fix rs rsk
    obtain sh ek r' where hs:
      "ServerHandshake_respond P (sl_hello L) (srv_of i) rs hello rsk
        (evidence_and_sig P (sl_evidence L) i t2) = (Inr (sh, ek), r')"
      "ClientHandshake_complete P (sl_hello L) ch sh (verify_server_hello P (TeeIdentity_id_pk P i)) = Inr ek"
      "decode_evidence (sl_evidence L) (ek_server_attestation_evidence ek) =
        Inr (MockIssuer_issue P (attest_issuer i) (ek_report_data ek) t2)"
      "ek_client_ratchet_pk ek = x25519_public P (chs_client_ratchet_sk ch)"
      by (rule handshake_stage [OF P L i(1) keys init])
    have mv: "MockVerifier_verify P \<lparr>mv_trust_root = root\<rparr>
        (MockIssuer_issue P (attest_issuer i) (ek_report_data ek) t2)
        \<lparr>expected_report_data = ek_report_data ek, now_unix = t3, max_age_sec = NONCE_TTL_DEFAULT_SEC\<rparr> = Inr ()"
      using MockIssuer_issue_accepted [OF laws(1)] clocks(4) w(2) age by simp
    have "connect_with P L N base root rpk wc tls lv clock1 clock3
        \<lparr>incoming = WsBinary sh # es, sent = [], outcomes = (\<lambda>_. Flushed), rng = rc\<rparr> =
       (Inr (client_session ek (chs_client_ratchet_sk ch) (TeeIdentity_id_pk P i) rpk lv wc),
        \<lparr>incoming = es, sent = [hello], outcomes = (\<lambda>_. Flushed), rng = rc2\<rparr>)" for es
      using n b(1) vb init hs(2,3) mv clocks(1,3) srv(1)
      by (simp add: connect_with_def draw_def with_rng_def sbind_def slift_def sreturn_def ws_send_def
          outcome_def push_sent_def read_binary_def served_def client_session_def)
    then show "\<exists>sh ek r' r. ServerHandshake_respond P (sl_hello L) (srv_of i) rs hello rsk
        (evidence_and_sig P (sl_evidence L) i t2) = (Inr (sh, ek), r') \<and>
      ek_client_ratchet_pk ek = x25519_public P (chs_client_ratchet_sk ch) \<and>
      (\<forall>es. connect_with P L N base root rpk wc tls lv clock1 clock3
        \<lparr>incoming = WsBinary sh # es, sent = [], outcomes = (\<lambda>_. Flushed), rng = rc\<rparr> =
       (Inr (client_session ek (chs_client_ratchet_sk ch) (TeeIdentity_id_pk P i) rpk lv wc),
        \<lparr>incoming = es, sent = [hello], outcomes = (\<lambda>_. Flushed), rng = r\<rparr>))"
      using hs(1,4) by blast
  qed
qed

section \<open>Prompt\<close>

lemma prompt_delivered:
  assumes "xchacha_law P" "utf8_valid prompt" "length prompt \<le> MAX_PLAINTEXT_PER_RECORD"
  obtains key ratchet out where
    "SymRatchet_next_key P (SymRatchet_new (ek_c2s_chain ek)) = (key, ratchet)"
    "encode_frame P key (ek_nonce_salt ek) FT_Data 0 0 0 prompt = Inr out"
    "\<And>idk rpk lv wc. \<And>w :: 'r world. all_flushed w \<Longrightarrow>
      session_send P prompt (client_session ek csk idk rpk lv wc) w =
      (Inr \<lparr>tks_session = (client_session ek csk idk rpk lv wc)\<lparr>cs_c2s := ratchet, cs_c2s_seq := 1\<rparr>,
            ended = False\<rparr>, push_sent (eo_wire out) w)"
    "\<And>ssk slt. \<And>w :: 'r tee_world. \<And>es. incoming w = WsBinary (eo_wire out) # es \<Longrightarrow>
      receive_prompt P (server_session ek ssk slt) w =
      (Inr ((server_session ek ssk slt)\<lparr>c2s := ratchet, c2s_seq := 1\<rparr>, approx_token_count prompt,
            sha256 P prompt, prompt), w\<lparr>incoming := es\<rparr>)"
proof -
  obtain key ratchet where k: "SymRatchet_next_key P (SymRatchet_new (ek_c2s_chain ek)) = (key, ratchet)"
    by fastforce
  obtain out where out: "encode_frame P key (ek_nonce_salt ek) FT_Data 0 0 0 prompt = Inr out"
    using assms(3) by (simp add: encode_frame_def Let_def)
  note dec = decode_encode_frame [OF assms(1) out]
  show thesis
  proof (rule that [OF k out])
    fix idk rpk lv wc and w :: "'r world" assume "all_flushed w"
    then show "session_send P prompt (client_session ek csk idk rpk lv wc) w =
        (Inr \<lparr>tks_session = (client_session ek csk idk rpk lv wc)\<lparr>cs_c2s := ratchet, cs_c2s_seq := 1\<rparr>,
              ended = False\<rparr>, push_sent (eo_wire out) w)"
      using k out by (simp add: session_send_def client_session_def sbind_def slift_def sreturn_def ws_send_def
          outcome_def all_flushed_def)
  next
    fix ssk slt and w :: "'r tee_world" and es assume "incoming w = WsBinary (eo_wire out) # es"
    then show "receive_prompt P (server_session ek ssk slt) w =
        (Inr ((server_session ek ssk slt)\<lparr>c2s := ratchet, c2s_seq := 1\<rparr>, approx_token_count prompt,
              sha256 P prompt, prompt), w\<lparr>incoming := es\<rparr>)"
      using k dec assms(2)
      by (simp add: receive_prompt_def server_session_def expect_binary_def receiver_next_def sbind_def
          slift_def sreturn_def incr_seq_def)
  qed
qed

section \<open>Receipt\<close>

lemma hex32_encode:
  "hex_law J \<Longrightarrow> length b = 32 \<Longrightarrow> hex32 J err bad short (hex_encode J b) = Inr b"
  by (simp add: hex32_def hex_law_def)

lemma decode_commits_encode:
  "hex_law J \<Longrightarrow> \<forall>b \<in> set bs. length b = 32 \<Longrightarrow> decode_commits J err (map (hex_encode J) bs) = Inr bs"
  by (induction bs) (simp_all add: hex32_encode)

lemma Model_run_commits:
  assumes "vec8 input"
  obtains tc where "Trace_commits F (Model_run m input) = Some tc"
    "\<forall>b \<in> set (tc_bytes tc). \<exists>x. b = fp_to_repr F x"
proof -
  have "list_all vec8 (run_layers ls x)" for ls and x :: "'a list"
    by (induction ls arbitrary: x) (auto simp: Let_def)
  then have "list_all vec8 (activations (Model_run m input))" using assms by (simp add: Model_run_def)
  then have "commit_all F (activations (Model_run m input)) =
      Some (map (poseidon F) (activations (Model_run m input)))" by (rule commit_all_total)
  then show thesis by (intro that) (auto simp: Trace_commits_def)
qed

lemma session_receipt_ok:
  assumes "hex_text_law (sl_text L)" "sha2_law P" "length (tee_weight_commit (as_identity st)) = 32"
    and "\<forall>b \<in> set commits. length b = 32"
  shows "receipt_ok (session_receipt P L st tenant sid now n_in ih commits ss)"
  using assms(2-4)
  by (simp add: receipt_ok_def session_receipt_def compute_token_id_digest_def
      compute_output_string_digest_def sha2_law_def hex_text_ok [OF assms(1)] Let_def)

lemma receipt_accepted:
  fixes w :: "'r tee_world" and st :: "('f::comm_ring_1) AppState"
  assumes P: "prims_law P" and L: "session_lib_law L" and wc: "length (tee_weight_commit (as_identity st)) = 32"
    and lv: "layers_complete L st lv" and "all_flushed w"
  obtains env rec commits where
    "issue_receipt P L st tenant sid now n_in ih ss w = (Inr (), push_sent env w)"
    "sr_receipt rec = session_receipt P L st tenant sid now n_in ih commits ss"
    "\<forall>ts (cw :: 'r world) es. tee_receipt_pk (tks_session ts) = ed25519_public P (as_receipt_key st) \<longrightarrow>
      expected_weight_commit (tks_session ts) = tee_weight_commit (as_identity st) \<longrightarrow>
      layer_verifier (tks_session ts) = lv \<longrightarrow> incoming cw = WsBinary env # es \<longrightarrow>
      finalize P L ts cw = (Inr rec, cw\<lparr>incoming := es\<rparr>)"
proof -
  let ?J = "sl_text L" and ?wc = "tee_weight_commit (as_identity st)"
  have laws: "hex_law ?J" "hex_text_law ?J" "sha2_law P" "ed25519_law P"
    using P L by (simp_all add: prims_law_def session_lib_law_def)
  define trace where "trace = Model_run (as_model st) (encode_prompt_to_fp ih)"
  have vec: "vec8 (encode_prompt_to_fp ih :: 'f list)" by (simp add: vec8_def encode_prompt_to_fp_def)
  then obtain tc where tc: "Trace_commits (sl_fp L) trace = Some tc"
    "\<forall>b \<in> set (tc_bytes tc). \<exists>x. b = fp_to_repr (sl_fp L) x"
    unfolding trace_def by (rule Model_run_commits)
  have len: "\<forall>b \<in> set (tc_bytes tc). length b = 32" using tc(2) L by (auto simp: session_lib_law_def)
  define r where "r = session_receipt P L st tenant sid now n_in ih (tc_bytes tc) ss"
  define rec where "rec = \<lparr>sr_receipt = r, sr_signature = ed25519_sign P (as_receipt_key st) (receipt_bytes L r)\<rparr>"
  define e where "e = \<lparr>signed_receipt = rec, zk_layer_proofs = layer_proofs st trace sid\<rparr>"
  obtain env where env: "envelope_to_bytes L e = Inr env" "envelope_from_bytes L env = Inr e"
    using L unfolding session_lib_law_def by blast
  have ok: "receipt_ok r" unfolding r_def by (rule session_receipt_ok [OF laws(2,3) wc len])
  have issue: "issue_receipt P L st tenant sid now n_in ih ss w = (Inr (), push_sent env w)"
    using assms(5) tc(1) ok env(1)
    by (simp add: issue_receipt_def receipt_sign_iff sbind_def slift_def send_ws_def outcome_def
        all_flushed_def trace_def r_def rec_def e_def Let_def)
  have verified: "receipt_verify P (receipt_bytes L) rec (ed25519_public P (as_receipt_key st)) = Inr ()"
    using ok laws(4) by (simp add: receipt_verify_iff rec_def ed25519_law_def)
  have fields: "weight_commit_hex r = hex_encode ?J ?wc" "r_session r = sid"
    "activation_commits_hex r = map (hex_encode ?J) (tc_bytes tc)"
    by (simp_all add: r_def session_receipt_def Let_def)
  have "finalize P L ts cw = (Inr rec, cw\<lparr>incoming := es\<rparr>)"
    if "tee_receipt_pk (tks_session ts) = ed25519_public P (as_receipt_key st)"
      "expected_weight_commit (tks_session ts) = ?wc" "layer_verifier (tks_session ts) = lv"
      "incoming cw = WsBinary env # es" for ts es and cw :: "'r world"
    using that verified fields env(2) hex32_encode [OF laws(1) wc] decode_commits_encode [OF laws(1) len] lv
      tc(1) [unfolded trace_def] vec
    by (auto simp: trace_def finalize_def sbind_def slift_def read_binary_def check_envelope_def layers_complete_def e_def
        rec_def Let_def split: option.splits)
  then show thesis using issue by (intro that [of env rec "tc_bytes tc"]) (simp_all add: rec_def r_def)
qed

section \<open>From prompt to receipt\<close>

text \<open>
  The part of a session after the handshake: what the server sends for a prompt,
  and what a client that has it before it reads.
\<close>

lemma turn_delivered:
  fixes w :: "'r tee_world" and st :: "('f::comm_ring_1) AppState"
  assumes P: "prims_law P" and L: "session_lib_law L" and wc: "length (tee_weight_commit (as_identity st)) = 32"
    and lv: "layers_complete L st (layer_verifier c)"
    and chs: "\<forall>ch \<in> set chs. utf8_valid (tc_text ch) \<and> length (tc_text ch) \<le> MAX_PLAINTEXT_PER_RECORD"
    and sync: "between_chunks ss" "in_sync P ss c" "all_flushed w"
    and fresh: "output_bytes ss = []" "output_token_ids ss = []"
    and c: "tee_receipt_pk c = ed25519_public P (as_receipt_key st)"
      "expected_weight_commit c = tee_weight_commit (as_identity st)"
  obtains ms w' rec where
    "sbind (stream_chunks P chs ss) (\<lambda>ss. sbind (end_of_turn P ss)
      (issue_receipt P L st tenant sid now n_in ih)) w = (Inr (), w')"
    "sent w' = sent w @ ms" "r_tenant (sr_receipt rec) = tenant"
    "output_digest_hex (sr_receipt rec) =
      hex_encode (sl_text L) (compute_token_id_digest P ih (concat (map tc_ids chs)))"
    "output_string_digest_hex (sr_receipt rec) =
      hex_encode (sl_text L) (compute_output_string_digest P ih (concat (map tc_text chs)))"
    "\<forall>ts (cw :: 'r world). tks_session ts = c \<longrightarrow> \<not> ended ts \<longrightarrow> incoming cw = map WsBinary ms \<longrightarrow>
      (\<exists>ts' cw'. read_all P ts cw = ((None, map tc_text chs), ts', cw') \<and>
        finalize P L ts' cw' = (Inr rec, cw\<lparr>incoming := []\<rparr>))"
proof -
  have laws: "xchacha_law P" "x25519_law P" using P by (simp_all add: prims_law_def)
  obtain ss1 w1 c1 ms1 where 1: "stream_chunks P chs ss w = (Inr ss1, w1)"
    "all_flushed w1" "between_chunks ss1" "sent w1 = sent w @ ms1" "in_sync P ss1 c1" "same_peer c c1"
    "\<forall>ts (cw :: 'r world) es. tks_session ts = c \<longrightarrow> \<not> ended ts \<longrightarrow>
      read_all P ts (cw\<lparr>incoming := map WsBinary ms1 @ es\<rparr>) =
      prepend (map tc_text chs) (read_all P (ts\<lparr>tks_session := c1\<rparr>) (cw\<lparr>incoming := es\<rparr>))"
    using chunks_delivered [OF laws chs sync] by blast
  obtain eot ratchet c2 where 2:
    "end_of_turn P ss1 w1 = (Inr (ss1\<lparr>s2c := ratchet\<rparr>), push_sent eot w1)" "same_peer c1 c2"
    "\<forall>ts. tks_session ts = c1 \<longrightarrow> on_frame P eot ts =
      (Inr (Some None), ts\<lparr>tks_session := c2, ended := True\<rparr>)"
    by (rule end_of_turn_delivered [OF laws(1) 1(5,3,2)]) (rule that)
  have flushed: "all_flushed (push_sent eot w1)" using 1(2) by simp
  obtain env rec commits where 3:
    "issue_receipt P L st tenant sid now n_in ih (ss1\<lparr>s2c := ratchet\<rparr>) (push_sent eot w1) =
      (Inr (), push_sent env (push_sent eot w1))"
    "sr_receipt rec = session_receipt P L st tenant sid now n_in ih commits (ss1\<lparr>s2c := ratchet\<rparr>)"
    "\<forall>ts (cw :: 'r world) es. tee_receipt_pk (tks_session ts) = ed25519_public P (as_receipt_key st) \<longrightarrow>
      expected_weight_commit (tks_session ts) = tee_weight_commit (as_identity st) \<longrightarrow>
      layer_verifier (tks_session ts) = layer_verifier c \<longrightarrow> incoming cw = WsBinary env # es \<longrightarrow>
      finalize P L ts cw = (Inr rec, cw\<lparr>incoming := es\<rparr>)"
    by (rule receipt_accepted [OF P L wc lv flushed]) (rule that)
  have "\<exists>ts' cw'. read_all P ts cw = ((None, map tc_text chs), ts', cw') \<and>
        finalize P L ts' cw' = (Inr rec, cw\<lparr>incoming := []\<rparr>)"
    if "tks_session ts = c" "\<not> ended ts" "incoming cw = map WsBinary (ms1 @ [eot, env])"
    for ts and cw :: "'r world"
  proof -
    have "cw = cw\<lparr>incoming := map WsBinary ms1 @ [WsBinary eot, WsBinary env]\<rparr>" using that(3) by simp
    then have "read_all P ts cw = prepend (map tc_text chs)
        (read_all P (ts\<lparr>tks_session := c1\<rparr>) (cw\<lparr>incoming := [WsBinary eot, WsBinary env]\<rparr>))"
      using 1(7) that(1,2) by metis
    also have "read_all P (ts\<lparr>tks_session := c1\<rparr>) (cw\<lparr>incoming := [WsBinary eot, WsBinary env]\<rparr>) =
        ((None, []), ts\<lparr>tks_session := c2, ended := True\<rparr>, cw\<lparr>incoming := [WsBinary env]\<rparr>)"
      using read_all_end [of "ts\<lparr>tks_session := c1\<rparr>" "cw\<lparr>incoming := [WsBinary eot, WsBinary env]\<rparr>" eot
          "[WsBinary env]" P] 2(3) that(2) by simp
    finally show ?thesis using 3(3) c 1(6) 2(2) by (auto simp: same_peer_def)
  qed
  then show thesis
    using stream_chunks_outputs [OF 1(1)] fresh 1(1,4) 2(1) 3(1,2)
    by (intro that [of "push_sent env (push_sent eot w1)" "ms1 @ [eot, env]" rec])
      (simp_all add: sbind_def session_receipt_def Let_def)
qed

section \<open>From the connection to the prompt\<close>

text \<open>The connection of a client and that of the service, before anything was sent.\<close>

definition client_world :: "bytes list \<Rightarrow> 'r \<Rightarrow> 'r world" where
  "client_world msgs r =
    \<lparr>incoming = map WsBinary msgs, sent = [], outcomes = (\<lambda>_. Flushed), rng = r\<rparr>"

definition server_world :: "bytes list \<Rightarrow> 'r \<Rightarrow> TenantPool \<Rightarrow> 'r tee_world" where
  "server_world msgs r pool =
    \<lparr>incoming = map WsBinary msgs, sent = [], outcomes = (\<lambda>_. Flushed), rng = r, tenants = pool\<rparr>"

text \<open>
  The part of the handler before the first chunk, for any client that holds the
  keys of the handshake: the handler is left with the loop over the chunks, in sync
  with that client.
\<close>

lemma handler_opens:
  fixes P :: "'r prims" and st :: "('f::comm_ring_1) AppState"
  defines "i \<equiv> as_identity st"
  assumes xch: "xchacha_law P" and t2: "Core.now_unix clock2 = Inr t2"
    and prompt: "utf8_valid prompt" "length prompt \<le> MAX_PLAINTEXT_PER_RECORD"
    and hs: "\<And>r rsk. \<exists>sh ek r'. ServerHandshake_respond P (sl_hello L) (srv_of i) r hello rsk
        (evidence_and_sig P (sl_evidence L) i t2) = (Inr (sh, ek), r') \<and>
      ek_client_ratchet_pk ek = x25519_public P csk \<and> R sh ek"
  obtains sh ek key ratchet out ss w where "R sh ek"
    "SymRatchet_next_key P (SymRatchet_new (ek_c2s_chain ek)) = (key, ratchet)"
    "encode_frame P key (ek_nonce_salt ek) FT_Data 0 0 0 prompt = Inr out"
    "\<And>idk rpk lv wc. \<And>w :: 'r world. all_flushed w \<Longrightarrow>
      session_send P prompt (client_session ek csk idk rpk lv wc) w =
      (Inr \<lparr>tks_session = (client_session ek csk idk rpk lv wc)\<lparr>cs_c2s := ratchet, cs_c2s_seq := 1\<rparr>,
            ended = False\<rparr>, push_sent (eo_wire out) w)"
    "between_chunks ss" "all_flushed w" "output_bytes ss = []" "output_token_ids ss = []" "sent w = [sh]"
    "\<And>idk rpk lv wc. in_sync P ss ((client_session ek csk idk rpk lv wc)\<lparr>cs_c2s := ratchet, cs_c2s_seq := 1\<rparr>)"
    "handle_session P L st seed inst clock2 tenant (server_world [hello, eo_wire out] rs pool) =
      sbind (stream_chunks P (as_engine st prompt) ss) (\<lambda>ss. sbind (end_of_turn P ss)
        (issue_receipt P L st tenant (SessionId_random seed) t2 (approx_token_count prompt)
          (sha256 P prompt))) w"
proof -
  obtain slt pool' rs1 where al: "allocate P inst tenant (SessionId_random seed) pool rs = (slt, pool', rs1)"
    by (metis surj_pair)
  obtain rsk rs2 where rsk: "x25519_random P rs1 = (rsk, rs2)" by fastforce
  obtain sh ek rs3 where e:
    "ServerHandshake_respond P (sl_hello L) (srv_of i) rs2 hello rsk
      (evidence_and_sig P (sl_evidence L) i t2) = (Inr (sh, ek), rs3)"
    "ek_client_ratchet_pk ek = x25519_public P csk" "R sh ek"
    using hs by blast
  let ?ss = "server_session ek rsk slt"
  obtain key ratchet out where pr:
    "SymRatchet_next_key P (SymRatchet_new (ek_c2s_chain ek)) = (key, ratchet)"
    "encode_frame P key (ek_nonce_salt ek) FT_Data 0 0 0 prompt = Inr out"
    "\<And>idk rpk lv wc. \<And>w :: 'r world. all_flushed w \<Longrightarrow>
      session_send P prompt (client_session ek csk idk rpk lv wc) w =
      (Inr \<lparr>tks_session = (client_session ek csk idk rpk lv wc)\<lparr>cs_c2s := ratchet, cs_c2s_seq := 1\<rparr>,
            ended = False\<rparr>, push_sent (eo_wire out) w)"
    "\<And>ssk slt. \<And>w :: 'r tee_world. \<And>es. incoming w = WsBinary (eo_wire out) # es \<Longrightarrow>
      receive_prompt P (server_session ek ssk slt) w =
      (Inr ((server_session ek ssk slt)\<lparr>c2s := ratchet, c2s_seq := 1\<rparr>, approx_token_count prompt,
            sha256 P prompt, prompt), w\<lparr>incoming := es\<rparr>)"
    using prompt_delivered [OF xch prompt, where ek = ek and csk = csk] by metis
  let ?w = "(push_sent sh (server_world [eo_wire out] rs3 pool'))\<lparr>incoming := []\<rparr>"
  have "handle_session P L st seed inst clock2 tenant (server_world [hello, eo_wire out] rs pool) =
      sbind (stream_chunks P (as_engine st prompt) (?ss\<lparr>c2s := ratchet, c2s_seq := 1\<rparr>))
        (\<lambda>ss. sbind (end_of_turn P ss)
        (issue_receipt P L st tenant (SessionId_random seed) t2 (approx_token_count prompt)
          (sha256 P prompt))) ?w"
    using al accept_hello_run [OF rsk e(1) t2] pr(4)
    by (simp add: handle_session_def allocate_slot_def server_world_def sbind_def [of "allocate_slot _ _ _ _"]
        sbind_def [of "accept_hello _ _ _ _ _"] sbind_def [of "receive_prompt _ _"] all_flushed_def
        push_sent_def i_def Let_def)
  moreover have "in_sync P (?ss\<lparr>c2s := ratchet, c2s_seq := 1\<rparr>)
      ((client_session ek csk idk rpk lv wc)\<lparr>cs_c2s := ratchet, cs_c2s_seq := 1\<rparr>)" for idk rpk lv wc
    using sessions_in_sync [OF e(2), of rsk slt idk rpk lv wc] by (simp add: in_sync_def in_epoch_def)
  ultimately show thesis
    using e(3) pr(1-3)
    by (intro that [of sh ek key ratchet out "?ss\<lparr>c2s := ratchet, c2s_seq := 1\<rparr>" ?w])
      (simp_all add: between_chunks_def server_session_def all_flushed_def server_world_def push_sent_def)
qed

lemma session_opens:
  fixes P :: "'r prims" and st :: "('f::comm_ring_1) AppState"
  defines "i \<equiv> as_identity st"
  assumes laws: "prims_law P" "session_lib_law L" "identity_ok P i" "evidence_small P L i"
      "served P L N i base tls clock0" "Core.now_unix clock0 = Inr t0"
      "Core.now_unix clock1 = Inr t1" "unat t1 \<le> unat t0 + 60"
      "Core.now_unix clock3 = Inr t3" "unat t3 \<le> unat t2 + 60"
    and t2: "Core.now_unix clock2 = Inr t2"
    and prompt: "utf8_valid prompt" "length prompt \<le> MAX_PLAINTEXT_PER_RECORD"
    and keys: "root = MockIssuer_verifying_key P (attest_issuer i)" "wc = tee_weight_commit i"
  obtains hello wire sh ss c0 c w rc1 where
    "between_chunks ss" "in_sync P ss c" "all_flushed w" "output_bytes ss = []" "output_token_ids ss = []"
    "tee_receipt_pk c = rpk" "expected_weight_commit c = wc" "layer_verifier c = lv" "sent w = [sh]"
    "handle_session P L st seed inst clock2 tenant (server_world [hello, wire] rs pool) =
      sbind (stream_chunks P (as_engine st prompt) ss) (\<lambda>ss. sbind (end_of_turn P ss)
        (issue_receipt P L st tenant (SessionId_random seed) t2 (approx_token_count prompt)
          (sha256 P prompt))) w"
    "\<forall>ms. connect_with P L N base root rpk wc tls lv clock1 clock3 (client_world (sh # ms) rc) =
      (Inr c0, \<lparr>incoming = map WsBinary ms, sent = [hello], outcomes = (\<lambda>_. Flushed), rng = rc1\<rparr>)"
    "\<forall>ms. session_send P prompt c0
        \<lparr>incoming = map WsBinary ms, sent = [hello], outcomes = (\<lambda>_. Flushed), rng = rc1\<rparr> =
      (Inr \<lparr>tks_session = c, ended = False\<rparr>,
       \<lparr>incoming = map WsBinary ms, sent = [hello, wire], outcomes = (\<lambda>_. Flushed), rng = rc1\<rparr>)"
proof -
  have xch: "xchacha_law P" using laws(1) by (simp add: prims_law_def)
  let ?c = "\<lambda>ek csk. client_session ek csk (TeeIdentity_id_pk P i) rpk lv wc"
  obtain hello csk where conn:
    "\<And>rs rsk. \<exists>sh ek r' r. ServerHandshake_respond P (sl_hello L) (srv_of i) rs hello rsk
        (evidence_and_sig P (sl_evidence L) i t2) = (Inr (sh, ek), r') \<and>
      ek_client_ratchet_pk ek = x25519_public P csk \<and>
      (\<forall>es. connect_with P L N base root rpk wc tls lv clock1 clock3
        \<lparr>incoming = WsBinary sh # es, sent = [], outcomes = (\<lambda>_. Flushed), rng = rc\<rparr> =
       (Inr (?c ek csk), \<lparr>incoming = es, sent = [hello], outcomes = (\<lambda>_. Flushed), rng = r\<rparr>))"
    using connect_run [OF laws(1-6) laws(7-10) keys(2,1), where rpk = rpk and lv = lv and rc = rc] by blast
  define R where "R sh ek \<longleftrightarrow> (\<exists>r. \<forall>es. connect_with P L N base root rpk wc tls lv clock1 clock3
        \<lparr>incoming = WsBinary sh # es, sent = [], outcomes = (\<lambda>_. Flushed), rng = rc\<rparr> =
       (Inr (?c ek csk), \<lparr>incoming = es, sent = [hello], outcomes = (\<lambda>_. Flushed), rng = r\<rparr>))" for sh ek
  have "\<exists>sh ek r'. ServerHandshake_respond P (sl_hello L) (srv_of (as_identity st)) rs hello rsk
        (evidence_and_sig P (sl_evidence L) (as_identity st) t2) = (Inr (sh, ek), r') \<and>
      ek_client_ratchet_pk ek = x25519_public P csk \<and> R sh ek" for rs rsk
    using conn [of rs rsk] unfolding R_def i_def by blast
  note open_handler = handler_opens [OF xch t2 prompt this]
  obtain sh ek key ratchet out ss w where h: "R sh ek"
    "SymRatchet_next_key P (SymRatchet_new (ek_c2s_chain ek)) = (key, ratchet)"
    "encode_frame P key (ek_nonce_salt ek) FT_Data 0 0 0 prompt = Inr out"
    "\<And>idk rpk lv wc. \<And>w :: 'r world. all_flushed w \<Longrightarrow>
      session_send P prompt (client_session ek csk idk rpk lv wc) w =
      (Inr \<lparr>tks_session = (client_session ek csk idk rpk lv wc)\<lparr>cs_c2s := ratchet, cs_c2s_seq := 1\<rparr>,
            ended = False\<rparr>, push_sent (eo_wire out) w)"
    "between_chunks ss" "all_flushed w" "output_bytes ss = []" "output_token_ids ss = []" "sent w = [sh]"
    "\<And>idk rpk lv wc. in_sync P ss ((client_session ek csk idk rpk lv wc)\<lparr>cs_c2s := ratchet, cs_c2s_seq := 1\<rparr>)"
    "handle_session P L st seed inst clock2 tenant (server_world [hello, eo_wire out] rs pool) =
      sbind (stream_chunks P (as_engine st prompt) ss) (\<lambda>ss. sbind (end_of_turn P ss)
        (issue_receipt P L st tenant (SessionId_random seed) t2 (approx_token_count prompt)
          (sha256 P prompt))) w"
    by (rule open_handler) (rule that)
  obtain rc1 where rc1: "\<forall>es. connect_with P L N base root rpk wc tls lv clock1 clock3
        \<lparr>incoming = WsBinary sh # es, sent = [], outcomes = (\<lambda>_. Flushed), rng = rc\<rparr> =
       (Inr (?c ek csk), \<lparr>incoming = es, sent = [hello], outcomes = (\<lambda>_. Flushed), rng = rc1\<rparr>)"
    using h(1) unfolding R_def by blast
  let ?c1 = "(?c ek csk)\<lparr>cs_c2s := ratchet, cs_c2s_seq := 1\<rparr>"
  have fields: "tee_receipt_pk ?c1 = rpk" "expected_weight_commit ?c1 = wc" "layer_verifier ?c1 = lv"
    by (simp_all add: client_session_def)
  have conn': "\<forall>ms. connect_with P L N base root rpk wc tls lv clock1 clock3 (client_world (sh # ms) rc) =
      (Inr (?c ek csk), \<lparr>incoming = map WsBinary ms, sent = [hello], outcomes = (\<lambda>_. Flushed), rng = rc1\<rparr>)"
    using rc1 by (simp add: client_world_def)
  have sends: "\<forall>ms. session_send P prompt (?c ek csk)
        \<lparr>incoming = map WsBinary ms, sent = [hello], outcomes = (\<lambda>_. Flushed), rng = rc1\<rparr> =
      (Inr \<lparr>tks_session = ?c1, ended = False\<rparr>,
       \<lparr>incoming = map WsBinary ms, sent = [hello, eo_wire out], outcomes = (\<lambda>_. Flushed), rng = rc1\<rparr>)"
    using h(4) by (simp add: all_flushed_def push_sent_def)
  show thesis by (rule that [OF h(5,10,6-8) fields h(9,11) conn' sends])
qed

text \<open>Both ends together: the opening and the turn.\<close>

lemma session_runs:
  fixes P :: "'r prims" and st :: "('f::comm_ring_1) AppState" and pool :: TenantPool
  assumes "prims_law P" "session_lib_law L"
    and "identity_ok P (as_identity st)" "evidence_small P L (as_identity st)"
    and "served P L N (as_identity st) base tls clock0"
    and "Core.now_unix clock0 = Inr t0" "Core.now_unix clock1 = Inr t1"
    and "Core.now_unix clock2 = Inr t2" "Core.now_unix clock3 = Inr t3"
    and "unat t1 \<le> unat t0 + 60" "unat t3 \<le> unat t2 + 60"
    and "layers_complete L st lv"
    and "utf8_valid prompt" "length prompt \<le> MAX_PLAINTEXT_PER_RECORD"
    and "\<forall>ch \<in> set (as_engine st prompt).
      utf8_valid (tc_text ch) \<and> length (tc_text ch) \<le> MAX_PLAINTEXT_PER_RECORD"
  shows "\<exists>hello wire sw c w1 ts w2 ts' w3 rec w4.
    handle_session P L st seed inst clock2 tenant (server_world [hello, wire] rs pool) = (Inr (), sw) \<and>
    connect_with P L N base (MockIssuer_verifying_key P (attest_issuer (as_identity st)))
      (ed25519_public P (as_receipt_key st)) (tee_weight_commit (as_identity st)) tls lv clock1 clock3
      (client_world (sent sw) rc) = (Inr c, w1) \<and>
    session_send P prompt c w1 = (Inr ts, w2) \<and> sent w2 = [hello, wire] \<and>
    read_all P ts w2 = ((None, map tc_text (as_engine st prompt)), ts', w3) \<and>
    finalize P L ts' w3 = (Inr rec, w4) \<and> incoming w4 = [] \<and> r_tenant (sr_receipt rec) = tenant \<and>
    output_digest_hex (sr_receipt rec) = hex_encode (sl_text L)
      (compute_token_id_digest P (sha256 P prompt) (concat (map tc_ids (as_engine st prompt)))) \<and>
    output_string_digest_hex (sr_receipt rec) = hex_encode (sl_text L)
      (compute_output_string_digest P (sha256 P prompt) (concat (map tc_text (as_engine st prompt)))) \<and>
    sent w4 = [hello, wire]"
proof -
  let ?i = "as_identity st" and ?sid = "SessionId_random seed" and ?chs = "as_engine st prompt"
  let ?root = "MockIssuer_verifying_key P (attest_issuer ?i)" and ?rpk = "ed25519_public P (as_receipt_key st)"
  have wc: "length (tee_weight_commit ?i) = 32" using assms(3) by (simp add: identity_ok_def)
  obtain hello wire sh ss c0 c w rc1 where opn:
    "between_chunks ss" "in_sync P ss c" "all_flushed w" "output_bytes ss = []" "output_token_ids ss = []"
    "tee_receipt_pk c = ?rpk" "expected_weight_commit c = tee_weight_commit ?i" "layer_verifier c = lv"
    "sent w = [sh]"
    "handle_session P L st seed inst clock2 tenant (server_world [hello, wire] rs pool) =
      sbind (stream_chunks P ?chs ss) (\<lambda>ss. sbind (end_of_turn P ss)
        (issue_receipt P L st tenant ?sid t2 (approx_token_count prompt) (sha256 P prompt))) w"
    "\<forall>ms. connect_with P L N base ?root ?rpk (tee_weight_commit ?i) tls lv clock1 clock3
        (client_world (sh # ms) rc) =
      (Inr c0, \<lparr>incoming = map WsBinary ms, sent = [hello], outcomes = (\<lambda>_. Flushed), rng = rc1\<rparr>)"
    "\<forall>ms. session_send P prompt c0
        \<lparr>incoming = map WsBinary ms, sent = [hello], outcomes = (\<lambda>_. Flushed), rng = rc1\<rparr> =
      (Inr \<lparr>tks_session = c, ended = False\<rparr>,
       \<lparr>incoming = map WsBinary ms, sent = [hello, wire], outcomes = (\<lambda>_. Flushed), rng = rc1\<rparr>)"
    by (rule session_opens [OF assms(1-6,7,10,9,11,8,13,14) refl refl]) (rule that)
  have lv: "layers_complete L st (layer_verifier c)" using assms(12) opn(8) by simp
  obtain ms w' rec where turn:
    "sbind (stream_chunks P ?chs ss) (\<lambda>ss. sbind (end_of_turn P ss)
      (issue_receipt P L st tenant ?sid t2 (approx_token_count prompt) (sha256 P prompt))) w = (Inr (), w')"
    "sent w' = sent w @ ms" "r_tenant (sr_receipt rec) = tenant"
    "output_digest_hex (sr_receipt rec) =
      hex_encode (sl_text L) (compute_token_id_digest P (sha256 P prompt) (concat (map tc_ids ?chs)))"
    "output_string_digest_hex (sr_receipt rec) =
      hex_encode (sl_text L) (compute_output_string_digest P (sha256 P prompt) (concat (map tc_text ?chs)))"
    "\<forall>ts (cw :: 'r world). tks_session ts = c \<longrightarrow> \<not> ended ts \<longrightarrow> incoming cw = map WsBinary ms \<longrightarrow>
      (\<exists>ts' cw'. read_all P ts cw = ((None, map tc_text ?chs), ts', cw') \<and>
        finalize P L ts' cw' = (Inr rec, cw\<lparr>incoming := []\<rparr>))"
    by (rule turn_delivered [OF assms(1,2) wc lv assms(15) opn(1-7)]) (rule that)
  let ?cw = "\<lparr>incoming = map WsBinary ms, sent = [hello, wire], outcomes = (\<lambda>_. Flushed), rng = rc1\<rparr>"
  obtain ts' cw' where read: "read_all P \<lparr>tks_session = c, ended = False\<rparr> ?cw = ((None, map tc_text ?chs), ts', cw')"
    "finalize P L ts' cw' = (Inr rec, ?cw\<lparr>incoming := []\<rparr>)"
    using turn(6) [rule_format, of "\<lparr>tks_session = c, ended = False\<rparr>" ?cw] by auto
  have out: "sent w' = sh # ms" using turn(2) opn(9) by simp
  show ?thesis
    using turn(1,3-5) opn(10-12) out read
    by (intro exI [of _ hello] exI [of _ wire] exI [of _ w'] exI [of _ c0]
        exI [of _ "\<lparr>incoming = map WsBinary ms, sent = [hello], outcomes = (\<lambda>_. Flushed), rng = rc1\<rparr>"]
        exI [of _ "\<lparr>tks_session = c, ended = False\<rparr>"] exI [of _ ?cw] exI [of _ ts'] exI [of _ cw']
        exI [of _ rec] exI [of _ "?cw\<lparr>incoming := []\<rparr>"]) simp
qed

section \<open>Property\<close>

text \<open>
  C1. A session succeeds at both ends.  Given a network that answers attestation
  requests with the service's answers and delivers messages, clocks that differ by
  at most the time to live, and an engine whose chunks are UTF-8 of at most a
  record: the service's handler, fed the hello and the prompt the client sends,
  returns without error; the client, fed what the handler sends, opens the
  session, reads exactly the texts of the engine's chunks in order and then the
  end of the turn, whatever the number of key updates, and accepts the receipt,
  whose digests are those of the token ids and of the text it was streamed.
\<close>

theorem session_end_to_end:
  fixes P :: "'r prims" and st :: "('f::comm_ring_1) AppState" and pool :: TenantPool
  assumes "prims_law P" "session_lib_law L"
    and "identity_ok P (as_identity st)" "evidence_small P L (as_identity st)"
    and "served P L N (as_identity st) base tls clock0"
    and "Core.now_unix clock0 = Inr t0" "Core.now_unix clock1 = Inr t1"
    and "Core.now_unix clock2 = Inr t2" "Core.now_unix clock3 = Inr t3"
    and "unat t1 \<le> unat t0 + 60" "unat t3 \<le> unat t2 + 60"
    and "layers_complete L st lv"
    and "utf8_valid prompt" "length prompt \<le> MAX_PLAINTEXT_PER_RECORD"
    and "\<forall>ch \<in> set (as_engine st prompt).
      utf8_valid (tc_text ch) \<and> length (tc_text ch) \<le> MAX_PLAINTEXT_PER_RECORD"
  shows "\<exists>hello wire sw c w1 ts w2 ts' w3 rec w4.
    handle_session P L st seed inst clock2 tenant (server_world [hello, wire] rs pool) = (Inr (), sw) \<and>
    connect_with P L N base (MockIssuer_verifying_key P (attest_issuer (as_identity st)))
      (ed25519_public P (as_receipt_key st)) (tee_weight_commit (as_identity st)) tls lv clock1 clock3
      (client_world (sent sw) rc) = (Inr c, w1) \<and>
    session_send P prompt c w1 = (Inr ts, w2) \<and> sent w2 = [hello, wire] \<and>
    read_all P ts w2 = ((None, map tc_text (as_engine st prompt)), ts', w3) \<and>
    finalize P L ts' w3 = (Inr rec, w4) \<and> incoming w4 = [] \<and> r_tenant (sr_receipt rec) = tenant \<and>
    output_digest_hex (sr_receipt rec) = hex_encode (sl_text L)
      (compute_token_id_digest P (sha256 P prompt) (concat (map tc_ids (as_engine st prompt)))) \<and>
    output_string_digest_hex (sr_receipt rec) = hex_encode (sl_text L)
      (compute_output_string_digest P (sha256 P prompt) (concat (map tc_text (as_engine st prompt))))"
  using session_runs [OF assms, where seed = seed and inst = inst and tenant = tenant and rs = rs and pool = pool and
      rc = rc] by blast

text \<open>A concrete service and network for the witness.\<close>

definition bundle_fields :: "PreKeyBundle \<Rightarrow> bytes list" where
  "bundle_fields b = [id_pk b, spk_pk_x25519 b, pq_pk_mlkem b, pb_attestation_evidence b, pb_signature b]"

definition receipt_fields :: "Receipt \<Rightarrow> bytes list" where
  "receipt_fields r = [str_bytes (tenant_str (r_tenant r)), r_session r, str_bytes (r_model r),
    u32_to_be (input_tokens r), u32_to_be (output_tokens r), u32_to_be (r_epoch r),
    u64_to_be (r_issued_at_unix r), u32_to_be (kv_blocks_cloaked r), str_bytes (output_digest_hex r),
    str_bytes (output_string_digest_hex r), str_bytes (weight_commit_hex r),
    put_list (map str_bytes (activation_commits_hex r))]"

definition receipt_of_fields :: "bytes list \<Rightarrow> Receipt option" where
  "receipt_of_fields fs =
    map_option (\<lambda>cs. \<lparr>r_tenant = TenantId (chars (fs ! 0)), r_session = fs ! 1, r_model = chars (fs ! 2),
      input_tokens = u32_from_be (fs ! 3), output_tokens = u32_from_be (fs ! 4),
      r_epoch = u32_from_be (fs ! 5), r_issued_at_unix = u64_from_be (fs ! 6),
      kv_blocks_cloaked = u32_from_be (fs ! 7), output_digest_hex = chars (fs ! 8),
      output_string_digest_hex = chars (fs ! 9), weight_commit_hex = chars (fs ! 10),
      activation_commits_hex = map chars cs\<rparr>) (get_list (length (fs ! 11)) (fs ! 11))"

definition envelope_fields :: "ReceiptEnvelope \<Rightarrow> bytes list" where
  "envelope_fields e = receipt_fields (sr_receipt (signed_receipt e))
    @ [sr_signature (signed_receipt e), put_list (zk_layer_proofs e)]"

definition model_session_lib :: "int session_lib" where
  "model_session_lib = \<lparr>sl_hello = model_hello_codec, sl_evidence = model_evidence_codec,
    sl_text = model_codecs,
    sl_fp = \<lparr>fp_from_repr = (\<lambda>b. Some 0), fp_to_repr = (\<lambda>x. replicate 32 0), poseidon = sum_list\<rparr>,
    hex_error = (\<lambda>_. ''bad hex''),
    bundle_to_bytes = (\<lambda>b. Inr (put_list (bundle_fields b))),
    bundle_from_bytes = (\<lambda>bs. case get_list (length bs) bs of
        None \<Rightarrow> Inl ''bundle''
      | Some fs \<Rightarrow> Inr \<lparr>id_pk = fs ! 0, spk_pk_x25519 = fs ! 1, pq_pk_mlkem = fs ! 2,
          pb_attestation_evidence = fs ! 3, pb_signature = fs ! 4\<rparr>),
    receipt_bytes = (\<lambda>r. put_list (receipt_fields r)),
    envelope_to_bytes = (\<lambda>e. Inr (put_list (envelope_fields e))),
    envelope_from_bytes = (\<lambda>bs. case get_list (length bs) bs of
        None \<Rightarrow> Inl ''envelope''
      | Some fs \<Rightarrow> (case (receipt_of_fields fs, get_list (length (fs ! 13)) (fs ! 13)) of
          (Some r, Some ps) \<Rightarrow> Inr \<lparr>signed_receipt = \<lparr>sr_receipt = r, sr_signature = fs ! 12\<rparr>, zk_layer_proofs = ps\<rparr>
        | _ \<Rightarrow> Inl ''receipt''))\<rparr>"

lemma receipt_of_fields_append: "receipt_of_fields (receipt_fields r @ xs) = Some r"
  by (cases "r_tenant r")
    (auto simp: receipt_of_fields_def receipt_fields_def get_put_list [OF length_put_list] comp_def
      intro!: Receipt.equality)

lemma model_session_lib_law: "session_lib_law model_session_lib"
proof -
  note gp = get_put_list [OF length_put_list]
  have "\<exists>bs. bundle_to_bytes model_session_lib b = Inr bs \<and> bundle_from_bytes model_session_lib bs = Inr b" for b
    by (auto simp: model_session_lib_def gp bundle_fields_def intro!: PreKeyBundle.equality)
  moreover have "\<exists>bs. envelope_to_bytes model_session_lib e = Inr bs \<and> envelope_from_bytes model_session_lib bs = Inr e"
    for e
  proof -
    have "envelope_fields e ! 12 = sr_signature (signed_receipt e)"
      "envelope_fields e ! 13 = put_list (zk_layer_proofs e)"
      by (simp_all add: envelope_fields_def receipt_fields_def)
    moreover have "receipt_of_fields (envelope_fields e) = Some (sr_receipt (signed_receipt e))"
      by (simp add: envelope_fields_def receipt_of_fields_append)
    ultimately show ?thesis
      by (auto simp: model_session_lib_def gp intro!: ReceiptEnvelope.equality SignedReceipt.equality)
  qed
  moreover have "hello_codec_law (sl_hello model_session_lib)" "evidence_codec_law (sl_evidence model_session_lib)"
    "hex_law (sl_text model_session_lib)" "hex_text_law (sl_text model_session_lib)"
    "length (fp_to_repr (sl_fp model_session_lib) x) = 32" for x
    using model_hello_codec_law model_evidence_codec_law model_hex_law model_hex_text_law
    by (simp_all add: model_session_lib_def)
  ultimately show ?thesis unfolding session_lib_law_def by blast
qed

lemma model_prims_law: "prims_law model_prims"
  using model_laws by (simp add: prims_law_def)

definition sample_state :: "int AppState" where
  "sample_state = \<lparr>as_identity = sample_identity,
    as_engine = (\<lambda>p. [\<lparr>tc_ids = [1], tc_text = str_bytes ''echo: ''\<rparr>, \<lparr>tc_ids = [2, 3], tc_text = p\<rparr>,
      \<lparr>tc_ids = [4], tc_text = str_bytes ''!''\<rparr>]),
    as_receipt_key = [7], as_model_name = ''m'', as_model = \<lparr>layers = [], weight_commit = []\<rparr>,
    as_layer_prover = None\<rparr>"

text \<open>The answer of the service to a request for \<open>/v1/attest\<close>, as the bytes of an HTTP response.\<close>

definition sample_answer :: "TeeIdentity \<Rightarrow> bytes \<Rightarrow> bytes" where
  "sample_answer i req =
    (case of_hex (take 64 (drop 21 (chars req))) of
       None \<Rightarrow> []
     | Some nonce \<Rightarrow>
       (case build_bundle model_prims model_evidence_codec i nonce 0 of
          None \<Rightarrow> []
        | Some b \<Rightarrow> str_bytes (''HTTP/1.1 200 OK'' @ crlf @ crlf) @ put_list (bundle_fields b)))"

definition sample_net :: "TeeIdentity \<Rightarrow> net" where
  "sample_net i = \<lparr>tcp_connect = (\<lambda>_ _. Inr ()), parse_server_name = (\<lambda>_. Inr ()),
    exchange = (\<lambda>_ _ _ req. Inr (sample_answer i req)), ws_connect = (\<lambda>_ _. Inr ())\<rparr>"

lemma http_response_body_ok:
  "http_response_body (str_bytes (''HTTP/1.1 200 OK'' @ crlf @ crlf) @ body) = Inr body"
proof -
  have "split_at_pat (str_bytes (crlf @ crlf)) (str_bytes (''HTTP/1.1 200 OK'' @ crlf @ crlf) @ body) =
      Some (str_bytes ''HTTP/1.1 200 OK'', body)"
    by (simp add: str_bytes_def crlf_def)
  moreover have "utf8_valid (str_bytes ''HTTP/1.1 200 OK'')" by (simp add: str_bytes_def)
  moreover have "first_line ''HTTP/1.1 200 OK'' = ''HTTP/1.1 200 OK''" by (simp add: first_line_def)
  moreover have "split_at_pat '' 200 '' ''HTTP/1.1 200 OK'' \<noteq> None" by simp
  ultimately show ?thesis unfolding http_response_body_def by simp
qed

lemma sample_served: "served model_prims model_session_lib (sample_net i) i ''http://h'' None 0"
proof -
  have now: "Core.now_unix 0 = Inr 0" by (simp add: Core.now_unix_def)
  have "\<exists>inst reg bs reg'.
      attest model_prims model_session_lib i 0 inst (hex_encode model_codecs nonce) reg =
        (Some (Inr bs), reg') \<and>
      http_get (sample_net i) (attest_url model_codecs ''http://h'' nonce) None = Inr bs"
    if n: "length nonce = 32" for nonce
  proof -
    obtain b eb where b: "build_bundle model_prims model_evidence_codec i nonce 0 = Some b"
      by (rule build_bundle_Some [OF model_evidence_codec_law])
    have obs: "\<exists>reg'. observe 0 nonce NonceRegistry_new = (Inr (), reg')"
      by (simp add: observe_def nonce_gc_def NonceRegistry_new_def bt_range_to_def)
    have "http_get (sample_net i) (attest_url model_codecs ''http://h'' nonce) None = Inr (put_list (bundle_fields b))"
    proof -
      have url: "parse_http_url (attest_url model_codecs ''http://h'' nonce) False =
          Inr \<lparr>pu_host = ''h'', pu_port = 80, pu_path = ''/v1/attest?nonce='' @ hex_of nonce\<rparr>"
        by (simp add: parse_http_url_def attest_url_def trim_end_matches_def model_codecs_def)
      have "sample_answer i (str_bytes (''GET '' @ (''/v1/attest?nonce='' @ hex_of nonce) @ rest)) =
          str_bytes (''HTTP/1.1 200 OK'' @ crlf @ crlf) @ put_list (bundle_fields b)" for rest
        using n b by (simp add: sample_answer_def of_hex_hex_of)
      then show ?thesis
        using http_response_body_ok
        by (simp add: http_get_def url sample_net_def)
    qed
    moreover obtain reg' where
      "attest model_prims model_session_lib i 0 0 (hex_encode model_codecs nonce) NonceRegistry_new =
        (Some (Inr (put_list (bundle_fields b))), reg')"
      using obs n b now by (auto simp: attest_def model_session_lib_def model_codecs_def of_hex_hex_of)
    ultimately show ?thesis by blast
  qed
  then show ?thesis by (simp add: served_def sample_net_def model_session_lib_def)
qed

lemma length_put_bytes [simp]: "length (put_bytes b) = 2 * length b + 1"
  by (induction b) auto

lemma sample_evidence_small: "evidence_small model_prims model_session_lib i"
  using model_ed25519_law
  by (auto simp: evidence_small_def encode_evidence_def model_session_lib_def model_evidence_codec_def
      MockIssuer_issue_def ed25519_law_def MAX_ATTESTATION_EVIDENCE_LEN_def Let_def)

lemma sample_identity_ok: "identity_ok model_prims sample_identity"
  unfolding sample_identity_def by (rule TeeIdentity_random_ok) simp

theorem session_end_to_end_witness:
  "\<exists>hello wire sw c w1 ts w2 ts' w3 rec w4.
    handle_session model_prims model_session_lib sample_state 1 0 0 (TenantId ''t'')
      (server_world [hello, wire] 5 (fst (TenantPool_random model_prims 9))) = (Inr (), sw) \<and>
    connect_with model_prims model_session_lib (sample_net sample_identity) ''http://h''
      (MockIssuer_verifying_key model_prims (attest_issuer sample_identity)) (ed25519_public model_prims [7])
      (tee_weight_commit sample_identity) None None 0 0 (client_world (sent sw) 3) = (Inr c, w1) \<and>
    session_send model_prims (str_bytes ''hi'') c w1 = (Inr ts, w2) \<and> sent w2 = [hello, wire] \<and>
    read_all model_prims ts w2 = ((None, [str_bytes ''echo: '', str_bytes ''hi'', str_bytes ''!'']), ts', w3) \<and>
    finalize model_prims model_session_lib ts' w3 = (Inr rec, w4) \<and> incoming w4 = [] \<and>
    r_tenant (sr_receipt rec) = TenantId ''t'' \<and>
    output_digest_hex (sr_receipt rec) = hex_encode (sl_text model_session_lib)
      (compute_token_id_digest model_prims (sha256 model_prims (str_bytes ''hi'')) [1, 2, 3, 4]) \<and>
    output_string_digest_hex (sr_receipt rec) = hex_encode (sl_text model_session_lib)
      (compute_output_string_digest model_prims (sha256 model_prims (str_bytes ''hi''))
        (concat [str_bytes ''echo: '', str_bytes ''hi'', str_bytes ''!'']))"
proof -
  have now: "Core.now_unix 0 = Inr 0" by (simp add: Core.now_unix_def)
  have lv: "layers_complete model_session_lib sample_state None" by (simp add: layers_complete_def)
  have st: "as_identity sample_state = sample_identity" "as_receipt_key sample_state = [7]"
    "map tc_text (as_engine sample_state p) = [str_bytes ''echo: '', p, str_bytes ''!'']"
    "concat (map tc_ids (as_engine sample_state p)) = [1, 2, 3, 4]" for p
    by (simp_all add: sample_state_def)
  have prompt: "utf8_valid (str_bytes ''hi'')" "length (str_bytes ''hi'') \<le> MAX_PLAINTEXT_PER_RECORD"
    "\<forall>ch \<in> set (as_engine sample_state (str_bytes ''hi'')).
      utf8_valid (tc_text ch) \<and> length (tc_text ch) \<le> MAX_PLAINTEXT_PER_RECORD"
    by (simp_all add: sample_state_def str_bytes_def MAX_PLAINTEXT_PER_RECORD_def)
  have bound: "unat (0 :: u64) \<le> unat (0 :: u64) + 60" by simp
  show ?thesis
    by (rule session_end_to_end [OF model_prims_law model_session_lib_law _ _ _ now now now now bound bound lv
        prompt, unfolded st, OF sample_identity_ok sample_evidence_small sample_served])
qed

end
