(* ===== verification/Wasm_Session.thy ===== *)
theory Wasm_Session
  imports Streaming
begin

text \<open>
  \<open>bindings/ts\<close>: the session a browser drives.  The host owns the transport and
  calls \<open>start\<close>, then \<open>complete\<close>, \<open>encrypt\<close>, \<open>decrypt\<close> and \<open>verify_receipt\<close> in any
  order; a call returns the text of its \<open>JsError\<close> or a value, and the new state.

  Shown: the state is always a proper one and a poisoned session stays poisoned;
  no two frames a session encrypts carry the same epoch and sequence number;
  \<open>decrypt\<close> does what the native client does with a frame of the current epoch; and
  a plaintext that is too long leaves the sending ratchet ahead of the peer.
\<close>

section \<open>State\<close>

record PendingSession =
  wp_handshake :: ClientHandshake
  wp_client_hello :: bytes
  wp_attestation_nonce :: bytes
  wp_trust_root :: bytes
  wp_tee_id_pk :: bytes
  wp_tee_receipt_pk :: bytes
  wp_now_unix :: u64

record OpenSession =
  wo_c2s :: SymRatchet
  wo_s2c :: SymRatchet
  wo_nonce_salt :: NonceSalt
  wo_epoch :: Epoch
  wo_c2s_seq :: u64
  wo_s2c_replay :: ReplayWindow
  wo_tee_receipt_pk :: bytes
  wo_current_root :: RootKey
  wo_client_ratchet_sk :: bytes

datatype SessionInner = Replacing | Poisoned string | Pending PendingSession | Open OpenSession

record DecryptResult =
  dr_text :: bytes
  dr_end_of_turn :: bool

record ReceiptJs =
  rj_model :: string
  rj_input_tokens :: u32
  rj_output_tokens :: u32
  rj_epoch :: u32
  rj_issued_at_unix :: u64
  rj_session_id_hex :: string

text \<open>What \<open>postcard\<close> and \<open>ed25519-dalek\<close> add to the libraries of a native session.\<close>

record 'f wasm_lib =
  wl_session :: "'f session_lib"
  signed_from_bytes :: "bytes \<Rightarrow> string + SignedReceipt"
  pk_error :: "bytes \<Rightarrow> string"

section \<open>Calls\<close>

definition pk_from_bytes :: "'r prims \<Rightarrow> 'f wasm_lib \<Rightarrow> bytes \<Rightarrow> string + bytes" where
  "pk_from_bytes P W b =
    (if length b \<noteq> 32 then Inl ''public key must be 32 bytes''
     else if ed25519_valid P b then Inr b else Inl (pk_error W b))"

definition wasm_verify_bundle ::
  "'r prims \<Rightarrow> evidence_codec \<Rightarrow> PreKeyBundle \<Rightarrow> bytes \<Rightarrow> bytes \<Rightarrow> bytes \<Rightarrow> u64 \<Rightarrow> u64 \<Rightarrow> bytes result" where
  "wasm_verify_bundle P C bundle expected_nonce expected_wc trust_root now max_age =
    (if \<not> ed25519_valid P (id_pk bundle) then Inl (AttestationFailed ''invalid id_pk'')
     else let buf = SIG_DOMAIN_BUNDLE @ id_pk bundle @ spk_pk_x25519 bundle
            @ pq_pk_mlkem bundle @ pb_attestation_evidence bundle in
     if \<not> ed25519_verify P (id_pk bundle) buf (pb_signature bundle)
     then Inl (AttestationFailed ''bad bundle signature'')
     else rbind (decode_evidence C (pb_attestation_evidence bundle)) (\<lambda>evidence.
       let report_data = sha512 P (str_bytes ''ULLM-v1 bundle-attest'' @ id_pk bundle @ spk_pk_x25519 bundle
             @ pq_pk_mlkem bundle @ expected_nonce @ expected_wc)
       in rbind (MockVerifier_verify P \<lparr>mv_trust_root = trust_root\<rparr> evidence
              \<lparr>expected_report_data = report_data, now_unix = now, max_age_sec = max_age\<rparr>) (\<lambda>_.
            Inr (id_pk bundle))))"

definition wasm_start ::
  "'r prims \<Rightarrow> 'f wasm_lib \<Rightarrow> bytes \<Rightarrow> bytes \<Rightarrow> bytes \<Rightarrow> bytes \<Rightarrow> bytes \<Rightarrow> u64 \<Rightarrow> 'r \<Rightarrow> (string + SessionInner) \<times> 'r" where
  "wasm_start P W bundle_bytes nonce trust_root_bytes receipt_pk_bytes wc now r =
    (let L = wl_session W in
     case rbind (bundle_from_bytes L bundle_bytes) (\<lambda>bundle.
          rbind (map_err Error_display (validate_structural bundle)) (\<lambda>_.
          rbind (guard_err (length nonce \<noteq> 32) ''attestation_nonce must be 32 bytes'') (\<lambda>_.
          rbind (guard_err (length wc \<noteq> 32) ''expected_weight_commit must be 32 bytes'') (\<lambda>_.
          rbind (pk_from_bytes P W trust_root_bytes) (\<lambda>trust_root.
          rbind (pk_from_bytes P W receipt_pk_bytes) (\<lambda>receipt_pk.
          rbind (map_err Error_display (wasm_verify_bundle P (sl_evidence L) bundle nonce wc trust_root now 60))
            (\<lambda>idk. Inr (bundle, trust_root, receipt_pk, idk)))))))) of
       Inl e \<Rightarrow> (Inl e, r)
     | Inr (bundle, trust_root, receipt_pk, idk) \<Rightarrow>
       (case ClientHandshake_initiate P (sl_hello L) r bundle of
          (Inl e, r) \<Rightarrow> (Inl (Error_display e), r)
        | (Inr (handshake, client_hello), r) \<Rightarrow>
          (Inr (Pending \<lparr>wp_handshake = handshake, wp_client_hello = client_hello, wp_attestation_nonce = nonce,
             wp_trust_root = trust_root, wp_tee_id_pk = idk, wp_tee_receipt_pk = receipt_pk,
             wp_now_unix = now\<rparr>), r)))"

definition client_hello_bytes :: "SessionInner \<Rightarrow> string + bytes" where
  "client_hello_bytes st =
    (case st of
       Pending p \<Rightarrow> Inr (wp_client_hello p)
     | _ \<Rightarrow> Inl ''session is not in Pending state'')"

definition poison :: "string \<Rightarrow> (string + 'a) \<times> SessionInner" where
  "poison msg = (Inl msg, Poisoned msg)"

definition wasm_server_hello_sig :: "'r prims \<Rightarrow> bytes \<Rightarrow> bytes \<Rightarrow> bytes \<Rightarrow> unit result" where
  "wasm_server_hello_sig P pk pre_hash sig =
    (let payload = SIG_DOMAIN_HANDSHAKE @ pre_hash in
     if ed25519_verify P pk payload sig then Inr () else Inl (AttestationFailed ''bad ServerHello sig''))"

definition wasm_complete ::
  "'r prims \<Rightarrow> 'f wasm_lib \<Rightarrow> bytes \<Rightarrow> SessionInner \<Rightarrow> (string + unit) \<times> SessionInner" where
  "wasm_complete P W server_hello prev =
    (let L = wl_session W in
     case prev of
       Poisoned reason \<Rightarrow> poison (''session poisoned: '' @ reason)
     | Replacing \<Rightarrow> poison ''complete() called concurrently with itself''
     | Open _ \<Rightarrow> poison ''complete() called when session was not Pending''
     | Pending p \<Rightarrow>
       (case ClientHandshake_complete P (sl_hello L) (wp_handshake p) server_hello
               (wasm_server_hello_sig P (wp_tee_id_pk p)) of
          Inl e \<Rightarrow> poison (Error_display e)
        | Inr keys \<Rightarrow>
          (case decode_evidence (sl_evidence L) (ek_server_attestation_evidence keys) of
             Inl e \<Rightarrow> poison (Error_display e)
           | Inr evidence \<Rightarrow>
             (case MockVerifier_verify P \<lparr>mv_trust_root = wp_trust_root p\<rparr> evidence
                    \<lparr>expected_report_data = ek_report_data keys, now_unix = wp_now_unix p, max_age_sec = 60\<rparr> of
                Inl e \<Rightarrow> poison (Error_display e)
              | Inr _ \<Rightarrow>
                (Inr (), Open \<lparr>wo_c2s = SymRatchet_new (ek_c2s_chain keys),
                   wo_s2c = SymRatchet_new (ek_s2c_chain keys), wo_nonce_salt = ek_nonce_salt keys,
                   wo_epoch = 0, wo_c2s_seq = 0, wo_s2c_replay = ReplayWindow_new,
                   wo_tee_receipt_pk = wp_tee_receipt_pk p, wo_current_root = ek_root keys,
                   wo_client_ratchet_sk = chs_client_ratchet_sk (wp_handshake p)\<rparr>)))))"

definition wasm_encrypt :: "'r prims \<Rightarrow> bytes \<Rightarrow> SessionInner \<Rightarrow> (string + bytes) \<times> SessionInner" where
  "wasm_encrypt P plaintext st =
    (case st of
       Open s \<Rightarrow>
         let (key, ratchet) = SymRatchet_next_key P (wo_c2s s);
             s = s\<lparr>wo_c2s := ratchet\<rparr>
         in (case encode_frame P key (wo_nonce_salt s) FT_Data 0 (wo_epoch s) (wo_c2s_seq s) plaintext of
               Inl e \<Rightarrow> (Inl (Error_display e), Open s)
             | Inr out \<Rightarrow>
               if wo_c2s_seq s = - 1 then (Inl ''seq overflow'', Open s)
               else (Inr (eo_wire out), Open (s\<lparr>wo_c2s_seq := wo_c2s_seq s + 1\<rparr>)))
     | _ \<Rightarrow> (Inl ''session not Open'', st))"

definition wasm_key_update :: "'r prims \<Rightarrow> bytes \<Rightarrow> OpenSession \<Rightarrow> OpenSession" where
  "wasm_key_update P new_pk s =
    (let (new_root, new_keys) = DhRatchet_step P (wo_current_root s) (wo_client_ratchet_sk s) new_pk
     in s\<lparr>wo_current_root := new_root, wo_c2s := SymRatchet_new (ik_c2s_chain new_keys),
          wo_s2c := SymRatchet_new (ik_s2c_chain new_keys), wo_nonce_salt := ik_nonce_salt new_keys,
          wo_epoch := wo_epoch s + 1, wo_c2s_seq := 0, wo_s2c_replay := ReplayWindow_new\<rparr>)"

definition wasm_on_plaintext ::
  "'r prims \<Rightarrow> Header \<Rightarrow> bytes \<Rightarrow> OpenSession \<Rightarrow> (string + DecryptResult) \<times> OpenSession" where
  "wasm_on_plaintext P header plaintext s =
    (case h_frame_type header of
       FT_Data \<Rightarrow>
         (if \<not> utf8_valid plaintext then Inl ''non-utf8 token chunk''
          else Inr \<lparr>dr_text = plaintext, dr_end_of_turn = (h_flags header AND END_OF_TURN = END_OF_TURN)\<rparr>, s)
     | FT_Control \<Rightarrow>
         (case Control_decode plaintext of
            Inl e \<Rightarrow> (Inl (Error_display e), s)
          | Inr (KeyUpdate new_pk) \<Rightarrow>
              (Inr \<lparr>dr_text = [], dr_end_of_turn = False\<rparr>, wasm_key_update P new_pk s)
          | Inr other \<Rightarrow> (Inl (''unsupported control frame: '' @ Control_debug other), s))
     | other \<Rightarrow> (Inl (''unexpected frame type '' @ FrameType_debug other), s))"

definition wasm_decrypt :: "'r prims \<Rightarrow> bytes \<Rightarrow> SessionInner \<Rightarrow> (string + DecryptResult) \<times> SessionInner" where
  "wasm_decrypt P frame st =
    (case st of
       Open s \<Rightarrow>
         let (key, ratchet) = SymRatchet_next_key P (wo_s2c s);
             s = s\<lparr>wo_s2c := ratchet\<rparr>
         in (case decode_frame P key (wo_nonce_salt s) frame of
               Inl e \<Rightarrow> (Inl (Error_display e), Open s)
             | Inr (header, plaintext) \<Rightarrow>
               (case check_and_update (wo_s2c_replay s) (h_seq header) of
                  (Inl e, win) \<Rightarrow> (Inl (Error_display e), Open (s\<lparr>wo_s2c_replay := win\<rparr>))
                | (Inr _, win) \<Rightarrow>
                  let (r, s) = wasm_on_plaintext P header plaintext (s\<lparr>wo_s2c_replay := win\<rparr>)
                  in (r, Open s)))
     | _ \<Rightarrow> (Inl ''session not Open'', st))"

definition wasm_verify_receipt :: "'r prims \<Rightarrow> 'f wasm_lib \<Rightarrow> bytes \<Rightarrow> SessionInner \<Rightarrow> string + ReceiptJs" where
  "wasm_verify_receipt P W raw st =
    (case st of
       Open s \<Rightarrow>
         rbind (signed_from_bytes W raw) (\<lambda>sr.
         rbind (map_err Error_display (receipt_verify P (receipt_bytes (wl_session W)) sr (wo_tee_receipt_pk s)))
           (\<lambda>_. let r = sr_receipt sr in
             Inr \<lparr>rj_model = r_model r, rj_input_tokens = input_tokens r, rj_output_tokens = output_tokens r,
                 rj_epoch = r_epoch r, rj_issued_at_unix = r_issued_at_unix r,
                 rj_session_id_hex = hex_encode (sl_text (wl_session W)) (r_session r)\<rparr>))
     | _ \<Rightarrow> Inl ''session not Open'')"

section \<open>Runs\<close>

text \<open>The calls that change the state.\<close>

datatype js_call = Complete bytes | Encrypt bytes | Decrypt bytes

datatype js_return = Threw string | Done | Wire bytes | Token DecryptResult

fun js_step :: "'r prims \<Rightarrow> 'f wasm_lib \<Rightarrow> js_call \<Rightarrow> SessionInner \<Rightarrow> js_return \<times> SessionInner" where
  "js_step P W (Complete hello) st =
    (case wasm_complete P W hello st of (Inl e, st) \<Rightarrow> (Threw e, st) | (Inr _, st) \<Rightarrow> (Done, st))"
| "js_step P W (Encrypt pt) st =
    (case wasm_encrypt P pt st of (Inl e, st) \<Rightarrow> (Threw e, st) | (Inr b, st) \<Rightarrow> (Wire b, st))"
| "js_step P W (Decrypt fr) st =
    (case wasm_decrypt P fr st of (Inl e, st) \<Rightarrow> (Threw e, st) | (Inr d, st) \<Rightarrow> (Token d, st))"

fun js_run :: "'r prims \<Rightarrow> 'f wasm_lib \<Rightarrow> js_call list \<Rightarrow> SessionInner \<Rightarrow> js_return list \<times> SessionInner" where
  "js_run P W [] st = ([], st)"
| "js_run P W (c # cs) st =
    (let (r, st) = js_step P W c st; (rs, st) = js_run P W cs st in (r # rs, st))"

lemma js_run_snoc:
  "js_run P W (cs @ [c]) st =
    (let (rs, st') = js_run P W cs st; (r, st'') = js_step P W c st' in (rs @ [r], st''))"
  by (induction cs arbitrary: st) (auto simp: Let_def case_prod_beta)

lemma length_js_run: "js_run P W cs st = (rs, st') \<Longrightarrow> length rs = length cs"
  by (induction cs arbitrary: st rs) (auto simp: Let_def case_prod_beta)

section \<open>The state machine\<close>

fun wasm_ok :: "'r prims \<Rightarrow> SessionInner \<Rightarrow> bool" where
  "wasm_ok P Replacing \<longleftrightarrow> False"
| "wasm_ok P (Poisoned _) \<longleftrightarrow> True"
| "wasm_ok P (Pending p) \<longleftrightarrow> ed25519_valid P (wp_trust_root p) \<and> ed25519_valid P (wp_tee_id_pk p) \<and>
    ed25519_valid P (wp_tee_receipt_pk p) \<and> length (wp_attestation_nonce p) = 32"
| "wasm_ok P (Open s) \<longleftrightarrow> ed25519_valid P (wo_tee_receipt_pk s)"

lemma wasm_verify_bundle_eq: "wasm_verify_bundle P C b n w root now age = verify_bundle P C b n w root now age"
  by (simp add: wasm_verify_bundle_def verify_bundle_def bundle_report_data_def bundle_payload_def Let_def)

lemma pk_from_bytes_iff: "pk_from_bytes P W b = Inr k \<longleftrightarrow> k = b \<and> length b = 32 \<and> ed25519_valid P b"
  by (auto simp: pk_from_bytes_def)

lemma wasm_start_ok:
  assumes "wasm_start P W bb n root rpk wc now r = (Inr st, r')"
  shows "\<exists>p. st = Pending p \<and> wasm_ok P st"
  using assms
  by (auto simp: wasm_start_def Let_def pk_from_bytes_iff wasm_verify_bundle_eq verify_bundle_iff result_simps
      split: sum.splits prod.splits if_splits)

lemma wasm_on_plaintext_receipt_pk:
  "wasm_on_plaintext P h pt s = (r, s') \<Longrightarrow> wo_tee_receipt_pk s' = wo_tee_receipt_pk s"
  by (auto simp: wasm_on_plaintext_def wasm_key_update_def Let_def case_prod_beta
      split: FrameType.splits sum.splits Control.splits if_splits)

text \<open>One call: where it leads from each kind of state, and when it throws.\<close>

lemma js_step_poisoned: "\<exists>e e'. js_step P W c (Poisoned m) = (Threw e, Poisoned e')"
  by (cases c) (simp_all add: wasm_complete_def poison_def wasm_encrypt_def wasm_decrypt_def)

lemma js_step_pending:
  assumes "wasm_ok P (Pending p)"
  shows "(case c of Complete h \<Rightarrow>
      (\<exists>e. js_step P W c (Pending p) = (Threw e, Poisoned e)) \<or>
      (\<exists>s. js_step P W c (Pending p) = (Done, Open s) \<and> wasm_ok P (Open s))
    | _ \<Rightarrow> js_step P W c (Pending p) = (Threw ''session not Open'', Pending p))"
  using assms
  by (cases c) (auto simp: wasm_complete_def poison_def wasm_encrypt_def wasm_decrypt_def Let_def
      split: sum.splits)

lemma js_step_open:
  assumes "wasm_ok P (Open s)"
  shows "(case c of Complete h \<Rightarrow> \<exists>e. js_step P W c (Open s) = (Threw e, Poisoned e)
    | _ \<Rightarrow> \<exists>r s'. js_step P W c (Open s) = (r, Open s') \<and> wasm_ok P (Open s') \<and> r \<noteq> Done)"
proof (cases c)
  case (Complete h)
  then show ?thesis by (simp add: wasm_complete_def poison_def)
next
  case (Encrypt pt)
  then show ?thesis using assms
    by (auto simp: wasm_encrypt_def Let_def split: prod.splits sum.splits)
next
  case (Decrypt fr)
  then show ?thesis using assms
    by (auto simp: wasm_decrypt_def Let_def split: prod.splits sum.splits dest: wasm_on_plaintext_receipt_pk)
qed

definition complete_outcomes :: "js_call list \<Rightarrow> js_return list \<Rightarrow> js_return list" where
  "complete_outcomes cs rs = map snd (filter (\<lambda>(c, r). case c of Complete _ \<Rightarrow> True | _ \<Rightarrow> False) (zip cs rs))"

lemma complete_outcomes_snoc:
  "length rs = length cs \<Longrightarrow> complete_outcomes (cs @ [c]) (rs @ [r]) =
    complete_outcomes cs rs @ (case c of Complete _ \<Rightarrow> [r] | _ \<Rightarrow> [])"
  by (auto simp: complete_outcomes_def split: js_call.splits)

fun phase :: "SessionInner \<Rightarrow> js_return list \<Rightarrow> bool" where
  "phase Replacing os \<longleftrightarrow> False"
| "phase (Pending _) os \<longleftrightarrow> os = []"
| "phase (Open _) os \<longleftrightarrow> os = [Done]"
| "phase (Poisoned _) os \<longleftrightarrow> (\<exists>e. Threw e \<in> set os)"

lemma js_run_phase:
  assumes "js_run P W cs (Pending p) = (rs, st)" "wasm_ok P (Pending p)"
  shows "wasm_ok P st \<and> phase st (complete_outcomes cs rs)"
  using assms(1)
proof (induction cs arbitrary: rs st rule: rev_induct)
  case Nil
  then show ?case using assms(2) by (auto simp: complete_outcomes_def)
next
  case (snoc c cs)
  obtain rs1 st1 where run: "js_run P W cs (Pending p) = (rs1, st1)" by fastforce
  obtain r where step: "js_step P W c st1 = (r, st)" "rs = rs1 @ [r]"
    using snoc.prems run by (auto simp: js_run_snoc Let_def split: prod.splits)
  note IH = snoc.IH [OF run]
  note outs = complete_outcomes_snoc [OF length_js_run [OF run], of c r]
  show ?case
  proof (cases st1)
    case (Poisoned m)
    then show ?thesis using IH js_step_poisoned [of P W c m] step outs by auto
  next
    case (Pending q)
    then show ?thesis using IH js_step_pending [of P q W c] step outs by (cases c) auto
  next
    case (Open s)
    then show ?thesis using IH js_step_open [of P s W c] step outs by (cases c) auto
  qed (use IH in simp)
qed

section \<open>Frames of a session\<close>

fun wire_of :: "js_return \<Rightarrow> bytes list" where
  "wire_of (Wire b) = [b]"
| "wire_of _ = []"

definition frame_stamp :: "bytes \<Rightarrow> (Epoch \<times> Seq) option" where
  "frame_stamp b = (case read_header (take HEADER_LEN b) of Inl _ \<Rightarrow> None | Inr h \<Rightarrow> Some (h_epoch h, h_seq h))"

fun stamp_less :: "Epoch \<times> Seq \<Rightarrow> Epoch \<times> Seq \<Rightarrow> bool" where
  "stamp_less (e, s) (e', s') \<longleftrightarrow> e < e' \<or> e = e' \<and> s < s'"

lemma stamp_less_trans: "stamp_less x y \<Longrightarrow> stamp_less y z \<Longrightarrow> stamp_less x z"
  by (cases x; cases y; cases z) auto

lemma frame_stamp_encode:
  "encode_frame P key salt t fl e s pt = Inr out \<Longrightarrow> frame_stamp (eo_wire out) = Some (e, s)"
  by (auto simp: encode_frame_def frame_stamp_def Let_def read_write_header Header_new_def
      expected_nonce_field_def split: if_splits)

lemma encrypt_open:
  assumes "js_step P W (Encrypt pt) (Open s) = (r, st)"
  shows "\<exists>s'. st = Open s' \<and> wo_epoch s' = wo_epoch s \<and>
    ((\<exists>b. r = Wire b \<and> frame_stamp b = Some (wo_epoch s, wo_c2s_seq s) \<and> wo_c2s_seq s \<noteq> - 1 \<and>
        wo_c2s_seq s' = wo_c2s_seq s + 1) \<or>
     (\<exists>e. r = Threw e) \<and> wo_c2s_seq s' = wo_c2s_seq s)"
  using assms
  by (auto simp: wasm_encrypt_def Let_def dest: frame_stamp_encode split: prod.splits sum.splits if_splits)

lemma wasm_on_plaintext_epoch:
  "wasm_on_plaintext P h pt s = (r, s') \<Longrightarrow>
    wo_epoch s' = wo_epoch s \<and> wo_c2s_seq s' = wo_c2s_seq s \<or> wo_epoch s' = wo_epoch s + 1"
  by (auto simp: wasm_on_plaintext_def wasm_key_update_def Let_def case_prod_beta
      split: FrameType.splits sum.splits Control.splits if_splits)

lemma decrypt_open:
  assumes "js_step P W (Decrypt fr) (Open s) = (r, st)"
  shows "\<exists>s'. st = Open s' \<and> wire_of r = [] \<and>
    (wo_epoch s' = wo_epoch s \<and> wo_c2s_seq s' = wo_c2s_seq s \<or> wo_epoch s' = wo_epoch s + 1)"
proof -
  obtain key ratchet where k: "SymRatchet_next_key P (wo_s2c s) = (key, ratchet)" by fastforce
  let ?s = "s\<lparr>wo_s2c := ratchet\<rparr>"
  show ?thesis
  proof (cases "decode_frame P key (wo_nonce_salt s) fr")
    case (Inl e)
    then show ?thesis using assms k by (auto simp: wasm_decrypt_def)
  next
    case (Inr hp)
    obtain h pt where hp: "hp = (h, pt)" by fastforce
    obtain c win where c: "check_and_update (wo_s2c_replay s) (h_seq h) = (c, win)" by fastforce
    obtain r1 s1 where p: "wasm_on_plaintext P h pt (?s\<lparr>wo_s2c_replay := win\<rparr>) = (r1, s1)" by fastforce
    then show ?thesis using assms k Inr hp c wasm_on_plaintext_epoch [OF p]
      by (cases c; cases r1) (auto simp: wasm_decrypt_def)
  qed
qed

text \<open>
  The frames made so far carry stamps in strictly increasing order, all below the
  stamp of the next frame; the epoch counts at most the calls made.
\<close>

definition stamps_inv :: "nat \<Rightarrow> js_return list \<Rightarrow> SessionInner \<Rightarrow> bool" where
  "stamps_inv n rs st \<longleftrightarrow> (\<exists>stamps. map frame_stamp (concat (map wire_of rs)) = map Some stamps \<and>
    sorted_wrt stamp_less stamps \<and> (\<forall>p. st = Pending p \<longrightarrow> stamps = []) \<and>
    (\<forall>s. st = Open s \<longrightarrow> unat (wo_epoch s) \<le> n \<and>
      (\<forall>x \<in> set stamps. stamp_less x (wo_epoch s, wo_c2s_seq s))))"

lemma stamps_inv_quiet:
  assumes "stamps_inv n rs st" "wire_of r = []" "\<not> (\<exists>s. st' = Open s)" "\<And>p. st' = Pending p \<Longrightarrow> st = Pending p"
  shows "stamps_inv (Suc n) (rs @ [r]) st'"
  using assms unfolding stamps_inv_def by auto

lemma stamps_inv_open:
  assumes "stamps_inv n rs (Open s)" "wire_of r = []" "Suc n < 2 ^ 32"
    and "wo_epoch s' = wo_epoch s \<and> wo_c2s_seq s' = wo_c2s_seq s \<or> wo_epoch s' = wo_epoch s + 1"
  shows "stamps_inv (Suc n) (rs @ [r]) (Open s')"
proof -
  obtain stamps where st: "map frame_stamp (concat (map wire_of rs)) = map Some stamps"
    "sorted_wrt stamp_less stamps" "unat (wo_epoch s) \<le> n"
    "\<forall>x \<in> set stamps. stamp_less x (wo_epoch s, wo_c2s_seq s)"
    using assms(1) unfolding stamps_inv_def by auto
  have inc: "unat (wo_epoch s + 1) = unat (wo_epoch s) + 1"
    using st(3) assms(3) by (intro incr_small) simp
  then have "wo_epoch s < wo_epoch s + 1" by (simp add: word_less_nat_alt)
  then have "\<forall>x \<in> set stamps. stamp_less x (wo_epoch s', wo_c2s_seq s')"
    using st(4) assms(4) stamp_less_trans [of _ "(wo_epoch s, wo_c2s_seq s)"] by fastforce
  moreover have "unat (wo_epoch s') \<le> Suc n" using assms(4) st(3) inc by auto
  ultimately show ?thesis using st(1,2) assms(2) unfolding stamps_inv_def by auto
qed

lemma less_incr: "(n :: 'a::len word) \<noteq> - 1 \<Longrightarrow> n < n + 1"
proof -
  assume "n \<noteq> - 1"
  then have "1 + n \<noteq> 0" by (metis add.commute eq_neg_iff_add_eq_0)
  then show "n < n + 1" by (simp add: word_less_nat_alt unatSuc add.commute)
qed

lemma stamps_inv_wire:
  assumes "stamps_inv n rs (Open s)" "frame_stamp b = Some (wo_epoch s, wo_c2s_seq s)" "wo_c2s_seq s \<noteq> - 1"
    and "wo_epoch s' = wo_epoch s" "wo_c2s_seq s' = wo_c2s_seq s + 1"
  shows "stamps_inv (Suc n) (rs @ [Wire b]) (Open s')"
proof -
  obtain stamps where st: "map frame_stamp (concat (map wire_of rs)) = map Some stamps"
    "sorted_wrt stamp_less stamps" "unat (wo_epoch s) \<le> n"
    "\<forall>x \<in> set stamps. stamp_less x (wo_epoch s, wo_c2s_seq s)"
    using assms(1) unfolding stamps_inv_def by auto
  have "wo_c2s_seq s < wo_c2s_seq s + 1"
    using assms(3) by (rule less_incr)
  then have "stamp_less (wo_epoch s, wo_c2s_seq s) (wo_epoch s', wo_c2s_seq s')" using assms(4,5) by simp
  then have "\<forall>x \<in> set (stamps @ [(wo_epoch s, wo_c2s_seq s)]). stamp_less x (wo_epoch s', wo_c2s_seq s')"
    using st(4) stamp_less_trans by auto
  moreover have "sorted_wrt stamp_less (stamps @ [(wo_epoch s, wo_c2s_seq s)])"
    using st(2,4) by (simp add: sorted_wrt_append)
  ultimately show ?thesis
    using st(1,3) assms(2,4) unfolding stamps_inv_def
    by (intro exI [of _ "stamps @ [(wo_epoch s, wo_c2s_seq s)]"]) auto
qed

lemma js_step_stamps:
  assumes "stamps_inv n rs st" "wasm_ok P st" "js_step P W c st = (r, st')" "Suc n < 2 ^ 32"
  shows "stamps_inv (Suc n) (rs @ [r]) st'"
proof (cases st)
  case (Poisoned m)
  then show ?thesis
    using js_step_poisoned [of P W c m] assms(1,3) by (intro stamps_inv_quiet [of n rs st]) auto
next
  case (Pending p)
  show ?thesis
  proof (cases "\<exists>s. st' = Open s")
    case True
    then obtain s h where s: "st' = Open s" "r = Done" "c = Complete h"
      using js_step_pending [of P p W c] assms(2,3) Pending by (cases c) auto
    then have "wo_epoch s = 0"
      using assms(3) Pending by (auto simp: wasm_complete_def poison_def Let_def split: sum.splits)
    moreover have "concat (map wire_of rs) = []" using assms(1) Pending unfolding stamps_inv_def by auto
    ultimately show ?thesis using s unfolding stamps_inv_def by (intro exI [of _ "[]"]) auto
  next
    case False
    then show ?thesis
      using js_step_pending [of P p W c] assms(1-3) Pending
      by (intro stamps_inv_quiet [of n rs st]) (cases c; auto)+
  qed
next
  case (Open s)
  show ?thesis
  proof (cases c)
    case (Complete h)
    then show ?thesis
      using js_step_open [of P s W c] assms(1-3) Open by (intro stamps_inv_quiet [of n rs st]) auto
  next
    case (Encrypt pt)
    have e: "js_step P W (Encrypt pt) (Open s) = (r, st')" using assms(3) Open Encrypt by simp
    obtain s' where s': "st' = Open s'" "wo_epoch s' = wo_epoch s"
      "(\<exists>b. r = Wire b \<and> frame_stamp b = Some (wo_epoch s, wo_c2s_seq s) \<and> wo_c2s_seq s \<noteq> - 1 \<and>
        wo_c2s_seq s' = wo_c2s_seq s + 1) \<or> (\<exists>e. r = Threw e) \<and> wo_c2s_seq s' = wo_c2s_seq s"
      using encrypt_open [OF e] by blast
    then show ?thesis
      using stamps_inv_wire [of n rs s] stamps_inv_open [of n rs s r s'] assms(1,4) Open by auto
  next
    case (Decrypt fr)
    have d: "js_step P W (Decrypt fr) (Open s) = (r, st')" using assms(3) Open Decrypt by simp
    show ?thesis
      using decrypt_open [OF d] stamps_inv_open [of n rs s r] assms(1,4) Open by auto
  qed
qed (use assms(2) in simp)

lemma js_run_stamps:
  assumes "js_run P W cs (Pending p) = (rs, st)" "wasm_ok P (Pending p)" "length cs < 2 ^ 32"
  shows "stamps_inv (length cs) rs st"
  using assms(1,3)
proof (induction cs arbitrary: rs st rule: rev_induct)
  case Nil
  then show ?case by (auto simp: stamps_inv_def)
next
  case (snoc c cs)
  obtain rs1 st1 where run: "js_run P W cs (Pending p) = (rs1, st1)" by fastforce
  obtain r where step: "js_step P W c st1 = (r, st)" "rs = rs1 @ [r]"
    using snoc.prems run by (auto simp: js_run_snoc Let_def split: prod.splits)
  have "stamps_inv (length cs) rs1 st1" using snoc.IH [OF run] snoc.prems(2) by simp
  moreover have "wasm_ok P st1" using js_run_phase [OF run assms(2)] by simp
  moreover have "Suc (length cs) < 2 ^ 32" using snoc.prems(2) by simp
  ultimately show ?case using js_step_stamps [OF _ _ step(1)] step(2) by simp
qed

lemma sorted_stamps_distinct: "sorted_wrt stamp_less stamps \<Longrightarrow> distinct stamps"
  by (induction stamps) auto

lemma encrypt_short:
  assumes "length pt \<le> MAX_PLAINTEXT_PER_RECORD" "wo_c2s_seq s \<noteq> - 1"
  shows "\<exists>b s'. js_step P W (Encrypt pt) (Open s) = (Wire b, Open s') \<and> wo_c2s_seq s' = wo_c2s_seq s + 1"
  using assms by (simp add: wasm_encrypt_def encode_frame_def Let_def split: prod.splits)

section \<open>Refinement of the native client\<close>

text \<open>An open browser session and a native session that hold the same keys and counters.\<close>

definition mirrors :: "OpenSession \<Rightarrow> Session \<Rightarrow> bool" where
  "mirrors ob s \<longleftrightarrow> wo_c2s ob = cs_c2s s \<and> wo_s2c ob = cs_s2c s \<and> wo_nonce_salt ob = cs_nonce_salt s \<and>
    wo_epoch ob = cs_epoch s \<and> wo_c2s_seq ob = cs_c2s_seq s \<and> wo_s2c_replay ob = s2c_replay s \<and>
    wo_tee_receipt_pk ob = tee_receipt_pk s \<and> wo_current_root ob = cs_current_root s \<and>
    wo_client_ratchet_sk ob = client_ratchet_sk s"

text \<open>
  The loop of the host: \<open>decrypt\<close> each message and collect the texts until one ends
  the turn; the messages left over.
\<close>

fun browser_text :: "'r prims \<Rightarrow> bytes list \<Rightarrow> SessionInner \<Rightarrow> (bytes \<times> SessionInner \<times> bytes list) option" where
  "browser_text P [] st = None"
| "browser_text P (m # ms) st =
    (case wasm_decrypt P m st of
       (Inl _, st) \<Rightarrow> None
     | (Inr d, st) \<Rightarrow>
       if dr_end_of_turn d then Some (dr_text d, st, ms)
       else map_option (\<lambda>(t, r). (dr_text d @ t, r)) (browser_text P ms st))"

lemma mirrors_key_update:
  "mirrors ob s \<Longrightarrow> mirrors (wasm_key_update P pk ob) (apply_key_update P pk s)"
  by (auto simp: mirrors_def wasm_key_update_def apply_key_update_def Let_def split: prod.splits)

lemma on_plaintext_mirrored:
  assumes "on_plaintext P h pt ts = (Inr x, ts')" "mirrors ob (tks_session ts)" "\<not> ended ts"
  obtains d ob' where "wasm_on_plaintext P h pt ob = (Inr d, ob')" "mirrors ob' (tks_session ts')"
    "ended ts' = dr_end_of_turn d"
    "x = None \<and> dr_text d = [] \<and> \<not> dr_end_of_turn d \<or> x = Some None \<and> dr_text d = [] \<and> dr_end_of_turn d \<or>
     x = Some (Some (dr_text d))"
proof (cases "h_frame_type h")
  case FT_Data
  then show ?thesis
    using assms that [of "\<lparr>dr_text = pt, dr_end_of_turn = (h_flags h AND END_OF_TURN = END_OF_TURN)\<rparr>" ob]
    by (auto simp: on_plaintext_def wasm_on_plaintext_def Let_def split: if_splits)
next
  case FT_Control
  obtain pk where pk: "Control_decode pt = Inr (KeyUpdate pk)" "x = None"
    "ts' = ts\<lparr>tks_session := apply_key_update P pk (tks_session ts)\<rparr>"
    using assms(1) FT_Control by (auto simp: on_plaintext_def split: sum.splits Control.splits)
  then show ?thesis
    using mirrors_key_update [OF assms(2), of P pk] assms(3) FT_Control
      that [of "\<lparr>dr_text = [], dr_end_of_turn = False\<rparr>" "wasm_key_update P pk ob"]
    by (simp add: wasm_on_plaintext_def)
qed (use assms(1) in \<open>simp_all add: on_plaintext_def\<close>)

lemma on_frame_mirrored:
  assumes "on_frame P m ts = (Inr x, ts')" "mirrors ob (tks_session ts)" "\<not> ended ts"
  obtains d ob' where "wasm_decrypt P m (Open ob) = (Inr d, Open ob')" "mirrors ob' (tks_session ts')"
    "ended ts' = dr_end_of_turn d"
    "x = None \<and> dr_text d = [] \<and> \<not> dr_end_of_turn d \<or> x = Some None \<and> dr_text d = [] \<and> dr_end_of_turn d \<or>
     x = Some (Some (dr_text d))"
proof -
  let ?s = "tks_session ts"
  obtain key ratchet where k: "SymRatchet_next_key P (cs_s2c ?s) = (key, ratchet)" by fastforce
  obtain h pt where d: "decode_frame P key (cs_nonce_salt ?s) m = Inr (h, pt)"
    using assms(1) k by (auto simp: on_frame_def Let_def split: sum.splits)
  obtain u win where w: "check_and_update (s2c_replay ?s) (h_seq h) = (Inr u, win)"
    using assms(1) k d by (auto simp: on_frame_def Let_def split: sum.splits prod.splits if_splits)
  have p: "on_plaintext P h pt (ts\<lparr>tks_session := ?s\<lparr>cs_s2c := ratchet, s2c_replay := win\<rparr>\<rparr>) = (Inr x, ts')"
    using assms(1) k d w by (simp add: on_frame_def Let_def split: if_splits)
  have "mirrors (ob\<lparr>wo_s2c := ratchet, wo_s2c_replay := win\<rparr>) (?s\<lparr>cs_s2c := ratchet, s2c_replay := win\<rparr>)"
    using assms(2) by (simp add: mirrors_def)
  then obtain dr ob' where dr: "wasm_on_plaintext P h pt (ob\<lparr>wo_s2c := ratchet, wo_s2c_replay := win\<rparr>) = (Inr dr, ob')"
    "mirrors ob' (tks_session ts')" "ended ts' = dr_end_of_turn dr"
    "x = None \<and> dr_text dr = [] \<and> \<not> dr_end_of_turn dr \<or> x = Some None \<and> dr_text dr = [] \<and> dr_end_of_turn dr \<or>
     x = Some (Some (dr_text dr))"
    using on_plaintext_mirrored [OF p, of "ob\<lparr>wo_s2c := ratchet, wo_s2c_replay := win\<rparr>"] assms(3) by auto
  have "wasm_decrypt P m (Open ob) = (Inr dr, Open ob')"
    using assms(2) k d w dr(1) by (simp add: wasm_decrypt_def mirrors_def Let_def)
  then show thesis using dr(2-4) by (rule that)
qed

text \<open>Whatever the native client reads to the end of a turn, the browser reads.\<close>

lemma browser_text_mirrors:
  assumes "read_all P ts w = ((None, texts), ts', w')" "incoming w = map WsBinary ms" "\<not> ended ts"
    and "mirrors ob (tks_session ts)"
  shows "\<exists>ob' rest. browser_text P ms (Open ob) = Some (concat texts, Open ob', rest) \<and>
    mirrors ob' (tks_session ts') \<and> w' = w\<lparr>incoming := map WsBinary rest\<rparr>"
  using assms
proof (induction ms arbitrary: ts w ob texts)
  case Nil
  then have "next_token P ts w = (Inl (Transport ''ws ended unexpectedly''), ts, w\<lparr>incoming := []\<rparr>)"
    by (subst next_token.simps) (simp add: read_binary_def)
  then show ?case using Nil.prems(1) by (simp add: read_all.simps [of P ts w])
next
  case (Cons m ms)
  have inc: "incoming w = WsBinary m # map WsBinary ms" using Cons.prems(2) by simp
  obtain x ts1 where f: "on_frame P m ts = (x, ts1)" by fastforce
  note step = next_token_step [OF Cons.prems(3) read_binary_Binary [OF inc], of P]
  show ?case
  proof (cases x)
    case (Inl e)
    then show ?thesis using Cons.prems(1) step f by (simp add: read_all.simps [of P ts w])
  next
    case (Inr y)
    obtain d ob' where d: "wasm_decrypt P m (Open ob) = (Inr d, Open ob')" "mirrors ob' (tks_session ts1)"
      "ended ts1 = dr_end_of_turn d"
      "y = None \<and> dr_text d = [] \<and> \<not> dr_end_of_turn d \<or> y = Some None \<and> dr_text d = [] \<and> dr_end_of_turn d \<or>
       y = Some (Some (dr_text d))"
      using on_frame_mirrored [of P m ts y ts1 ob] f Inr Cons.prems(3,4) by auto
    let ?w = "w\<lparr>incoming := map WsBinary ms\<rparr>"
    consider "y = None" "dr_text d = []" "\<not> dr_end_of_turn d" | "y = Some None" "dr_text d = []" "dr_end_of_turn d"
      | "y = Some (Some (dr_text d))" "dr_end_of_turn d" | "y = Some (Some (dr_text d))" "\<not> dr_end_of_turn d"
      using d(4) by blast
    then show ?thesis
    proof cases
      case 1
      then have "read_all P ts1 ?w = ((None, texts), ts', w')"
        using read_all_again [OF Cons.prems(3) inc, of P ts1] f Inr Cons.prems(1) by simp
      from Cons.IH [OF this] show ?thesis using 1 d by auto
    next
      case 2
      then show ?thesis
        using read_all_end [OF Cons.prems(3) inc, of P ts1] f Inr Cons.prems(1) d by auto
    next
      case 3
      have "read_all P ts1 ?w = ((None, []), ts1, ?w)"
        using 3(2) d(3) by (subst read_all.simps) (simp add: next_token.simps)
      then show ?thesis
        using read_all_chunk [OF Cons.prems(3) inc, of P "dr_text d" ts1] f Inr 3 Cons.prems(1) d by auto
    next
      case 4
      obtain e texts1 z where ra: "read_all P ts1 ?w = ((e, texts1), z)" by (metis surj_pair)
      then have "read_all P ts1 ?w = ((None, texts1), ts', w')" "texts = dr_text d # texts1"
        using read_all_chunk [OF Cons.prems(3) inc, of P "dr_text d" ts1] f Inr 4 Cons.prems(1) by auto
      from Cons.IH [OF this(1)] show ?thesis using 4 d \<open>texts = _\<close> by auto
    qed
  qed
qed

text \<open>
  After a plaintext that is too long the peer expects the key the next frame was
  not sealed with: the frame is sealed with the key that follows it.
\<close>

lemma oversize_skips_key:
  assumes "MAX_PLAINTEXT_PER_RECORD < length big" "length pt \<le> MAX_PLAINTEXT_PER_RECORD" "wo_c2s_seq s \<noteq> - 1"
    and "SymRatchet_next_key P (wo_c2s s) = (k1, r1)" "SymRatchet_next_key P r1 = (k2, r2)"
  shows "\<exists>st out. wasm_encrypt P big (Open s) = (Inl (Error_display (LongFrame (length big))), st) \<and>
    encode_frame P k2 (wo_nonce_salt s) FT_Data 0 (wo_epoch s) (wo_c2s_seq s) pt = Inr out \<and>
    fst (wasm_encrypt P pt st) = Inr (eo_wire out)"
  using assms by (simp add: wasm_encrypt_def encode_frame_def Let_def)

end
