(* ===== verification/Browser.thy ===== *)
theory Browser
  imports End_To_End Wasm_Session
begin

text \<open>
  The browser session against the service.  Shown: the type of a session after any
  sequence of calls, that its frames never repeat a stamp, and that a browser and
  the service run a whole session to its receipt.
\<close>

section \<open>Opening a session\<close>

text \<open>
  Documented of \<open>postcard\<close>: decoding reads from the front and ignores what is left;
  the receipt is the first field of the envelope.
\<close>

definition wasm_lib_law :: "'f wasm_lib \<Rightarrow> bool" where
  "wasm_lib_law W \<longleftrightarrow> (\<forall>bs e. envelope_from_bytes (wl_session W) bs = Inr e \<longrightarrow>
    signed_from_bytes W bs = Inr (signed_receipt e))"

lemma complete_cong:
  assumes "\<And>h sig. v h sig = Inr () \<longleftrightarrow> v' h sig = Inr ()"
  shows "ClientHandshake_complete P M ch sh v = Inr ek \<longleftrightarrow> ClientHandshake_complete P M ch sh v' = Inr ek"
  using assms by (auto simp: ClientHandshake_complete_def rbind_eq_Inr Let_def split: if_splits)

lemma browser_starts:
  assumes P: "prims_law P" and L: "session_lib_law (wl_session W)"
    and i: "identity_ok P i" "evidence_small P (wl_session W) i"
    and b: "length nonce = 32" "build_bundle P (sl_evidence (wl_session W)) i nonce t0 = Some b"
      "bundle_to_bytes (wl_session W) b = Inr bb" "unat t1 \<le> unat t0 + 60"
    and keys: "root = MockIssuer_verifying_key P (attest_issuer i)" "rpk = ed25519_public P rk"
  obtains ch hello r' where "ClientHandshake_initiate P (sl_hello (wl_session W)) r b = (Inr (ch, hello), r')"
    "wasm_start P W bb nonce root rpk (tee_weight_commit i) t1 r =
      (Inr (Pending \<lparr>wp_handshake = ch, wp_client_hello = hello, wp_attestation_nonce = nonce,
        wp_trust_root = root, wp_tee_id_pk = TeeIdentity_id_pk P i, wp_tee_receipt_pk = rpk,
        wp_now_unix = t1\<rparr>), r')"
proof -
  let ?L = "wl_session W"
  have laws: "ed25519_law P" "evidence_codec_law (sl_evidence ?L)" "rng_law P" "x25519_law P" "mlkem_law P"
    "hello_codec_law (sl_hello ?L)"
    using P L by (simp_all add: prims_law_def session_lib_law_def)
  have dec: "bundle_from_bytes ?L bb = Inr b"
    using L b(3) unfolding session_lib_law_def by (metis sum.inject(2))
  note valid = built_bundle_valid [OF P L i b(2)]
  have "length (pq_pk_mlkem b) = ML_KEM_768_EK_LEN"
    using valid(2) identity_pq_length [OF laws(5) i(1)] by simp
  then obtain ch hello r' where init: "ClientHandshake_initiate P (sl_hello ?L) r b = (Inr (ch, hello), r')"
    by (rule initiate_total [OF laws(4,3,6)])
  have vb: "wasm_verify_bundle P (sl_evidence ?L) b nonce (tee_weight_commit i) root t1 60 =
      Inr (TeeIdentity_id_pk P i)"
    using bundle_verified_iff [OF laws(1,2) b(2)] b(4) keys(1) by (simp add: wasm_verify_bundle_eq)
  have pk: "pk_from_bytes P W root = Inr root" "pk_from_bytes P W rpk = Inr rpk"
    using laws(1) keys by (simp_all add: pk_from_bytes_iff ed25519_law_def MockIssuer_verifying_key_def)
  have "length (tee_weight_commit i) = 32" using i(1) by (simp add: identity_ok_def)
  then show thesis
    using dec valid(1) b(1) pk vb init by (intro that) (simp_all add: wasm_start_def)
qed

text \<open>What the browser holds once the handshake is complete.\<close>

definition open_session :: "EstablishedKeys \<Rightarrow> bytes \<Rightarrow> bytes \<Rightarrow> OpenSession" where
  "open_session ek csk rpk =
    \<lparr>wo_c2s = SymRatchet_new (ek_c2s_chain ek), wo_s2c = SymRatchet_new (ek_s2c_chain ek),
     wo_nonce_salt = ek_nonce_salt ek, wo_epoch = 0, wo_c2s_seq = 0, wo_s2c_replay = ReplayWindow_new,
     wo_tee_receipt_pk = rpk, wo_current_root = ek_root ek, wo_client_ratchet_sk = csk\<rparr>"

lemma open_session_mirrors: "mirrors (open_session ek csk rpk) (client_session ek csk idk rpk lv wc)"
  by (simp add: mirrors_def open_session_def client_session_def)

lemma browser_completes:
  assumes P: "prims_law P" and L: "session_lib_law (wl_session W)" and i: "identity_ok P i"
    and b: "pq_pk_mlkem b = tee_pq_pk_mlkem i" "spk_pk_x25519 b = tee_spk_pk_x25519 i"
    and init: "ClientHandshake_initiate P (sl_hello (wl_session W)) rc b = (Inr (ch, hello), rc')"
    and p: "wp_handshake p = ch" "wp_trust_root p = MockIssuer_verifying_key P (attest_issuer i)"
      "wp_tee_id_pk p = TeeIdentity_id_pk P i" "unat (wp_now_unix p) \<le> unat t2 + 60"
  shows "\<exists>sh ek r'. ServerHandshake_respond P (sl_hello (wl_session W)) (srv_of i) r hello rsk
      (evidence_and_sig P (sl_evidence (wl_session W)) i t2) = (Inr (sh, ek), r') \<and>
    ek_client_ratchet_pk ek = x25519_public P (chs_client_ratchet_sk ch) \<and>
    wasm_complete P W sh (Pending p) =
      (Inr (), Open (open_session ek (chs_client_ratchet_sk ch) (wp_tee_receipt_pk p)))"
proof -
  let ?L = "wl_session W"
  obtain sh ek r' where hs:
    "ServerHandshake_respond P (sl_hello ?L) (srv_of i) r hello rsk (evidence_and_sig P (sl_evidence ?L) i t2)
      = (Inr (sh, ek), r')"
    "ClientHandshake_complete P (sl_hello ?L) ch sh (verify_server_hello P (TeeIdentity_id_pk P i)) = Inr ek"
    "decode_evidence (sl_evidence ?L) (ek_server_attestation_evidence ek) =
      Inr (MockIssuer_issue P (attest_issuer i) (ek_report_data ek) t2)"
    "ek_client_ratchet_pk ek = x25519_public P (chs_client_ratchet_sk ch)"
    by (rule handshake_stage [OF P L i b init])
  have ed: "ed25519_law P" using P by (simp add: prims_law_def)
  have mv: "MockVerifier_verify P \<lparr>mv_trust_root = wp_trust_root p\<rparr>
      (MockIssuer_issue P (attest_issuer i) (ek_report_data ek) t2)
      \<lparr>expected_report_data = ek_report_data ek, now_unix = wp_now_unix p, max_age_sec = 60\<rparr> = Inr ()"
    using p by (simp add: MockIssuer_issue_accepted [OF ed])
  have same: "verify_server_hello P pk h sig = Inr () \<longleftrightarrow> wasm_server_hello_sig P pk h sig = Inr ()" for pk h sig
    by (simp add: verify_server_hello_def wasm_server_hello_sig_def)
  have "ClientHandshake_complete P (sl_hello ?L) ch sh (wasm_server_hello_sig P (TeeIdentity_id_pk P i)) = Inr ek"
    using hs(2) complete_cong [of "verify_server_hello P (TeeIdentity_id_pk P i)"
        "wasm_server_hello_sig P (TeeIdentity_id_pk P i)"] same by metis
  then show ?thesis
    using hs(1,3,4) mv p by (auto simp: wasm_complete_def open_session_def Let_def)
qed

section \<open>Reading the answer\<close>

lemma finalize_receipt:
  assumes "finalize P L ts cw = (Inr rec, cw')" "incoming cw = map WsBinary rest"
  obtains env rest' e where "rest = env # rest'" "incoming cw' = map WsBinary rest'"
    "envelope_from_bytes L env = Inr e"
    "receipt_verify P (receipt_bytes L) (signed_receipt e) (tee_receipt_pk (tks_session ts)) = Inr ()"
proof (cases rest)
  case Nil
  then show ?thesis using assms by (simp add: finalize_def sbind_def read_binary_def)
next
  case (Cons env rest')
  obtain e where e: "envelope_from_bytes L env = Inr e"
    using assms Cons by (cases "envelope_from_bytes L env") (simp_all add: finalize_def sbind_def read_binary_def slift_def)
  then have "check_envelope P L (tks_session ts) e = Inr rec" "cw' = cw\<lparr>incoming := map WsBinary rest'\<rparr>"
    using assms Cons by (simp_all add: finalize_def sbind_def read_binary_def slift_def)
  then show ?thesis using that Cons e by (auto simp: check_envelope_def Let_def rbind_eq_Inr)
qed

lemma browser_reads:
  assumes "wasm_lib_law W" "mirrors ob (tks_session ts)" "\<not> ended ts" "incoming cw = map WsBinary ms"
    and "read_all P ts cw = ((None, texts), ts', cw')"
    and "finalize P (wl_session W) ts' cw' = (Inr rec, cw\<lparr>incoming := []\<rparr>)"
  shows "\<exists>st env rj. browser_text P ms (Open ob) = Some (concat texts, st, [env]) \<and>
    wasm_verify_receipt P W env st = Inr rj"
proof -
  obtain ob' rest where br: "browser_text P ms (Open ob) = Some (concat texts, Open ob', rest)"
    "mirrors ob' (tks_session ts')" "cw' = cw\<lparr>incoming := map WsBinary rest\<rparr>"
    using browser_text_mirrors [OF assms(5,4,3,2)] by blast
  obtain env rest' e where e: "rest = env # rest'" "incoming (cw\<lparr>incoming := []\<rparr>) = map WsBinary rest'"
    "envelope_from_bytes (wl_session W) env = Inr e"
    "receipt_verify P (receipt_bytes (wl_session W)) (signed_receipt e) (tee_receipt_pk (tks_session ts')) = Inr ()"
    by (rule finalize_receipt [OF assms(6), of rest]) (use br(3) in simp, rule that)
  have "signed_from_bytes W env = Inr (signed_receipt e)"
    using assms(1) e(3) unfolding wasm_lib_law_def by blast
  moreover have "wo_tee_receipt_pk ob' = tee_receipt_pk (tks_session ts')" using br(2) by (simp add: mirrors_def)
  ultimately obtain rj where "wasm_verify_receipt P W env (Open ob') = Inr rj"
    using e(4) by (simp add: wasm_verify_receipt_def Let_def)
  then show ?thesis using br(1) e(1,2) by auto
qed

text \<open>
  From the bundle to the prompt: the browser is open and mirrors a native session
  that is in sync with the handler, which is left with the loop over the chunks.
\<close>

lemma browser_opens:
  fixes P :: "'r prims" and st :: "('f::comm_ring_1) AppState"
  defines "i \<equiv> as_identity st" and "rpk \<equiv> ed25519_public P (as_receipt_key st)"
  assumes P: "prims_law P" and L: "session_lib_law (wl_session W)"
    and i: "identity_ok P i" "evidence_small P (wl_session W) i"
    and b: "length nonce = 32" "build_bundle P (sl_evidence (wl_session W)) i nonce t0 = Some b"
      "bundle_to_bytes (wl_session W) b = Inr bb"
    and t: "unat t1 \<le> unat t0 + 60" "Core.now_unix clock2 = Inr t2" "unat t1 \<le> unat t2 + 60"
    and prompt: "utf8_valid prompt" "length prompt \<le> MAX_PLAINTEXT_PER_RECORD"
  obtains st0 r' hello wire sh st1 ob c ss w where
    "wasm_start P W bb nonce (MockIssuer_verifying_key P (attest_issuer i)) rpk (tee_weight_commit i) t1 r =
      (Inr st0, r')"
    "client_hello_bytes st0 = Inr hello" "wasm_complete P W sh st0 = (Inr (), st1)"
    "wasm_encrypt P prompt st1 = (Inr wire, Open ob)" "mirrors ob c" "in_sync P ss c"
    "between_chunks ss" "all_flushed w" "output_bytes ss = []" "output_token_ids ss = []" "sent w = [sh]"
    "tee_receipt_pk c = rpk" "expected_weight_commit c = tee_weight_commit i" "layer_verifier c = None"
    "handle_session P (wl_session W) st seed inst clock2 tenant (server_world [hello, wire] rs pool) =
      sbind (stream_chunks P (as_engine st prompt) ss) (\<lambda>ss. sbind (end_of_turn P ss)
        (issue_receipt P (wl_session W) st tenant (SessionId_random seed) t2 (approx_token_count prompt)
          (sha256 P prompt))) w"
proof -
  let ?L = "wl_session W" and ?root = "MockIssuer_verifying_key P (attest_issuer i)"
  have xch: "xchacha_law P" using P by (simp add: prims_law_def)
  obtain ch hello r' where start:
    "ClientHandshake_initiate P (sl_hello ?L) r b = (Inr (ch, hello), r')"
    "wasm_start P W bb nonce ?root rpk (tee_weight_commit i) t1 r =
      (Inr (Pending \<lparr>wp_handshake = ch, wp_client_hello = hello, wp_attestation_nonce = nonce,
        wp_trust_root = ?root, wp_tee_id_pk = TeeIdentity_id_pk P i, wp_tee_receipt_pk = rpk,
        wp_now_unix = t1\<rparr>), r')"
    by (rule browser_starts [OF P L i b t(1) refl rpk_def [THEN meta_eq_to_obj_eq]]) (rule that)
  define p where "p = \<lparr>wp_handshake = ch, wp_client_hello = hello, wp_attestation_nonce = nonce,
    wp_trust_root = ?root, wp_tee_id_pk = TeeIdentity_id_pk P i, wp_tee_receipt_pk = rpk, wp_now_unix = t1\<rparr>"
  let ?csk = "chs_client_ratchet_sk ch"
  note keys = built_bundle_valid(2,3) [OF P L i b(2)]
  have "\<exists>sh ek r'. ServerHandshake_respond P (sl_hello ?L) (srv_of (as_identity st)) r hello rsk
      (evidence_and_sig P (sl_evidence ?L) (as_identity st) t2) = (Inr (sh, ek), r') \<and>
    ek_client_ratchet_pk ek = x25519_public P ?csk \<and>
    wasm_complete P W sh (Pending p) = (Inr (), Open (open_session ek ?csk rpk))" for r rsk
    using browser_completes [OF P L i(1) keys start(1), of p] t(3) by (simp add: p_def i_def)
  note open_handler = handler_opens [OF xch t(2) prompt this]
  obtain sh ek key ratchet out ss w where h:
    "wasm_complete P W sh (Pending p) = (Inr (), Open (open_session ek ?csk rpk))"
    "SymRatchet_next_key P (SymRatchet_new (ek_c2s_chain ek)) = (key, ratchet)"
    "encode_frame P key (ek_nonce_salt ek) FT_Data 0 0 0 prompt = Inr out"
    "\<And>idk rpk lv wc. \<And>w :: 'r world. all_flushed w \<Longrightarrow>
      session_send P prompt (client_session ek ?csk idk rpk lv wc) w =
      (Inr \<lparr>tks_session = (client_session ek ?csk idk rpk lv wc)\<lparr>cs_c2s := ratchet, cs_c2s_seq := 1\<rparr>,
            ended = False\<rparr>, push_sent (eo_wire out) w)"
    "between_chunks ss" "all_flushed w" "output_bytes ss = []" "output_token_ids ss = []" "sent w = [sh]"
    "\<And>idk rpk lv wc. in_sync P ss ((client_session ek ?csk idk rpk lv wc)\<lparr>cs_c2s := ratchet, cs_c2s_seq := 1\<rparr>)"
    "handle_session P ?L st seed inst clock2 tenant (server_world [hello, eo_wire out] rs pool) =
      sbind (stream_chunks P (as_engine st prompt) ss) (\<lambda>ss. sbind (end_of_turn P ss)
        (issue_receipt P ?L st tenant (SessionId_random seed) t2 (approx_token_count prompt)
          (sha256 P prompt))) w"
    by (rule open_handler) (rule that)
  let ?c = "(client_session ek ?csk (TeeIdentity_id_pk P i) rpk None (tee_weight_commit i))
    \<lparr>cs_c2s := ratchet, cs_c2s_seq := 1\<rparr>"
  let ?ob = "(open_session ek ?csk rpk)\<lparr>wo_c2s := ratchet, wo_c2s_seq := 1\<rparr>"
  have enc: "wasm_encrypt P prompt (Open (open_session ek ?csk rpk)) = (Inr (eo_wire out), Open ?ob)"
    using h(2,3) by (simp add: wasm_encrypt_def open_session_def)
  have mir: "mirrors ?ob ?c"
    using open_session_mirrors [of ek ?csk rpk "TeeIdentity_id_pk P i" None "tee_weight_commit i"]
    by (simp add: mirrors_def)
  have peer: "tee_receipt_pk ?c = rpk" "expected_weight_commit ?c = tee_weight_commit i" "layer_verifier ?c = None"
    by (simp_all add: client_session_def)
  have hello: "client_hello_bytes (Pending p) = Inr hello" by (simp add: client_hello_bytes_def p_def)
  show thesis
    by (rule that [OF start(2) [folded p_def] hello h(1) enc mir h(10,5-9) peer h(11)])
qed

section \<open>Properties\<close>

text \<open>
  C3. A session succeeds between a browser and the service.  Given the bytes of a
  bundle the service built for the browser's nonce, clocks within the allowed age
  and an engine whose chunks are UTF-8 of at most a record: \<open>start\<close> succeeds; the
  service's handler, fed the hello and the encrypted prompt, returns without error;
  \<open>complete\<close> accepts its answer; decrypting the following messages until the end of
  the turn gives exactly the text of the engine's chunks, across every key update;
  and \<open>verify_receipt\<close> accepts the one message that is left.
\<close>

theorem browser_end_to_end:
  fixes P :: "'r prims" and st :: "('f::comm_ring_1) AppState" and pool :: TenantPool
  assumes "prims_law P" "session_lib_law (wl_session W)" "wasm_lib_law W"
    and "identity_ok P (as_identity st)" "evidence_small P (wl_session W) (as_identity st)"
    and "length nonce = 32" "build_bundle P (sl_evidence (wl_session W)) (as_identity st) nonce t0 = Some b"
      "bundle_to_bytes (wl_session W) b = Inr bb"
    and "unat t1 \<le> unat t0 + 60" "Core.now_unix clock2 = Inr t2" "unat t1 \<le> unat t2 + 60"
    and "utf8_valid prompt" "length prompt \<le> MAX_PLAINTEXT_PER_RECORD"
    and "\<forall>ch \<in> set (as_engine st prompt).
      utf8_valid (tc_text ch) \<and> length (tc_text ch) \<le> MAX_PLAINTEXT_PER_RECORD"
  shows "\<exists>st0 r' hello wire sw sh ms st1 st2 st3 env rj.
    wasm_start P W bb nonce (MockIssuer_verifying_key P (attest_issuer (as_identity st)))
      (ed25519_public P (as_receipt_key st)) (tee_weight_commit (as_identity st)) t1 r = (Inr st0, r') \<and>
    client_hello_bytes st0 = Inr hello \<and>
    handle_session P (wl_session W) st seed inst clock2 tenant (server_world [hello, wire] rs pool) = (Inr (), sw) \<and>
    sent sw = sh # ms \<and> wasm_complete P W sh st0 = (Inr (), st1) \<and>
    wasm_encrypt P prompt st1 = (Inr wire, st2) \<and>
    browser_text P ms st2 = Some (concat (map tc_text (as_engine st prompt)), st3, [env]) \<and>
    wasm_verify_receipt P W env st3 = Inr rj"
proof -
  let ?L = "wl_session W" and ?i = "as_identity st" and ?chs = "as_engine st prompt"
  let ?rpk = "ed25519_public P (as_receipt_key st)" and ?root = "MockIssuer_verifying_key P (attest_issuer ?i)"
  let ?receipt = "issue_receipt P ?L st tenant (SessionId_random seed) t2 (approx_token_count prompt) (sha256 P prompt)"
  have wc: "length (tee_weight_commit ?i) = 32" using assms(4) by (simp add: identity_ok_def)
  obtain st0 r' hello wire sh st1 ob c ss w where opn:
    "wasm_start P W bb nonce ?root ?rpk (tee_weight_commit ?i) t1 r = (Inr st0, r')"
    "client_hello_bytes st0 = Inr hello" "wasm_complete P W sh st0 = (Inr (), st1)"
    "wasm_encrypt P prompt st1 = (Inr wire, Open ob)" "mirrors ob c" "in_sync P ss c"
    "between_chunks ss" "all_flushed w" "output_bytes ss = []" "output_token_ids ss = []" "sent w = [sh]"
    "tee_receipt_pk c = ?rpk" "expected_weight_commit c = tee_weight_commit ?i" "layer_verifier c = None"
    "handle_session P ?L st seed inst clock2 tenant (server_world [hello, wire] rs pool) =
      sbind (stream_chunks P ?chs ss) (\<lambda>ss. sbind (end_of_turn P ss) ?receipt) w"
    by (rule browser_opens [OF assms(1,2,4-13)]) (rule that)
  have lv: "layers_complete ?L st (layer_verifier c)" using opn(14) by (simp add: layers_complete_def)
  obtain ms w' rec where turn:
    "sbind (stream_chunks P ?chs ss) (\<lambda>ss. sbind (end_of_turn P ss) ?receipt) w = (Inr (), w')" "sent w' = sent w @ ms"
    "\<forall>ts (cw :: 'r world). tks_session ts = c \<longrightarrow> \<not> ended ts \<longrightarrow> incoming cw = map WsBinary ms \<longrightarrow>
      (\<exists>ts' cw'. read_all P ts cw = ((None, map tc_text ?chs), ts', cw') \<and>
        finalize P ?L ts' cw' = (Inr rec, cw\<lparr>incoming := []\<rparr>))"
    by (rule turn_delivered [OF assms(1,2) wc lv assms(14) opn(7,6,8-10,12,13)]) (rule that)
  let ?ts = "\<lparr>tks_session = c, ended = False\<rparr>"
  let ?cw = "\<lparr>incoming = map WsBinary ms, sent = [], outcomes = (\<lambda>_. Flushed), rng = r\<rparr>"
  obtain ts' cw' where read: "read_all P ?ts ?cw = ((None, map tc_text ?chs), ts', cw')"
    "finalize P ?L ts' cw' = (Inr rec, ?cw\<lparr>incoming := []\<rparr>)"
    using turn(3) [rule_format, of ?ts ?cw] by auto
  have ts: "mirrors ob (tks_session ?ts)" "\<not> ended ?ts" "incoming ?cw = map WsBinary ms" using opn(5) by simp_all
  obtain st3 env rj where br: "browser_text P ms (Open ob) = Some (concat (map tc_text ?chs), st3, [env])"
    "wasm_verify_receipt P W env st3 = Inr rj"
    using browser_reads [OF assms(3) ts read] by blast
  have "sent w' = sh # ms" using turn(2) opn(11) by simp
  then show ?thesis
    using opn(1-4,15) turn(1) br
    by (intro exI [of _ st0] exI [of _ r'] exI [of _ hello] exI [of _ wire] exI [of _ w'] exI [of _ sh] exI [of _ ms]
        exI [of _ st1] exI [of _ "Open ob"] exI [of _ st3] exI [of _ env] exI [of _ rj]) simp
qed

text \<open>
  C33. The type of a browser session.  After \<open>start\<close> and any sequence of calls the
  state is never the transient one and its keys are valid public keys; it is
  pending exactly when \<open>complete\<close> was never called, open exactly when \<open>complete\<close>
  was called once and succeeded, and poisoned exactly when a call of \<open>complete\<close> threw.
\<close>

theorem wasm_session_type:
  assumes "wasm_start P W bb nonce root rpk wc now r = (Inr st0, r')" "js_run P W calls st0 = (rs, st)"
  shows "wasm_ok P st \<and>
    ((\<exists>p. st = Pending p) \<longleftrightarrow> complete_outcomes calls rs = []) \<and>
    ((\<exists>s. st = Open s) \<longleftrightarrow> complete_outcomes calls rs = [Done]) \<and>
    ((\<exists>e. st = Poisoned e) \<longleftrightarrow> (\<exists>e. Threw e \<in> set (complete_outcomes calls rs)))"
proof -
  obtain p where "st0 = Pending p" "wasm_ok P (Pending p)" using wasm_start_ok [OF assms(1)] by blast
  then have "wasm_ok P st" "phase st (complete_outcomes calls rs)"
    using js_run_phase [of P W calls p rs st] assms(2) by auto
  then show ?thesis by (cases st) auto
qed

text \<open>
  C34. Frames of a browser session.  Over any sequence of fewer than \<open>2 ^ 32\<close> calls
  after \<open>start\<close>, the frames \<open>encrypt\<close> returned carry pairwise distinct pairs of
  epoch and sequence number in their headers, through key updates and failed calls.
\<close>

theorem wasm_frames_unique:
  assumes "wasm_start P W bb nonce root rpk wc now r = (Inr st0, r')" "js_run P W calls st0 = (rs, st)"
    and "length calls < 2 ^ 32"
  shows "\<exists>stamps. map frame_stamp (concat (map wire_of rs)) = map Some stamps \<and> distinct stamps"
proof -
  obtain p where "st0 = Pending p" "wasm_ok P (Pending p)" using wasm_start_ok [OF assms(1)] by blast
  then have "stamps_inv (length calls) rs st" using js_run_stamps [of P W calls p rs st] assms(2,3) by simp
  then show ?thesis using sorted_stamps_distinct unfolding stamps_inv_def by blast
qed

section \<open>Witnesses\<close>

definition model_wasm_lib :: "int wasm_lib" where
  "model_wasm_lib = \<lparr>wl_session = model_session_lib,
    signed_from_bytes = (\<lambda>bs. case envelope_from_bytes model_session_lib bs of
       Inl e \<Rightarrow> Inl e | Inr e \<Rightarrow> Inr (signed_receipt e)),
    pk_error = (\<lambda>_. ''signature error'')\<rparr>"

lemma model_wasm_lib_law: "wasm_lib_law model_wasm_lib"
  by (simp add: wasm_lib_law_def model_wasm_lib_def)

abbreviation sample_root :: bytes where
  "sample_root \<equiv> MockIssuer_verifying_key model_prims (attest_issuer sample_identity)"

definition sample_bundle :: bytes where
  "sample_bundle = (case build_bundle model_prims model_evidence_codec sample_identity (replicate 32 5) 0 of
     Some b \<Rightarrow> put_list (bundle_fields b) | None \<Rightarrow> [])"

lemma sample_bundle_built:
  obtains b where "build_bundle model_prims (sl_evidence model_session_lib) sample_identity (replicate 32 5) 0 = Some b"
    "bundle_to_bytes model_session_lib b = Inr sample_bundle"
proof -
  obtain eb b where "build_bundle model_prims model_evidence_codec sample_identity (replicate 32 5) 0 = Some b"
    by (rule build_bundle_Some [OF model_evidence_codec_law])
  then show thesis by (intro that [of b]) (simp_all add: sample_bundle_def model_session_lib_def)
qed

lemma sample_opens:
  "\<exists>st0 r' sh s. wasm_start model_prims model_wasm_lib sample_bundle (replicate 32 5) sample_root
      (ed25519_public model_prims [7]) (tee_weight_commit sample_identity) 0 3 = (Inr st0, r') \<and>
    wasm_complete model_prims model_wasm_lib sh st0 = (Inr (), Open s) \<and> wo_c2s_seq s = 0"
proof -
  have wl: "wl_session model_wasm_lib = model_session_lib" by (simp add: model_wasm_lib_def)
  obtain b where b: "build_bundle model_prims (sl_evidence model_session_lib) sample_identity (replicate 32 5) 0 = Some b"
    "bundle_to_bytes model_session_lib b = Inr sample_bundle" by (rule sample_bundle_built)
  note laws = model_prims_law model_session_lib_law sample_identity_ok sample_evidence_small
  have age: "unat (0 :: u64) \<le> unat (0 :: u64) + 60" and n: "length (replicate 32 5 :: bytes) = 32" by simp_all
  obtain ch hello r' where st:
    "ClientHandshake_initiate model_prims (sl_hello model_session_lib) 3 b = (Inr (ch, hello), r')"
    "wasm_start model_prims model_wasm_lib sample_bundle (replicate 32 5) sample_root
      (ed25519_public model_prims [7]) (tee_weight_commit sample_identity) 0 3 =
      (Inr (Pending \<lparr>wp_handshake = ch, wp_client_hello = hello, wp_attestation_nonce = replicate 32 5,
        wp_trust_root = sample_root, wp_tee_id_pk = TeeIdentity_id_pk model_prims sample_identity,
        wp_tee_receipt_pk = ed25519_public model_prims [7], wp_now_unix = 0\<rparr>), r')"
    by (rule browser_starts [where W = model_wasm_lib, unfolded wl, OF laws n b age refl refl]) (rule that)
  note keys = built_bundle_valid(2,3) [OF laws b(1)]
  note completes = browser_completes [where W = model_wasm_lib, unfolded wl, OF laws(1-3) keys st(1)]
  let ?p = "\<lparr>wp_handshake = ch, wp_client_hello = hello, wp_attestation_nonce = replicate 32 5,
        wp_trust_root = sample_root, wp_tee_id_pk = TeeIdentity_id_pk model_prims sample_identity,
        wp_tee_receipt_pk = ed25519_public model_prims [7], wp_now_unix = 0\<rparr>"
  obtain sh s where "wasm_complete model_prims model_wasm_lib sh (Pending ?p) = (Inr (), Open s)" "wo_c2s_seq s = 0"
    using completes [of ?p 0] by (fastforce simp: open_session_def)
  with st(2) show ?thesis by blast
qed

theorem wasm_session_type_witness:
  "\<exists>st0 r' sh rs st s. wasm_start model_prims model_wasm_lib sample_bundle (replicate 32 5) sample_root
      (ed25519_public model_prims [7]) (tee_weight_commit sample_identity) 0 3 = (Inr st0, r') \<and>
    js_run model_prims model_wasm_lib [Complete sh] st0 = (rs, st) \<and> rs = [Done] \<and> st = Open s \<and>
    wasm_ok model_prims st"
proof -
  obtain st0 r' sh s where st: "wasm_start model_prims model_wasm_lib sample_bundle (replicate 32 5) sample_root
      (ed25519_public model_prims [7]) (tee_weight_commit sample_identity) 0 3 = (Inr st0, r')"
    "wasm_complete model_prims model_wasm_lib sh st0 = (Inr (), Open s)"
    using sample_opens by blast
  then have "js_run model_prims model_wasm_lib [Complete sh] st0 = ([Done], Open s)" by simp
  with st(1) wasm_session_type [OF st(1) this] show ?thesis by blast
qed

theorem wasm_frames_unique_witness:
  "\<exists>st0 r' sh rs st stamps. wasm_start model_prims model_wasm_lib sample_bundle (replicate 32 5) sample_root
      (ed25519_public model_prims [7]) (tee_weight_commit sample_identity) 0 3 = (Inr st0, r') \<and>
    js_run model_prims model_wasm_lib [Complete sh, Encrypt [1], Encrypt [2]] st0 = (rs, st) \<and>
    length (concat (map wire_of rs)) = 2 \<and>
    map frame_stamp (concat (map wire_of rs)) = map Some stamps \<and> distinct stamps"
proof -
  obtain st0 r' sh s where st: "wasm_start model_prims model_wasm_lib sample_bundle (replicate 32 5) sample_root
      (ed25519_public model_prims [7]) (tee_weight_commit sample_identity) 0 3 = (Inr st0, r')"
    "wasm_complete model_prims model_wasm_lib sh st0 = (Inr (), Open s)" "wo_c2s_seq s = 0"
    using sample_opens by blast
  obtain b1 s1 where e1: "js_step model_prims model_wasm_lib (Encrypt [1]) (Open s) = (Wire b1, Open s1)" "wo_c2s_seq s1 = 1"
    using encrypt_short [of "[1]" s model_prims model_wasm_lib] st(3) by (auto simp: MAX_PLAINTEXT_PER_RECORD_def)
  obtain b2 s2 where e2: "js_step model_prims model_wasm_lib (Encrypt [2]) (Open s1) = (Wire b2, Open s2)"
    using encrypt_short [of "[2]" s1 model_prims model_wasm_lib] e1(2) by (auto simp: MAX_PLAINTEXT_PER_RECORD_def)
  have run: "js_run model_prims model_wasm_lib [Complete sh, Encrypt [1], Encrypt [2]] st0 =
      ([Done, Wire b1, Wire b2], Open s2)"
    using st(2) e1(1) e2 by (simp del: js_step.simps(2))
  have "length [Complete sh, Encrypt [1], Encrypt [2]] < 2 ^ 32" by simp
  from wasm_frames_unique [OF st(1) run this] obtain stamps where
    "map frame_stamp (concat (map wire_of [Done, Wire b1, Wire b2])) = map Some stamps" "distinct stamps"
    by blast
  then show ?thesis
    by (intro exI [of _ st0] exI [of _ r'] exI [of _ sh] exI [of _ "[Done, Wire b1, Wire b2]"] exI [of _ "Open s2"]
        exI [of _ stamps] conjI st(1) run) simp_all
qed

theorem browser_end_to_end_witness:
  "\<exists>st0 r' hello wire sw sh ms st1 st2 st3 env rj.
    wasm_start model_prims model_wasm_lib sample_bundle (replicate 32 5) sample_root
      (ed25519_public model_prims [7]) (tee_weight_commit sample_identity) 0 3 = (Inr st0, r') \<and>
    client_hello_bytes st0 = Inr hello \<and>
    handle_session model_prims model_session_lib sample_state 1 0 0 (TenantId ''t'')
      (server_world [hello, wire] 5 (fst (TenantPool_random model_prims 9))) = (Inr (), sw) \<and>
    sent sw = sh # ms \<and> wasm_complete model_prims model_wasm_lib sh st0 = (Inr (), st1) \<and>
    wasm_encrypt model_prims (str_bytes ''hi'') st1 = (Inr wire, st2) \<and>
    browser_text model_prims ms st2 = Some (str_bytes ''echo: hi!'', st3, [env]) \<and>
    wasm_verify_receipt model_prims model_wasm_lib env st3 = Inr rj"
proof -
  have wl: "wl_session model_wasm_lib = model_session_lib" by (simp add: model_wasm_lib_def)
  have now: "Core.now_unix 0 = Inr 0" by (simp add: Core.now_unix_def)
  have st: "as_identity sample_state = sample_identity" "as_receipt_key sample_state = [7]"
    "concat (map tc_text (as_engine sample_state (str_bytes ''hi''))) = str_bytes ''echo: hi!''"
    by (simp_all add: sample_state_def str_bytes_def)
  obtain b where b: "build_bundle model_prims (sl_evidence model_session_lib) sample_identity (replicate 32 5) 0 = Some b"
    "bundle_to_bytes model_session_lib b = Inr sample_bundle" by (rule sample_bundle_built)
  have prompt: "utf8_valid (str_bytes ''hi'')" "length (str_bytes ''hi'') \<le> MAX_PLAINTEXT_PER_RECORD"
    "\<forall>ch \<in> set (as_engine sample_state (str_bytes ''hi'')).
      utf8_valid (tc_text ch) \<and> length (tc_text ch) \<le> MAX_PLAINTEXT_PER_RECORD"
    by (simp_all add: sample_state_def str_bytes_def MAX_PLAINTEXT_PER_RECORD_def)
  have age: "unat (0 :: u64) \<le> unat (0 :: u64) + 60" and n: "length (replicate 32 5 :: bytes) = 32" by simp_all
  show ?thesis
    using browser_end_to_end [where W = model_wasm_lib and st = sample_state and r = 3 and rs = 5 and seed = 1 and
        inst = 0 and tenant = "TenantId ''t''" and pool = "fst (TenantPool_random model_prims 9)",
        unfolded wl st(1,2), OF model_prims_law model_session_lib_law model_wasm_lib_law sample_identity_ok
          sample_evidence_small n b age now age prompt]
    unfolding st(3) .
qed

end
