(* ===== verification/Cli.thy ===== *)
theory Cli
  imports Rust_Text
begin

text \<open>
  What the command line tools share: the files they read, the refusal of symbolic
  links and other non-regular files (\<open>read_regular_file\<close>, the same text in
  \<open>ullm-log-auditor/main.rs\<close> and \<open>ullm-watcher/main.rs\<close>), and the outcome of a
  run: its exit code, what it printed on the standard output, and the message on
  the standard error.  An early return is the left value of a sum.
\<close>

section \<open>Files\<close>

datatype file_kind = SymlinkFile | RegularFile | OtherFile

text \<open>
  \<open>symlink_metadata\<close> and \<open>read\<close> are two system calls.  The second follows links
  and may meet another file than the first, so the two answers are independent.
\<close>

record files =
  lstat :: "string \<Rightarrow> string + file_kind"
  read_file :: "string \<Rightarrow> string + bytes"

definition read_regular_file :: "files \<Rightarrow> string \<Rightarrow> string + bytes" where
  "read_regular_file F path =
    rbind (map_err (\<lambda>e. ''symlink_metadata '' @ path @ '': '' @ e) (lstat F path)) (\<lambda>meta.
    rbind (guard_err (meta = SymlinkFile)
      (''refusing to read '' @ path @ '': path is a symlink (P3-9 hardening)'')) (\<lambda>_.
    rbind (guard_err (meta \<noteq> RegularFile) (''refusing to read '' @ path @ '': not a regular file'')) (\<lambda>_.
    map_err (\<lambda>e. ''read '' @ path @ '': '' @ e) (read_file F path))))"

lemma read_regular_file_ok:
  "read_regular_file F path = Inr b \<longleftrightarrow> lstat F path = Inr RegularFile \<and> read_file F path = Inr b"
  by (cases "lstat F path"; cases "read_file F path") (auto simp: read_regular_file_def result_simps)

section \<open>Runs\<close>

record 'r outcome =
  exit_code :: nat
  printed :: "'r option"
  complained :: "string option"

definition bail2 :: "string \<Rightarrow> 'r outcome" where
  "bail2 msg = \<lparr>exit_code = 2, printed = None, complained = Some msg\<rparr>"

definition print_exit :: "'r \<Rightarrow> nat \<Rightarrow> 'r outcome" where
  "print_exit r code = \<lparr>exit_code = code, printed = Some r, complained = None\<rparr>"

lemma outcome_simps [simp]:
  "exit_code (bail2 msg) = 2" "printed (bail2 msg) = None" "complained (bail2 msg) = Some msg"
  "exit_code (print_exit r code) = code" "printed (print_exit r code) = Some r"
  "complained (print_exit r code) = None"
  by (simp_all add: bail2_def print_exit_def)

text \<open>A value read from a file: the file, then its parser, with the message of a parse error.\<close>

definition load :: "files \<Rightarrow> string \<Rightarrow> string \<Rightarrow> (bytes \<Rightarrow> string + 'a) \<Rightarrow> string + 'a" where
  "load F path prefix parse =
    rbind (read_regular_file F path) (\<lambda>b. map_err (\<lambda>e. prefix @ e) (parse b))"

definition holds_file :: "files \<Rightarrow> string \<Rightarrow> (bytes \<Rightarrow> string + 'a) \<Rightarrow> 'a \<Rightarrow> bool" where
  "holds_file F path parse x \<longleftrightarrow>
    lstat F path = Inr RegularFile \<and> (\<exists>b. read_file F path = Inr b \<and> parse b = Inr x)"

lemma load_ok: "load F path prefix parse = Inr x \<longleftrightarrow> holds_file F path parse x"
proof -
  have "map_err (\<lambda>e. prefix @ e) (parse b) = Inr x \<longleftrightarrow> parse b = Inr x" for b by (cases "parse b") auto
  then show ?thesis by (auto simp: load_def holds_file_def rbind_eq_Inr read_regular_file_ok)
qed

end
