(* ===== verification/Log_Auditor.thy ===== *)
theory Log_Auditor
  imports Sth Cli
begin

text \<open>
  \<open>ullm-log-auditor/main.rs\<close>: the auditor's command line.  Verify mode checks an
  entry, an inclusion proof and witness cosignatures against a signed tree head;
  \<open>compare-sths\<close> compares two heads of one logger.  \<open>serde_json\<close>, the decoding of
  Ed25519 keys and the texts of errors are parameters.

  Shown: when each exit code is returned, what an accepted audit establishes, and
  that a fork is reported exactly for two validly signed heads of the named logger
  with the same size and different roots.
\<close>

section \<open>Data\<close>

record WitnessKeysetFile =
  wf_threshold :: nat
  witnesses_hex :: "string list"
  cosignatures :: "WitnessCosignature list"

record auditor_lib =
  al_text :: codecs
  al_hex_error :: "string \<Rightarrow> string"
  key_error :: "bytes \<Rightarrow> string"
  sth_from_json :: "bytes \<Rightarrow> string + SignedTreeHead"
  proof_from_json :: "bytes \<Rightarrow> string + InclusionProof"
  audited_from_json :: "bytes \<Rightarrow> string + LogEntry"
  keyset_from_json :: "bytes \<Rightarrow> string + WitnessKeysetFile"

text \<open>One side of a fork report: root, time, log identifier, signature.\<close>

type_synonym fork_side = "string \<times> u64 \<times> string \<times> string"

datatype auditor_report =
    Valid (v_size: u64) (v_root_hex: string) (leaf_seq: u64)
  | Invalid (reason: string) "(string \<times> string) list"
  | ForkDetected (fork_size: u64) (fork_a: fork_side) (fork_b: fork_side) (fork_logger: string)
  | Consistent (note_text: string) "u64 \<times> u64" "string \<times> string"

section \<open>Verify mode\<close>

record verify_args =
  sth_path :: "string option"
  proof_path :: "string option"
  entry_path :: "string option"
  witness_path :: "string option"
  expected_logger_hex :: "string option"
  va_expected_log_id :: "string option"

definition no_verify_args :: verify_args where
  "no_verify_args = \<lparr>sth_path = None, proof_path = None, entry_path = None, witness_path = None,
    expected_logger_hex = None, va_expected_log_id = None\<rparr>"

text \<open>A flag takes the next argument; the last flag may be left without one.\<close>

definition next_arg :: "string list \<Rightarrow> string option" where
  "next_arg args = (case args of [] \<Rightarrow> None | v # _ \<Rightarrow> Some v)"

fun verify_flags :: "verify_args \<Rightarrow> string list \<Rightarrow> string + verify_args" where
  "verify_flags a [] = Inr a"
| "verify_flags a (flag # args) =
    (let v = next_arg args in
     if flag = ''--sth'' then verify_flags (a\<lparr>sth_path := v\<rparr>) (tl args)
     else if flag = ''--proof'' then verify_flags (a\<lparr>proof_path := v\<rparr>) (tl args)
     else if flag = ''--entry'' then verify_flags (a\<lparr>entry_path := v\<rparr>) (tl args)
     else if flag = ''--witness-keyset'' then verify_flags (a\<lparr>witness_path := v\<rparr>) (tl args)
     else if flag = ''--expected-logger'' then verify_flags (a\<lparr>expected_logger_hex := v\<rparr>) (tl args)
     else if flag = ''--expected-log-id'' then verify_flags (a\<lparr>va_expected_log_id := v\<rparr>) (tl args)
     else Inl (''unknown arg: '' @ flag))"

fun witness_keys :: "'r prims \<Rightarrow> auditor_lib \<Rightarrow> string list \<Rightarrow> string + bytes list" where
  "witness_keys P A [] = Inr []"
| "witness_keys P A (h # hs) =
    (case hex_decode (al_text A) h of
       None \<Rightarrow> Inl (''witness hex: '' @ al_hex_error A h)
     | Some b \<Rightarrow>
       if length b \<noteq> 32 then Inl ''witness key must be 32 bytes''
       else if \<not> ed25519_valid P b then Inl (''witness key parse: '' @ key_error A b)
       else rbind (witness_keys P A hs) (\<lambda>ks. Inr (b # ks)))"

definition load_witnesses ::
  "'r prims \<Rightarrow> auditor_lib \<Rightarrow> files \<Rightarrow> string option \<Rightarrow> string + (WitnessKeyset \<times> WitnessCosignature list) option" where
  "load_witnesses P A F path =
    (case path of
       None \<Rightarrow> Inr None
     | Some p \<Rightarrow>
       rbind (load F p ''parse witnesses: '' (keyset_from_json A)) (\<lambda>file.
       rbind (witness_keys P A (witnesses_hex file)) (\<lambda>keys.
       Inr (Some (\<lparr>witnesses = keys, threshold = wf_threshold file\<rparr>, cosignatures file)))))"

text \<open>What verify mode reads, up to the comparison with the expected logger.\<close>

definition load_verify ::
  "auditor_lib \<Rightarrow> files \<Rightarrow> string list \<Rightarrow> string + verify_args \<times> SignedTreeHead \<times> InclusionProof \<times> LogEntry" where
  "load_verify A F args =
    rbind (verify_flags no_verify_args args) (\<lambda>a.
    rbind (ok_or ''--sth required'' (sth_path a)) (\<lambda>sth_p.
    rbind (ok_or ''--proof required'' (proof_path a)) (\<lambda>proof_p.
    rbind (load F sth_p ''parse STH: '' (sth_from_json A)) (\<lambda>sth.
    rbind (load F proof_p ''parse proof: '' (proof_from_json A)) (\<lambda>pf.
    rbind (ok_or ''--entry required (path to the LogEntry JSON being audited)'' (entry_path a)) (\<lambda>entry_p.
    rbind (load F entry_p ''parse entry: '' (audited_from_json A)) (\<lambda>expected_entry.
    Inr (a, sth, pf, expected_entry))))))))"

definition logger_bytes_of :: "auditor_lib \<Rightarrow> string option \<Rightarrow> string + bytes option" where
  "logger_bytes_of A inp =
    (case inp of
       None \<Rightarrow> Inr None
     | Some h \<Rightarrow>
       (case hex_decode (al_text A) h of
          None \<Rightarrow> Inl (''expected-logger hex: '' @ al_hex_error A h)
        | Some b \<Rightarrow> Inr (Some b)))"

definition verify_mode ::
  "'r prims \<Rightarrow> auditor_lib \<Rightarrow> files \<Rightarrow> string list \<Rightarrow> auditor_report outcome" where
  "verify_mode P A F args =
    (let J = al_text A in
     case rbind (load_verify A F args) (\<lambda>(a, sth, pf, e).
            rbind (logger_bytes_of A (expected_logger_hex a)) (\<lambda>want. Inr (a, sth, pf, e, want))) of
       Inl msg \<Rightarrow> bail2 msg
     | Inr (a, sth, pf, expected_entry, want) \<Rightarrow>
       if want \<noteq> None \<and> want \<noteq> Some (logger_pk sth) then
         \<lparr>exit_code = 1, printed = None, complained = Some (''logger mismatch: sth has ''
            @ hex_encode J (logger_pk sth) @ '', expected '' @ the (expected_logger_hex a))\<rparr>
       else
         (case load_witnesses P A F (witness_path a) of
            Inl msg \<Rightarrow> bail2 msg
          | Inr cosigs \<Rightarrow>
            (case verify_inclusion_against_head P J sth pf expected_entry cosigs (va_expected_log_id a) of
               Inr _ \<Rightarrow> print_exit (Valid (th_size (head sth)) (root_hex (head sth)) (ip_seq pf)) 0
             | Inl err \<Rightarrow> print_exit (Invalid (AuditError_display err) []) 1)))"

section \<open>compare-sths\<close>

record compare_args =
  a_path :: "string option"
  b_path :: "string option"
  logger_hex :: "string option"

definition no_compare_args :: compare_args where
  "no_compare_args = \<lparr>a_path = None, b_path = None, logger_hex = None\<rparr>"

fun compare_flags :: "compare_args \<Rightarrow> string list \<Rightarrow> string + compare_args" where
  "compare_flags a [] = Inr a"
| "compare_flags a (flag # args) =
    (let v = next_arg args in
     if flag = ''--sth-a'' then compare_flags (a\<lparr>a_path := v\<rparr>) (tl args)
     else if flag = ''--sth-b'' then compare_flags (a\<lparr>b_path := v\<rparr>) (tl args)
     else if flag = ''--logger-pk'' then compare_flags (a\<lparr>logger_hex := v\<rparr>) (tl args)
     else Inl (''unknown arg: '' @ flag))"

definition load_compare ::
  "auditor_lib \<Rightarrow> files \<Rightarrow> string list \<Rightarrow> string + bytes \<times> SignedTreeHead \<times> SignedTreeHead" where
  "load_compare A F args =
    rbind (compare_flags no_compare_args args) (\<lambda>a.
    rbind (ok_or ''compare-sths: --sth-a required'' (a_path a)) (\<lambda>pa.
    rbind (ok_or ''compare-sths: --sth-b required'' (b_path a)) (\<lambda>pb.
    rbind (ok_or ''compare-sths: --logger-pk required (32-byte hex)'' (logger_hex a)) (\<lambda>lh.
    rbind (case hex_decode (al_text A) lh of
             None \<Rightarrow> Inl (''compare-sths: --logger-pk hex: '' @ al_hex_error A lh)
           | Some b \<Rightarrow>
             if length b \<noteq> 32 then Inl ''compare-sths: --logger-pk must decode to exactly 32 bytes'' else Inr b)
      (\<lambda>logger_bytes.
    rbind (read_regular_file F pa) (\<lambda>a_bytes.
    rbind (read_regular_file F pb) (\<lambda>b_bytes.
    rbind (map_err (\<lambda>e. ''compare-sths: parse sth-a: '' @ e) (sth_from_json A a_bytes)) (\<lambda>sth_a.
    rbind (map_err (\<lambda>e. ''compare-sths: parse sth-b: '' @ e) (sth_from_json A b_bytes)) (\<lambda>sth_b.
    Inr (logger_bytes, sth_a, sth_b))))))))))"

definition fork_side_of :: "codecs \<Rightarrow> SignedTreeHead \<Rightarrow> fork_side" where
  "fork_side_of J sth = (root_hex (head sth), issued_at_unix (head sth), log_id (head sth),
    hex_encode J (sth_signature sth))"

definition compare_sths ::
  "'r prims \<Rightarrow> auditor_lib \<Rightarrow> files \<Rightarrow> string list \<Rightarrow> auditor_report outcome" where
  "compare_sths P A F args =
    (let J = al_text A in
     case load_compare A F args of
       Inl msg \<Rightarrow> bail2 msg
     | Inr (logger_bytes, sth_a, sth_b) \<Rightarrow>
       if logger_pk sth_a \<noteq> logger_bytes then
         print_exit (Invalid ''sth-a logger_pk does not match --logger-pk''
           [(''sth_a_logger_pk_hex'', hex_encode J (logger_pk sth_a))]) 1
       else if logger_pk sth_b \<noteq> logger_bytes then
         print_exit (Invalid ''sth-b logger_pk does not match --logger-pk''
           [(''sth_b_logger_pk_hex'', hex_encode J (logger_pk sth_b))]) 1
       else if \<not> SignedTreeHead_verify P J sth_a then
         print_exit (Invalid ''sth-a signature did not verify'' []) 1
       else if \<not> SignedTreeHead_verify P J sth_b then
         print_exit (Invalid ''sth-b signature did not verify'' []) 1
       else if th_size (head sth_a) = th_size (head sth_b) \<and> root_hex (head sth_a) \<noteq> root_hex (head sth_b) then
         print_exit (ForkDetected (th_size (head sth_a)) (fork_side_of J sth_a) (fork_side_of J sth_b)
           (hex_encode J logger_bytes)) 1
       else
         let note = (if th_size (head sth_a) = th_size (head sth_b) then ''same size, same root''
                     else ''different sizes '' @ em_dash @ '' no fork evidence; consistency proof recommended'')
         in print_exit (Consistent note (th_size (head sth_a), th_size (head sth_b))
              (root_hex (head sth_a), root_hex (head sth_b))) 0)"

definition auditor_main ::
  "'r prims \<Rightarrow> auditor_lib \<Rightarrow> files \<Rightarrow> string list \<Rightarrow> auditor_report outcome" where
  "auditor_main P A F argv =
    (case argv of
       [] \<Rightarrow> verify_mode P A F []
     | first # args \<Rightarrow> if first = ''compare-sths'' then compare_sths P A F args else verify_mode P A F argv)"

section \<open>Lemmas\<close>

text \<open>Flags may come in any order; the last value of a repeated flag counts.\<close>

lemma compare_flags_all:
  "compare_flags no_compare_args [''--sth-a'', pa, ''--sth-b'', pb, ''--logger-pk'', h] =
    Inr \<lparr>a_path = Some pa, b_path = Some pb, logger_hex = Some h\<rparr>"
  by (simp add: no_compare_args_def next_arg_def Let_def)

lemma load_compare_ok:
  "load_compare A F args = Inr (lb, sa, sb) \<longleftrightarrow>
    (\<exists>pa pb h. compare_flags no_compare_args args = Inr \<lparr>a_path = Some pa, b_path = Some pb, logger_hex = Some h\<rparr> \<and>
      decode32 (al_text A) h = Some lb \<and>
      holds_file F pa (sth_from_json A) sa \<and> holds_file F pb (sth_from_json A) sb)"
proof -
  have dec: "(case hex_decode (al_text A) h of None \<Rightarrow> Inl m | Some b \<Rightarrow> if length b \<noteq> 32 then Inl m' else Inr b) =
      Inr c \<longleftrightarrow> decode32 (al_text A) h = Some c" for h m m' c
    by (auto simp: decode32_def split: option.splits)
  show ?thesis
  proof (cases "compare_flags no_compare_args args")
    case (Inr a)
    obtain x y z where "a = \<lparr>a_path = x, b_path = y, logger_hex = z\<rparr>" by (cases a)
    then show ?thesis
      by (cases x; cases y; cases z)
        (auto simp: load_compare_def Inr rbind_eq_Inr map_err_eq_Inr dec read_regular_file_ok holds_file_def)
  qed (simp add: load_compare_def)
qed

text \<open>The outcome of \<open>compare-sths\<close> once its inputs are read.\<close>

definition head_ok :: "'r prims \<Rightarrow> codecs \<Rightarrow> bytes \<Rightarrow> SignedTreeHead \<Rightarrow> bool" where
  "head_ok P J pk sth \<longleftrightarrow> logger_pk sth = pk \<and> SignedTreeHead_verify P J sth"

definition conflict :: "SignedTreeHead \<Rightarrow> SignedTreeHead \<Rightarrow> bool" where
  "conflict a b \<longleftrightarrow> th_size (head a) = th_size (head b) \<and> root_hex (head a) \<noteq> root_hex (head b)"

lemma compare_sths_cases:
  assumes "load_compare A F args = Inr (pk, sa, sb)"
  shows "exit_code (compare_sths P A F args) \<le> 1"
    "exit_code (compare_sths P A F args) = 0 \<longleftrightarrow>
      head_ok P (al_text A) pk sa \<and> head_ok P (al_text A) pk sb \<and> \<not> conflict sa sb"
    "(\<exists>r. printed (compare_sths P A F args) = Some r \<and> is_ForkDetected r) \<longleftrightarrow>
      head_ok P (al_text A) pk sa \<and> head_ok P (al_text A) pk sb \<and> conflict sa sb"
  using assms by (auto simp: compare_sths_def head_ok_def conflict_def Let_def)

definition compared ::
  "auditor_lib \<Rightarrow> files \<Rightarrow> string list \<Rightarrow> bytes \<Rightarrow> SignedTreeHead \<Rightarrow> SignedTreeHead \<Rightarrow> bool" where
  "compared A F args pk sa sb \<longleftrightarrow>
    (\<exists>pa pb h. compare_flags no_compare_args args = Inr \<lparr>a_path = Some pa, b_path = Some pb, logger_hex = Some h\<rparr> \<and>
      decode32 (al_text A) h = Some pk \<and>
      holds_file F pa (sth_from_json A) sa \<and> holds_file F pb (sth_from_json A) sb)"

lemma compare_sths_bad: "\<nexists>r. load_compare A F args = Inr r \<Longrightarrow> \<exists>m. compare_sths P A F args = bail2 m"
  by (cases "load_compare A F args") (auto simp: compare_sths_def Let_def)

text \<open>The witnesses that are read, and the outcome of verify mode.\<close>

lemma witness_keys_ok:
  "witness_keys P A hs = Inr ks \<longleftrightarrow>
    map (decode32 (al_text A)) hs = map Some ks \<and> (\<forall>k \<in> set ks. ed25519_valid P k)"
  by (induction hs arbitrary: ks) (auto simp: decode32_def result_simps split: option.splits if_splits)

lemma verify_mode_0:
  "exit_code (verify_mode P A F args) = 0 \<longleftrightarrow>
    (\<exists>a sth pf e want cosigs. load_verify A F args = Inr (a, sth, pf, e) \<and>
      logger_bytes_of A (expected_logger_hex a) = Inr want \<and> (want = None \<or> want = Some (logger_pk sth)) \<and>
      load_witnesses P A F (witness_path a) = Inr cosigs \<and>
      verify_inclusion_against_head P (al_text A) sth pf e cosigs (va_expected_log_id a) = Inr ())"
  by (cases "load_verify A F args")
    (auto simp: verify_mode_def Let_def rbind_eq_Inr case_prod_beta split: sum.splits option.splits if_splits)

lemma load_verify_ok:
  "load_verify A F args = Inr (a, sth, pf, e) \<longleftrightarrow>
    verify_flags no_verify_args args = Inr a \<and>
    (\<exists>p. sth_path a = Some p \<and> holds_file F p (sth_from_json A) sth) \<and>
    (\<exists>p. proof_path a = Some p \<and> holds_file F p (proof_from_json A) pf) \<and>
    (\<exists>p. entry_path a = Some p \<and> holds_file F p (audited_from_json A) e)"
  by (auto simp: load_verify_def rbind_eq_Inr ok_or_eq_Inr load_ok)

lemma load_witnesses_Some:
  "load_witnesses P A F (Some p) = Inr cosigs \<longleftrightarrow>
    (\<exists>file ks. holds_file F p (keyset_from_json A) file \<and> witness_keys P A (witnesses_hex file) = Inr ks \<and>
      cosigs = Some (\<lparr>witnesses = ks, threshold = wf_threshold file\<rparr>, cosignatures file))"
  by (auto simp: load_witnesses_def rbind_eq_Inr load_ok)

lemma auditor_main_verify:
  "verify_flags no_verify_args argv = Inr a \<Longrightarrow> auditor_main P A F argv = verify_mode P A F argv"
  by (auto simp: auditor_main_def Let_def split: list.splits)

section \<open>Properties\<close>

text \<open>
  C36. Fork detection is exact.  Whatever the arguments and files, the auditor
  reports a fork exactly when the arguments name a 32-byte logger key and two
  regular files with heads that carry that key, verify under it, have the same size
  and different roots; it exits with 0 exactly when both heads carry the key and
  verify but do not conflict, with 2 exactly when the inputs cannot be read, and
  with 1 otherwise.
\<close>

theorem fork_detection_exact:
  "let run = auditor_main P A F (''compare-sths'' # args) in
    ((\<exists>r. printed run = Some r \<and> is_ForkDetected r) \<longleftrightarrow>
      (\<exists>pk sa sb. compared A F args pk sa sb \<and> head_ok P (al_text A) pk sa \<and> head_ok P (al_text A) pk sb \<and>
        conflict sa sb)) \<and>
    (exit_code run = 0 \<longleftrightarrow>
      (\<exists>pk sa sb. compared A F args pk sa sb \<and> head_ok P (al_text A) pk sa \<and> head_ok P (al_text A) pk sb \<and>
        \<not> conflict sa sb)) \<and>
    (exit_code run = 2 \<longleftrightarrow> (\<nexists>pk sa sb. compared A F args pk sa sb)) \<and> exit_code run \<le> 2"
proof (cases "\<exists>r. load_compare A F args = Inr r")
  case True
  then obtain pk sa sb where l: "load_compare A F args = Inr (pk, sa, sb)" by auto
  then have "compared A F args p x y \<longleftrightarrow> p = pk \<and> x = sa \<and> y = sb" for p x y
    unfolding compared_def load_compare_ok [symmetric] by auto
  then show ?thesis
    using compare_sths_cases [OF l, where P = P] by (auto simp: auditor_main_def Let_def)
next
  case False
  then obtain m where "compare_sths P A F args = bail2 m" using compare_sths_bad by blast
  moreover have "\<not> compared A F args p x y" for p x y
    using False unfolding compared_def load_compare_ok [symmetric] by auto
  ultimately show ?thesis by (simp add: auditor_main_def)
qed

text \<open>
  What exit code 0 of verify mode establishes.  Whatever else the arguments and
  files hold: if the auditor exits with 0 and the root in the head file is the
  Merkle root of a log, then the entry in the entry file is in that log, the head
  is signed by the logger key it carries, that key and the log identifier are the
  expected ones where the arguments give them, and where a witness file is given
  at least its threshold of distinct keys among its decoded keys have validly
  cosigned that head (unless SHA-256 collides on the strings hashed).
\<close>

theorem auditor_exit_sound:
  assumes "sha2_law P" "hex_law (al_text A)" "json_law (al_text A)"
    and "verify_flags no_verify_args argv = Inr a" "exit_code (auditor_main P A F argv) = 0"
    and "sth_path a = Some sp" "holds_file F sp (sth_from_json A) sth"
    and "proof_path a = Some pp" "holds_file F pp (proof_from_json A) pf"
    and "entry_path a = Some ep" "holds_file F ep (audited_from_json A) e"
    and "root_hex (head sth) = hex_encode (al_text A) (merkle_root P (al_text A) es)"
    and "inj_on (sha256 P) (set (root_inputs P (al_text A) es) \<union> set (proof_inputs P (al_text A) pf e))"
  shows "e \<in> set es \<and> SignedTreeHead_verify P (al_text A) sth \<and>
    (\<forall>h. expected_logger_hex a = Some h \<longrightarrow> hex_decode (al_text A) h = Some (logger_pk sth)) \<and>
    (\<forall>i. va_expected_log_id a = Some i \<longrightarrow> log_id (head sth) = i) \<and>
    (\<forall>w. witness_path a = Some w \<longrightarrow> (\<exists>file ks. holds_file F w (keyset_from_json A) file \<and>
      map (decode32 (al_text A)) (witnesses_hex file) = map Some ks \<and>
      wf_threshold file \<le> card {pk \<in> set ks.
        \<exists>c \<in> set (cosignatures file). witness_pk c = pk \<and> WitnessCosignature_verify P c sth}))"
proof -
  let ?J = "al_text A"
  have "exit_code (verify_mode P A F argv) = 0" using assms(5) auditor_main_verify [OF assms(4), of P A F] by simp
  then obtain want cosigs where v: "logger_bytes_of A (expected_logger_hex a) = Inr want"
    "want = None \<or> want = Some (logger_pk sth)" "load_witnesses P A F (witness_path a) = Inr cosigs"
    "verify_inclusion_against_head P ?J sth pf e cosigs (va_expected_log_id a) = Inr ()"
    using assms(4,6-11) unfolding verify_mode_0 load_verify_ok holds_file_def by auto
  note ok = v(4) [unfolded audit_ok_iff]
  have "InclusionProof_verify P ?J pf (merkle_root P ?J es) e" using ok assms(1,2,12) by auto
  then have "e \<in> set es" using verify_sound [OF assms(1,3,13)] by blast
  moreover have "hex_decode ?J h = Some (logger_pk sth)" if "expected_logger_hex a = Some h" for h
    using v(1,2) that by (auto simp: logger_bytes_of_def split: option.splits)
  moreover have "\<exists>file ks. holds_file F w (keyset_from_json A) file \<and>
      map (decode32 ?J) (witnesses_hex file) = map Some ks \<and>
      wf_threshold file \<le> card {pk \<in> set ks.
        \<exists>c \<in> set (cosignatures file). witness_pk c = pk \<and> WitnessCosignature_verify P c sth}"
    if "witness_path a = Some w" for w
    using v(3) ok that unfolding that load_witnesses_Some witness_keys_ok
    by (auto simp: satisfies_def count_valid_eq)
  ultimately show ?thesis using ok by blast
qed

text \<open>A sample run over four files, with a pinned logger and one witness.\<close>

definition sample_keyset_file :: WitnessKeysetFile where
  "sample_keyset_file = \<lparr>wf_threshold = 1, witnesses_hex = [hex_of (ed25519_public model_prims [2])],
    cosignatures = [WitnessCosignature_cosign model_prims sample_sth [2]]\<rparr>"

definition sample_auditor :: auditor_lib where
  "sample_auditor = \<lparr>al_text = model_codecs, al_hex_error = (\<lambda>_. []), key_error = (\<lambda>_. []),
    sth_from_json = (\<lambda>b. if b = [1] then Inr sample_sth else Inl []),
    proof_from_json = (\<lambda>b. if b = [2] then Inr (sample_proof sample_log 1) else Inl []),
    audited_from_json = (\<lambda>b. if b = [3] then Inr (sample_entry 1) else Inl []),
    keyset_from_json = (\<lambda>b. if b = [4] then Inr sample_keyset_file else Inl [])\<rparr>"

definition sample_files :: files where
  "sample_files = \<lparr>lstat = (\<lambda>_. Inr RegularFile), read_file = (\<lambda>p. Inr [of_nat (length p)])\<rparr>"

definition sample_argv :: "string list" where
  "sample_argv = [''--sth'', ''a'', ''--proof'', ''aa'', ''--entry'', ''aaa'', ''--witness-keyset'', ''aaaa'',
    ''--expected-log-id'', ''log'']"

lemma sample_verify_args:
  "verify_flags no_verify_args sample_argv = Inr \<lparr>sth_path = Some ''a'', proof_path = Some ''aa'',
    entry_path = Some ''aaa'', witness_path = Some ''aaaa'', expected_logger_hex = None,
    va_expected_log_id = Some ''log''\<rparr>"
  by (simp add: sample_argv_def no_verify_args_def next_arg_def Let_def)

lemma sample_holds:
  "holds_file sample_files ''a'' (sth_from_json sample_auditor) sample_sth"
  "holds_file sample_files ''aa'' (proof_from_json sample_auditor) (sample_proof sample_log 1)"
  "holds_file sample_files ''aaa'' (audited_from_json sample_auditor) (sample_entry 1)"
  "holds_file sample_files ''aaaa'' (keyset_from_json sample_auditor) sample_keyset_file"
  by (simp_all add: holds_file_def sample_files_def sample_auditor_def)

lemma sample_auditor_exit: "exit_code (auditor_main model_prims sample_auditor sample_files sample_argv) = 0"
proof -
  have tx: "al_text sample_auditor = model_codecs" by (simp add: sample_auditor_def)
  have len: "length (ed25519_public model_prims [2]) = 32" "ed25519_valid model_prims (ed25519_public model_prims [2])"
    using model_ed25519_law by (simp_all add: ed25519_law_def)
  then have "witness_keys model_prims sample_auditor (witnesses_hex sample_keyset_file) = Inr (witnesses sample_keyset)"
    unfolding witness_keys_ok tx
    by (simp add: sample_keyset_file_def sample_keyset_def decode32_def of_hex_hex_of model_codecs_def)
  then have "load_witnesses model_prims sample_auditor sample_files (Some ''aaaa'') =
      Inr (Some (sample_keyset, [WitnessCosignature_cosign model_prims sample_sth [2]]))"
    unfolding load_witnesses_Some
    by (intro exI [of _ sample_keyset_file] exI [of _ "witnesses sample_keyset"] conjI sample_holds)
      (simp_all add: sample_keyset_file_def sample_keyset_def)
  moreover have "load_verify sample_auditor sample_files sample_argv = Inr (\<lparr>sth_path = Some ''a'',
      proof_path = Some ''aa'', entry_path = Some ''aaa'', witness_path = Some ''aaaa'', expected_logger_hex = None,
      va_expected_log_id = Some ''log''\<rparr>, sample_sth, sample_proof sample_log 1, sample_entry 1)"
    unfolding load_verify_ok sample_verify_args using sample_holds by simp
  ultimately have "exit_code (verify_mode model_prims sample_auditor sample_files sample_argv) = 0"
    using sample_audit unfolding verify_mode_0 by (simp add: tx logger_bytes_of_def)
  then show ?thesis by (simp add: auditor_main_verify [OF sample_verify_args])
qed

theorem auditor_exit_sound_witness:
  "exit_code (auditor_main model_prims sample_auditor sample_files sample_argv) = 0 \<and>
    sample_entry 1 \<in> set sample_log \<and> log_id (head sample_sth) = ''log''"
proof -
  have tx: "al_text sample_auditor = model_codecs" by (simp add: sample_auditor_def)
  have laws: "hex_law (al_text sample_auditor)" "json_law (al_text sample_auditor)"
    using model_hex_law model_json_law by (simp_all add: tx)
  have root: "root_hex (head sample_sth) =
      hex_encode (al_text sample_auditor) (merkle_root model_prims (al_text sample_auditor) sample_log)"
    by (simp add: sample_sth_def SignedTreeHead_sign_def Let_def tx)
  show ?thesis
    using auditor_exit_sound [OF model_sha2_law laws sample_verify_args sample_auditor_exit _ sample_holds(1) _
        sample_holds(2) _ sample_holds(3) root] sample_inj sample_auditor_exit
    by (simp add: tx)
qed

end
