(* ===== verification/Tls_Server.thy ===== *)
theory Tls_Server
  imports Tls
begin

text \<open>
  The server side of \<open>ullm-tls/lib.rs\<close>: the self-signed certificate with its
  validity and fingerprint, and the two server configurations.  \<open>rcgen\<close> makes keys
  and certificates and \<open>rustls\<close> checks that a key fits its certificate; both are
  parameters.  A time is a number of seconds; the outer \<open>None\<close> is the panic of
  adding a duration that leaves the range of \<open>OffsetDateTime\<close>.

  Shown: a client that pins the fingerprint and the names of a generated
  certificate accepts it under each of these names, and the strict configuration
  never agrees with a peer on a classical group.
\<close>

datatype TlsError = CertGen string | Pem string | Rustls string

record SelfSignedCert =
  cert_der :: bytes
  key_der_pkcs8 :: bytes
  cert_pem :: string
  key_pem :: string
  cert_fingerprint :: bytes
  cert_sans :: "string list"

record CertificateParams =
  subject_alt_names :: "string list"
  common_name :: string
  not_before :: int
  not_after :: int

record tls_lib =
  check_sans :: "string list \<Rightarrow> string + unit"
  gen_key :: "string + bytes \<times> string"
  self_signed :: "CertificateParams \<Rightarrow> bytes \<Rightarrow> string + bytes \<times> string"
  single_cert :: "bytes \<Rightarrow> bytes \<Rightarrow> string + unit"
  default_groups :: "kx_group list"

definition DEFAULT_CERT_VALIDITY_HOURS :: u64 where "DEFAULT_CERT_VALIDITY_HOURS = 24"

definition date_in_range :: "int \<Rightarrow> bool" where
  "date_in_range t \<longleftrightarrow> - 377705116800 \<le> t \<and> t \<le> 253402300799"

definition generate_with_validity ::
  "'r prims \<Rightarrow> tls_lib \<Rightarrow> string list \<Rightarrow> u64 \<Rightarrow> int \<Rightarrow> (TlsError + SelfSignedCert) option" where
  "generate_with_validity P T sans validity_secs now =
    (case check_sans T sans of
       Inl e \<Rightarrow> Some (Inl (CertGen e))
     | Inr _ \<Rightarrow>
       let until = now + sint validity_secs in
       if \<not> date_in_range until then None
       else Some (
         rbind (map_err CertGen (gen_key T)) (\<lambda>(key_der, key_pem).
         rbind (map_err CertGen (self_signed T
             \<lparr>subject_alt_names = sans, common_name = ''ullm-dev'', not_before = now, not_after = until\<rparr> key_der))
           (\<lambda>(der, pem).
         Inr \<lparr>cert_der = der, key_der_pkcs8 = key_der, cert_pem = pem, key_pem = key_pem,
              cert_fingerprint = sha256 P der, cert_sans = sans\<rparr>))))"

definition SelfSignedCert_generate ::
  "'r prims \<Rightarrow> tls_lib \<Rightarrow> string list \<Rightarrow> int \<Rightarrow> (TlsError + SelfSignedCert) option" where
  "SelfSignedCert_generate P T sans now =
    generate_with_validity P T sans (DEFAULT_CERT_VALIDITY_HOURS * 3600) now"

record ServerConfig =
  sc_groups :: "kx_group list"
  sc_versions :: "tls_version list"
  sc_client_auth :: bool
  sc_cert_der :: bytes
  sc_key_der :: bytes

definition server_config :: "tls_lib \<Rightarrow> SelfSignedCert \<Rightarrow> TlsError + ServerConfig" where
  "server_config T cert =
    rbind (map_err Rustls (single_cert T (cert_der cert) (key_der_pkcs8 cert))) (\<lambda>_.
    Inr \<lparr>sc_groups = default_groups T, sc_versions = [TLS13], sc_client_auth = False,
         sc_cert_der = cert_der cert, sc_key_der = key_der_pkcs8 cert\<rparr>)"

definition server_config_strict_pq :: "tls_lib \<Rightarrow> SelfSignedCert \<Rightarrow> TlsError + ServerConfig" where
  "server_config_strict_pq T cert =
    rbind (map_err Rustls (single_cert T (cert_der cert) (key_der_pkcs8 cert))) (\<lambda>_.
    Inr \<lparr>sc_groups = strict_pq_groups, sc_versions = [TLS13], sc_client_auth = False,
         sc_cert_der = cert_der cert, sc_key_der = key_der_pkcs8 cert\<rparr>)"

text \<open>The named group of a handshake: the first of the server's that the client offers too.\<close>

definition negotiated :: "ServerConfig \<Rightarrow> kx_group list \<Rightarrow> kx_group option" where
  "negotiated cfg offered = find (\<lambda>g. g \<in> set offered) (sc_groups cfg)"

section \<open>Lemmas\<close>

lemma generated_fields:
  assumes "generate_with_validity P T sans secs now = Some (Inr cert)"
  shows "cert_fingerprint cert = sha256 P (cert_der cert)" "cert_sans cert = sans"
    "self_signed T \<lparr>subject_alt_names = sans, common_name = ''ullm-dev'', not_before = now,
      not_after = now + sint secs\<rparr> (key_der_pkcs8 cert) = Inr (cert_der cert, cert_pem cert)"
  using assms
  by (auto simp: generate_with_validity_def Let_def rbind_eq_Inr map_err_eq_Inr split: sum.splits if_splits)

lemma generated_cert_pins:
  assumes "sha2_law P" "generate_with_validity P T sans secs now = Some (Inr cert)" "d \<in> set sans"
  shows "verify_server_cert P dbg \<lparr>fv_expected = cert_fingerprint cert, fv_expected_sans = cert_sans cert\<rparr>
    (cert_der cert) (DnsName d) = Inr ()"
  using assms(1,3) generated_fields(1,2) [OF assms(2)]
  by (auto simp: verify_server_cert_def sni_allowed_iff constant_eq_iff sha2_law_def eq_ignore_ascii_case_def)

lemma validity_24h: "sint (DEFAULT_CERT_VALIDITY_HOURS * 3600) = 86400"
  by (simp add: DEFAULT_CERT_VALIDITY_HOURS_def)

lemma strict_never_classical:
  assumes "server_config_strict_pq T cert = Inr cfg" "negotiated cfg offered = Some g"
  shows "g = KX_X25519MLKEM768"
  using assms
  by (auto simp: server_config_strict_pq_def rbind_eq_Inr negotiated_def strict_pq_groups_def split: if_splits)

end
