(* ===== verification/Watcher.thy ===== *)
theory Watcher
  imports End_To_End Sth
begin

text \<open>
  \<open>ullm-watcher/lib.rs\<close>: the fraud-proof watcher.  It checks the signature of a
  receipt, recomputes the forward pass from the model seed and the prompt, compares
  every activation commitment with the claim, and runs the further checks whose
  inputs it was given.  The outer \<open>None\<close> of \<open>audit_with\<close> is a panic.

  Shown: what each verdict means, and that the receipt a service issues for a
  prompt is never judged fraudulent for that prompt.
\<close>

section \<open>lib.rs\<close>

datatype WatchError =
    BadSignature
  | WeightCommitMismatch
  | ActivationLenMismatch (al_got: nat) (al_expected: nat)
  | BadHex string
  | BadCommitLength
  | InputMismatch

datatype Verdict = Honest | Partial | Fraudulent (divergent_layer: nat)

record FraudReport =
  activations_consistent :: bool
  receipt_signature_verified :: bool
  attestation_verified :: bool
  log_inclusion_verified :: bool
  sth_signature_verified :: bool
  sth_freshness_verified :: bool
  weight_commit_pinned :: bool
  session_pinned :: bool
  zk_proofs_verified :: bool
  session_hex :: string
  fr_tenant :: string
  fr_epoch :: u32
  verdict :: Verdict
  claimed_commits_hex :: "string list"
  recomputed_commits_hex :: "string list"
  fr_weight_commit_hex :: string
  fr_notes :: "(string \<times> string) list"

definition is_fully_verified :: "FraudReport \<Rightarrow> bool" where
  "is_fully_verified report \<longleftrightarrow>
    activations_consistent report \<and> receipt_signature_verified report \<and> attestation_verified report
    \<and> log_inclusion_verified report \<and> sth_signature_verified report \<and> sth_freshness_verified report
    \<and> weight_commit_pinned report \<and> session_pinned report \<and> zk_proofs_verified report"

record AttestationCheck =
  ac_evidence :: Evidence
  ac_policy :: MeasurementPolicy
  ac_expected_report_data :: bytes
  ac_now_unix :: u64
  ac_max_age_sec :: u64
  require_signature_check :: bool

record LogInclusionCheck =
  li_sth :: SignedTreeHead
  li_proof :: InclusionProof
  li_expected_entry :: LogEntry
  li_expected_log_id :: "string option"
  expected_logger_pk :: "bytes option"

record SthFreshnessCheck =
  sth_issued_at_unix :: u64
  sf_now_unix :: u64
  sf_max_age_sec :: u64

record AuditInputs =
  ai_attestation :: "AttestationCheck option"
  log_inclusion :: "LogInclusionCheck option"
  sth_freshness :: "SthFreshnessCheck option"
  ai_expected_weight_commit :: "bytes option"
  expected_session :: "bytes option"
  ai_zk_layer_proofs :: "bytes list option"

definition AuditInputs_default :: AuditInputs where
  "AuditInputs_default = \<lparr>ai_attestation = None, log_inclusion = None, sth_freshness = None,
    ai_expected_weight_commit = None, expected_session = None, ai_zk_layer_proofs = None\<rparr>"

fun watch_decode_commits :: "codecs \<Rightarrow> (string \<Rightarrow> string) \<Rightarrow> string list \<Rightarrow> WatchError + bytes list" where
  "watch_decode_commits J err [] = Inr []"
| "watch_decode_commits J err (h # hs) =
    (case hex_decode J h of
       None \<Rightarrow> Inl (BadHex (err h))
     | Some b \<Rightarrow>
       if length b \<noteq> 32 then Inl BadCommitLength
       else rbind (watch_decode_commits J err hs) (\<lambda>bs. Inr (b # bs)))"

definition watch_encode_prompt_to_fp :: "bytes \<Rightarrow> ('f::comm_ring_1) list" where
  "watch_encode_prompt_to_fp input_hash =
    map (\<lambda>i. let off = i * 4 in of_nat (unat (u32_from_le
      [input_hash ! off, input_hash ! (off + 1), input_hash ! (off + 2), input_hash ! (off + 3)]))) [0..<VEC_DIM]"

definition divergent :: "bytes list \<Rightarrow> bytes list \<Rightarrow> nat option" where
  "divergent claims recomputed = find (\<lambda>i. claims ! i \<noteq> recomputed ! i) [0..<length claims]"

text \<open>One check of \<open>audit_with\<close>: the flags it sets and the notes it records.\<close>

definition check_attestation ::
  "attest_lib \<Rightarrow> AttestationCheck option \<Rightarrow> bool \<times> (string \<times> string) list" where
  "check_attestation A inp =
    (case inp of
       Some att \<Rightarrow>
         (case RealVerifier_verify A
             (with_signature_check (RealVerifier_new (ac_policy att)) (require_signature_check att))
             (ac_evidence att)
             \<lparr>expected_report_data = ac_expected_report_data att, now_unix = ac_now_unix att,
              max_age_sec = ac_max_age_sec att\<rparr> of
            Inr _ \<Rightarrow> (True, [])
          | Inl e \<Rightarrow> (False, [(''attestation_verified'', ''attestation verification failed: '' @ Error_display e)]))
     | None \<Rightarrow> (False, [(''attestation_verified'',
                   ''not checked because --attestation-evidence not provided'')]))"

definition check_log_inclusion ::
  "'r prims \<Rightarrow> codecs \<Rightarrow> LogInclusionCheck option \<Rightarrow> bool \<times> bool \<times> (string \<times> string) list" where
  "check_log_inclusion P J inp =
    (case inp of
       Some li \<Rightarrow>
         let sth = li_sth li;
             logger_pk_notes = (case expected_logger_pk li of
                 Some want \<Rightarrow>
                   if logger_pk sth = want then []
                   else [(''sth_signature_verified'', ''logger pubkey mismatch: sth='' @ hex_encode J (logger_pk sth)
                            @ '', expected='' @ hex_encode J want),
                         (''log_inclusion_verified'', ''not checked: STH bound to wrong logger'')]
               | None \<Rightarrow> [])
         in if logger_pk_notes \<noteq> [] then (False, False, logger_pk_notes)
            else
              let sth_ok = SignedTreeHead_verify P J sth;
                  n1 = (if sth_ok then [] else [(''sth_signature_verified'',
                          ''STH signature did not verify under bundled logger_pk'')])
              in (case verify_inclusion_against_head P J sth (li_proof li) (li_expected_entry li) None
                     (li_expected_log_id li) of
                    Inr _ \<Rightarrow> (True, sth_ok, n1)
                  | Inl e \<Rightarrow> (False, sth_ok, n1 @ [(''log_inclusion_verified'',
                                ''inclusion verification failed: '' @ AuditError_display e)]))
     | None \<Rightarrow> (False, False,
         [(''log_inclusion_verified'', ''not checked because --sth-url + --proof not provided''),
          (''sth_signature_verified'', ''not checked because --sth-url not provided'')]))"

definition check_sth_freshness :: "SthFreshnessCheck option \<Rightarrow> bool \<times> (string \<times> string) list" where
  "check_sth_freshness inp =
    (case inp of
       Some f \<Rightarrow>
         let age = saturating_sub (sf_now_unix f) (sth_issued_at_unix f)
         in if age \<le> sf_max_age_sec f then (True, [])
            else (False, [(''sth_freshness_verified'',
              ''STH age '' @ dec (unat age) @ ''s exceeds max-age '' @ dec (unat (sf_max_age_sec f))
              @ ''s (issued_at='' @ dec (unat (sth_issued_at_unix f)) @ '', now='' @ dec (unat (sf_now_unix f)) @ '')'')])
     | None \<Rightarrow> (False, [(''sth_freshness_verified'', ''not checked because --sth-url not provided'')]))"

definition check_weight_pin ::
  "codecs \<Rightarrow> string \<Rightarrow> bytes option \<Rightarrow> bool \<times> (string \<times> string) list" where
  "check_weight_pin J receipt_commit_hex inp =
    (case inp of
       Some want \<Rightarrow>
         if hex_encode J want = receipt_commit_hex then (True, [])
         else (False, [(''weight_commit_pinned'', ''weight_commit mismatch: receipt='' @ receipt_commit_hex
                @ '', expected='' @ hex_encode J want)])
     | None \<Rightarrow> (False, [(''weight_commit_pinned'',
                   ''not checked because --expected-weight-commit not provided'')]))"

definition check_session_pin ::
  "codecs \<Rightarrow> bytes \<Rightarrow> bytes option \<Rightarrow> bool \<times> (string \<times> string) list" where
  "check_session_pin J session inp =
    (case inp of
       Some want \<Rightarrow>
         if want = session then (True, [])
         else (False, [(''session_pinned'', ''session mismatch: receipt='' @ hex_encode J session
                @ '', expected='' @ hex_encode J want)])
     | None \<Rightarrow> (False, [(''session_pinned'', ''not checked because --expected-session not provided'')]))"

definition check_zk_proofs :: "bytes list option \<Rightarrow> bool \<times> (string \<times> string) list" where
  "check_zk_proofs inp =
    (case inp of
       Some proofs \<Rightarrow>
         if length proofs = NUM_LAYERS then (True, [])
         else (False, [(''zk_proofs_verified'', ''ZK proof count '' @ dec (length proofs)
                @ '' != NUM_LAYERS '' @ dec NUM_LAYERS)])
     | None \<Rightarrow> (False, [(''zk_proofs_verified'', ''not checked because no ReceiptEnvelope ZK proofs supplied'')]))"

definition watch_report ::
  "'r prims \<Rightarrow> codecs \<Rightarrow> attest_lib \<Rightarrow> Receipt \<Rightarrow> bytes list \<Rightarrow> bytes list \<Rightarrow> AuditInputs \<Rightarrow> FraudReport" where
  "watch_report P J A r claims recomputed inputs =
    (let d = divergent claims recomputed;
         (att, n1) = check_attestation A (ai_attestation inputs);
         (incl, sth, n2) = check_log_inclusion P J (log_inclusion inputs);
         (fresh, n3) = check_sth_freshness (sth_freshness inputs);
         (wc, n4) = check_weight_pin J (weight_commit_hex r) (ai_expected_weight_commit inputs);
         (sess, n5) = check_session_pin J (r_session r) (expected_session inputs);
         (zk, n6) = check_zk_proofs (ai_zk_layer_proofs inputs);
         probe = \<lparr>activations_consistent = (d = None), receipt_signature_verified = True,
           attestation_verified = att, log_inclusion_verified = incl, sth_signature_verified = sth,
           sth_freshness_verified = fresh, weight_commit_pinned = wc, session_pinned = sess,
           zk_proofs_verified = zk, session_hex = [], fr_tenant = [], fr_epoch = 0, verdict = Partial,
           claimed_commits_hex = [], recomputed_commits_hex = [], fr_weight_commit_hex = [], fr_notes = []\<rparr>
     in probe\<lparr>session_hex := hex_encode J (r_session r), fr_tenant := tenant_str (r_tenant r), fr_epoch := r_epoch r,
          verdict := (case d of
              Some layer_idx \<Rightarrow> Fraudulent layer_idx
            | None \<Rightarrow> if is_fully_verified probe then Honest else Partial),
          claimed_commits_hex := activation_commits_hex r,
          recomputed_commits_hex := map (hex_encode J) recomputed,
          fr_weight_commit_hex := weight_commit_hex r, fr_notes := n1 @ n2 @ n3 @ n4 @ n5 @ n6\<rparr>)"

definition audit_with ::
  "'r prims \<Rightarrow> ('f::comm_ring_1) session_lib \<Rightarrow> attest_lib \<Rightarrow> bytes \<Rightarrow> bytes \<Rightarrow> bytes \<Rightarrow> SignedReceipt \<Rightarrow> AuditInputs
   \<Rightarrow> (WatchError + FraudReport) option" where
  "audit_with P L A model_seed receipt_pk prompt signed_rec inputs =
    (let J = sl_text L; F = sl_fp L; r = sr_receipt signed_rec in
     case receipt_verify P (receipt_bytes L) signed_rec receipt_pk of
       Inl _ \<Rightarrow> Some (Inl BadSignature)
     | Inr _ \<Rightarrow>
       (case Model_from_seed P F model_seed of
          None \<Rightarrow> None
        | Some model \<Rightarrow>
          if hex_encode J (weight_commit model) \<noteq> weight_commit_hex r then Some (Inl WeightCommitMismatch)
          else
            let input_hash = sha256 P prompt;
                model_input = watch_encode_prompt_to_fp input_hash;
                trace = Model_run model model_input
            in (case those (map (vector_commit F) (activations trace)) of
                  None \<Rightarrow> None
                | Some recomputed \<Rightarrow>
                  Some (rbind (watch_decode_commits J (hex_error L) (activation_commits_hex r)) (\<lambda>claims.
                    if length claims \<noteq> NUM_LAYERS + 1
                    then Inl (ActivationLenMismatch (length claims) (NUM_LAYERS + 1))
                    else Inr (watch_report P J A r claims recomputed inputs))))))"

definition audit ::
  "'r prims \<Rightarrow> ('f::comm_ring_1) session_lib \<Rightarrow> attest_lib \<Rightarrow> bytes \<Rightarrow> bytes \<Rightarrow> bytes \<Rightarrow> SignedReceipt
   \<Rightarrow> (WatchError + FraudReport) option" where
  "audit P L A model_seed receipt_pk prompt signed_rec =
    audit_with P L A model_seed receipt_pk prompt signed_rec AuditInputs_default"

section \<open>Lemmas\<close>

lemma divergent_None:
  "divergent claims recomputed = None \<longleftrightarrow> (\<forall>i < length claims. claims ! i = recomputed ! i)"
  unfolding divergent_def find_None_iff by simp

lemma divergent_Some:
  "divergent claims recomputed = Some i \<longleftrightarrow>
    i < length claims \<and> claims ! i \<noteq> recomputed ! i \<and> (\<forall>j < i. claims ! j = recomputed ! j)"
proof -
  have "(\<exists>k < length claims. claims ! k \<noteq> recomputed ! k \<and> i = k \<and> (\<forall>j < k. claims ! j = recomputed ! j)) \<longleftrightarrow>
    i < length claims \<and> claims ! i \<noteq> recomputed ! i \<and> (\<forall>j < i. claims ! j = recomputed ! j)" by blast
  then show ?thesis unfolding divergent_def find_Some_iff by (simp cong: conj_cong)
qed

lemma watch_encode_prompt: "length h = 32 \<Longrightarrow> watch_encode_prompt_to_fp h = encode_prompt_to_fp h"
proof -
  assume h: "length h = 32"
  have "take 4 (drop (i * 4) h) = [h ! (i * 4), h ! (i * 4 + 1), h ! (i * 4 + 2), h ! (i * 4 + 3)]" if "i < VEC_DIM" for i
    using that h by (auto simp: VEC_DIM_def list_eq_iff_nth_eq numeral_eq_Suc less_Suc_eq)
  then show ?thesis by (simp add: watch_encode_prompt_to_fp_def encode_prompt_to_fp_def Let_def)
qed

lemma watch_decode_encode:
  "hex_law J \<Longrightarrow> \<forall>b \<in> set bs. length b = 32 \<Longrightarrow> watch_decode_commits J err (map (hex_encode J) bs) = Inr bs"
  by (induction bs) (auto simp: hex_law_def)

lemma watch_decode_iff:
  "watch_decode_commits J err hs = Inr bs \<longleftrightarrow> map (decode32 J) hs = map Some bs"
  by (induction hs arbitrary: bs) (auto simp: decode32_def result_simps split: option.splits if_splits)

lemma map_Some_nth: "map f xs = map Some ys \<Longrightarrow> i < length ys \<Longrightarrow> f (xs ! i) = Some (ys ! i)"
  by (metis length_map nth_map)

lemma commits_of_trace:
  "Trace_commits F t = Some tc \<Longrightarrow> those (map (vector_commit F) (activations t)) = Some (tc_bytes tc)"
proof -
  have "commit_all F vs = Some cs \<Longrightarrow> those (map (vector_commit F) vs) = Some (map (fp_to_repr F) cs)" for vs cs
    by (induction vs arbitrary: cs) (auto simp: vector_commit_def split: option.splits)
  then show "Trace_commits F t = Some tc \<Longrightarrow> those (map (vector_commit F) (activations t)) = Some (tc_bytes tc)"
    by (auto simp: Trace_commits_def)
qed

lemma watch_report_fields [simp]:
  "activations_consistent (watch_report P J A r claims recomputed inputs) \<longleftrightarrow> divergent claims recomputed = None"
  "recomputed_commits_hex (watch_report P J A r claims recomputed inputs) = map (hex_encode J) recomputed"
  "verdict (watch_report P J A r claims recomputed inputs) =
    (case divergent claims recomputed of
       Some i \<Rightarrow> Fraudulent i
     | None \<Rightarrow>
       if fst (check_attestation A (ai_attestation inputs)) \<and> fst (check_log_inclusion P J (log_inclusion inputs)) \<and>
         fst (snd (check_log_inclusion P J (log_inclusion inputs))) \<and> fst (check_sth_freshness (sth_freshness inputs)) \<and>
         fst (check_weight_pin J (weight_commit_hex r) (ai_expected_weight_commit inputs)) \<and>
         fst (check_session_pin J (r_session r) (expected_session inputs)) \<and>
         fst (check_zk_proofs (ai_zk_layer_proofs inputs))
       then Honest else Partial)"
  by (simp_all add: watch_report_def is_fully_verified_def Let_def case_prod_beta split: option.splits)

text \<open>When each check passes.\<close>

lemma checks_pass:
  "fst (check_attestation A inp) \<longleftrightarrow> (\<exists>att. inp = Some att \<and> RealVerifier_verify A
      \<lparr>rv_policy = ac_policy att, check_signatures = require_signature_check att\<rparr> (ac_evidence att)
      \<lparr>expected_report_data = ac_expected_report_data att, now_unix = ac_now_unix att,
       max_age_sec = ac_max_age_sec att\<rparr> = Inr ())"
  "fst (check_log_inclusion P J li) \<longleftrightarrow> (\<exists>c. li = Some c \<and>
      (\<forall>want. expected_logger_pk c = Some want \<longrightarrow> logger_pk (li_sth c) = want) \<and>
      verify_inclusion_against_head P J (li_sth c) (li_proof c) (li_expected_entry c) None (li_expected_log_id c) = Inr ())"
  "fst (check_log_inclusion P J li) \<Longrightarrow> fst (snd (check_log_inclusion P J li))"
  "fst (check_sth_freshness fr) \<longleftrightarrow> (\<exists>f. fr = Some f \<and> unat (sf_now_unix f) \<le> unat (sth_issued_at_unix f) + unat (sf_max_age_sec f))"
  "fst (check_weight_pin J h wc) \<longleftrightarrow> (\<exists>want. wc = Some want \<and> hex_encode J want = h)"
  "fst (check_session_pin J s se) \<longleftrightarrow> se = Some s"
  "fst (check_zk_proofs zk) \<longleftrightarrow> (\<exists>ps. zk = Some ps \<and> length ps = NUM_LAYERS)"
proof -
  show "fst (check_sth_freshness fr) \<longleftrightarrow>
      (\<exists>f. fr = Some f \<and> unat (sf_now_unix f) \<le> unat (sth_issued_at_unix f) + unat (sf_max_age_sec f))"
    by (auto simp: check_sth_freshness_def unat_saturating_sub Let_def word_le_nat_alt
        split: option.splits if_splits)
  show "fst (check_log_inclusion P J li) \<Longrightarrow> fst (snd (check_log_inclusion P J li))"
    by (auto simp: check_log_inclusion_def Let_def audit_ok_iff split: option.splits sum.splits if_splits)
qed (auto simp: check_attestation_def check_log_inclusion_def check_weight_pin_def check_session_pin_def
    check_zk_proofs_def RealVerifier_new_def with_signature_check_def Let_def split: option.splits sum.splits if_splits)

lemma audit_with_report:
  assumes "audit_with P L A seed pk prompt sr inputs = Some (Inr rep)"
  obtains m recomputed claims where "Model_from_seed P (sl_fp L) seed = Some m"
    "receipt_verify P (receipt_bytes L) sr pk = Inr ()"
    "weight_commit_hex (sr_receipt sr) = hex_encode (sl_text L) (weight_commit m)"
    "map (vector_commit (sl_fp L)) (activations (Model_run m (watch_encode_prompt_to_fp (sha256 P prompt)))) =
      map Some recomputed"
    "map (decode32 (sl_text L)) (activation_commits_hex (sr_receipt sr)) = map Some claims"
    "length claims = NUM_LAYERS + 1" "length recomputed = NUM_LAYERS + 1"
    "rep = watch_report P (sl_text L) A (sr_receipt sr) claims recomputed inputs"
proof -
  obtain m recomputed claims where a: "Model_from_seed P (sl_fp L) seed = Some m"
    "receipt_verify P (receipt_bytes L) sr pk = Inr ()"
    "weight_commit_hex (sr_receipt sr) = hex_encode (sl_text L) (weight_commit m)"
    "those (map (vector_commit (sl_fp L)) (activations (Model_run m (watch_encode_prompt_to_fp (sha256 P prompt))))) =
      Some recomputed"
    "watch_decode_commits (sl_text L) (hex_error L) (activation_commits_hex (sr_receipt sr)) = Inr claims"
    "length claims = NUM_LAYERS + 1" "rep = watch_report P (sl_text L) A (sr_receipt sr) claims recomputed inputs"
    using assms unfolding audit_with_def Let_def
    by (auto simp: result_simps split: sum.splits option.splits if_splits)
  have "length recomputed = NUM_LAYERS + 1"
    using a(4) [unfolded those_Some_iff, THEN arg_cong [of _ _ length]] Model_from_seed_ok [OF a(1)]
    by (simp add: Model_run_def model_ok_def)
  then show thesis using a that unfolding those_Some_iff watch_decode_iff by blast
qed

text \<open>A receipt over the commitments of the recomputed trace is audited without divergence.\<close>

lemma audit_honest:
  fixes L :: "('f::comm_ring_1) session_lib"
  assumes "sha2_law P" "hex_law (sl_text L)" "\<forall>x. length (fp_to_repr (sl_fp L) x) = 32"
    and "Model_from_seed P (sl_fp L) seed = Some m" "receipt_verify P (receipt_bytes L) sr pk = Inr ()"
    and "weight_commit_hex (sr_receipt sr) = hex_encode (sl_text L) (weight_commit m)"
    and "Trace_commits (sl_fp L) (Model_run m (encode_prompt_to_fp (sha256 P prompt))) = Some tc"
    and "activation_commits_hex (sr_receipt sr) = map (hex_encode (sl_text L)) (tc_bytes tc)"
  shows "\<exists>rep. audit_with P L A seed pk prompt sr inputs = Some (Inr rep) \<and> activations_consistent rep \<and>
    (verdict rep = Honest \<or> verdict rep = Partial)"
proof -
  have enc: "watch_encode_prompt_to_fp (sha256 P prompt) = (encode_prompt_to_fp (sha256 P prompt) :: 'f list)"
    using assms(1) by (simp add: watch_encode_prompt sha2_law_def)
  note th = commits_of_trace [OF assms(7)]
  have len: "\<forall>b \<in> set (tc_bytes tc). length b = 32"
    using assms(3,7) by (auto simp: Trace_commits_def)
  have "length (tc_bytes tc) = NUM_LAYERS + 1"
    using th [unfolded those_Some_iff, THEN arg_cong [of _ _ length]] Model_from_seed_ok [OF assms(4)]
    by (simp add: Model_run_def model_ok_def)
  then have "audit_with P L A seed pk prompt sr inputs =
      Some (Inr (watch_report P (sl_text L) A (sr_receipt sr) (tc_bytes tc) (tc_bytes tc) inputs))"
    using assms(4-6,8) th watch_decode_encode [OF assms(2) len] by (simp add: audit_with_def enc Let_def)
  moreover have "divergent (tc_bytes tc) (tc_bytes tc) = None" by (simp add: divergent_None)
  ultimately show ?thesis by simp
qed

lemma issue_receipt_sent:
  assumes "issue_receipt P L st tenant sid now n_in ih ss w = (Inr (), w')"
  obtains tc env rec where
    "Trace_commits (sl_fp L) (Model_run (as_model st) (encode_prompt_to_fp ih)) = Some tc"
    "receipt_sign P (receipt_bytes L) (as_receipt_key st)
      (session_receipt P L st tenant sid now n_in ih (tc_bytes tc) ss) = Inr rec"
    "envelope_to_bytes L \<lparr>signed_receipt = rec, zk_layer_proofs = layer_proofs st
      (Model_run (as_model st) (encode_prompt_to_fp ih)) sid\<rparr> = Inr env"
    "sent w' = sent w @ [env]"
proof -
  let ?trace = "Model_run (as_model st) (encode_prompt_to_fp ih)"
  obtain tc where tc: "Trace_commits (sl_fp L) ?trace = Some tc"
    using assms by (cases "Trace_commits (sl_fp L) ?trace") (simp_all add: issue_receipt_def sfail_def)
  let ?sign = "receipt_sign P (receipt_bytes L) (as_receipt_key st)
    (session_receipt P L st tenant sid now n_in ih (tc_bytes tc) ss)"
  obtain rec where rec: "?sign = Inr rec"
    using assms tc by (cases ?sign) (simp_all add: issue_receipt_def sbind_def slift_def Let_def)
  let ?e = "\<lparr>signed_receipt = rec, zk_layer_proofs = layer_proofs st ?trace sid\<rparr>"
  obtain env where env: "envelope_to_bytes L ?e = Inr env"
    using assms tc rec by (cases "envelope_to_bytes L ?e") (simp_all add: issue_receipt_def sbind_def slift_def Let_def)
  have "sent w' = sent w @ [env]"
    using assms tc rec env
    by (auto simp: issue_receipt_def sbind_def slift_def send_ws_def Let_def split: send_outcome.splits)
  with tc rec env show thesis by (rule that)
qed

lemma issued_receipt_audits:
  fixes st :: "('f::comm_ring_1) AppState"
  assumes "prims_law P" "session_lib_law L"
    and "Model_from_seed P (sl_fp L) seed = Some (as_model st)"
    and "tee_weight_commit (as_identity st) = weight_commit (as_model st)"
    and "issue_receipt P L st tenant sid now n_in (sha256 P prompt) ss w = (Inr (), w')"
  shows "\<exists>env e rep. sent w' = sent w @ [env] \<and> envelope_from_bytes L env = Inr e \<and>
    zk_layer_proofs e = layer_proofs st (Model_run (as_model st) (encode_prompt_to_fp (sha256 P prompt))) sid \<and>
    audit_with P L A seed (ed25519_public P (as_receipt_key st)) prompt (signed_receipt e) inputs = Some (Inr rep) \<and>
    activations_consistent rep \<and> (verdict rep = Honest \<or> verdict rep = Partial)"
proof -
  obtain tc env rec where i:
    "Trace_commits (sl_fp L) (Model_run (as_model st) (encode_prompt_to_fp (sha256 P prompt))) = Some tc"
    "receipt_sign P (receipt_bytes L) (as_receipt_key st)
      (session_receipt P L st tenant sid now n_in (sha256 P prompt) (tc_bytes tc) ss) = Inr rec"
    "envelope_to_bytes L \<lparr>signed_receipt = rec, zk_layer_proofs = layer_proofs st
      (Model_run (as_model st) (encode_prompt_to_fp (sha256 P prompt))) sid\<rparr> = Inr env"
    "sent w' = sent w @ [env]"
    by (rule issue_receipt_sent [OF assms(5)]) (rule that)
  let ?r = "session_receipt P L st tenant sid now n_in (sha256 P prompt) (tc_bytes tc) ss"
  let ?e = "\<lparr>signed_receipt = rec, zk_layer_proofs = layer_proofs st
      (Model_run (as_model st) (encode_prompt_to_fp (sha256 P prompt))) sid\<rparr>"
  have laws: "sha2_law P" "ed25519_law P" "hex_law (sl_text L)" "\<forall>x. length (fp_to_repr (sl_fp L) x) = 32"
    using assms(1,2) by (simp_all add: prims_law_def session_lib_law_def)
  have rec: "receipt_ok ?r" "rec = \<lparr>sr_receipt = ?r, sr_signature = ed25519_sign P (as_receipt_key st) (receipt_bytes L ?r)\<rparr>"
    using i(2) by (simp_all add: receipt_sign_iff split: if_splits)
  have "receipt_verify P (receipt_bytes L) rec (ed25519_public P (as_receipt_key st)) = Inr ()"
    using rec laws(2) by (simp add: receipt_verify_iff ed25519_law_def)
  moreover have "weight_commit_hex (sr_receipt rec) = hex_encode (sl_text L) (weight_commit (as_model st))"
    "activation_commits_hex (sr_receipt rec) = map (hex_encode (sl_text L)) (tc_bytes tc)"
    using rec(2) assms(4) by (simp_all add: session_receipt_def Let_def)
  ultimately obtain rep where "audit_with P L A seed (ed25519_public P (as_receipt_key st)) prompt rec inputs = Some (Inr rep)"
    "activations_consistent rep" "verdict rep = Honest \<or> verdict rep = Partial"
    using audit_honest [OF laws(1,3,4) assms(3) _ _ i(1)] by blast
  moreover have "envelope_from_bytes L env = Inr ?e"
    using assms(2) i(3) unfolding session_lib_law_def by (metis sum.inject(2))
  ultimately show ?thesis
    using i(4) by (intro exI [of _ env] exI [of _ ?e] exI [of _ rep]) simp
qed

text \<open>A concrete model, service and receipt.\<close>

abbreviation sample_fp :: "int fp_lib" where "sample_fp \<equiv> sl_fp model_session_lib"

definition sample_model :: "int Model" where
  "sample_model = the (Model_from_seed model_prims sample_fp [])"

definition sample_honest :: "int AppState" where
  "sample_honest = sample_state\<lparr>as_model := sample_model,
    as_identity := sample_identity\<lparr>tee_weight_commit := weight_commit sample_model\<rparr>\<rparr>"

lemma sample_model_from_seed: "Model_from_seed model_prims sample_fp [] = Some sample_model"
proof -
  have "fp_read_law sample_fp" by (simp add: fp_read_law_def model_session_lib_def)
  then show ?thesis
    using Model_from_seed_total model_prims_law unfolding sample_model_def prims_law_def by (metis option.sel)
qed

lemma Model_weight_commit_length: "Model_from_seed P F seed = Some m \<Longrightarrow> sha2_law P \<Longrightarrow> length (weight_commit m) = 32"
  by (auto simp: Model_from_seed_def compute_weight_commit_def sha2_law_def Let_def)

lemma sample_weight_commit: "length (weight_commit sample_model) = 32"
  using Model_weight_commit_length [OF sample_model_from_seed] model_prims_law by (simp add: prims_law_def)

lemma sample_issues:
  "\<exists>w'. issue_receipt model_prims model_session_lib sample_honest (TenantId ''t'') [1] 5 1
    (sha256 model_prims prompt) ss (server_world [] 5 (fst (TenantPool_random model_prims 9))) = (Inr (), w')"
proof -
  have "length (tee_weight_commit (as_identity sample_honest)) = 32"
    using sample_weight_commit by (simp add: sample_honest_def)
  moreover have "layers_complete model_session_lib sample_honest None" by (simp add: layers_complete_def)
  moreover have "all_flushed (server_world [] 5 (fst (TenantPool_random model_prims 9)))"
    by (simp add: all_flushed_def server_world_def)
  ultimately show ?thesis
    by (rule receipt_accepted [OF model_prims_law model_session_lib_law]) blast
qed

lemma sample_audited:
  "\<exists>rec rep. audit_with model_prims model_session_lib A [] (ed25519_public model_prims [7]) prompt rec inputs =
    Some (Inr rep) \<and> activations_consistent rep"
proof -
  obtain w' where "issue_receipt model_prims model_session_lib sample_honest (TenantId ''t'') [1] 5 1
    (sha256 model_prims prompt) ss (server_world [] 5 (fst (TenantPool_random model_prims 9))) = (Inr (), w')"
    using sample_issues by blast
  then show ?thesis
    using issued_receipt_audits [OF model_prims_law model_session_lib_law, of "[]" sample_honest]
      sample_model_from_seed by (fastforce simp: sample_honest_def sample_state_def)
qed

section \<open>Properties\<close>

text \<open>
  C32. What a report of the watcher means.  A report is given only for a receipt with
  a valid signature whose weight commitment is that of the model of the seed.  It is
  \<open>Fraudulent\<close> at a layer exactly when that is the first layer whose claimed
  commitment is not the commitment of the recomputed activation.  It is \<open>Honest\<close>
  exactly when all commitments agree, the evidence passes the verifier, the head is
  signed by the pinned logger and includes the entry, the head is fresh, the weight
  commitment and the session are the pinned ones, and there is a proof for each layer.
\<close>

theorem watcher_verdict_exact:
  assumes "sha2_law P" "audit_with P L A seed pk prompt sr inputs = Some (Inr rep)"
  shows "\<exists>m. Model_from_seed P (sl_fp L) seed = Some m \<and>
    ed25519_verify P pk (receipt_bytes L (sr_receipt sr)) (sr_signature sr) \<and>
    weight_commit_hex (sr_receipt sr) = hex_encode (sl_text L) (weight_commit m) \<and>
    (let claim = (\<lambda>i. decode32 (sl_text L) (activation_commits_hex (sr_receipt sr) ! i));
         commit = (\<lambda>i. vector_commit (sl_fp L)
           (activations (Model_run m (encode_prompt_to_fp (sha256 P prompt))) ! i))
     in (\<forall>i. verdict rep = Fraudulent i \<longleftrightarrow>
           i \<le> NUM_LAYERS \<and> claim i \<noteq> commit i \<and> (\<forall>j < i. claim j = commit j)) \<and>
        (verdict rep = Honest \<longleftrightarrow>
           (\<forall>i \<le> NUM_LAYERS. claim i = commit i) \<and>
           (\<exists>att. ai_attestation inputs = Some att \<and> RealVerifier_verify A
             \<lparr>rv_policy = ac_policy att, check_signatures = require_signature_check att\<rparr> (ac_evidence att)
             \<lparr>expected_report_data = ac_expected_report_data att, now_unix = ac_now_unix att,
              max_age_sec = ac_max_age_sec att\<rparr> = Inr ()) \<and>
           (\<exists>c. log_inclusion inputs = Some c \<and>
             (\<forall>want. expected_logger_pk c = Some want \<longrightarrow> logger_pk (li_sth c) = want) \<and>
             verify_inclusion_against_head P (sl_text L) (li_sth c) (li_proof c) (li_expected_entry c) None
               (li_expected_log_id c) = Inr ()) \<and>
           (\<exists>f. sth_freshness inputs = Some f \<and>
             unat (sf_now_unix f) \<le> unat (sth_issued_at_unix f) + unat (sf_max_age_sec f)) \<and>
           (\<exists>want. ai_expected_weight_commit inputs = Some want \<and>
             hex_encode (sl_text L) want = weight_commit_hex (sr_receipt sr)) \<and>
           expected_session inputs = Some (r_session (sr_receipt sr)) \<and>
           (\<exists>ps. ai_zk_layer_proofs inputs = Some ps \<and> length ps = NUM_LAYERS)))"
proof -
  obtain m recomputed claims where a: "Model_from_seed P (sl_fp L) seed = Some m"
    "receipt_verify P (receipt_bytes L) sr pk = Inr ()"
    "weight_commit_hex (sr_receipt sr) = hex_encode (sl_text L) (weight_commit m)"
    "map (vector_commit (sl_fp L)) (activations (Model_run m (watch_encode_prompt_to_fp (sha256 P prompt)))) =
      map Some recomputed"
    "map (decode32 (sl_text L)) (activation_commits_hex (sr_receipt sr)) = map Some claims"
    "length claims = NUM_LAYERS + 1" "length recomputed = NUM_LAYERS + 1"
    "rep = watch_report P (sl_text L) A (sr_receipt sr) claims recomputed inputs"
    by (rule audit_with_report [OF assms(2)]) (rule that)
  have enc: "watch_encode_prompt_to_fp (sha256 P prompt) = encode_prompt_to_fp (sha256 P prompt)"
    using assms(1) by (simp add: watch_encode_prompt sha2_law_def)
  have nth: "decode32 (sl_text L) (activation_commits_hex (sr_receipt sr) ! i) = Some (claims ! i)"
    "vector_commit (sl_fp L) (activations (Model_run m (encode_prompt_to_fp (sha256 P prompt))) ! i) =
      Some (recomputed ! i)" if "i \<le> NUM_LAYERS" for i
    using map_Some_nth [OF a(5), of i] map_Some_nth [OF a(4) [unfolded enc], of i] that a(6,7) by simp_all
  have sig: "ed25519_verify P pk (receipt_bytes L (sr_receipt sr)) (sr_signature sr)"
    using a(2) by (simp add: receipt_verify_iff split: if_splits)
  have dn: "divergent claims recomputed = None \<longleftrightarrow> (\<forall>i \<le> NUM_LAYERS. claims ! i = recomputed ! i)"
    unfolding divergent_None a(6) by (simp add: less_Suc_eq_le)
  have ds: "divergent claims recomputed = Some i \<longleftrightarrow>
      i \<le> NUM_LAYERS \<and> claims ! i \<noteq> recomputed ! i \<and> (\<forall>j < i. claims ! j = recomputed ! j)" for i
    unfolding divergent_Some a(6) by (simp add: less_Suc_eq_le)
  have fraud: "verdict rep = Fraudulent i \<longleftrightarrow> divergent claims recomputed = Some i" for i
    unfolding a(8) by (simp split: option.splits)
  have honest: "verdict rep = Honest \<longleftrightarrow> divergent claims recomputed = None \<and>
      fst (check_attestation A (ai_attestation inputs)) \<and> fst (check_log_inclusion P (sl_text L) (log_inclusion inputs)) \<and>
      fst (check_sth_freshness (sth_freshness inputs)) \<and>
      fst (check_weight_pin (sl_text L) (weight_commit_hex (sr_receipt sr)) (ai_expected_weight_commit inputs)) \<and>
      fst (check_session_pin (sl_text L) (r_session (sr_receipt sr)) (expected_session inputs)) \<and>
      fst (check_zk_proofs (ai_zk_layer_proofs inputs))"
    unfolding a(8) using checks_pass(3) by (auto split: option.splits)
  show ?thesis
    unfolding Let_def fraud honest dn ds checks_pass(1,2,4-7)
    using a(1,3) sig nth by (intro exI [of _ m]) (auto simp: less_imp_le_nat cong: conj_cong)
qed

theorem watcher_verdict_exact_witness:
  "\<forall>A. \<exists>rec rep. audit_with model_prims model_session_lib A [] (ed25519_public model_prims [7]) [104, 105]
      rec AuditInputs_default = Some (Inr rep) \<and> activations_consistent rep \<and> verdict rep \<noteq> Honest \<and>
    ed25519_verify model_prims (ed25519_public model_prims [7])
      (receipt_bytes model_session_lib (sr_receipt rec)) (sr_signature rec)"
proof
  fix A
  obtain rec rep where r: "audit_with model_prims model_session_lib A []
      (ed25519_public model_prims [7]) [104, 105] rec AuditInputs_default = Some (Inr rep)" "activations_consistent rep"
    using sample_audited by blast
  have "sha2_law model_prims" using model_prims_law by (simp add: prims_law_def)
  from watcher_verdict_exact [OF this r(1)] show "\<exists>rec rep. audit_with model_prims model_session_lib A [] (ed25519_public model_prims [7]) [104, 105]
      rec AuditInputs_default = Some (Inr rep) \<and> activations_consistent rep \<and> verdict rep \<noteq> Honest \<and>
    ed25519_verify model_prims (ed25519_public model_prims [7])
      (receipt_bytes model_session_lib (sr_receipt rec)) (sr_signature rec)"
    using r by (auto simp: Let_def AuditInputs_default_def)
qed

end
