(* ===== verification/Watcher_Cli.thy ===== *)
theory Watcher_Cli
  imports Watcher Log_Auditor
begin

text \<open>
  \<open>ullm-watcher/main.rs\<close>: the command line of the watcher.  It reads its flags and
  files, builds the inputs of the audit from what it was given, runs the audit and
  turns the verdict into an exit code.  The decoders of \<open>postcard\<close> and \<open>serde_json\<close>
  and the texts of their errors are parameters; \<open>None\<close> is a panic of the audit.

  Shown: what each exit code means, that the receipt of an honest service never
  makes the watcher exit with the code for fraud, and that the attestation check of
  the command line is passed by evidence nobody signed.
\<close>

section \<open>Helpers\<close>

record 'f watcher_lib =
  wt_session :: "'f session_lib"
  wt_attest :: attest_lib
  wt_files :: auditor_lib
  receipt_from_postcard :: "bytes \<Rightarrow> string + SignedReceipt"

abbreviation wt_text :: "'f watcher_lib \<Rightarrow> codecs" where
  "wt_text W \<equiv> sl_text (wt_session W)"

definition resolve_sth_path :: "string \<Rightarrow> string + string" where
  "resolve_sth_path value =
    (if starts_with ''file://'' value then Inr (drop 7 value)
     else if starts_with ''http://'' value \<or> starts_with ''https://'' value then
       Inl (''--sth-url: http(s):// URLs are not fetched by the watcher (curl into a temp file and pass the path or a file:// URL). Got: '' @ value)
     else Inr value)"

text \<open>\<open>parse_hex16\<close>, \<open>parse_hex32\<close> and \<open>parse_hex64\<close>, which differ in the length.\<close>

definition parse_hex :: "nat \<Rightarrow> 'f watcher_lib \<Rightarrow> string \<Rightarrow> string \<Rightarrow> string + bytes" where
  "parse_hex n W flag v =
    (case hex_decode (wt_text W) v of
       None \<Rightarrow> Inl (flag @ '': invalid hex ('' @ hex_error (wt_session W) v @ '')'')
     | Some b \<Rightarrow>
       if length b \<noteq> n
       then Inl (flag @ '': must decode to exactly '' @ dec n @ '' bytes, got '' @ dec (length b))
       else Inr b)"

text \<open>\<open>str::parse::<u64>\<close> with the text of its error.\<close>

fun parse_u64_loop :: "nat \<Rightarrow> string \<Rightarrow> string + u64" where
  "parse_u64_loop acc [] = Inr (word_of_nat acc)"
| "parse_u64_loop acc (c # cs) =
    (case digit_val c of
       None \<Rightarrow> Inl ''invalid digit found in string''
     | Some d \<Rightarrow>
       if acc * 10 \<ge> 2 ^ 64 \<or> acc * 10 + d \<ge> 2 ^ 64
       then Inl ''number too large to fit in target type''
       else parse_u64_loop (acc * 10 + d) cs)"

definition parse_u64 :: "string \<Rightarrow> string \<Rightarrow> string + u64" where
  "parse_u64 flag s =
    map_err (\<lambda>e. flag @ '': '' @ e)
      (if s = [] then Inl ''cannot parse integer from empty string''
       else if s = ''+'' \<or> s = ''-'' then Inl ''invalid digit found in string''
       else parse_u64_loop 0 (if hd s = CHR ''+'' then tl s else s))"

section \<open>Flags\<close>

record watcher_args =
  wa_seed :: "bytes option"
  wa_tee_pk :: "bytes option"
  wa_prompt :: "bytes option"
  wa_receipt :: "string option"
  wa_evidence :: "string option"
  wa_report_data :: "bytes option"
  wa_att_now :: "u64 option"
  wa_att_max_age :: u64
  wa_sth :: "string option"
  wa_proof :: "string option"
  wa_entry :: "string option"
  wa_log_id :: "string option"
  wa_logger_pk :: "bytes option"
  wa_fresh_now :: "u64 option"
  wa_fresh_max_age :: u64
  wa_weight_commit :: "bytes option"
  wa_session :: "bytes option"
  wa_zk_envelope :: bool

definition no_watcher_args :: watcher_args where
  "no_watcher_args = \<lparr>wa_seed = None, wa_tee_pk = None, wa_prompt = None, wa_receipt = None, wa_evidence = None,
    wa_report_data = None, wa_att_now = None, wa_att_max_age = 600, wa_sth = None, wa_proof = None, wa_entry = None,
    wa_log_id = None, wa_logger_pk = None, wa_fresh_now = None, wa_fresh_max_age = 600, wa_weight_commit = None,
    wa_session = None, wa_zk_envelope = False\<rparr>"

text \<open>What a flag does with its value; \<open>None\<close> for an unknown flag.\<close>

definition flag_action ::
  "'r prims \<Rightarrow> 'f watcher_lib \<Rightarrow> string \<Rightarrow> watcher_args \<Rightarrow> (string \<Rightarrow> string + watcher_args) option" where
  "flag_action P W flag a =
    (if flag = ''--model-seed'' then
       Some (\<lambda>v. rbind (parse_hex 32 W flag v) (\<lambda>s. Inr (a\<lparr>wa_seed := Some s\<rparr>)))
     else if flag = ''--tee-pk'' then
       Some (\<lambda>v. rbind (parse_hex 32 W flag v) (\<lambda>k.
         if \<not> ed25519_valid P k
         then Inl (''--tee-pk: not a valid Ed25519 key: '' @ key_error (wt_files W) k)
         else Inr (a\<lparr>wa_tee_pk := Some k\<rparr>)))
     else if flag = ''--prompt'' then Some (\<lambda>v. Inr (a\<lparr>wa_prompt := Some (str_bytes v)\<rparr>))
     else if flag = ''--receipt'' then Some (\<lambda>v. Inr (a\<lparr>wa_receipt := Some v\<rparr>))
     else if flag = ''--attestation-evidence'' then Some (\<lambda>v. Inr (a\<lparr>wa_evidence := Some v\<rparr>))
     else if flag = ''--attestation-report-data'' then
       Some (\<lambda>v. rbind (parse_hex 64 W flag v) (\<lambda>rd. Inr (a\<lparr>wa_report_data := Some rd\<rparr>)))
     else if flag = ''--attestation-now'' then
       Some (\<lambda>v. rbind (parse_u64 flag v) (\<lambda>n. Inr (a\<lparr>wa_att_now := Some n\<rparr>)))
     else if flag = ''--attestation-max-age-secs'' then
       Some (\<lambda>v. rbind (parse_u64 flag v) (\<lambda>n. Inr (a\<lparr>wa_att_max_age := n\<rparr>)))
     else if flag = ''--sth-url'' then
       Some (\<lambda>v. rbind (resolve_sth_path v) (\<lambda>p. Inr (a\<lparr>wa_sth := Some p\<rparr>)))
     else if flag = ''--proof'' then Some (\<lambda>v. Inr (a\<lparr>wa_proof := Some v\<rparr>))
     else if flag = ''--log-entry'' then Some (\<lambda>v. Inr (a\<lparr>wa_entry := Some v\<rparr>))
     else if flag = ''--expected-log-id'' then Some (\<lambda>v. Inr (a\<lparr>wa_log_id := Some v\<rparr>))
     else if flag = ''--logger-pk'' then
       Some (\<lambda>v. rbind (parse_hex 32 W flag v) (\<lambda>k. Inr (a\<lparr>wa_logger_pk := Some k\<rparr>)))
     else if flag = ''--freshness-now'' then
       Some (\<lambda>v. rbind (parse_u64 flag v) (\<lambda>n. Inr (a\<lparr>wa_fresh_now := Some n\<rparr>)))
     else if flag = ''--freshness-max-age-secs'' then
       Some (\<lambda>v. rbind (parse_u64 flag v) (\<lambda>n. Inr (a\<lparr>wa_fresh_max_age := n\<rparr>)))
     else if flag = ''--expected-weight-commit'' then
       Some (\<lambda>v. rbind (parse_hex 32 W flag v) (\<lambda>c. Inr (a\<lparr>wa_weight_commit := Some c\<rparr>)))
     else if flag = ''--expected-session'' then
       Some (\<lambda>v. rbind (parse_hex 16 W flag v) (\<lambda>s. Inr (a\<lparr>wa_session := Some s\<rparr>)))
     else None)"

fun watcher_flags :: "'r prims \<Rightarrow> 'f watcher_lib \<Rightarrow> watcher_args \<Rightarrow> string list \<Rightarrow> string + watcher_args" where
  "watcher_flags P W a [] = Inr a"
| "watcher_flags P W a (flag # args) =
    (if flag = ''--zk-envelope'' then watcher_flags P W (a\<lparr>wa_zk_envelope := True\<rparr>) args
     else case flag_action P W flag a of
       None \<Rightarrow> Inl (''unknown arg: '' @ flag)
     | Some act \<Rightarrow>
       (case args of
          [] \<Rightarrow> Inl (flag @ '' needs a value'')
        | v # rest \<Rightarrow> rbind (act v) (\<lambda>a. watcher_flags P W a rest)))"

section \<open>main\<close>

text \<open>An optional file: not given, or read and decoded.\<close>

definition load_opt :: "files \<Rightarrow> string option \<Rightarrow> string \<Rightarrow> (bytes \<Rightarrow> string + 'a) \<Rightarrow> string + 'a option" where
  "load_opt F path prefix parse =
    (case path of None \<Rightarrow> Inr None | Some p \<Rightarrow> rbind (load F p prefix parse) (\<lambda>x. Inr (Some x)))"

definition load_receipt ::
  "'f watcher_lib \<Rightarrow> files \<Rightarrow> bool \<Rightarrow> string \<Rightarrow> string + SignedReceipt \<times> bytes list option" where
  "load_receipt W F zk path =
    (if zk then
       rbind (load F path ''--receipt: postcard ReceiptEnvelope decode failed: ''
           (envelope_from_bytes (wt_session W)))
         (\<lambda>env. Inr (signed_receipt env, Some (zk_layer_proofs env)))
     else
       rbind (load F path ''--receipt: postcard decode failed: '' (receipt_from_postcard W))
         (\<lambda>s. Inr (s, None)))"

definition MeasurementPolicy_default :: MeasurementPolicy where
  "MeasurementPolicy_default = \<lparr>allowed_mrtd = {}, allowed_snp_measurement = {}, allowed_nvidia_measurements_hex = {}\<rparr>"

definition report_data_buf :: "bytes option \<Rightarrow> Evidence option \<Rightarrow> bytes \<times> bool" where
  "report_data_buf pinned ev =
    (case (pinned, ev) of
       (Some rd, _) \<Rightarrow> (rd, True)
     | (None, Some e) \<Rightarrow> (ev_report_data e, False)
     | (None, None) \<Rightarrow> (replicate 64 0, False))"

definition build_inputs ::
  "watcher_args \<Rightarrow> Evidence option \<Rightarrow> SignedTreeHead option \<Rightarrow> InclusionProof option \<Rightarrow> LogEntry option
   \<Rightarrow> bytes list option \<Rightarrow> AuditInputs" where
  "build_inputs a ev sth pf entry proofs =
    \<lparr>ai_attestation = map_option (\<lambda>e.
       \<lparr>ac_evidence = e, ac_policy = MeasurementPolicy_default,
        ac_expected_report_data = fst (report_data_buf (wa_report_data a) ev),
        ac_now_unix = (case wa_att_now a of Some n \<Rightarrow> n | None \<Rightarrow> Evidence.issued_at_unix e),
        ac_max_age_sec = wa_att_max_age a, require_signature_check = False\<rparr>) ev,
     log_inclusion = (case (sth, pf, entry) of
         (Some s, Some p, Some e) \<Rightarrow> Some
           \<lparr>li_sth = s, li_proof = p, li_expected_entry = e, li_expected_log_id = wa_log_id a,
            expected_logger_pk = wa_logger_pk a\<rparr>
       | _ \<Rightarrow> None),
     sth_freshness = map_option (\<lambda>s.
       \<lparr>sth_issued_at_unix = TreeHead.issued_at_unix (head s),
        sf_now_unix = (case wa_fresh_now a of Some n \<Rightarrow> n | None \<Rightarrow> TreeHead.issued_at_unix (head s)),
        sf_max_age_sec = wa_fresh_max_age a\<rparr>) sth,
     ai_expected_weight_commit = wa_weight_commit a, expected_session = wa_session a,
     ai_zk_layer_proofs = proofs\<rparr>"

record watcher_inputs =
  in_seed :: bytes
  in_tee_pk :: bytes
  in_prompt :: bytes
  in_signed :: SignedReceipt
  in_audit :: AuditInputs
  in_pinned :: bool

definition watcher_load ::
  "'r prims \<Rightarrow> 'f watcher_lib \<Rightarrow> files \<Rightarrow> string list \<Rightarrow> string + watcher_inputs" where
  "watcher_load P W F argv =
    rbind (watcher_flags P W no_watcher_args argv) (\<lambda>a.
    rbind (ok_or ''--model-seed required'' (wa_seed a)) (\<lambda>seed.
    rbind (ok_or ''--tee-pk required'' (wa_tee_pk a)) (\<lambda>tee_pk.
    rbind (ok_or ''--prompt required'' (wa_prompt a)) (\<lambda>prompt.
    rbind (ok_or ''--receipt required'' (wa_receipt a)) (\<lambda>receipt_path.
    rbind (load_receipt W F (wa_zk_envelope a) receipt_path) (\<lambda>(signed_rec, proofs).
    rbind (load_opt F (wa_evidence a) ''--attestation-evidence: postcard decode failed: ''
        (ev_from_bytes (sl_evidence (wt_session W)))) (\<lambda>ev.
    rbind (load_opt F (wa_sth a) ''--sth-url: JSON decode failed: '' (sth_from_json (wt_files W))) (\<lambda>sth.
    rbind (load_opt F (wa_proof a) ''--proof: JSON decode failed: '' (proof_from_json (wt_files W))) (\<lambda>pf.
    rbind (load_opt F (wa_entry a) ''--log-entry: JSON decode failed: '' (audited_from_json (wt_files W))) (\<lambda>entry.
    Inr \<lparr>in_seed = seed, in_tee_pk = tee_pk, in_prompt = prompt, in_signed = signed_rec,
         in_audit = build_inputs a ev sth pf entry proofs,
         in_pinned = snd (report_data_buf (wa_report_data a) ev)\<rparr>))))))))))"

fun WatchError_display :: "WatchError \<Rightarrow> string" where
  "WatchError_display BadSignature = ''receipt signature invalid''"
| "WatchError_display WeightCommitMismatch = ''weight commit in receipt does not match model''"
| "WatchError_display (ActivationLenMismatch g want) =
    ''receipt has '' @ dec g @ '' activation commits, expected '' @ dec want"
| "WatchError_display (BadHex e) = ''bad hex: '' @ e"
| "WatchError_display BadCommitLength = ''commit byte length != 32''"
| "WatchError_display InputMismatch = ''input hash in claim does not match the supplied prompt bytes''"

definition degraded_warning :: string where
  "degraded_warning = ''WARNING: attestation channel-binding check was degraded (no --attestation-report-data supplied; the evidence's own report_data was used as the pin)''"

fun verdict_exit :: "Verdict \<Rightarrow> nat" where
  "verdict_exit Honest = 0"
| "verdict_exit (Fraudulent i) = 1"
| "verdict_exit Partial = 3"

definition watcher_main ::
  "'r prims \<Rightarrow> ('f::comm_ring_1) watcher_lib \<Rightarrow> files \<Rightarrow> string list \<Rightarrow> FraudReport outcome option" where
  "watcher_main P W F argv =
    (case watcher_load P W F argv of
       Inl msg \<Rightarrow> Some (bail2 msg)
     | Inr i \<Rightarrow>
       (case audit_with P (wt_session W) (wt_attest W) (in_seed i) (in_tee_pk i) (in_prompt i) (in_signed i) (in_audit i) of
          None \<Rightarrow> None
        | Some (Inl e) \<Rightarrow> Some (bail2 (''audit error: '' @ WatchError_display e))
        | Some (Inr report) \<Rightarrow> Some
            \<lparr>exit_code = verdict_exit (verdict report), printed = Some report,
             complained = (if \<not> in_pinned i \<and> attestation_verified report then Some degraded_warning else None)\<rparr>))"

section \<open>Lemmas\<close>

lemma load_opt_ok:
  "load_opt F path prefix parse = Inr x \<longleftrightarrow>
    (case path of None \<Rightarrow> x = None | Some p \<Rightarrow> \<exists>y. x = Some y \<and> holds_file F p parse y)"
  by (auto simp: load_opt_def rbind_eq_Inr load_ok split: option.splits)

lemma load_receipt_ok:
  "load_receipt W F zk path = Inr (s, proofs) \<longleftrightarrow>
    (if zk then (\<exists>env. holds_file F path (envelope_from_bytes (wt_session W)) env \<and> s = signed_receipt env \<and>
        proofs = Some (zk_layer_proofs env))
     else holds_file F path (receipt_from_postcard W) s \<and> proofs = None)"
  by (auto simp: load_receipt_def rbind_eq_Inr load_ok)

text \<open>The inputs of the audit in terms of the arguments and the files they name.\<close>

definition watched ::
  "'r prims \<Rightarrow> 'f watcher_lib \<Rightarrow> files \<Rightarrow> string list \<Rightarrow> watcher_args \<Rightarrow> watcher_inputs \<Rightarrow> bool" where
  "watched P W F argv a i \<longleftrightarrow> watcher_flags P W no_watcher_args argv = Inr a \<and>
    wa_seed a = Some (in_seed i) \<and> wa_tee_pk a = Some (in_tee_pk i) \<and> wa_prompt a = Some (in_prompt i) \<and>
    (\<exists>path proofs ev sth pf entry. wa_receipt a = Some path \<and>
      load_receipt W F (wa_zk_envelope a) path = Inr (in_signed i, proofs) \<and>
      load_opt F (wa_evidence a) ''--attestation-evidence: postcard decode failed: ''
        (ev_from_bytes (sl_evidence (wt_session W))) = Inr ev \<and>
      load_opt F (wa_sth a) ''--sth-url: JSON decode failed: '' (sth_from_json (wt_files W)) = Inr sth \<and>
      load_opt F (wa_proof a) ''--proof: JSON decode failed: '' (proof_from_json (wt_files W)) = Inr pf \<and>
      load_opt F (wa_entry a) ''--log-entry: JSON decode failed: '' (audited_from_json (wt_files W)) = Inr entry \<and>
      in_audit i = build_inputs a ev sth pf entry proofs \<and> in_pinned i = snd (report_data_buf (wa_report_data a) ev))"

lemma watcher_load_ok: "watcher_load P W F argv = Inr i \<longleftrightarrow> (\<exists>a. watched P W F argv a i)"
  by (cases i) (auto simp: watcher_load_def watched_def rbind_eq_Inr ok_or_eq_Inr)

lemma watcher_exit:
  assumes "watcher_main P W F argv = Some run"
  shows "exit_code run = 2 \<longleftrightarrow> printed run = None"
    "printed run = Some report \<Longrightarrow> exit_code run = verdict_exit (verdict report)"
    "printed run = Some report \<longleftrightarrow> (\<exists>i. watcher_load P W F argv = Inr i \<and>
      audit_with P (wt_session W) (wt_attest W) (in_seed i) (in_tee_pk i) (in_prompt i) (in_signed i) (in_audit i) =
        Some (Inr report))"
proof -
  have "verdict_exit v \<noteq> 2" for v by (cases v) simp_all
  then show "exit_code run = 2 \<longleftrightarrow> printed run = None"
    using assms by (auto simp: watcher_main_def split: sum.splits option.splits)
qed (use assms in \<open>auto simp: watcher_main_def split: sum.splits option.splits\<close>)

text \<open>Which check ran on which file.\<close>

lemma watched_inclusion:
  assumes "watched P W F argv a i" "log_inclusion (in_audit i) = Some c"
  shows "\<exists>p. wa_sth a = Some p \<and> holds_file F p (sth_from_json (wt_files W)) (li_sth c)"
    "\<exists>p. wa_proof a = Some p \<and> holds_file F p (proof_from_json (wt_files W)) (li_proof c)"
    "\<exists>p. wa_entry a = Some p \<and> holds_file F p (audited_from_json (wt_files W)) (li_expected_entry c)"
    "li_expected_log_id c = wa_log_id a" "expected_logger_pk c = wa_logger_pk a"
    "sth_freshness (in_audit i) = Some \<lparr>sth_issued_at_unix = TreeHead.issued_at_unix (head (li_sth c)),
      sf_now_unix = (case wa_fresh_now a of Some n \<Rightarrow> n | None \<Rightarrow> TreeHead.issued_at_unix (head (li_sth c))),
      sf_max_age_sec = wa_fresh_max_age a\<rparr>"
  using assms by (auto simp: watched_def load_opt_ok build_inputs_def split: option.splits)

lemma watched_fields:
  assumes "watched P W F argv a i"
  shows "ai_expected_weight_commit (in_audit i) = wa_weight_commit a" "expected_session (in_audit i) = wa_session a"
    "ai_zk_layer_proofs (in_audit i) = Some ps \<Longrightarrow> wa_zk_envelope a"
  using assms by (auto simp: watched_def build_inputs_def load_receipt_ok split: if_splits)

text \<open>What an audit with the verdict \<open>Honest\<close> has checked.\<close>

lemma honest_report:
  fixes L :: "('f::comm_ring_1) session_lib"
  assumes "sha2_law P" "audit_with P L A seed pk prompt sr inputs = Some (Inr rep)" "verdict rep = Honest"
  obtains m where "Model_from_seed P (sl_fp L) seed = Some m" "receipt_verify P (receipt_bytes L) sr pk = Inr ()"
    "map (decode32 (sl_text L)) (activation_commits_hex (sr_receipt sr)) =
      map (vector_commit (sl_fp L)) (activations (Model_run m (encode_prompt_to_fp (sha256 P prompt))))"
    "fst (check_log_inclusion P (sl_text L) (log_inclusion inputs))" "fst (check_sth_freshness (sth_freshness inputs))"
    "fst (check_weight_pin (sl_text L) (weight_commit_hex (sr_receipt sr)) (ai_expected_weight_commit inputs))"
    "fst (check_session_pin (sl_text L) (r_session (sr_receipt sr)) (expected_session inputs))"
    "fst (check_zk_proofs (ai_zk_layer_proofs inputs))"
proof -
  obtain m recomputed claims where r: "Model_from_seed P (sl_fp L) seed = Some m"
    "receipt_verify P (receipt_bytes L) sr pk = Inr ()"
    "weight_commit_hex (sr_receipt sr) = hex_encode (sl_text L) (weight_commit m)"
    "map (vector_commit (sl_fp L)) (activations (Model_run m (watch_encode_prompt_to_fp (sha256 P prompt)))) =
      map Some recomputed"
    "map (decode32 (sl_text L)) (activation_commits_hex (sr_receipt sr)) = map Some claims"
    "length claims = NUM_LAYERS + 1" "length recomputed = NUM_LAYERS + 1"
    "rep = watch_report P (sl_text L) A (sr_receipt sr) claims recomputed inputs"
    by (rule audit_with_report [OF assms(2)]) (rule that)
  have d: "divergent claims recomputed = None" using assms(3) by (auto simp: r(8) split: option.splits)
  then have "claims = recomputed" using r(6,7) by (auto simp: divergent_None list_eq_iff_nth_eq)
  moreover have "watch_encode_prompt_to_fp (sha256 P prompt) = (encode_prompt_to_fp (sha256 P prompt) :: 'f list)"
    using assms(1) by (simp add: watch_encode_prompt sha2_law_def)
  ultimately have "map (decode32 (sl_text L)) (activation_commits_hex (sr_receipt sr)) =
      map (vector_commit (sl_fp L)) (activations (Model_run m (encode_prompt_to_fp (sha256 P prompt))))"
    using r(4,5) by simp
  with r(1,2) show thesis
    by (rule that) (use assms(3) d in \<open>auto simp: r(8) split: if_splits\<close>)
qed

text \<open>
  The receipt an honest service sent is never answered with the code for fraud, and
  without layer proofs it is not answered with 0 either.
\<close>

lemma cli_never_accuses:
  fixes W :: "('f::comm_ring_1) watcher_lib"
  assumes "prims_law P" "session_lib_law (wt_session W)"
    and "Model_from_seed P (sl_fp (wt_session W)) seed = Some (as_model st)"
    and "tee_weight_commit (as_identity st) = weight_commit (as_model st)"
    and "issue_receipt P (wt_session W) st tenant sid now n_in (sha256 P prompt) ss w = (Inr (), w')"
    and "watcher_flags P W no_watcher_args argv = Inr a" "wa_zk_envelope a" "wa_receipt a = Some path"
    and "wa_seed a = Some seed" "wa_tee_pk a = Some (ed25519_public P (as_receipt_key st))" "wa_prompt a = Some prompt"
    and "read_file F path = Inr (last (sent w'))"
  shows "\<exists>run. watcher_main P W F argv = Some run \<and> (case watcher_load P W F argv of
    Inl msg \<Rightarrow> exit_code run = 2
  | Inr i \<Rightarrow> exit_code run \<in> {0, 3} \<and> (as_layer_prover st = None \<longrightarrow> exit_code run = 3))"
proof (cases "watcher_load P W F argv")
  case (Inl msg)
  then show ?thesis by (simp add: watcher_main_def bail2_def)
next
  case (Inr i)
  let ?L = "wt_session W"
  obtain env e rep where audit: "sent w' = sent w @ [env]" "envelope_from_bytes ?L env = Inr e"
    "zk_layer_proofs e = layer_proofs st (Model_run (as_model st) (encode_prompt_to_fp (sha256 P prompt))) sid"
    "audit_with P ?L (wt_attest W) seed (ed25519_public P (as_receipt_key st)) prompt (signed_receipt e)
      (in_audit i) = Some (Inr rep)" "verdict rep = Honest \<or> verdict rep = Partial"
    using issued_receipt_audits [OF assms(1-5), of "wt_attest W" "in_audit i"] by blast
  have w: "watched P W F argv a i" using Inr assms(6) unfolding watcher_load_ok watched_def by auto
  then have i: "in_seed i = seed" "in_tee_pk i = ed25519_public P (as_receipt_key st)" "in_prompt i = prompt"
    "in_signed i = signed_receipt e" "ai_zk_layer_proofs (in_audit i) = Some (zk_layer_proofs e)"
    using assms(7-12) audit(1,2) by (auto simp: watched_def load_receipt_ok holds_file_def build_inputs_def)
  have "verdict rep = Partial" if none: "as_layer_prover st = None"
  proof (rule ccontr)
    assume "verdict rep \<noteq> Partial"
    then have h: "verdict rep = Honest" using audit(5) by simp
    have "sha2_law P" using assms(1) by (simp add: prims_law_def)
    then have "fst (check_zk_proofs (ai_zk_layer_proofs (in_audit i)))"
      by (rule honest_report [OF _ audit(4) h])
    then show False using none audit(3) unfolding checks_pass i(5) by (simp add: layer_proofs_def NUM_LAYERS_def)
  qed
  then show ?thesis using Inr i audit(4,5) by (auto simp: watcher_main_def)
qed

section \<open>Properties\<close>


text \<open>A sample run: every file and flag given, and a receipt of the echo service.\<close>

lemma parse_hex_encode:
  "hex_law (wt_text W) \<Longrightarrow> length b = n \<Longrightarrow> parse_hex n W flag (hex_encode (wt_text W) b) = Inr b"
  by (simp add: parse_hex_def hex_law_def)

definition sample_seed :: bytes where "sample_seed = replicate 32 0"

definition seeded_model :: "int Model" where
  "seeded_model = the (Model_from_seed model_prims sample_fp sample_seed)"

definition seeded_service :: "int AppState" where
  "seeded_service = sample_state\<lparr>as_model := seeded_model,
    as_identity := sample_identity\<lparr>tee_weight_commit := weight_commit seeded_model\<rparr>\<rparr>"

definition sample_watcher :: "attest_lib \<Rightarrow> int watcher_lib" where
  "sample_watcher A = \<lparr>wt_session = model_session_lib, wt_attest = A, wt_files = sample_auditor,
    receipt_from_postcard = (\<lambda>_. Inl [])\<rparr>"

definition watch_files :: "bytes \<Rightarrow> bytes \<Rightarrow> files" where
  "watch_files env ev = \<lparr>lstat = (\<lambda>_. Inr RegularFile),
    read_file = (\<lambda>p. Inr (if p = ''receipt'' then env else if p = ''evidence'' then ev else [of_nat (length p)]))\<rparr>"

definition watch_argv :: "bytes \<Rightarrow> string list" where
  "watch_argv key = [''--model-seed'', hex_of sample_seed, ''--tee-pk'', hex_of (ed25519_public model_prims key),
    ''--prompt'', ''hi'', ''--receipt'', ''receipt'', ''--zk-envelope'', ''--attestation-evidence'', ''evidence'',
    ''--sth-url'', ''a'', ''--proof'', ''aa'', ''--log-entry'', ''aaa'',
    ''--expected-weight-commit'', hex_of (weight_commit seeded_model), ''--expected-session'', hex_of (replicate 16 1)]"

lemma seeded_model_from_seed: "Model_from_seed model_prims sample_fp sample_seed = Some seeded_model"
proof -
  have "fp_read_law sample_fp" by (simp add: fp_read_law_def model_session_lib_def)
  then show ?thesis
    using Model_from_seed_total model_prims_law unfolding seeded_model_def prims_law_def by (metis option.sel)
qed

lemma seeded_weight_commit: "length (weight_commit seeded_model) = 32"
  using Model_weight_commit_length [OF seeded_model_from_seed] model_prims_law by (simp add: prims_law_def)

lemma watch_argv_flags:
  "watcher_flags model_prims (sample_watcher A) no_watcher_args (watch_argv key) = Inr
    \<lparr>wa_seed = Some sample_seed, wa_tee_pk = Some (ed25519_public model_prims key), wa_prompt = Some (str_bytes ''hi''),
     wa_receipt = Some ''receipt'', wa_evidence = Some ''evidence'', wa_report_data = None, wa_att_now = None,
     wa_att_max_age = 600, wa_sth = Some ''a'', wa_proof = Some ''aa'', wa_entry = Some ''aaa'', wa_log_id = None,
     wa_logger_pk = None, wa_fresh_now = None, wa_fresh_max_age = 600,
     wa_weight_commit = Some (weight_commit seeded_model), wa_session = Some (replicate 16 1), wa_zk_envelope = True\<rparr>"
proof -
  let ?W = "sample_watcher A"
  have J: "wt_text ?W = model_codecs" by (simp add: sample_watcher_def model_session_lib_def)
  have enc: "hex_encode model_codecs = hex_of" by (simp add: model_codecs_def)
  have pk: "length (ed25519_public model_prims key) = 32" "ed25519_valid model_prims (ed25519_public model_prims key)"
    using model_ed25519_law by (simp_all add: ed25519_law_def)
  have hex: "parse_hex n ?W flag (hex_of b) = Inr b" if "length b = n" for n flag b
    using parse_hex_encode [of ?W b n flag] that model_hex_law by (simp add: J enc)
  show ?thesis
    using pk seeded_weight_commit
    by (simp add: watch_argv_def no_watcher_args_def flag_action_def resolve_sth_path_def starts_with_def hex
        sample_seed_def)
qed

lemma sample_watch_receipt:
  obtains rec env tc where
    "Trace_commits sample_fp (Model_run seeded_model (encode_prompt_to_fp (sha256 model_prims (str_bytes ''hi'')))) = Some tc"
    "receipt_verify model_prims (receipt_bytes model_session_lib) rec (ed25519_public model_prims [7]) = Inr ()"
    "weight_commit_hex (sr_receipt rec) = hex_of (weight_commit seeded_model)"
    "activation_commits_hex (sr_receipt rec) = map hex_of (tc_bytes tc)" "r_session (sr_receipt rec) = replicate 16 1"
    "envelope_from_bytes model_session_lib env = Inr \<lparr>signed_receipt = rec, zk_layer_proofs = replicate NUM_LAYERS []\<rparr>"
proof -
  let ?st = seeded_service and ?ih = "sha256 model_prims (str_bytes ''hi'')" and ?L = model_session_lib
  let ?w = "server_world [] 5 (fst (TenantPool_random model_prims 9))"
  have st: "as_model ?st = seeded_model" "as_receipt_key ?st = [7]"
    "tee_weight_commit (as_identity ?st) = weight_commit seeded_model"
    by (simp_all add: seeded_service_def sample_state_def)
  obtain ss :: TeeSession where "True" by blast
  have "length (tee_weight_commit (as_identity ?st)) = 32" using seeded_weight_commit by (simp add: st)
  moreover have "layers_complete ?L ?st None" by (simp add: layers_complete_def)
  moreover have "all_flushed ?w" by (simp add: all_flushed_def server_world_def)
  ultimately obtain w' where "issue_receipt model_prims ?L ?st (TenantId ''t'') (replicate 16 1) 5 1 ?ih ss ?w = (Inr (), w')"
    by (rule receipt_accepted [OF model_prims_law model_session_lib_law]) blast
  then obtain tc env rec where i: "Trace_commits sample_fp (Model_run (as_model ?st) (encode_prompt_to_fp ?ih)) = Some tc"
    "receipt_sign model_prims (receipt_bytes ?L) (as_receipt_key ?st)
      (session_receipt model_prims ?L ?st (TenantId ''t'') (replicate 16 1) 5 1 ?ih (tc_bytes tc) ss) = Inr rec"
    by (rule issue_receipt_sent) (rule that)
  let ?r = "session_receipt model_prims ?L ?st (TenantId ''t'') (replicate 16 1) 5 1 ?ih (tc_bytes tc) ss"
  have rec: "receipt_ok ?r" "rec = \<lparr>sr_receipt = ?r, sr_signature = ed25519_sign model_prims [7] (receipt_bytes ?L ?r)\<rparr>"
    using i(2) by (simp_all add: receipt_sign_iff st split: if_splits)
  have hex: "hex_encode (sl_text ?L) = hex_of" by (simp add: model_session_lib_def model_codecs_def)
  obtain env' where "envelope_from_bytes ?L env' = Inr \<lparr>signed_receipt = rec, zk_layer_proofs = replicate NUM_LAYERS []\<rparr>"
    using model_session_lib_law unfolding session_lib_law_def by blast
  moreover have "receipt_verify model_prims (receipt_bytes ?L) rec (ed25519_public model_prims [7]) = Inr ()"
    using rec model_ed25519_law by (simp add: receipt_verify_iff ed25519_law_def)
  moreover have "weight_commit_hex (sr_receipt rec) = hex_of (weight_commit seeded_model)"
    "activation_commits_hex (sr_receipt rec) = map hex_of (tc_bytes tc)" "r_session (sr_receipt rec) = replicate 16 1"
    using rec(2) st(3) by (simp_all add: session_receipt_def Let_def hex)
  ultimately show thesis using that [of tc rec env'] i(1) by (simp add: st)
qed

definition unsigned_evidence :: "bytes \<Rightarrow> bytes \<Rightarrow> u64 \<Rightarrow> Evidence" where
  "unsigned_evidence rd td t = \<lparr>cpu_quote_kind = QK_Tdx, cpu_quote = synthesize_quote rd td, gpu_quote = [],
    cert_chain = [], ev_report_data = rd, issued_at_unix = t\<rparr>"

lemma unsigned_evidence_fields [simp]:
  "ev_report_data (unsigned_evidence rd td t) = rd" "Evidence.issued_at_unix (unsigned_evidence rd td t) = t"
  by (simp_all add: unsigned_evidence_def)

lemma unsigned_evidence_passes:
  assumes "length rd = 64" "length td = 48" "unat now \<le> unat t + unat age"
  shows "RealVerifier_verify A \<lparr>rv_policy = MeasurementPolicy_default, check_signatures = False\<rparr>
    (unsigned_evidence rd td t) \<lparr>expected_report_data = rd, now_unix = now, max_age_sec = age\<rparr> = Inr ()"
proof -
  obtain q where q: "TdxQuote_parse (synthesize_quote rd td) = Inr q" "tdx_report_data q = rd"
    using synthesize_quote_parses [of rd td] assms(1,2) by auto
  then have "q = tdx_at (synthesize_quote rd td)" by (simp add: TdxQuote_parse_iff)
  then show ?thesis
    using q assms(3)
    by (auto simp: RealVerifier_verify_iff unsigned_evidence_def fresh_iff real_check_tdx_iff real_check_gpu_def
        MeasurementPolicy_default_def tdx_at_def td_report_at_def tdx_report_data_def)
qed

lemma sample_watch_run:
  "\<exists>F run. watcher_main model_prims (sample_watcher A) F (watch_argv [7]) = Some run \<and> exit_code run = 0"
proof -
  let ?P = model_prims and ?W = "sample_watcher A" and ?L = model_session_lib and ?J = model_codecs
  have W: "wt_session ?W = ?L" "wt_attest ?W = A" "wt_files ?W = sample_auditor" "wt_text ?W = ?J" "sl_text ?L = ?J"
    by (simp_all add: sample_watcher_def model_session_lib_def)
  obtain rec env tc where rec:
    "Trace_commits sample_fp (Model_run seeded_model (encode_prompt_to_fp (sha256 ?P (str_bytes ''hi'')))) = Some tc"
    "receipt_verify ?P (receipt_bytes ?L) rec (ed25519_public ?P [7]) = Inr ()"
    "weight_commit_hex (sr_receipt rec) = hex_of (weight_commit seeded_model)"
    "activation_commits_hex (sr_receipt rec) = map hex_of (tc_bytes tc)" "r_session (sr_receipt rec) = replicate 16 1"
    "envelope_from_bytes ?L env = Inr \<lparr>signed_receipt = rec, zk_layer_proofs = replicate NUM_LAYERS []\<rparr>"
    by (rule sample_watch_receipt) (rule that)
  let ?e = "unsigned_evidence (replicate 64 0) (replicate 48 0) 0"
  obtain ev where ev: "ev_from_bytes (sl_evidence ?L) ev = Inr ?e"
    using model_session_lib_law unfolding session_lib_law_def evidence_codec_law_def by blast
  let ?F = "watch_files env ev"
  have files: "holds_file ?F ''receipt'' (envelope_from_bytes ?L) \<lparr>signed_receipt = rec, zk_layer_proofs = replicate NUM_LAYERS []\<rparr>"
    "holds_file ?F ''evidence'' (ev_from_bytes (sl_evidence ?L)) ?e"
    "holds_file ?F ''a'' (sth_from_json sample_auditor) sample_sth"
    "holds_file ?F ''aa'' (proof_from_json sample_auditor) (sample_proof sample_log 1)"
    "holds_file ?F ''aaa'' (audited_from_json sample_auditor) (sample_entry 1)"
    using rec(6) ev by (simp_all add: holds_file_def watch_files_def sample_auditor_def)
  obtain i where i: "watcher_load ?P ?W ?F (watch_argv [7]) = Inr i" "in_signed i = rec" "in_seed i = sample_seed"
    "in_tee_pk i = ed25519_public ?P [7]" "in_prompt i = str_bytes ''hi''"
    "ai_attestation (in_audit i) = Some \<lparr>ac_evidence = ?e, ac_policy = MeasurementPolicy_default,
      ac_expected_report_data = replicate 64 0, ac_now_unix = 0, ac_max_age_sec = 600, require_signature_check = False\<rparr>"
    "log_inclusion (in_audit i) = Some \<lparr>li_sth = sample_sth, li_proof = sample_proof sample_log 1,
      li_expected_entry = sample_entry 1, li_expected_log_id = None, expected_logger_pk = None\<rparr>"
    "\<exists>t. sth_freshness (in_audit i) = Some \<lparr>sth_issued_at_unix = t, sf_now_unix = t, sf_max_age_sec = 600\<rparr>"
    "ai_expected_weight_commit (in_audit i) = Some (weight_commit seeded_model)"
    "expected_session (in_audit i) = Some (replicate 16 1)"
    "ai_zk_layer_proofs (in_audit i) = Some (replicate NUM_LAYERS [])"
    using files
    by (auto simp: watcher_load_def watch_argv_flags W load_receipt_def load_opt_def build_inputs_def
        report_data_buf_def unsigned_evidence_def load_ok [THEN iffD2])
  have laws: "sha2_law ?P" "hex_law (sl_text ?L)" "\<forall>x. length (fp_to_repr sample_fp x) = 32"
    using model_prims_law model_session_lib_law by (simp_all add: prims_law_def session_lib_law_def)
  have hex: "hex_encode ?J = hex_of" by (simp add: model_codecs_def)
  obtain rep where rep: "audit_with ?P ?L A sample_seed (ed25519_public ?P [7]) (str_bytes ''hi'') rec (in_audit i) =
      Some (Inr rep)" "activations_consistent rep"
    using audit_honest [OF laws seeded_model_from_seed rec(2) _ rec(1)] rec(3,4) by (auto simp: W hex)
  obtain m recomputed claims where r: "rep = watch_report ?P ?J A (sr_receipt rec) claims recomputed (in_audit i)"
    by (rule audit_with_report [OF rep(1)]) (simp add: W that)
  have "verify_inclusion_against_head ?P ?J sample_sth (sample_proof sample_log 1) (sample_entry 1) None None = Inr ()"
    using sample_audit unfolding audit_ok_iff by simp
  then have "fst (check_log_inclusion ?P ?J (log_inclusion (in_audit i)))"
    unfolding checks_pass i(7) by simp
  moreover have "fst (check_attestation A (ai_attestation (in_audit i)))"
    unfolding checks_pass i(6) using unsigned_evidence_passes [of "replicate 64 0" "replicate 48 0" 0 0 600 A] by simp
  moreover have "fst (check_sth_freshness (sth_freshness (in_audit i)))" using i(8) unfolding checks_pass by auto
  ultimately have "verdict rep = Honest"
    using rep(2) checks_pass(3) i(9-11) rec(3,5) unfolding r by (simp add: checks_pass(5-7) hex)
  then have "watcher_main ?P ?W ?F (watch_argv [7]) \<noteq> None \<and> (\<forall>run. watcher_main ?P ?W ?F (watch_argv [7]) = Some run \<longrightarrow> exit_code run = 0)"
    using rep(1) i(1-5) by (simp add: watcher_main_def W)
  then show ?thesis by blast
qed


text \<open>
  C38. The attestation check of the command line is passed by evidence nobody signed.
  For any expected report data, measurement and time, the quote assembled from
  zeros and these fields makes the check pass, with the report data pinned or not,
  whatever the other arguments: the command line fixes an empty measurement policy
  and no signature check.
\<close>

theorem watcher_accepts_unsigned_evidence:
  assumes "length rd = 64" "length td = 48"
    and "wa_report_data a = Some rd \<or> wa_report_data a = None"
    and "\<forall>n. wa_att_now a = Some n \<longrightarrow> unat n \<le> unat t + unat (wa_att_max_age a)"
  shows "fst (check_attestation A (ai_attestation
    (build_inputs a (Some (unsigned_evidence rd td t)) sth pf entry proofs)))"
proof -
  have "unat (case wa_att_now a of Some n \<Rightarrow> n | None \<Rightarrow> t) \<le> unat t + unat (wa_att_max_age a)"
    using assms(4) by (cases "wa_att_now a") auto
  from unsigned_evidence_passes [OF assms(1,2) this, of A] show ?thesis
    using assms(3) unfolding checks_pass
    by (cases "wa_att_now a") (auto simp: build_inputs_def report_data_buf_def)
qed

theorem watcher_accepts_unsigned_evidence_witness:
  "\<forall>A. fst (check_attestation A (ai_attestation
    (build_inputs no_watcher_args (Some (unsigned_evidence (replicate 64 5) (replicate 48 9) 7)) None None None None)))"
proof
  fix A
  show "fst (check_attestation A (ai_attestation
      (build_inputs no_watcher_args (Some (unsigned_evidence (replicate 64 5) (replicate 48 9) 7)) None None None None)))"
    by (rule watcher_accepts_unsigned_evidence) (simp_all add: no_watcher_args_def)
qed

end
