(* ===== verification/Tee_Server.thy ===== *)
theory Tee_Server
  imports Gateway_Server Watcher_Cli
begin

text \<open>
  The routers of \<open>ullm-tee/service.rs\<close> with the metrics text and the development
  keys, and \<open>ullm-tee/bin/server.rs\<close>: how the service starts from its environment,
  and when it exits after a signal.  The random generator is threaded through the draws of
  the identity, the receipt key and the master secret in the order of the source;
  the outer \<open>None\<close> of the start is the panic of drawing the model.

  Shown: a service that has started holds the model of its seed and an identity
  that commits to it, and the watcher, run on a receipt of such a service, never
  answers that it cheated.
\<close>

section \<open>service.rs: the routers\<close>

datatype tee_route = R_Healthz | R_Attest | R_Stream | R_DevKeys | R_Metrics

text \<open>\<open>None\<close> is the answer 404; \<open>dev_keys\<close> is the feature of that name.\<close>

definition tee_router :: "bool \<Rightarrow> string \<Rightarrow> tee_route option" where
  "tee_router dev_keys path =
    (if path = ''/v1/healthz'' then Some R_Healthz
     else if path = ''/v1/attest'' then Some R_Attest
     else if path = ''/v1/stream'' then Some R_Stream
     else if path = ''/v1/devkeys'' \<and> dev_keys then Some R_DevKeys
     else None)"

definition tee_metrics_router :: "environment \<Rightarrow> string \<Rightarrow> string option \<Rightarrow> tee_route option" where
  "tee_metrics_router env path auth =
    (let token = (case env ''ULLM_METRICS_TOKEN'' of Some s \<Rightarrow> if s \<noteq> [] then Some s else None | None \<Rightarrow> None) in
     if path = ''/metrics'' then
       (case token of
          Some want \<Rightarrow> if metrics_auth_gate want auth then Some R_Metrics else None
        | None \<Rightarrow> Some R_Metrics)
     else if path = ''/v1/healthz'' then Some R_Healthz
     else None)"

definition tee_metrics_body :: "TenantPool \<Rightarrow> NonceState \<Rightarrow> string" where
  "tee_metrics_body pool reg =
    (let nl = [CHR 0x0A] in
       ''# HELP ullm_tee_protocol_version Wire protocol version this binary speaks.'' @ nl
     @ ''# TYPE ullm_tee_protocol_version gauge'' @ nl
     @ ''ullm_tee_protocol_version '' @ dec (unat PROTOCOL_VERSION) @ nl
     @ ''# HELP ullm_tee_nonce_registry_size Live attestation-nonce-replay tracker size.'' @ nl
     @ ''# TYPE ullm_tee_nonce_registry_size gauge'' @ nl
     @ ''ullm_tee_nonce_registry_size '' @ dec (length (seen reg)) @ nl
     @ ''# HELP ullm_tee_tenant_pool_size Live tenant-state count.'' @ nl
     @ ''# TYPE ullm_tee_tenant_pool_size gauge'' @ nl
     @ ''ullm_tee_tenant_pool_size '' @ dec (tenant_count pool) @ nl)"

definition devkeys :: "'r prims \<Rightarrow> codecs \<Rightarrow> 'f AppState \<Rightarrow> (string \<times> string) list" where
  "devkeys P J st =
    [(''trust_root_hex'', hex_encode J (MockIssuer_verifying_key P (attest_issuer (as_identity st)))),
     (''tee_receipt_pk_hex'', hex_encode J (ed25519_public P (as_receipt_key st))),
     (''weight_commit_hex'', hex_encode J (tee_weight_commit (as_identity st)))]"

section \<open>bin/server.rs\<close>

text \<open>The seed of the model: a value that is not 32 hexadecimal bytes counts as absent.\<close>

definition model_seed_from_env :: "codecs \<Rightarrow> environment \<Rightarrow> bytes" where
  "model_seed_from_env J env =
    (case Option.bind (env ''ULLM_MODEL_SEED'') (hex_decode J) of
       Some v \<Rightarrow> if length v = 32 then v else replicate 32 0
     | None \<Rightarrow> replicate 32 0)"

record tee_os =
  protocol_bind_ok :: bool
  mgmt_bind_ok :: bool
  tee_signals_ok :: bool

record 'f tee_booted =
  tb_state :: "'f AppState"
  tb_tenants :: TenantPool
  tb_nonces :: NonceState
  tb_addr :: string
  tb_metrics_addr :: SocketAddr

definition mock_engine :: "bytes \<Rightarrow> TokenChunk list" where
  "mock_engine prompt =
    (case MockEngine_run MockEngine_default prompt of Some (chunks, _) \<Rightarrow> chunks | None \<Rightarrow> [])"

definition initial_state ::
  "'r prims \<Rightarrow> 'f Model \<Rightarrow> 'r \<Rightarrow> 'f AppState \<times> TenantPool \<times> NonceState \<times> 'r" where
  "initial_state P model gen =
    (let (identity, gen) = TeeIdentity_random P gen (weight_commit model);
         (receipt_key, gen) = rng_fill P 32 gen;
         (pool, gen) = TenantPool_random P gen
     in (\<lparr>as_identity = identity, as_engine = mock_engine, as_receipt_key = receipt_key,
          as_model_name = ''mock-llama-3.1-70b'', as_model = model, as_layer_prover = None\<rparr>,
         pool, NonceRegistry_new, gen))"

definition tee_boot ::
  "'r prims \<Rightarrow> 'f session_lib \<Rightarrow> (string \<Rightarrow> SocketAddr option) \<Rightarrow> environment \<Rightarrow> tee_os \<Rightarrow> 'r
   \<Rightarrow> (boot_error + 'f tee_booted) option" where
  "tee_boot P L parse env os gen =
    (case rbind (addr_from_env parse env ''ULLM_TEE_METRICS_ADDR'' ''127.0.0.1:9101'') (\<lambda>m.
            map_err MetricsRefused (validate_metrics_addr env m ''ULLM_TEE_METRICS_ADDR'')) of
       Inl e \<Rightarrow> Some (Inl e)
     | Inr metrics_addr \<Rightarrow>
       (case Model_from_seed P (sl_fp L) (model_seed_from_env (sl_text L) env) of
          None \<Rightarrow> None
        | Some model \<Rightarrow>
            let (st, pool, nonces, gen) = initial_state P model gen in Some (
            rbind (guard_err (\<not> protocol_bind_ok os) BindFailed) (\<lambda>_.
            rbind (guard_err (\<not> mgmt_bind_ok os) BindFailed) (\<lambda>_.
            rbind (guard_err (\<not> tee_signals_ok os) SignalSetup) (\<lambda>_.
            Inr \<lparr>tb_state = st, tb_tenants = pool, tb_nonces = nonces,
                 tb_addr = env_or env ''ULLM_TEE_ADDR'' ''127.0.0.1:9001'', tb_metrics_addr = metrics_addr\<rparr>))))))"

text \<open>
  The end of \<open>main\<close>: both listeners have drained, or the deadline after the signal
  has passed.  Times in seconds; \<open>None\<close> is an event that never comes.
\<close>

definition SHUTDOWN_DEADLINE :: nat where "SHUTDOWN_DEADLINE = 30"

fun later_of :: "nat option \<Rightarrow> nat option \<Rightarrow> nat option" where
  "later_of (Some a) (Some b) = Some (max a b)"
| "later_of _ _ = None"

fun first_of :: "nat option \<Rightarrow> nat option \<Rightarrow> nat option" where
  "first_of (Some a) (Some b) = Some (min a b)"
| "first_of (Some a) None = Some a"
| "first_of None b = b"

definition tee_exit_time :: "nat option \<Rightarrow> nat option \<Rightarrow> nat option \<Rightarrow> nat option" where
  "tee_exit_time signal protocol_served mgmt_served =
    first_of (later_of protocol_served mgmt_served) (map_option (\<lambda>t. t + SHUTDOWN_DEADLINE) signal)"

section \<open>Lemmas\<close>

lemma TeeIdentity_random_commit: "tee_weight_commit (fst (TeeIdentity_random P gen wc)) = wc"
  by (simp add: TeeIdentity_random_def Let_def case_prod_beta)

lemma initial_state_fields:
  assumes "initial_state P model gen = (st, pool, nonces, gen')"
  shows "as_model st = model" "as_layer_prover st = None" "nonces = NonceRegistry_new"
    "\<exists>gen. pool = fst (TenantPool_random P gen)"
    "as_identity st = fst (TeeIdentity_random P gen (weight_commit model))" "as_engine st = mock_engine"
  using assms by (auto simp: initial_state_def Let_def case_prod_beta)

lemma tee_boot_fields:
  assumes "tee_boot P L parse env os gen = Some (Inr b)"
  shows "Model_from_seed P (sl_fp L) (model_seed_from_env (sl_text L) env) = Some (as_model (tb_state b))"
    "as_layer_prover (tb_state b) = None" "tb_nonces b = NonceRegistry_new"
    "\<exists>gen. tb_tenants b = fst (TenantPool_random P gen)"
    "as_identity (tb_state b) = fst (TeeIdentity_random P gen (weight_commit (as_model (tb_state b))))"
    "as_engine (tb_state b) = mock_engine"
proof -
  obtain model where m: "Model_from_seed P (sl_fp L) (model_seed_from_env (sl_text L) env) = Some model"
    using assms by (cases "Model_from_seed P (sl_fp L) (model_seed_from_env (sl_text L) env)")
      (simp_all add: tee_boot_def split: sum.splits)
  obtain st pool nonces gen' where i: "initial_state P model gen = (st, pool, nonces, gen')" by (rule prod_cases4)
  have "tb_state b = st" "tb_tenants b = pool" "tb_nonces b = nonces"
    using assms by (auto simp: tee_boot_def m i rbind_eq_Inr split: sum.splits)
  then show "Model_from_seed P (sl_fp L) (model_seed_from_env (sl_text L) env) = Some (as_model (tb_state b))"
    "as_layer_prover (tb_state b) = None" "tb_nonces b = NonceRegistry_new"
    "\<exists>gen. tb_tenants b = fst (TenantPool_random P gen)"
    "as_identity (tb_state b) = fst (TeeIdentity_random P gen (weight_commit (as_model (tb_state b))))"
    "as_engine (tb_state b) = mock_engine"
    using m initial_state_fields [OF i] by simp_all
qed

text \<open>What the protocol's theorems ask of the service and its stores holds when it starts.\<close>

lemma tee_boot_invariants:
  assumes "tee_boot P L parse env os gen = Some (Inr b)" "sha2_law P"
  shows "identity_ok P (as_identity (tb_state b))" "pool_inv P (tb_tenants b)" "nonce_inv (tb_nonces b)"
proof -
  note b = tee_boot_fields [OF assms(1)]
  have "length (weight_commit (as_model (tb_state b))) = 32" by (rule Model_weight_commit_length [OF b(1) assms(2)])
  then show "identity_ok P (as_identity (tb_state b))" unfolding b(5) by (rule TeeIdentity_random_ok)
  obtain gen' where "tb_tenants b = fst (TenantPool_random P gen')" using b(4) by blast
  then show "pool_inv P (tb_tenants b)" by (simp add: pool_inv_new)
  show "nonce_inv (tb_nonces b)" unfolding b(3) by (rule nonce_inv_new)
qed

text \<open>The engine a service is started with returns on every prompt.\<close>

lemma mock_engine_returns:
  "MockEngine_run MockEngine_default prompt = Some (mock_engine prompt, False)"
  by (simp add: mock_engine_def MockEngine_run_def MockEngine_default_def chunked_def chunked_from_pieces)

text \<open>The chunks of the echo engine fit a record.\<close>

lemma from_utf8_lossy_length: "length (from_utf8_lossy bs) \<le> 3 * length bs"
proof (induction bs rule: from_utf8_lossy.induct)
  case (1 bs)
  show ?case
  proof (cases "bs = []")
    case True
    then show ?thesis by (simp add: from_utf8_lossy.simps)
  next
    case False
    let ?n = "fst (utf8_step bs)"
    have "0 < ?n" by (simp add: utf8_step_pos)
    moreover have "snd (utf8_step bs) \<Longrightarrow> ?n \<le> length bs" using utf8_step_le False by blast
    moreover have "length REPLACEMENT_CHARACTER = 3" by (simp add: REPLACEMENT_CHARACTER_def)
    moreover have "3 + 3 * (length bs - ?n) \<le> 3 * length bs" using \<open>0 < ?n\<close> False by (cases bs) auto
    ultimately show ?thesis
      using 1 [OF False] False by (subst from_utf8_lossy.simps) auto
  qed
qed

lemma mock_engine_pieces:
  "mock_engine prompt = map (\<lambda>x. synth_chunk (from_utf8_lossy x)) (pieces 16 (echo prompt))"
  using mock_engine_returns [of prompt]
  by (simp add: MockEngine_run_def MockEngine_default_def chunked_def chunked_from_pieces comp_def)

lemma mock_engine_chunks:
  assumes "utf8_valid prompt" "ch \<in> set (mock_engine prompt)"
  shows "utf8_valid (tc_text ch)" "length (tc_text ch) \<le> MAX_PLAINTEXT_PER_RECORD"
proof -
  show "utf8_valid (tc_text ch)" using MockEngine_run_texts_valid [OF mock_engine_returns assms] by simp
  obtain x where "x \<in> set (pieces 16 (echo prompt))" "tc_text ch = from_utf8_lossy x"
    using assms(2) by (auto simp: mock_engine_pieces synth_chunk_def)
  then have "length (tc_text ch) \<le> 48"
    using pieces_length from_utf8_lossy_length [of x] by fastforce
  then show "length (tc_text ch) \<le> MAX_PLAINTEXT_PER_RECORD" by (simp add: MAX_PLAINTEXT_PER_RECORD_def)
qed

lemma mock_engine_echo:
  assumes "list_all (\<lambda>b. b < 0x80) prompt"
  shows "concat (map tc_text (mock_engine prompt)) = str_bytes ''echo: '' @ prompt"
proof -
  have "list_all (\<lambda>b. b < 0x80) (echo prompt)" using assms by (simp add: echo_def str_bytes_def)
  then have "from_utf8_lossy x = x" if "x \<in> set (pieces 16 (echo prompt))" for x
    using pieces_length [OF that] by (intro from_utf8_lossy_id utf8_valid_ascii) (auto simp: list_all_iff)
  then have "map tc_text (mock_engine prompt) = pieces 16 (echo prompt)"
    by (auto simp: mock_engine_pieces synth_chunk_def intro: map_idI)
  then show ?thesis by (simp add: concat_pieces echo_def)
qed

text \<open>
  The metrics are never on the listener of the protocol, and on the other one they
  are behind the token whenever one is set.
\<close>

lemma metrics_guarded:
  "tee_router dev_keys path \<noteq> Some R_Metrics"
  "tee_metrics_router env path auth = Some R_Metrics \<longleftrightarrow> path = ''/metrics'' \<and>
    (\<forall>token. env ''ULLM_METRICS_TOKEN'' = Some token \<longrightarrow> token \<noteq> [] \<longrightarrow>
      (\<exists>header. auth = Some header \<and> parse_bearer_credential header = Some token))"
  by (auto simp: tee_router_def tee_metrics_router_def metrics_auth_gate_def Let_def bind_eq_Some_conv
      split: option.splits if_splits)

text \<open>After a signal the process exits within the deadline, however long a connection stays open.\<close>

lemma tee_exits_by_deadline:
  "\<exists>t. tee_exit_time (Some s) p m = Some t \<and> t \<le> s + SHUTDOWN_DEADLINE"
  "tee_exit_time None p m = Some t \<Longrightarrow> p \<noteq> None \<and> m \<noteq> None"
proof -
  show "\<exists>t. tee_exit_time (Some s) p m = Some t \<and> t \<le> s + SHUTDOWN_DEADLINE"
    by (cases "later_of p m") (simp_all add: tee_exit_time_def)
  show "tee_exit_time None p m = Some t \<Longrightarrow> p \<noteq> None \<and> m \<noteq> None"
    by (cases p; cases m) (simp_all add: tee_exit_time_def)
qed

section \<open>Properties\<close>

text \<open>
  C9. A service started from its environment is never accused.  Start the service
  with any environment, and let it issue a receipt for a prompt.  Run the watcher
  on the bytes it sent with the seed of that environment, the receipt key of the
  service and the prompt, and with any further flags and files.  Then it exits with
  2 when a file or flag is unusable and with 3, the code for a partial
  verification, in every other case: never with 1, the code for fraud, and never
  with 0, since the started service has no prover for its layers.
\<close>

theorem booted_service_never_accused:
  fixes W :: "('f::comm_ring_1) watcher_lib"
  assumes "prims_law P" "session_lib_law (wt_session W)"
    and "tee_boot P (wt_session W) parse env os gen = Some (Inr b)"
    and "issue_receipt P (wt_session W) (tb_state b) tenant sid now n_in (sha256 P prompt) ss w = (Inr (), w')"
    and "watcher_flags P W no_watcher_args argv = Inr a" "wa_zk_envelope a" "wa_receipt a = Some path"
    and "wa_seed a = Some (model_seed_from_env (sl_text (wt_session W)) env)"
    and "wa_tee_pk a = Some (ed25519_public P (as_receipt_key (tb_state b)))" "wa_prompt a = Some prompt"
    and "read_file F path = Inr (last (sent w'))"
  shows "\<exists>run. watcher_main P W F argv = Some run \<and>
    exit_code run = (case watcher_load P W F argv of Inl _ \<Rightarrow> 2 | Inr _ \<Rightarrow> 3)"
proof -
  note b = tee_boot_fields [OF assms(3)]
  have "tee_weight_commit (as_identity (tb_state b)) = weight_commit (as_model (tb_state b))"
    unfolding b(5) by (rule TeeIdentity_random_commit)
  then obtain run where "watcher_main P W F argv = Some run" "case watcher_load P W F argv of
      Inl msg \<Rightarrow> exit_code run = 2
    | Inr i \<Rightarrow> exit_code run \<in> {0, 3} \<and> (as_layer_prover (tb_state b) = None \<longrightarrow> exit_code run = 3)"
    using cli_never_accuses [OF assms(1,2) b(1) _ assms(4-11)] by blast
  then show ?thesis using b(2) by (intro exI [of _ run]) (simp split: sum.splits)
qed

definition tee_env :: environment where
  "tee_env = [''ULLM_MODEL_SEED'' \<mapsto> hex_of sample_seed]"

abbreviation sample_tee_boot :: "(boot_error + int tee_booted) option" where
  "sample_tee_boot \<equiv> tee_boot model_prims model_session_lib (\<lambda>_. Some \<lparr>sa_ip = V4 0x7F000001, sa_port = 9101\<rparr>) tee_env
    \<lparr>protocol_bind_ok = True, mgmt_bind_ok = True, tee_signals_ok = True\<rparr> 0"

lemma sample_tee_seed: "model_seed_from_env (sl_text model_session_lib) tee_env = sample_seed"
  by (simp add: model_seed_from_env_def tee_env_def model_session_lib_def model_codecs_def of_hex_hex_of sample_seed_def)

lemma sample_tee_boots: "\<exists>b. sample_tee_boot = Some (Inr b)"
proof -
  obtain st pool nonces gen' where "initial_state model_prims seeded_model 0 = (st, pool, nonces, gen')"
    by (rule prod_cases4)
  moreover have "is_loopback (V4 0x7F000001)" by simp
  ultimately show ?thesis
    by (simp add: tee_boot_def addr_from_env_def validate_metrics_addr_def sample_tee_seed seeded_model_from_seed)
qed

theorem booted_service_never_accused_witness:
  "\<forall>A ss. \<exists>b w' ev run. sample_tee_boot = Some (Inr b) \<and>
    issue_receipt model_prims model_session_lib (tb_state b) (TenantId ''t'') (replicate 16 1) 5 1
      (sha256 model_prims (str_bytes ''hi'')) ss (server_world [] 5 (tb_tenants b)) = (Inr (), w') \<and>
    watcher_main model_prims (sample_watcher A) (watch_files (last (sent w')) ev)
      (watch_argv (as_receipt_key (tb_state b))) = Some run \<and> exit_code run = 3"
proof (intro allI)
  fix A ss
  let ?P = model_prims and ?L = model_session_lib and ?W = "sample_watcher A"
  obtain b where b: "sample_tee_boot = Some (Inr b)" using sample_tee_boots by blast
  let ?st = "tb_state b" and ?w = "server_world [] (5::nat) (tb_tenants b)" and ?ih = "sha256 ?P (str_bytes ''hi'')"
  let ?argv = "watch_argv (as_receipt_key ?st)"
  have L: "wt_session ?W = ?L" by (simp add: sample_watcher_def)
  note f = tee_boot_fields [OF b]
  have "length (weight_commit (as_model ?st)) = 32"
    by (rule Model_weight_commit_length [OF f(1)]) (use model_prims_law in \<open>simp add: prims_law_def\<close>)
  then have "length (tee_weight_commit (as_identity ?st)) = 32"
    unfolding f(5) by (simp add: TeeIdentity_random_commit)
  moreover have "layers_complete ?L ?st None" by (simp add: layers_complete_def)
  moreover have "all_flushed ?w" by (simp add: all_flushed_def server_world_def)
  ultimately obtain w' where w': "issue_receipt ?P ?L ?st (TenantId ''t'') (replicate 16 1) 5 1 ?ih ss ?w = (Inr (), w')"
    by (rule receipt_accepted [OF model_prims_law model_session_lib_law]) blast
  obtain ev where ev: "ev_from_bytes (sl_evidence ?L) ev = Inr (unsigned_evidence [] [] 0)"
    using model_session_lib_law unfolding session_lib_law_def evidence_codec_law_def by blast
  let ?F = "watch_files (last (sent w')) ev"
  obtain env e where e: "sent w' = sent ?w @ [env]" "envelope_from_bytes ?L env = Inr e"
    using issued_receipt_audits [OF model_prims_law model_session_lib_law f(1) _ w', of A AuditInputs_default] unfolding f(5)
    by (auto simp: TeeIdentity_random_commit)
  have W: "wt_files ?W = sample_auditor" by (simp add: sample_watcher_def)
  have "holds_file ?F ''receipt'' (envelope_from_bytes ?L) e"
    "holds_file ?F ''evidence'' (ev_from_bytes (sl_evidence ?L)) (unsigned_evidence [] [] 0)"
    "holds_file ?F ''a'' (sth_from_json sample_auditor) sample_sth"
    "holds_file ?F ''aa'' (proof_from_json sample_auditor) (sample_proof sample_log 1)"
    "holds_file ?F ''aaa'' (audited_from_json sample_auditor) (sample_entry 1)"
    using e ev by (simp_all add: holds_file_def watch_files_def sample_auditor_def)
  then have "\<exists>i. watcher_load ?P ?W ?F ?argv = Inr i"
    by (auto simp: watcher_load_def watch_argv_flags L W load_receipt_def load_opt_def load_ok [THEN iffD2])
  moreover obtain run where "watcher_main ?P ?W ?F ?argv = Some run"
    "exit_code run = (case watcher_load ?P ?W ?F ?argv of Inl _ \<Rightarrow> 2 | Inr _ \<Rightarrow> 3)"
    using booted_service_never_accused [where W = ?W and F = ?F and path = "''receipt''", unfolded L,
        OF model_prims_law model_session_lib_law b w' watch_argv_flags]
    by (auto simp: sample_tee_seed watch_files_def)
  ultimately show "\<exists>b w' ev run. sample_tee_boot = Some (Inr b) \<and>
    issue_receipt model_prims model_session_lib (tb_state b) (TenantId ''t'') (replicate 16 1) 5 1
      (sha256 model_prims (str_bytes ''hi'')) ss (server_world [] 5 (tb_tenants b)) = (Inr (), w') \<and>
    watcher_main model_prims (sample_watcher A) (watch_files (last (sent w')) ev)
      (watch_argv (as_receipt_key (tb_state b))) = Some run \<and> exit_code run = 3"
    using b w' by (intro exI [of _ b] exI [of _ w'] exI [of _ ev] exI [of _ run]) (simp split: sum.splits)
qed

end
