(* ===== verification/Zk_Layer.thy ===== *)
theory Zk_Layer
  imports Fp_Model
begin

text \<open>
  \<open>ullm-zk\<close>: the circuit that proves one layer (\<open>layer.rs\<close>) and the preimage
  circuit (\<open>circuit.rs\<close>), as far as the repository writes them: the constraints
  that \<open>synthesize\<close> emits.  A \<open>halo2\<close> layouter is the list of assigned advice
  cells (\<open>None\<close> is an unknown \<open>Value\<close>) and the list of constraints on them: rows of
  the arithmetic gate, copies, exposures in the instance column and uses of the
  Poseidon gadget, whose output cell is constrained to the hash of its inputs.
  The proof system itself (key generation, \<open>create_proof\<close>, \<open>verify_proof\<close>) is the
  library's.  Shown: an assignment satisfies the constraints iff the instance
  commits to vectors with \<open>y = W x + b\<close>, and the constraints do not depend on the
  witness, so one verifying key serves every proof.
\<close>

section \<open>The layouter\<close>

datatype 'f constr =
    Gate 'f 'f 'f 'f 'f nat nat nat
  | Copy nat nat
  | Expose nat nat
  | Absorb "nat list" nat

record 'f layouter =
  advice :: "'f option list"
  constrs :: "'f constr list"

text \<open>
  The gate of \<open>configure\<close>: \<open>q\<^sub>M a b + q\<^sub>L a + q\<^sub>R b + q\<^sub>O c + q\<^sub>C = 0\<close> on a row whose
  selector is enabled.
\<close>

fun holds :: "('f::comm_ring_1) fp_lib \<Rightarrow> 'f list \<Rightarrow> (nat \<Rightarrow> 'f) \<Rightarrow> 'f constr \<Rightarrow> bool" where
  "holds F inst s (Gate qm ql qr qo qc a b c) \<longleftrightarrow>
    qm * s a * s b + ql * s a + qr * s b + qo * s c + qc = 0"
| "holds F inst s (Copy a b) \<longleftrightarrow> s a = s b"
| "holds F inst s (Expose a row) \<longleftrightarrow> s a = inst ! row"
| "holds F inst s (Absorb ins out) \<longleftrightarrow> s out = poseidon F (map s ins)"

definition satisfies ::
  "('f::comm_ring_1) fp_lib \<Rightarrow> 'f list \<Rightarrow> (nat \<Rightarrow> 'f) \<Rightarrow> 'f layouter \<Rightarrow> bool" where
  "satisfies F inst s lay \<longleftrightarrow> list_all (holds F inst s) (constrs lay)"

definition assign_advice :: "'f option \<Rightarrow> 'f layouter \<Rightarrow> nat \<times> 'f layouter" where
  "assign_advice v lay = (length (advice lay), lay\<lparr>advice := advice lay @ [v]\<rparr>)"

definition add_constr :: "'f constr \<Rightarrow> 'f layouter \<Rightarrow> 'f layouter" where
  "add_constr c lay = lay\<lparr>constrs := constrs lay @ [c]\<rparr>"

definition copy_advice :: "nat \<Rightarrow> 'f layouter \<Rightarrow> nat \<times> 'f layouter" where
  "copy_advice x lay =
    (let (c, lay') = assign_advice (advice lay ! x) lay in (c, add_constr (Copy x c) lay'))"

definition poseidon_gadget :: "'f fp_lib \<Rightarrow> nat list \<Rightarrow> 'f layouter \<Rightarrow> nat \<times> 'f layouter" where
  "poseidon_gadget F ins lay =
    (let (c, lay') = assign_advice (map_option (poseidon F) (those (map (\<lambda>i. advice lay ! i) ins))) lay
     in (c, add_constr (Absorb ins c) lay'))"

section \<open>layer.rs: helpers of the circuit\<close>

definition load_pub_witness :: "'f \<Rightarrow> 'f layouter \<Rightarrow> nat \<times> 'f layouter" where
  "load_pub_witness v lay = assign_advice (Some v) lay"

definition load_constant :: "('f::comm_ring_1) \<Rightarrow> 'f layouter \<Rightarrow> nat \<times> 'f layouter" where
  "load_constant k lay =
    (let (a, lay) = assign_advice (Some k) lay;
         (b, lay) = assign_advice (Some 0) lay;
         (c, lay) = assign_advice (Some 0) lay
     in (a, add_constr (Gate 0 1 0 0 (- k) a b c) lay))"

definition mul_const_by_witness :: "('f::comm_ring_1) \<Rightarrow> nat \<Rightarrow> 'f layouter \<Rightarrow> nat \<times> 'f layouter" where
  "mul_const_by_witness k x lay =
    (let cv = map_option (\<lambda>v. k * v) (advice lay ! x);
         (a, lay) = copy_advice x lay;
         (b, lay) = assign_advice (Some 0) lay;
         (c, lay) = assign_advice cv lay
     in (c, add_constr (Gate 0 k 0 (- 1) 0 a b c) lay))"

definition add_cells :: "nat \<Rightarrow> nat \<Rightarrow> ('f::comm_ring_1) layouter \<Rightarrow> nat \<times> 'f layouter" where
  "add_cells x y lay =
    (let cv = (case (advice lay ! x, advice lay ! y) of (Some u, Some v) \<Rightarrow> Some (u + v) | _ \<Rightarrow> None);
         (a, lay) = copy_advice x lay;
         (b, lay) = copy_advice y lay;
         (c, lay) = assign_advice cv lay
     in (c, add_constr (Gate 0 1 1 (- 1) 0 a b c) lay))"

fun load_cells :: "'f option list \<Rightarrow> 'f layouter \<Rightarrow> nat list \<times> 'f layouter" where
  "load_cells [] lay = ([], lay)"
| "load_cells (v # vs) lay =
    (let (c, lay) = assign_advice v lay; (cs, lay) = load_cells vs lay in (c # cs, lay))"

text \<open>The inner loop over the columns of one row, and the outer loop over the rows.\<close>

fun row_loop :: "(('f::comm_ring_1) \<times> nat) list \<Rightarrow> nat \<Rightarrow> 'f layouter \<Rightarrow> nat \<times> 'f layouter" where
  "row_loop [] acc lay = (acc, lay)"
| "row_loop ((k, x) # r) acc lay =
    (let (prod, lay) = mul_const_by_witness k x lay; (acc, lay) = add_cells acc prod lay
     in row_loop r acc lay)"

fun rows_loop :: "('f::comm_ring_1 \<times> 'f list \<times> nat) list \<Rightarrow> nat list \<Rightarrow> 'f layouter \<Rightarrow> 'f layouter" where
  "rows_loop [] xs lay = lay"
| "rows_loop ((bi, row, yi) # r) xs lay =
    (let (acc, lay) = load_constant bi lay; (acc, lay) = row_loop (zip row xs) acc lay
     in rows_loop r xs (add_constr (Copy acc yi) lay))"

record 'f LayerCircuit =
  lc_w :: "'f list list"
  lc_b :: "'f list"
  lc_x :: "'f list option"
  lc_y :: "'f list option"
  layer_idx_fp :: 'f
  session_id_fp :: 'f
  weight_commit_lo :: 'f
  weight_commit_hi :: 'f

definition without_witnesses :: "('f::comm_ring_1) LayerCircuit \<Rightarrow> 'f LayerCircuit" where
  "without_witnesses c =
    c\<lparr>lc_x := None, lc_y := None, layer_idx_fp := 0, session_id_fp := 0,
      weight_commit_lo := 0, weight_commit_hi := 0\<rparr>"

definition value_cells :: "'f list option \<Rightarrow> 'f option list" where
  "value_cells v = map (\<lambda>i. map_option (\<lambda>arr. arr ! i) v) [0..<VEC_DIM]"

definition expose_witness :: "'f \<Rightarrow> nat \<Rightarrow> 'f layouter \<Rightarrow> 'f layouter" where
  "expose_witness v row lay =
    (let (c, lay) = load_pub_witness v lay in add_constr (Expose c row) lay)"

definition expose_hash :: "'f fp_lib \<Rightarrow> nat list \<Rightarrow> nat \<Rightarrow> 'f layouter \<Rightarrow> 'f layouter" where
  "expose_hash F ins row lay =
    (let (c, lay) = poseidon_gadget F ins lay in add_constr (Expose c row) lay)"

definition synthesize :: "('f::comm_ring_1) fp_lib \<Rightarrow> 'f LayerCircuit \<Rightarrow> 'f layouter \<Rightarrow> 'f layouter" where
  "synthesize F c lay =
    (let (xs, lay) = load_cells (value_cells (lc_x c)) lay;
         (ys, lay) = load_cells (value_cells (lc_y c)) lay;
         lay = rows_loop (zip (lc_b c) (zip (lc_w c) ys)) xs lay;
         lay = expose_hash F xs 0 lay;
         lay = expose_hash F ys 1 lay;
         lay = expose_witness (layer_idx_fp c) 2 lay;
         lay = expose_witness (session_id_fp c) 3 lay;
         lay = expose_witness (weight_commit_lo c) 4 lay
     in expose_witness (weight_commit_hi c) 5 lay)"

definition empty_layouter :: "'f layouter" where
  "empty_layouter = \<lparr>advice = [], constrs = []\<rparr>"

section \<open>layer.rs: instances\<close>

definition domain_x :: "'f::comm_ring_1" where "domain_x = of_nat 0x554c4c4d5f580000"
definition domain_y :: "'f::comm_ring_1" where "domain_y = of_nat 0x554c4c4d5f590000"

definition vector_hash_native :: "'f fp_lib \<Rightarrow> 'f list \<Rightarrow> 'f" where
  "vector_hash_native F v = poseidon F v"

definition tagged_vector_hash :: "'f fp_lib \<Rightarrow> 'f \<Rightarrow> 'f list \<Rightarrow> 'f" where
  "tagged_vector_hash F tag v = poseidon F (tag # v)"

text \<open>\<open>Fp::from_u128\<close> and \<open>Fp::from\<close> embed an unsigned integer.\<close>

definition split_commit_to_fp :: "bytes \<Rightarrow> ('f::comm_ring_1) \<times> 'f" where
  "split_commit_to_fp commit =
    (of_nat (le_val (take 16 commit)), of_nat (le_val (take 16 (drop 16 commit))))"

definition session_id_to_fp :: "bytes \<Rightarrow> 'f::comm_ring_1" where
  "session_id_to_fp sid = of_nat (le_val sid)"

definition build_instance :: "('f::comm_ring_1) \<Rightarrow> 'f \<Rightarrow> nat \<Rightarrow> bytes \<Rightarrow> bytes \<Rightarrow> 'f list" where
  "build_instance tagged_x tagged_y layer_idx session_id commit =
    (let (w_lo, w_hi) = split_commit_to_fp commit
     in [tagged_x, tagged_y, of_nat layer_idx, session_id_to_fp session_id, w_lo, w_hi])"

text \<open>The circuit \<open>LayerProver::prove\<close> hands to \<open>create_proof\<close>.\<close>

definition prove_circuit ::
  "('f::comm_ring_1) list \<Rightarrow> 'f list \<Rightarrow> 'f list list \<Rightarrow> 'f list \<Rightarrow> nat \<Rightarrow> bytes \<Rightarrow> bytes \<Rightarrow> 'f LayerCircuit" where
  "prove_circuit x y w b layer_idx session_id commit =
    (let (wc_lo, wc_hi) = split_commit_to_fp commit
     in \<lparr>lc_w = w, lc_b = b, lc_x = Some x, lc_y = Some y, layer_idx_fp = of_nat layer_idx,
         session_id_fp = session_id_to_fp session_id, weight_commit_lo = wc_lo, weight_commit_hi = wc_hi\<rparr>)"

text \<open>The circuit \<open>setup_layer\<close> generates keys for.\<close>

definition setup_circuit :: "('f::comm_ring_1) list list \<Rightarrow> 'f list \<Rightarrow> 'f LayerCircuit" where
  "setup_circuit w b =
    \<lparr>lc_w = w, lc_b = b, lc_x = None, lc_y = None, layer_idx_fp = 0, session_id_fp = 0,
     weight_commit_lo = 0, weight_commit_hi = 0\<rparr>"

section \<open>circuit.rs\<close>

definition preimage_synthesize ::
  "('f::comm_ring_1) fp_lib \<Rightarrow> 'f option \<Rightarrow> 'f option \<Rightarrow> 'f layouter \<Rightarrow> 'f layouter" where
  "preimage_synthesize F x y lay =
    (let (cx, lay) = assign_advice x lay;
         (cy, lay) = assign_advice y lay
     in expose_hash F [cx, cy] 0 lay)"

definition digest_from_inputs :: "'f fp_lib \<Rightarrow> 'f \<Rightarrow> 'f \<Rightarrow> 'f" where
  "digest_from_inputs F x y = poseidon F [x, y]"

definition fp_from_bytes :: "'f fp_lib \<Rightarrow> bytes \<Rightarrow> string + 'f" where
  "fp_from_bytes F b = ok_or ''fp_from_bytes: non-canonical input (>= p)'' (fp_from_repr F b)"

definition fp_to_bytes :: "'f fp_lib \<Rightarrow> 'f \<Rightarrow> bytes" where
  "fp_to_bytes F f = fp_to_repr F f"

section \<open>Soundness of the constraints\<close>

lemma satisfies_simps [simp]:
  "satisfies F inst s (add_constr c lay) \<longleftrightarrow> satisfies F inst s lay \<and> holds F inst s c"
  "satisfies F inst s (lay\<lparr>advice := vs\<rparr>) \<longleftrightarrow> satisfies F inst s lay"
  "satisfies F inst s empty_layouter"
  by (auto simp: satisfies_def add_constr_def empty_layouter_def)

lemma layouter_simps [simp]:
  "advice (add_constr c lay) = advice lay" "constrs (add_constr c lay) = constrs lay @ [c]"
  "fst (assign_advice v lay) = length (advice lay)"
  "advice (snd (assign_advice v lay)) = advice lay @ [v]"
  "constrs (snd (assign_advice v lay)) = constrs lay"
  by (simp_all add: add_constr_def assign_advice_def)

lemma satisfies_assign [simp]:
  "satisfies F inst s (snd (assign_advice v lay)) \<longleftrightarrow> satisfies F inst s lay"
  by (simp add: assign_advice_def satisfies_def)

lemma load_constant_sound:
  "satisfies F inst s (snd (load_constant k lay)) \<longleftrightarrow>
    satisfies F inst s lay \<and> s (fst (load_constant k lay)) = k"
  by (auto simp: load_constant_def assign_advice_def Let_def)

lemma mul_const_by_witness_sound:
  "satisfies F inst s (snd (mul_const_by_witness k x lay)) \<Longrightarrow>
    satisfies F inst s lay \<and> s (fst (mul_const_by_witness k x lay)) = k * s x"
  by (auto simp: mul_const_by_witness_def copy_advice_def assign_advice_def Let_def)

lemma add_cells_sound:
  "satisfies F inst s (snd (add_cells x y lay)) \<Longrightarrow>
    satisfies F inst s lay \<and> s (fst (add_cells x y lay)) = s x + s y"
  by (auto simp: add_cells_def copy_advice_def assign_advice_def Let_def)

lemma row_loop_sound:
  "satisfies F inst s (snd (row_loop r acc lay)) \<Longrightarrow>
    satisfies F inst s lay \<and>
    s (fst (row_loop r acc lay)) = s acc + (\<Sum>(k, x) \<leftarrow> r. k * s x)"
proof (induction r arbitrary: acc lay)
  case (Cons kx r)
  obtain k x where kx: "kx = (k, x)" by (cases kx)
  obtain p l1 where m: "mul_const_by_witness k x lay = (p, l1)" by fastforce
  obtain a l2 where a: "add_cells acc p l1 = (a, l2)" by fastforce
  have "satisfies F inst s l2 \<and> s (fst (row_loop r a l2)) = s a + (\<Sum>(k, x) \<leftarrow> r. k * s x)"
    using Cons.IH [of a l2] Cons.prems kx m a by simp
  then show ?case
    using add_cells_sound [of F inst s acc p l1] mul_const_by_witness_sound [of F inst s k x lay] kx m a
    by (auto simp: algebra_simps)
qed simp

lemma rows_loop_sound:
  "satisfies F inst s (rows_loop rs xs lay) \<Longrightarrow>
    satisfies F inst s lay \<and>
    (\<forall>(bi, row, yi) \<in> set rs. s yi = bi + (\<Sum>(k, x) \<leftarrow> zip row xs. k * s x))"
proof (induction rs arbitrary: lay)
  case (Cons t rs)
  obtain bi row yi where t: "t = (bi, row, yi)" by (cases t)
  obtain c l1 where c: "load_constant bi lay = (c, l1)" by fastforce
  obtain a l2 where a: "row_loop (zip row xs) c l1 = (a, l2)" by fastforce
  have "satisfies F inst s (add_constr (Copy a yi) l2) \<and>
      (\<forall>(bi, row, yi) \<in> set rs. s yi = bi + (\<Sum>(k, x) \<leftarrow> zip row xs. k * s x))"
    using Cons.IH [of "add_constr (Copy a yi) l2"] Cons.prems t c a by simp
  then show ?case
    using row_loop_sound [of F inst s "zip row xs" c l1] load_constant_sound [of F inst s bi lay] t c a
    by auto
qed simp

lemma expose_sound [simp]:
  "satisfies F inst s (expose_witness v row lay) \<longleftrightarrow>
    satisfies F inst s lay \<and> s (length (advice lay)) = inst ! row"
  "satisfies F inst s (expose_hash F ins row lay) \<longleftrightarrow>
    satisfies F inst s lay \<and> s (length (advice lay)) = poseidon F (map s ins) \<and>
    s (length (advice lay)) = inst ! row"
  by (auto simp: expose_witness_def load_pub_witness_def expose_hash_def poseidon_gadget_def
      assign_advice_def Let_def)

lemma load_cells_eq:
  "load_cells vs lay =
    ([length (advice lay)..<length (advice lay) + length vs], lay\<lparr>advice := advice lay @ vs\<rparr>)"
proof (induction vs arbitrary: lay)
  case (Cons v vs)
  have "[length (advice lay)..<length (advice lay) + length (v # vs)] =
      length (advice lay) # [Suc (length (advice lay))..<Suc (length (advice lay)) + length vs]"
    by (simp add: upt_conv_Cons del: upt_Suc)
  then show ?case by (simp add: Cons assign_advice_def Let_def del: upt_Suc)
qed simp

lemma length_value_cells [simp]: "length (value_cells v) = VEC_DIM"
  by (simp add: value_cells_def)

text \<open>The linear form of one row, written over the cells of \<open>x\<close>.\<close>

lemma sum_zip_cells:
  fixes s :: "nat \<Rightarrow> 'f::comm_ring_1"
  assumes "length row = n"
  shows "(\<Sum>(k, x) \<leftarrow> zip row [m..<m + n]. k * s x) = (\<Sum>j<n. row ! j * s (m + j))"
proof -
  have "(\<Sum>(k, x) \<leftarrow> zip row [m..<m + n]. k * s x) =
      (\<Sum>j = 0..<n. (\<lambda>(k, x). k * s x) (zip row [m..<m + n] ! j))"
    using assms by (simp add: sum_list_sum_nth)
  also have "\<dots> = (\<Sum>j<n. row ! j * s (m + j))"
    using assms by (intro sum.cong) auto
  finally show ?thesis .
qed

lemma synthesize_sound:
  assumes w: "length (lc_w c) = VEC_DIM" "list_all vec8 (lc_w c)" and b: "vec8 (lc_b c)"
    and sat: "satisfies F inst s (synthesize F c empty_layouter)"
  defines "x \<equiv> map s [0..<VEC_DIM]" and "y \<equiv> map s [VEC_DIM..<2 * VEC_DIM]"
  shows "inst ! 0 = poseidon F x \<and> inst ! 1 = poseidon F y \<and>
    y = layer_apply \<lparr>layer_w = lc_w c, layer_b = lc_b c\<rparr> x"
proof -
  let ?xs = "[0..<VEC_DIM]" and ?ys = "[VEC_DIM..<2 * VEC_DIM]"
  let ?rs = "zip (lc_b c) (zip (lc_w c) ?ys)"
  have two: "VEC_DIM + VEC_DIM = 2 * VEC_DIM" by simp
  obtain lay where sat': "satisfies F inst s (expose_hash F ?ys 1 (expose_hash F ?xs 0 (rows_loop ?rs ?xs lay)))"
    using sat unfolding synthesize_def load_cells_eq Let_def by (auto simp: empty_layouter_def two)
  have rows: "\<forall>(bi, row, yi) \<in> set ?rs. s yi = bi + (\<Sum>(k, x) \<leftarrow> zip row ?xs. k * s x)"
    using sat' rows_loop_sound [of F inst s ?rs ?xs lay] by simp
  have "y ! i = layer_apply \<lparr>layer_w = lc_w c, layer_b = lc_b c\<rparr> x ! i" if i: "i < VEC_DIM" for i
  proof -
    have "(lc_b c ! i, lc_w c ! i, VEC_DIM + i) \<in> set ?rs"
      using i w b by (auto simp: in_set_zip vec8_def intro!: exI [of _ i])
    then have "s (VEC_DIM + i) = lc_b c ! i + (\<Sum>(k, x) \<leftarrow> zip (lc_w c ! i) ?xs. k * s x)"
      using rows by fastforce
    moreover have "length (lc_w c ! i) = VEC_DIM"
      using w i by (simp add: list_all_length vec8_def)
    ultimately show ?thesis
      using i sum_zip_cells [where row = "lc_w c ! i" and n = VEC_DIM and m = 0 and s = s]
      by (simp add: layer_apply_nth x_def y_def)
  qed
  then have "y = layer_apply \<lparr>layer_w = lc_w c, layer_b = lc_b c\<rparr> x"
    by (intro nth_equalityI) (auto simp: y_def layer_apply_def)
  moreover have "inst ! 0 = poseidon F x" "inst ! 1 = poseidon F y"
    using sat' unfolding expose_sound x_def y_def by metis+
  ultimately show ?thesis by blast
qed

section \<open>Completeness: the honest assignment\<close>

definition cell_val :: "('f::comm_ring_1) layouter \<Rightarrow> nat \<Rightarrow> 'f" where
  "cell_val lay i = (case advice lay ! i of None \<Rightarrow> 0 | Some v \<Rightarrow> v)"

fun cells_of :: "'f constr \<Rightarrow> nat list" where
  "cells_of (Gate _ _ _ _ _ a b c) = [a, b, c]"
| "cells_of (Copy a b) = [a, b]"
| "cells_of (Expose a _) = [a]"
| "cells_of (Absorb ins out) = out # ins"

text \<open>Every cell is known and every constraint so far holds of the assigned values.\<close>

definition good :: "('f::comm_ring_1) fp_lib \<Rightarrow> 'f list \<Rightarrow> 'f layouter \<Rightarrow> bool" where
  "good F inst lay \<longleftrightarrow>
    (\<forall>v \<in> set (advice lay). v \<noteq> None) \<and>
    (\<forall>c \<in> set (constrs lay). set (cells_of c) \<subseteq> {..<length (advice lay)} \<and> holds F inst (cell_val lay) c)"

definition extends :: "'f layouter \<Rightarrow> 'f layouter \<Rightarrow> bool" where
  "extends lay lay' \<longleftrightarrow> (\<exists>e. advice lay' = advice lay @ e)"

lemma extends_refl [simp]: "extends lay lay"
  by (simp add: extends_def)

lemma extends_trans: "extends a b \<Longrightarrow> extends b c \<Longrightarrow> extends a c"
  by (auto simp: extends_def)

lemma extends_length: "extends a b \<Longrightarrow> length (advice a) \<le> length (advice b)"
  by (auto simp: extends_def)

lemma extends_val: "extends a b \<Longrightarrow> i < length (advice a) \<Longrightarrow> cell_val b i = cell_val a i"
  by (auto simp: extends_def cell_val_def nth_append)

lemma holds_cong:
  "(\<And>i. i \<in> set (cells_of c) \<Longrightarrow> s i = t i) \<Longrightarrow> holds F inst s c \<longleftrightarrow> holds F inst t c"
  by (cases c) (auto cong: map_cong)

lemma good_assign:
  assumes "good F inst lay"
  shows "good F inst (snd (assign_advice (Some v) lay)) \<and> extends lay (snd (assign_advice (Some v) lay)) \<and>
    cell_val (snd (assign_advice (Some v) lay)) (length (advice lay)) = v"
proof -
  let ?l = "snd (assign_advice (Some v) lay)"
  have e: "extends lay ?l" by (simp add: extends_def)
  have "holds F inst (cell_val ?l) c \<longleftrightarrow> holds F inst (cell_val lay) c" if "c \<in> set (constrs lay)" for c
    using assms that extends_val [OF e] by (intro holds_cong) (auto simp: good_def)
  then have "good F inst ?l" using assms by (fastforce simp: good_def)
  then show ?thesis using e by (simp add: cell_val_def)
qed

lemma cell_val_add_constr [simp]: "cell_val (add_constr c lay) = cell_val lay"
  by (simp add: cell_val_def fun_eq_iff)

lemma extends_add_constr [simp]: "extends lay (add_constr c lay)"
  by (simp add: extends_def exI [of _ "[]"])

lemma good_constr:
  "good F inst lay \<Longrightarrow> set (cells_of c) \<subseteq> {..<length (advice lay)} \<Longrightarrow> holds F inst (cell_val lay) c \<Longrightarrow>
   good F inst (add_constr c lay)"
  by (auto simp: good_def)

lemma good_known: "good F inst lay \<Longrightarrow> i < length (advice lay) \<Longrightarrow> advice lay ! i = Some (cell_val lay i)"
  using nth_mem [of i "advice lay"] by (auto simp: good_def cell_val_def split: option.split)

text \<open>A helper that returns a cell with a given value and keeps the layouter good.\<close>

definition emits ::
  "('f::comm_ring_1) fp_lib \<Rightarrow> 'f list \<Rightarrow> 'f layouter \<Rightarrow> nat \<times> 'f layouter \<Rightarrow> 'f \<Rightarrow> bool" where
  "emits F inst lay h v \<longleftrightarrow>
    good F inst (snd h) \<and> extends lay (snd h) \<and> fst h < length (advice (snd h)) \<and>
    cell_val (snd h) (fst h) = v"

lemma emits_assign: "good F inst lay \<Longrightarrow> emits F inst lay (assign_advice (Some v) lay) v"
  using good_assign [of F inst lay v] by (simp add: emits_def)

lemma emits_old:
  "emits F inst lay h v \<Longrightarrow> i < length (advice lay) \<Longrightarrow>
   i < length (advice (snd h)) \<and> cell_val (snd h) i = cell_val lay i"
  using extends_length [of lay "snd h"] extends_val [of lay "snd h" i] by (auto simp: emits_def)

lemma emits_gate:
  assumes "emits F inst lay h v" "set (cells_of c) \<subseteq> {..<length (advice (snd h))}"
    "holds F inst (cell_val (snd h)) c" "extends lay0 lay" "i < length (advice (snd h))"
    "cell_val (snd h) i = u"
  shows "emits F inst lay0 (i, add_constr c (snd h)) u"
  using assms good_constr [of F inst "snd h" c] extends_trans [of lay0 lay "snd h"]
    extends_trans [of lay0 "snd h" "add_constr c (snd h)"]
  by (simp add: emits_def)

lemma emits_copy:
  assumes g: "good F inst lay" and x: "x < length (advice lay)"
  shows "emits F inst lay (copy_advice x lay) (cell_val lay x)"
proof -
  let ?h = "assign_advice (Some (cell_val lay x)) lay"
  have h: "emits F inst lay ?h (cell_val lay x)" using g by (rule emits_assign)
  have "emits F inst lay (fst ?h, add_constr (Copy x (fst ?h)) (snd ?h)) (cell_val lay x)"
    by (rule emits_gate [OF h]) (use h emits_old [OF h x] in \<open>auto simp: emits_def\<close>)
  then show ?thesis
    by (simp add: copy_advice_def good_known [OF g x] Let_def assign_advice_def)
qed

lemma emits_good: "emits F inst lay h v \<Longrightarrow> good F inst (snd h)"
  by (simp add: emits_def)

lemma emits_cell: "emits F inst lay h v \<Longrightarrow> fst h < length (advice (snd h)) \<and> cell_val (snd h) (fst h) = v"
  by (simp add: emits_def)

lemma emits_extends: "emits F inst lay h v \<Longrightarrow> extends lay (snd h)"
  by (simp add: emits_def)

lemma emits_load_constant:
  assumes "good F inst lay"
  shows "emits F inst lay (load_constant k lay) k"
proof -
  define h1 where "h1 = assign_advice (Some k) lay"
  define h2 where "h2 = assign_advice (Some 0) (snd h1)"
  define h3 where "h3 = assign_advice (Some 0) (snd h2)"
  have e1: "emits F inst lay h1 k" unfolding h1_def using assms by (rule emits_assign)
  have e2: "emits F inst (snd h1) h2 0" unfolding h2_def by (rule emits_assign [OF emits_good [OF e1]])
  have e3: "emits F inst (snd h2) h3 0" unfolding h3_def by (rule emits_assign [OF emits_good [OF e2]])
  have a: "fst h1 < length (advice (snd h3)) \<and> cell_val (snd h3) (fst h1) = k"
    using emits_cell [OF e1] emits_old [OF e2] emits_old [OF e3] by metis
  have b: "fst h2 < length (advice (snd h3))" using emits_cell [OF e2] emits_old [OF e3] by metis
  have x: "extends lay (snd h2)"
    using extends_trans [OF emits_extends [OF e1] emits_extends [OF e2]] .
  have "emits F inst lay (fst h1, add_constr (Gate 0 1 0 0 (- k) (fst h1) (fst h2) (fst h3)) (snd h3)) k"
    by (rule emits_gate [OF e3 _ _ x]) (use a b emits_cell [OF e3] in auto)
  then show ?thesis
    by (simp add: load_constant_def h1_def h2_def h3_def Let_def case_prod_beta)
qed

lemma emits_mul:
  assumes g: "good F inst lay" and x: "x < length (advice lay)"
  shows "emits F inst lay (mul_const_by_witness k x lay) (k * cell_val lay x)"
proof -
  define h1 where "h1 = copy_advice x lay"
  define h2 where "h2 = assign_advice (Some 0) (snd h1)"
  define h3 where "h3 = assign_advice (Some (k * cell_val lay x)) (snd h2)"
  have e1: "emits F inst lay h1 (cell_val lay x)" unfolding h1_def using g x by (rule emits_copy)
  have e2: "emits F inst (snd h1) h2 0" unfolding h2_def by (rule emits_assign [OF emits_good [OF e1]])
  have e3: "emits F inst (snd h2) h3 (k * cell_val lay x)"
    unfolding h3_def by (rule emits_assign [OF emits_good [OF e2]])
  have a: "fst h1 < length (advice (snd h3)) \<and> cell_val (snd h3) (fst h1) = cell_val lay x"
    using emits_cell [OF e1] emits_old [OF e2] emits_old [OF e3] by metis
  have b: "fst h2 < length (advice (snd h3))" using emits_cell [OF e2] emits_old [OF e3] by metis
  have xt: "extends lay (snd h2)"
    using extends_trans [OF emits_extends [OF e1] emits_extends [OF e2]] .
  have "emits F inst lay (fst h3, add_constr (Gate 0 k 0 (- 1) 0 (fst h1) (fst h2) (fst h3)) (snd h3))
      (k * cell_val lay x)"
    by (rule emits_gate [OF e3 _ _ xt]) (use a b emits_cell [OF e3] in auto)
  then show ?thesis
    by (simp add: mul_const_by_witness_def h1_def h2_def h3_def Let_def case_prod_beta good_known [OF g x])
qed

lemma emits_add:
  assumes g: "good F inst lay" and x: "x < length (advice lay)" and y: "y < length (advice lay)"
  shows "emits F inst lay (add_cells x y lay) (cell_val lay x + cell_val lay y)"
proof -
  let ?v = "cell_val lay x + cell_val lay y"
  define h1 where "h1 = copy_advice x lay"
  define h2 where "h2 = copy_advice y (snd h1)"
  define h3 where "h3 = assign_advice (Some ?v) (snd h2)"
  have e1: "emits F inst lay h1 (cell_val lay x)" unfolding h1_def using g x by (rule emits_copy)
  have e2: "emits F inst (snd h1) h2 (cell_val lay y)"
    unfolding h2_def using emits_copy [OF emits_good [OF e1], of y] emits_old [OF e1 y] by simp
  have e3: "emits F inst (snd h2) h3 ?v"
    unfolding h3_def by (rule emits_assign [OF emits_good [OF e2]])
  have a: "fst h1 < length (advice (snd h3)) \<and> cell_val (snd h3) (fst h1) = cell_val lay x"
    using emits_cell [OF e1] emits_old [OF e2] emits_old [OF e3] by metis
  have b: "fst h2 < length (advice (snd h3)) \<and> cell_val (snd h3) (fst h2) = cell_val lay y"
    using emits_cell [OF e2] emits_old [OF e3] by metis
  have xt: "extends lay (snd h2)"
    using extends_trans [OF emits_extends [OF e1] emits_extends [OF e2]] .
  have "emits F inst lay (fst h3, add_constr (Gate 0 1 1 (- 1) 0 (fst h1) (fst h2) (fst h3)) (snd h3)) ?v"
    by (rule emits_gate [OF e3 _ _ xt]) (use a b emits_cell [OF e3] in auto)
  then show ?thesis
    by (simp add: add_cells_def h1_def h2_def h3_def Let_def case_prod_beta good_known [OF g x]
        good_known [OF g y])
qed

lemma emits_trans: "extends lay0 lay \<Longrightarrow> emits F inst lay h v \<Longrightarrow> emits F inst lay0 h v"
  using extends_trans by (auto simp: emits_def)

lemma emits_row_loop:
  assumes "good F inst lay" "acc < length (advice lay)" "\<forall>(k, x) \<in> set r. x < length (advice lay)"
  shows "emits F inst lay (row_loop r acc lay)
    (cell_val lay acc + (\<Sum>(k, x) \<leftarrow> r. k * cell_val lay x))"
  using assms
proof (induction r arbitrary: acc lay)
  case Nil
  then show ?case by (simp add: emits_def)
next
  case (Cons kx r)
  obtain k x where kx: "kx = (k, x)" by (cases kx)
  define h1 where "h1 = mul_const_by_witness k x lay"
  define h2 where "h2 = add_cells acc (fst h1) (snd h1)"
  have x: "x < length (advice lay)" and r: "\<forall>(k, x) \<in> set r. x < length (advice lay)"
    using Cons.prems kx by auto
  have e1: "emits F inst lay h1 (k * cell_val lay x)"
    unfolding h1_def using Cons.prems(1) x by (rule emits_mul)
  have e2: "emits F inst (snd h1) h2 (cell_val lay acc + k * cell_val lay x)"
    unfolding h2_def using emits_add [OF emits_good [OF e1], of acc "fst h1"] emits_cell [OF e1]
      emits_old [OF e1 Cons.prems(2)] by simp
  have xt: "extends lay (snd h2)"
    using extends_trans [OF emits_extends [OF e1] emits_extends [OF e2]] .
  have old: "x < length (advice (snd h2)) \<and> cell_val (snd h2) x = cell_val lay x"
    if "x < length (advice lay)" for x
    using that extends_length [OF xt] extends_val [OF xt] by fastforce
  have r': "\<forall>(k, x) \<in> set r. x < length (advice (snd h2))" using r old by auto
  have "(\<Sum>(k, x) \<leftarrow> r. k * cell_val (snd h2) x) = (\<Sum>(k, x) \<leftarrow> r. k * cell_val lay x)"
    using r old by (intro arg_cong [where f = sum_list] map_cong) auto
  then have "emits F inst (snd h2) (row_loop r (fst h2) (snd h2))
      (cell_val lay acc + (k * cell_val lay x + (\<Sum>(k, x) \<leftarrow> r. k * cell_val lay x)))"
    using Cons.IH [OF emits_good [OF e2], of "fst h2"] emits_cell [OF e2] r' by (simp add: add.assoc)
  moreover have "row_loop (kx # r) acc lay = row_loop r (fst h2) (snd h2)"
    by (simp add: kx h1_def h2_def case_prod_beta)
  ultimately show ?case using emits_trans [OF xt] kx by simp
qed

lemma good_rows_loop:
  assumes "good F inst lay" "\<forall>x \<in> set xs. x < length (advice lay)"
    "\<forall>(bi, row, yi) \<in> set rs. yi < length (advice lay) \<and>
      cell_val lay yi = bi + (\<Sum>(k, x) \<leftarrow> zip row xs. k * cell_val lay x)"
  shows "good F inst (rows_loop rs xs lay) \<and> extends lay (rows_loop rs xs lay)"
  using assms
proof (induction rs arbitrary: lay)
  case (Cons t rs)
  obtain bi row yi where t: "t = (bi, row, yi)" by (cases t)
  define h1 where "h1 = load_constant bi lay"
  define h2 where "h2 = row_loop (zip row xs) (fst h1) (snd h1)"
  let ?l = "add_constr (Copy (fst h2) yi) (snd h2)"
  have e1: "emits F inst lay h1 bi" unfolding h1_def by (rule emits_load_constant [OF Cons.prems(1)])
  have c1: "\<forall>(k, x) \<in> set (zip row xs). x < length (advice lay)"
    using Cons.prems(2) by (auto dest: set_zip_rightD)
  have "\<forall>(k, x) \<in> set (zip row xs). x < length (advice (snd h1))"
    using c1 emits_old [OF e1] by fastforce
  moreover have "(\<Sum>(k, x) \<leftarrow> zip row xs. k * cell_val (snd h1) x) =
      (\<Sum>(k, x) \<leftarrow> zip row xs. k * cell_val lay x)"
    using c1 emits_old [OF e1] by (intro arg_cong [where f = sum_list] map_cong) auto
  ultimately have e2: "emits F inst (snd h1) h2 (cell_val lay yi)"
    unfolding h2_def
    using emits_row_loop [OF emits_good [OF e1], of "fst h1" "zip row xs"] emits_cell [OF e1] Cons.prems(3) t
    by auto
  have xt: "extends lay ?l"
    using extends_trans [OF emits_extends [OF e1] emits_extends [OF e2]] by (simp add: extends_def)
  have old: "i < length (advice ?l) \<and> cell_val ?l i = cell_val lay i" if "i < length (advice lay)" for i
    using that extends_length [OF xt] extends_val [OF xt, of i] by linarith
  have "yi < length (advice lay)" using Cons.prems(3) t by simp
  then have g: "good F inst ?l"
    using old emits_cell [OF e2] by (intro good_constr [OF emits_good [OF e2]]) auto
  have "good F inst (rows_loop rs xs ?l) \<and> extends ?l (rows_loop rs xs ?l)"
  proof (rule Cons.IH [OF g])
    show "\<forall>x \<in> set xs. x < length (advice ?l)" using Cons.prems(2) old by blast
    have "(\<Sum>(k, x) \<leftarrow> zip row xs. k * cell_val ?l x) = (\<Sum>(k, x) \<leftarrow> zip row xs. k * cell_val lay x)" for row
      using Cons.prems(2) old
      by (intro arg_cong [where f = sum_list] map_cong) (auto dest: set_zip_rightD)
    then show "\<forall>(bi, row, yi) \<in> set rs. yi < length (advice ?l) \<and>
        cell_val ?l yi = bi + (\<Sum>(k, x) \<leftarrow> zip row xs. k * cell_val ?l x)"
      using Cons.prems(3) old by fastforce
  qed
  moreover have "rows_loop (t # rs) xs lay = rows_loop rs xs ?l"
    by (simp add: t h1_def h2_def case_prod_beta)
  ultimately show ?case using extends_trans [OF xt] by simp
qed simp

lemma good_expose_witness:
  assumes "good F inst lay" "inst ! row = v"
  shows "good F inst (expose_witness v row lay) \<and> extends lay (expose_witness v row lay)"
proof -
  let ?h = "assign_advice (Some v) lay"
  have h: "emits F inst lay ?h v" using assms(1) by (rule emits_assign)
  have "emits F inst lay (fst ?h, add_constr (Expose (fst ?h) row) (snd ?h)) v"
    by (rule emits_gate [OF h]) (use h assms(2) in \<open>auto simp: emits_def\<close>)
  then show ?thesis
    by (simp add: emits_def expose_witness_def load_pub_witness_def Let_def case_prod_beta)
qed

lemma good_expose_hash:
  assumes g: "good F inst lay" and ins: "\<forall>i \<in> set ins. i < length (advice lay)"
    and row: "inst ! row = poseidon F (map (cell_val lay) ins)"
  shows "good F inst (expose_hash F ins row lay) \<and> extends lay (expose_hash F ins row lay)"
proof -
  let ?v = "poseidon F (map (cell_val lay) ins)"
  let ?h = "assign_advice (Some ?v) lay"
  have h: "emits F inst lay ?h ?v" using g by (rule emits_assign)
  have known: "those (map (\<lambda>i. advice lay ! i) ins) = Some (map (cell_val lay) ins)"
    using ins good_known [OF g] by (simp add: those_Some_iff)
  have m: "map (cell_val (snd ?h)) ins = map (cell_val lay) ins"
    using ins emits_old [OF h] by (auto intro!: map_cong)
  have h2: "emits F inst lay (fst ?h, add_constr (Absorb ins (fst ?h)) (snd ?h)) ?v"
  proof (rule emits_gate [OF h])
    show "holds F inst (cell_val (snd ?h)) (Absorb ins (fst ?h))"
      unfolding holds.simps m using emits_cell [OF h] by (rule conjunct2)
  qed (use h ins in \<open>auto simp: emits_def less_Suc_eq\<close>)
  have "emits F inst lay (fst ?h, add_constr (Expose (fst ?h) row) (add_constr (Absorb ins (fst ?h)) (snd ?h))) ?v"
    using emits_gate [OF h2, of "Expose (fst ?h) row" lay "fst ?h" ?v] h2 row by (simp add: emits_def)
  then show ?thesis
    by (simp add: emits_def expose_hash_def poseidon_gadget_def Let_def case_prod_beta known)
qed

lemma value_cells_Some: "vec8 x \<Longrightarrow> value_cells (Some x) = map Some x"
  by (rule nth_equalityI) (auto simp: value_cells_def vec8_def)

lemma synthesize_complete:
  assumes c: "lc_x c = Some x" "lc_y c = Some y" and v: "vec8 x" "layer_ok l"
    and l: "l = \<lparr>layer_w = lc_w c, layer_b = lc_b c\<rparr>" and y: "y = layer_apply l x"
    and inst: "inst ! 0 = poseidon F x" "inst ! 1 = poseidon F y" "inst ! 2 = layer_idx_fp c"
      "inst ! 3 = session_id_fp c" "inst ! 4 = weight_commit_lo c" "inst ! 5 = weight_commit_hi c"
  shows "good F inst (synthesize F c empty_layouter)"
proof -
  let ?xs = "[0..<VEC_DIM]" and ?ys = "[VEC_DIM..<2 * VEC_DIM]"
  define lay where "lay = (\<lparr>advice = map Some x @ map Some y, constrs = []\<rparr> :: 'a layouter)"
  have vy: "vec8 y" using y by simp
  have len: "length x = VEC_DIM" "length y = VEC_DIM" using v vy by (simp_all add: vec8_def)
  have two: "VEC_DIM + VEC_DIM = 2 * VEC_DIM" by simp
  have n: "length (advice lay) = 2 * VEC_DIM" using len by (simp add: lay_def)
  have g: "good F inst lay" by (auto simp: good_def lay_def)
  have vx: "cell_val lay i = x ! i" if "i < VEC_DIM" for i
    using that len by (simp add: cell_val_def lay_def nth_append)
  have vys: "cell_val lay (VEC_DIM + i) = y ! i" if "i < VEC_DIM" for i
    using that len by (simp add: cell_val_def lay_def nth_append)
  have mx: "map (cell_val lay) ?xs = x" using vx len by (auto intro!: nth_equalityI)
  have my: "map (cell_val lay) ?ys = y"
    using vys len by (auto intro!: nth_equalityI simp: add.commute)
  let ?rs = "zip (lc_b c) (zip (lc_w c) ?ys)"
  have rows: "\<forall>(bi, row, yi) \<in> set ?rs. yi < length (advice lay) \<and>
      cell_val lay yi = bi + (\<Sum>(k, x) \<leftarrow> zip row ?xs. k * cell_val lay x)"
  proof clarify
    fix bi row yi assume "(bi, row, yi) \<in> set ?rs"
    then obtain i where i: "i < VEC_DIM" "bi = lc_b c ! i" "row = lc_w c ! i" "yi = VEC_DIM + i"
      using v(2) l by (auto simp: in_set_zip layer_ok_def vec8_def)
    have "length row = VEC_DIM"
      using i v(2) l by (simp add: layer_ok_def list_all_length vec8_def)
    then have "(\<Sum>(k, x) \<leftarrow> zip row ?xs. k * cell_val lay x) = (\<Sum>j<VEC_DIM. row ! j * x ! j)"
      using sum_zip_cells [where row = row and n = VEC_DIM and m = 0 and s = "cell_val lay"] vx by simp
    then show "yi < length (advice lay) \<and>
        cell_val lay yi = bi + (\<Sum>(k, x) \<leftarrow> zip row ?xs. k * cell_val lay x)"
      using i n vys y l by (simp add: layer_apply_nth)
  qed
  define l1 where "l1 = rows_loop ?rs ?xs lay"
  have l1: "good F inst l1 \<and> extends lay l1"
    unfolding l1_def by (rule good_rows_loop [OF g _ rows]) (simp add: n)
  have old: "i < length (advice l1) \<and> cell_val l1 i = cell_val lay i" if "i < 2 * VEC_DIM" for i
    using that l1 n extends_length [of lay l1] extends_val [of lay l1 i] by auto
  have m1: "map (cell_val l1) ?xs = x" "map (cell_val l1) ?ys = y"
    unfolding mx [symmetric] my [symmetric] using old by auto
  define l2 where "l2 = expose_hash F ?xs 0 l1"
  have l2: "good F inst l2 \<and> extends l1 l2"
    unfolding l2_def by (rule good_expose_hash) (use l1 old m1 inst(1) in auto)
  have m2: "map (cell_val l2) ?ys = y" and b2: "\<forall>i \<in> set ?ys. i < length (advice l2)"
    using m1(2) l2 old extends_length [of l1 l2] extends_val [of l1 l2]
    by (auto cong: map_cong) (meson atLeastLessThan_iff less_le_trans)+
  define l3 where "l3 = expose_hash F ?ys 1 l2"
  have l3: "good F inst l3"
    unfolding l3_def using good_expose_hash [OF _ b2] l2 m2 inst(2) by simp
  have "synthesize F c empty_layouter =
      expose_witness (weight_commit_hi c) 5 (expose_witness (weight_commit_lo c) 4
        (expose_witness (session_id_fp c) 3 (expose_witness (layer_idx_fp c) 2 l3)))"
    unfolding synthesize_def load_cells_eq Let_def l3_def l2_def l1_def lay_def c
    by (simp add: empty_layouter_def value_cells_Some v vy len two)
  then show ?thesis
    using l3 good_expose_witness inst(3-6) by metis
qed

lemma le_val_less: "le_val bs < 256 ^ length bs"
  by (metis le_nat_le_val le_val_le_nat mod_less_divisor zero_less_numeral zero_less_power)

section \<open>Independence of the witness\<close>

definition shape :: "'f layouter \<Rightarrow> nat \<times> 'f constr list" where
  "shape lay = (length (advice lay), constrs lay)"

lemma shape_helpers:
  assumes "shape l1 = shape l2"
  shows "fst (load_constant k l1) = fst (load_constant k l2) \<and>
      shape (snd (load_constant k l1)) = shape (snd (load_constant k l2))"
    and "fst (mul_const_by_witness k x l1) = fst (mul_const_by_witness k x l2) \<and>
      shape (snd (mul_const_by_witness k x l1)) = shape (snd (mul_const_by_witness k x l2))"
    and "fst (add_cells x y l1) = fst (add_cells x y l2) \<and>
      shape (snd (add_cells x y l1)) = shape (snd (add_cells x y l2))"
    and "shape (expose_witness v row l1) = shape (expose_witness v' row l2)"
    and "shape (expose_hash F ins row l1) = shape (expose_hash F ins row l2)"
    and "shape (add_constr c l1) = shape (add_constr c l2)"
  using assms
  by (simp_all add: shape_def load_constant_def mul_const_by_witness_def add_cells_def copy_advice_def
      expose_witness_def load_pub_witness_def expose_hash_def poseidon_gadget_def assign_advice_def
      add_constr_def Let_def)

lemma shape_row_loop:
  "shape l1 = shape l2 \<Longrightarrow>
   fst (row_loop r acc l1) = fst (row_loop r acc l2) \<and>
   shape (snd (row_loop r acc l1)) = shape (snd (row_loop r acc l2))"
proof (induction r arbitrary: acc l1 l2)
  case (Cons kx r)
  obtain k x where kx: "kx = (k, x)" by (cases kx)
  let ?m1 = "mul_const_by_witness k x l1" and ?m2 = "mul_const_by_witness k x l2"
  have m: "fst ?m1 = fst ?m2" "shape (snd ?m1) = shape (snd ?m2)"
    using shape_helpers(2) [OF Cons.prems] by auto
  let ?a1 = "add_cells acc (fst ?m2) (snd ?m1)" and ?a2 = "add_cells acc (fst ?m2) (snd ?m2)"
  have a: "fst ?a1 = fst ?a2" "shape (snd ?a1) = shape (snd ?a2)"
    using shape_helpers(3) [OF m(2)] by auto
  show ?case
    using Cons.IH [OF a(2), of "fst ?a2"] kx m(1) a(1) by (simp add: case_prod_beta)
qed simp

lemma shape_rows_loop:
  "shape l1 = shape l2 \<Longrightarrow> shape (rows_loop rs xs l1) = shape (rows_loop rs xs l2)"
proof (induction rs arbitrary: l1 l2)
  case (Cons t rs)
  obtain bi row yi where t: "t = (bi, row, yi)" by (cases t)
  let ?c1 = "load_constant bi l1" and ?c2 = "load_constant bi l2"
  have c: "fst ?c1 = fst ?c2" "shape (snd ?c1) = shape (snd ?c2)"
    using shape_helpers(1) [OF Cons.prems] by auto
  let ?r1 = "row_loop (zip row xs) (fst ?c2) (snd ?c1)" and ?r2 = "row_loop (zip row xs) (fst ?c2) (snd ?c2)"
  have r: "fst ?r1 = fst ?r2" "shape (snd ?r1) = shape (snd ?r2)"
    using shape_row_loop [OF c(2)] by auto
  show ?case
    using Cons.IH [OF shape_helpers(6) [OF r(2)]] t c(1) r(1) by (simp add: case_prod_beta)
qed simp

lemma synthesize_shape:
  assumes "lc_w c = lc_w d" "lc_b c = lc_b d"
  shows "constrs (synthesize F c empty_layouter) = constrs (synthesize F d empty_layouter)"
proof -
  have "shape (synthesize F c empty_layouter) = shape (synthesize F d empty_layouter)"
    unfolding synthesize_def load_cells_eq Let_def assms
    by (simp only: prod.case length_value_cells layouter.simps layouter.update_convs empty_layouter_def
        list.size add_0 append_Nil length_append)
      (intro shape_helpers shape_rows_loop, simp add: shape_def)
  then show ?thesis by (simp add: shape_def)
qed

lemma satisfies_constrs: "constrs l = constrs l' \<Longrightarrow> satisfies F inst s l \<longleftrightarrow> satisfies F inst s l'"
  by (simp add: satisfies_def)

lemma good_satisfies: "good F inst lay \<Longrightarrow> satisfies F inst (cell_val lay) lay"
  by (simp add: good_def satisfies_def list_all_iff)

text \<open>The constraints of the keyed circuit, and the prover's circuit against its instance.\<close>

lemma keyed_circuit_sound:
  assumes "layer_ok l" "satisfies F inst s (synthesize F (setup_circuit (layer_w l) (layer_b l)) empty_layouter)"
  defines "x \<equiv> map s [0..<VEC_DIM]"
  shows "vec8 x \<and> inst ! 0 = poseidon F x \<and> inst ! 1 = poseidon F (layer_apply l x)"
proof -
  have w: "lc_w (setup_circuit (layer_w l) (layer_b l)) = layer_w l"
    "lc_b (setup_circuit (layer_w l) (layer_b l)) = layer_b l" by (simp_all add: setup_circuit_def)
  have eta: "\<lparr>layer_w = layer_w l, layer_b = layer_b l\<rparr> = l" by simp
  have "inst ! 0 = poseidon F x \<and> inst ! 1 = poseidon F (layer_apply l x)"
    using synthesize_sound [of "setup_circuit (layer_w l) (layer_b l)" F inst s] assms(1,2)
    unfolding w eta layer_ok_def x_def by metis
  then show ?thesis by (simp add: x_def vec8_def)
qed

lemma prove_circuit_good:
  assumes "layer_ok l" "vec8 x" "y = layer_apply l x"
  shows "good F (build_instance (poseidon F x) (poseidon F y) i sid wc)
    (synthesize F (prove_circuit x y (layer_w l) (layer_b l) i sid wc) empty_layouter)"
  by (rule synthesize_complete [where x = x and y = y and l = l])
    (use assms in \<open>simp_all add: prove_circuit_def build_instance_def split_commit_to_fp_def\<close>)

section \<open>Properties\<close>

text \<open>
  The layer circuit is exact.  For a layer of the right shape, the constraints
  the keys are generated for do not depend on the witness or the identity values,
  and an assignment of the cells satisfies them against an instance iff the
  first two instance rows are the commitments of some vector x and of W x + b.
\<close>

theorem layer_circuit_exact:
  assumes "layer_ok l"
  shows "(\<forall>c. lc_w c = layer_w l \<longrightarrow> lc_b c = layer_b l \<longrightarrow>
      constrs (synthesize F c empty_layouter) =
      constrs (synthesize F (setup_circuit (layer_w l) (layer_b l)) empty_layouter)) \<and>
    ((\<exists>s. satisfies F inst s (synthesize F (setup_circuit (layer_w l) (layer_b l)) empty_layouter)) \<longleftrightarrow>
     (\<exists>x. vec8 x \<and> inst ! 0 = poseidon F x \<and> inst ! 1 = poseidon F (layer_apply l x)))"
proof (intro conjI iffI)
  let ?keyed = "synthesize F (setup_circuit (layer_w l) (layer_b l)) empty_layouter"
  show indep: "\<forall>c. lc_w c = layer_w l \<longrightarrow> lc_b c = layer_b l \<longrightarrow>
      constrs (synthesize F c empty_layouter) = constrs ?keyed"
    by (auto intro!: synthesize_shape simp: setup_circuit_def)
  {
    assume "\<exists>s. satisfies F inst s ?keyed"
    then show "\<exists>x. vec8 x \<and> inst ! 0 = poseidon F x \<and> inst ! 1 = poseidon F (layer_apply l x)"
      using keyed_circuit_sound [OF assms] by blast
  next
    assume "\<exists>x. vec8 x \<and> inst ! 0 = poseidon F x \<and> inst ! 1 = poseidon F (layer_apply l x)"
    then obtain x where x: "vec8 x" "inst ! 0 = poseidon F x" "inst ! 1 = poseidon F (layer_apply l x)"
      by blast
    let ?c = "\<lparr>lc_w = layer_w l, lc_b = layer_b l, lc_x = Some x, lc_y = Some (layer_apply l x),
      layer_idx_fp = inst ! 2, session_id_fp = inst ! 3, weight_commit_lo = inst ! 4,
      weight_commit_hi = inst ! 5\<rparr>"
    have "satisfies F inst (cell_val (synthesize F ?c empty_layouter)) (synthesize F ?c empty_layouter)"
      using assms x by (intro good_satisfies synthesize_complete [where x = x and l = l]) simp_all
    moreover have "constrs (synthesize F ?c empty_layouter) = constrs ?keyed"
      using indep by simp
    ultimately show "\<exists>s. satisfies F inst s ?keyed" using satisfies_constrs by blast
  }
qed

theorem layer_circuit_exact_witness:
  "\<exists>(F :: int fp_lib) l s. layer_ok l \<and> satisfies F [8, 40, 0, 0, 0, 0] s
    (synthesize F (setup_circuit (layer_w l) (layer_b l)) empty_layouter)"
proof -
  define F :: "int fp_lib" where "F = \<lparr>fp_from_repr = (\<lambda>_. None), fp_to_repr = (\<lambda>_. []), poseidon = sum_list\<rparr>"
  define l :: "int Layer" where "l = \<lparr>layer_w = replicate 8 (replicate 8 0), layer_b = replicate 8 5\<rparr>"
  let ?x = "replicate 8 (1 :: int)"
  have ok: "layer_ok l" by (simp add: l_def layer_ok_def vec8_def VEC_DIM_def list_all_iff)
  have "layer_apply l ?x = replicate 8 5"
    by (rule nth_equalityI) (simp_all add: layer_apply_def l_def VEC_DIM_def foldl_add_sum)
  then have "vec8 ?x \<and> [8, 40, 0, 0, 0, 0] ! 0 = poseidon F ?x \<and>
      [8, 40, 0, 0, 0, 0] ! 1 = poseidon F (layer_apply l ?x)"
    by (simp add: F_def vec8_def VEC_DIM_def sum_list_replicate)
  then have "\<exists>s. satisfies F [8, 40, 0, 0, 0, 0] s
      (synthesize F (setup_circuit (layer_w l) (layer_b l)) empty_layouter)"
    using layer_circuit_exact [OF ok, of F "[8, 40, 0, 0, 0, 0]"] by blast
  then show ?thesis using ok by blast
qed

text \<open>
  Every layer of a run can be proved, and the instance names the proof's place.
  For a run of a model of the right shape, the prover's circuit for layer i with
  the run's activations satisfies its constraints against the instance built from
  the two activation commitments; and, the embedding of 128-bit integers being
  injective, two instances are equal only for the same commitments, layer index,
  session and weight commitment.
\<close>

theorem run_layers_provable:
  fixes m :: "('f::comm_ring_1) Model" and F :: "'f fp_lib"
  assumes "model_ok m" "vec8 input" "i < NUM_LAYERS" "length sid = 16" "length wc = 32"
    and "inj_on (of_nat :: nat \<Rightarrow> 'f) {..<2 ^ 128}"
  defines "act \<equiv> activations (Model_run m input)" and "l \<equiv> layers m ! i"
  defines "lay \<equiv> synthesize F (prove_circuit (act ! i) (act ! Suc i) (layer_w l) (layer_b l) i sid wc) empty_layouter"
  shows "satisfies F (build_instance (poseidon F (act ! i)) (poseidon F (act ! Suc i)) i sid wc) (cell_val lay) lay \<and>
    (\<forall>cx cy j sid' wc'. j < 2 ^ 64 \<longrightarrow> length sid' = 16 \<longrightarrow> length wc' = 32 \<longrightarrow>
      build_instance cx cy j sid' wc' =
        build_instance (poseidon F (act ! i)) (poseidon F (act ! Suc i)) i sid wc \<longrightarrow>
      cx = poseidon F (act ! i) \<and> cy = poseidon F (act ! Suc i) \<and> j = i \<and> sid' = sid \<and> wc' = wc)"
proof (intro conjI allI impI)
  have lok: "layer_ok l" using assms(1,3) by (simp add: l_def model_ok_def list_all_length)
  have vi: "vec8 (act ! i)"
    using Model_run_shape [OF assms(1,2)] assms(3) by (simp add: act_def list_all_length)
  have step: "act ! Suc i = layer_apply l (act ! i)"
    unfolding act_def l_def using assms(1,3) by (rule Model_run_step)
  have "good F (build_instance (poseidon F (act ! i)) (poseidon F (act ! Suc i)) i sid wc) lay"
    unfolding lay_def by (rule prove_circuit_good [OF lok vi step])
  then show "satisfies F (build_instance (poseidon F (act ! i)) (poseidon F (act ! Suc i)) i sid wc) (cell_val lay) lay"
    by (rule good_satisfies)
next
  fix cx cy j sid' wc'
  assume j: "j < 2 ^ 64" and s': "length sid' = 16" and w': "length wc' = 32"
    and eq: "build_instance cx cy j sid' wc' =
      build_instance (poseidon F (act ! i)) (poseidon F (act ! Suc i)) i sid wc"
  show "cx = poseidon F (act ! i)" "cy = poseidon F (act ! Suc i)"
    using eq by (simp_all add: build_instance_def split_commit_to_fp_def)
  have emb: "a = b" if "(of_nat a :: 'f) = of_nat b" "a < 2 ^ 128" "b < 2 ^ 128" for a b
    using that assms(6) by (auto dest: inj_onD)
  have "(2 :: nat) ^ 64 \<le> 2 ^ 128" by (rule power_increasing) simp_all
  then show "j = i"
    using eq j assms(3) emb [of j i] by (simp add: build_instance_def split_commit_to_fp_def NUM_LAYERS_def)
  have bytes: "a = b" if eq: "(of_nat (le_val a) :: 'f) = of_nat (le_val b)" and l: "length a = 16" "length b = 16"
    for a b :: bytes
  proof -
    have p: "(256 :: nat) ^ 16 = 2 ^ 128" by simp
    have "le_val a < 2 ^ 128" "le_val b < 2 ^ 128"
      using le_val_less [of a] le_val_less [of b] unfolding l p by blast+
    then have "le_val a = le_val b" by (rule emb [OF eq])
    then show "a = b" using le_nat_le_val [of a] le_nat_le_val [of b] unfolding l by metis
  qed
  show "sid' = sid"
    using eq bytes [of sid' sid] s' assms(4)
    by (simp add: build_instance_def split_commit_to_fp_def session_id_to_fp_def)
  have "take 16 wc' = take 16 wc" "take 16 (drop 16 wc') = take 16 (drop 16 wc)"
    using eq bytes [of "take 16 wc'" "take 16 wc"] bytes [of "take 16 (drop 16 wc')" "take 16 (drop 16 wc)"] w' assms(5)
    by (simp_all add: build_instance_def split_commit_to_fp_def)
  moreover have "take 16 (drop 16 wc') = drop 16 wc'" "take 16 (drop 16 wc) = drop 16 wc"
    using w' assms(5) by simp_all
  ultimately show "wc' = wc" by (metis append_take_drop_id)
qed

theorem run_layers_provable_witness:
  "\<exists>(F :: int fp_lib) m input s. model_ok m \<and> vec8 input \<and>
    (let act = activations (Model_run m input); l = layers m ! 3 in
     satisfies F (build_instance (poseidon F (act ! 3)) (poseidon F (act ! Suc 3)) 3 (replicate 16 1) (replicate 32 2)) s
       (synthesize F (prove_circuit (act ! 3) (act ! Suc 3) (layer_w l) (layer_b l) 3 (replicate 16 1) (replicate 32 2))
         empty_layouter))"
proof -
  define F :: "int fp_lib" where "F = \<lparr>fp_from_repr = (\<lambda>_. None), fp_to_repr = (\<lambda>_. []), poseidon = sum_list\<rparr>"
  define m :: "int Model" where
    "m = \<lparr>layers = replicate 8 \<lparr>layer_w = replicate 8 (replicate 8 2), layer_b = replicate 8 5\<rparr>, weight_commit = []\<rparr>"
  let ?x = "replicate 8 (1 :: int)"
  have m: "model_ok m" by (simp add: m_def model_ok_def layer_ok_def vec8_def VEC_DIM_def NUM_LAYERS_def list_all_iff)
  have x: "vec8 ?x" by (simp add: vec8_def VEC_DIM_def)
  have i: "3 < NUM_LAYERS" "length (replicate 16 1 :: bytes) = 16" "length (replicate 32 2 :: bytes) = 32"
    by (simp_all add: NUM_LAYERS_def)
  have inj: "inj_on (of_nat :: nat \<Rightarrow> int) {..<2 ^ 128}" by (simp add: inj_on_def)
  show ?thesis
    using run_layers_provable [OF m x i inj, of F] m x unfolding Let_def by blast
qed

end
