(* ===== verification/Zk_Proofs.thy ===== *)
theory Zk_Proofs
  imports Tee_Server Zk_Layer
begin

text \<open>
  The proofs over the circuits of \<open>ullm-zk\<close> and their use in a session: key
  generation, proving and verification of \<open>layer.rs\<close> and \<open>circuit.rs\<close>, and the two
  adapters of \<open>ullm-demo\<close> that prove a run of the model layer by layer and check
  it on the client.  The proof system of \<open>halo2_proofs\<close> is a parameter: it is
  given the synthesized circuit, and the law asked of it is completeness and
  soundness, the latter without the negligible error of the real system.  A panic
  of \<open>expect\<close> is \<open>None\<close>.

  Shown: which activation commitments can be proved to the client's verifier, what
  a receipt the client accepted says about the computation, and that a session
  with prover and verifier succeeds.
\<close>

section \<open>The proof system\<close>

record ('f, 'pk, 'vk, 'c) plonk_lib =
  keygen_vk :: "nat \<Rightarrow> 'f layouter \<Rightarrow> 'vk option"
  keygen_pk :: "nat \<Rightarrow> 'vk \<Rightarrow> 'f layouter \<Rightarrow> 'pk option"
  create_proof :: "'pk \<Rightarrow> 'f layouter \<Rightarrow> 'f list \<Rightarrow> 'c \<Rightarrow> bytes option"
  verify_proof :: "'vk \<Rightarrow> 'f list \<Rightarrow> bytes \<Rightarrow> bool"

text \<open>
  A proof of knowledge: from a proof that verifies the extractor finds an assignment
  of the cells that satisfies the circuit of the key.
\<close>

type_synonym ('f, 'vk) extractor = "'vk \<Rightarrow> 'f list \<Rightarrow> bytes \<Rightarrow> nat \<Rightarrow> 'f"

definition plonk_knowledge ::
  "('f::comm_ring_1) fp_lib \<Rightarrow> ('f, 'pk, 'vk, 'c) plonk_lib \<Rightarrow> ('f, 'vk) extractor \<Rightarrow> bool" where
  "plonk_knowledge F H E \<longleftrightarrow> (\<forall>k lay vk inst zkp. keygen_vk H k lay = Some vk \<longrightarrow> verify_proof H vk inst zkp \<longrightarrow>
    satisfies F inst (E vk inst zkp) lay)"

definition plonk_complete :: "('f::comm_ring_1) fp_lib \<Rightarrow> ('f, 'pk, 'vk, 'c) plonk_lib \<Rightarrow> bool" where
  "plonk_complete F H \<longleftrightarrow> (\<forall>k lay vk pk lay' inst coins.
    keygen_vk H k lay = Some vk \<longrightarrow> keygen_pk H k vk lay = Some pk \<longrightarrow> constrs lay' = constrs lay \<longrightarrow>
    good F inst lay' \<longrightarrow> (\<exists>zkp. create_proof H pk lay' inst coins = Some zkp \<and> verify_proof H vk inst zkp))"

section \<open>layer.rs\<close>

definition LAYER_CIRCUIT_K :: nat where "LAYER_CIRCUIT_K = 13"

record 'pk LayerProverParams =
  lpp_pk :: 'pk
  lpp_layer_idx :: nat

record 'vk LayerVerifierParams =
  lvp_vk :: 'vk
  lvp_layer_idx :: nat

definition setup_layer ::
  "('f::comm_ring_1) fp_lib \<Rightarrow> ('f, 'pk, 'vk, 'c) plonk_lib \<Rightarrow> nat \<Rightarrow> 'f list list \<Rightarrow> 'f list
   \<Rightarrow> ('pk LayerProverParams \<times> 'vk LayerVerifierParams) option" where
  "setup_layer F H layer_idx w b =
    (let empty = synthesize F (setup_circuit w b) empty_layouter in
     case keygen_vk H LAYER_CIRCUIT_K empty of
       None \<Rightarrow> None
     | Some vk \<Rightarrow>
       (case keygen_pk H LAYER_CIRCUIT_K vk empty of
          None \<Rightarrow> None
        | Some pk \<Rightarrow> Some (\<lparr>lpp_pk = pk, lpp_layer_idx = layer_idx\<rparr>, \<lparr>lvp_vk = vk, lvp_layer_idx = layer_idx\<rparr>)))"

definition LayerProver_prove ::
  "('f::comm_ring_1) fp_lib \<Rightarrow> ('f, 'pk, 'vk, 'c) plonk_lib \<Rightarrow> 'pk LayerProverParams \<Rightarrow> 'f list \<Rightarrow> 'f list
   \<Rightarrow> 'f \<Rightarrow> 'f \<Rightarrow> 'f list list \<Rightarrow> 'f list \<Rightarrow> nat \<Rightarrow> bytes \<Rightarrow> bytes \<Rightarrow> 'c \<Rightarrow> bytes option" where
  "LayerProver_prove F H self x y x_commit y_commit w b layer_idx session_id wc coins =
    create_proof H (lpp_pk self) (synthesize F (prove_circuit x y w b layer_idx session_id wc) empty_layouter)
      (build_instance x_commit y_commit layer_idx session_id wc) coins"

datatype LayerVerifyError = InvalidLayerProof

definition LayerVerifier_verify ::
  "(('f::comm_ring_1), 'pk, 'vk, 'c) plonk_lib \<Rightarrow> 'vk LayerVerifierParams \<Rightarrow> 'f \<Rightarrow> 'f \<Rightarrow> nat \<Rightarrow> bytes \<Rightarrow> bytes
   \<Rightarrow> bytes \<Rightarrow> LayerVerifyError + unit" where
  "LayerVerifier_verify H self x_commit y_commit layer_idx session_id wc zkp =
    (if verify_proof H (lvp_vk self) (build_instance x_commit y_commit layer_idx session_id wc) zkp
     then Inr () else Inl InvalidLayerProof)"

section \<open>circuit.rs\<close>

definition PREIMAGE_K :: nat where "PREIMAGE_K = 7"

datatype VerifyError = InvalidZkProof

definition preimage_setup ::
  "('f::comm_ring_1) fp_lib \<Rightarrow> ('f, 'pk, 'vk, 'c) plonk_lib \<Rightarrow> ('pk \<times> 'vk) option" where
  "preimage_setup F H =
    (let empty = preimage_synthesize F None None empty_layouter in
     case keygen_vk H PREIMAGE_K empty of
       None \<Rightarrow> None
     | Some vk \<Rightarrow> map_option (\<lambda>pk. (pk, vk)) (keygen_pk H PREIMAGE_K vk empty))"

definition Prover_prove ::
  "('f::comm_ring_1) fp_lib \<Rightarrow> ('f, 'pk, 'vk, 'c) plonk_lib \<Rightarrow> 'pk \<Rightarrow> 'f \<Rightarrow> 'f \<Rightarrow> 'f \<Rightarrow> 'c \<Rightarrow> bytes option" where
  "Prover_prove F H pk x y digest coins =
    create_proof H pk (preimage_synthesize F (Some x) (Some y) empty_layouter) [digest] coins"

definition Verifier_verify :: "('f, 'pk, 'vk, 'c) plonk_lib \<Rightarrow> 'vk \<Rightarrow> 'f \<Rightarrow> bytes \<Rightarrow> VerifyError + unit" where
  "Verifier_verify H vk digest zkp = (if verify_proof H vk [digest] zkp then Inr () else Inl InvalidZkProof)"

section \<open>ullm-demo: the adapters\<close>

record ('f, 'pk) PerLayerProverAdapter =
  pa_model :: "'f Model"
  pa_params :: "'pk LayerProverParams list"

record 'vk PerLayerVerifierAdapter =
  va_params :: "'vk LayerVerifierParams list"
  va_weight_commit :: bytes

text \<open>
  The loop over the layers.  An index out of range panics; the coins are what
  \<open>OsRng\<close> gives to the proof of a layer.
\<close>

fun prove_loop ::
  "('f::comm_ring_1) fp_lib \<Rightarrow> ('f, 'pk, 'vk, 'c) plonk_lib \<Rightarrow> ('f, 'pk) PerLayerProverAdapter \<Rightarrow> 'f Trace
   \<Rightarrow> SessionId \<Rightarrow> bytes \<Rightarrow> (nat \<Rightarrow> 'c) \<Rightarrow> nat list \<Rightarrow> bytes list option" where
  "prove_loop F H self trace sid wc coins [] = Some []"
| "prove_loop F H self trace sid wc coins (i # is) =
    (if Suc i < length (activations trace) \<and> i < length (layers (pa_model self)) \<and> i < length (pa_params self)
     then let x = activations trace ! i; y = activations trace ! Suc i; layer = layers (pa_model self) ! i in
       case LayerProver_prove F H (pa_params self ! i) x y (vector_hash_native F x) (vector_hash_native F y)
              (layer_w layer) (layer_b layer) i sid wc (coins i) of
         None \<Rightarrow> None
       | Some zkp \<Rightarrow> map_option (\<lambda>zkps. zkp # zkps) (prove_loop F H self trace sid wc coins is)
     else None)"

definition prove_trace ::
  "('f::comm_ring_1) fp_lib \<Rightarrow> ('f, 'pk, 'vk, 'c) plonk_lib \<Rightarrow> ('f, 'pk) PerLayerProverAdapter \<Rightarrow> (nat \<Rightarrow> 'c)
   \<Rightarrow> 'f Trace \<Rightarrow> SessionId \<Rightarrow> bytes \<Rightarrow> bytes list option" where
  "prove_trace F H self coins trace sid wc = prove_loop F H self trace sid wc coins [0..<NUM_LAYERS]"

fun verify_loop ::
  "('f::comm_ring_1) fp_lib \<Rightarrow> ('f, 'pk, 'vk, 'c) plonk_lib \<Rightarrow> 'vk PerLayerVerifierAdapter \<Rightarrow> bytes list \<Rightarrow> bytes list
   \<Rightarrow> SessionId \<Rightarrow> bytes \<Rightarrow> nat list \<Rightarrow> unit result" where
  "verify_loop F H self commits proofs sid wc [] = Inr ()"
| "verify_loop F H self commits proofs sid wc (i # is) =
    rbind (map_err (\<lambda>e. Other (''layer '' @ dec i @ '' input commit: '' @ e)) (fp_from_bytes F (commits ! i))) (\<lambda>xc.
    rbind (map_err (\<lambda>e. Other (''layer '' @ dec i @ '' output commit: '' @ e)) (fp_from_bytes F (commits ! Suc i))) (\<lambda>yc.
    rbind (map_err (\<lambda>_. Other (''layer '' @ dec i @ '' proof failed''))
      (LayerVerifier_verify H (va_params self ! i) xc yc i sid wc (proofs ! i))) (\<lambda>_.
    verify_loop F H self commits proofs sid wc is)))"

definition verify_layers ::
  "('f::comm_ring_1) fp_lib \<Rightarrow> ('f, 'pk, 'vk, 'c) plonk_lib \<Rightarrow> 'vk PerLayerVerifierAdapter \<Rightarrow> LayerVerifier" where
  "verify_layers F H self commits proofs sid wc =
    (if length commits \<noteq> NUM_LAYERS + 1
     then Inl (Other (''expected '' @ dec (NUM_LAYERS + 1) @ '' activation commits, got '' @ dec (length commits)))
     else if length proofs \<noteq> NUM_LAYERS
     then Inl (Other (''expected '' @ dec NUM_LAYERS @ '' layer proofs, got '' @ dec (length proofs)))
     else if wc \<noteq> va_weight_commit self
     then Inl (Other ''layer-verifier weight_commit does not match expected'')
     else verify_loop F H self commits proofs sid wc [0..<NUM_LAYERS])"

section \<open>ullm-demo: the stack\<close>

fun setup_loop ::
  "('f::comm_ring_1) fp_lib \<Rightarrow> ('f, 'pk, 'vk, 'c) plonk_lib \<Rightarrow> 'f Model \<Rightarrow> nat list
   \<Rightarrow> ('pk LayerProverParams list \<times> 'vk LayerVerifierParams list) option" where
  "setup_loop F H m [] = Some ([], [])"
| "setup_loop F H m (i # is) =
    (case setup_layer F H i (layer_w (layers m ! i)) (layer_b (layers m ! i)) of
       None \<Rightarrow> None
     | Some (pp, vp) \<Rightarrow> map_option (\<lambda>(pps, vps). (pp # pps, vp # vps)) (setup_loop F H m is))"

text \<open>The service and the client's verifier; a panic of the prover is shown never to happen.\<close>

definition demo_stack ::
  "'r prims \<Rightarrow> ('f::comm_ring_1) session_lib \<Rightarrow> ('f, 'pk, 'vk, 'c) plonk_lib \<Rightarrow> (nat \<Rightarrow> 'c) \<Rightarrow> 'r
   \<Rightarrow> ('f AppState \<times> TenantPool \<times> 'vk PerLayerVerifierAdapter) option" where
  "demo_stack P L H coins gen =
    (case Model_from_seed P (sl_fp L) (replicate 32 0) of
       None \<Rightarrow> None
     | Some model \<Rightarrow>
       (case setup_loop (sl_fp L) H model [0..<NUM_LAYERS] of
          None \<Rightarrow> None
        | Some (prover_params, verifier_params) \<Rightarrow>
          let (st, pool, nonces, gen) = initial_state P model gen;
              adapter = \<lparr>pa_model = model, pa_params = prover_params\<rparr>
          in Some (st\<lparr>as_layer_prover := Some (\<lambda>trace sid wc.
                 case prove_trace (sl_fp L) H adapter coins trace sid wc of
                   Some zkps \<Rightarrow> Inr zkps | None \<Rightarrow> Inl ''proof creation'')\<rparr>,
               pool, \<lparr>va_params = verifier_params, va_weight_commit = weight_commit model\<rparr>)))"

section \<open>Lemmas: one layer\<close>

lemma setup_layer_keys:
  "setup_layer F H i w b = Some (pp, vp) \<longleftrightarrow> lpp_layer_idx pp = i \<and> lvp_layer_idx vp = i \<and>
    keygen_vk H LAYER_CIRCUIT_K (synthesize F (setup_circuit w b) empty_layouter) = Some (lvp_vk vp) \<and>
    keygen_pk H LAYER_CIRCUIT_K (lvp_vk vp) (synthesize F (setup_circuit w b) empty_layouter) = Some (lpp_pk pp)"
  by (auto simp: setup_layer_def Let_def split: option.splits)

text \<open>The input of a layer that the extractor reads from a proof.\<close>

definition extracted ::
  "(('f::comm_ring_1), 'vk) extractor \<Rightarrow> 'vk LayerVerifierParams \<Rightarrow> 'f \<Rightarrow> 'f \<Rightarrow> nat \<Rightarrow> bytes \<Rightarrow> bytes \<Rightarrow> bytes \<Rightarrow> 'f list" where
  "extracted E vp xc yc i sid wc zkp = map (E (lvp_vk vp) (build_instance xc yc i sid wc) zkp) [0..<VEC_DIM]"

lemma layer_proof_sound:
  assumes "plonk_knowledge F H E" "layer_ok l" "setup_layer F H i (layer_w l) (layer_b l) = Some (pp, vp)"
    and "LayerVerifier_verify H vp xc yc j sid wc zkp = Inr ()"
  shows "vec8 (extracted E vp xc yc j sid wc zkp)" "xc = poseidon F (extracted E vp xc yc j sid wc zkp)"
    "yc = poseidon F (layer_apply l (extracted E vp xc yc j sid wc zkp))"
proof -
  let ?inst = "build_instance xc yc j sid wc"
  have "verify_proof H (lvp_vk vp) ?inst zkp" using assms(4) by (simp add: LayerVerifier_verify_def split: if_splits)
  then have "satisfies F ?inst (E (lvp_vk vp) ?inst zkp)
      (synthesize F (setup_circuit (layer_w l) (layer_b l)) empty_layouter)"
    using assms(1,3) unfolding plonk_knowledge_def setup_layer_keys by blast
  note s = keyed_circuit_sound [OF assms(2) this, folded extracted_def]
  show "vec8 (extracted E vp xc yc j sid wc zkp)" "xc = poseidon F (extracted E vp xc yc j sid wc zkp)"
    "yc = poseidon F (layer_apply l (extracted E vp xc yc j sid wc zkp))"
    using s by (simp_all add: build_instance_def split_commit_to_fp_def)
qed

lemma layer_proof_complete:
  assumes "plonk_complete F H" "layer_ok l" "setup_layer F H i (layer_w l) (layer_b l) = Some (pp, vp)"
    and "vec8 x" "y = layer_apply l x"
  shows "\<exists>zkp. LayerProver_prove F H pp x y (poseidon F x) (poseidon F y) (layer_w l) (layer_b l) j sid wc coins =
      Some zkp \<and> LayerVerifier_verify H vp (poseidon F x) (poseidon F y) j sid wc zkp = Inr ()"
proof -
  let ?c = "prove_circuit x y (layer_w l) (layer_b l) j sid wc" and ?inst = "build_instance (poseidon F x) (poseidon F y) j sid wc"
  have "good F ?inst (synthesize F ?c empty_layouter)" by (rule prove_circuit_good [OF assms(2,4,5)])
  moreover have "constrs (synthesize F ?c empty_layouter) =
      constrs (synthesize F (setup_circuit (layer_w l) (layer_b l)) empty_layouter)"
    by (rule synthesize_shape) (simp_all add: prove_circuit_def setup_circuit_def split_commit_to_fp_def)
  ultimately show ?thesis
    using assms(1,3) unfolding plonk_complete_def setup_layer_keys LayerProver_prove_def LayerVerifier_verify_def
    by (metis (no_types, lifting))
qed

text \<open>The preimage circuit: a digest can be proved iff it has a preimage.\<close>

lemma preimage_exact:
  assumes "plonk_knowledge F H E" "plonk_complete F H" "preimage_setup F H = Some (pk, vk)"
  shows "(\<exists>zkp. Verifier_verify H vk d zkp = Inr ()) \<longleftrightarrow> (\<exists>x y. d = digest_from_inputs F x y)"
proof -
  let ?lay = "\<lambda>x y. preimage_synthesize F x y empty_layouter"
  have key: "keygen_vk H PREIMAGE_K (?lay None None) = Some vk" "keygen_pk H PREIMAGE_K vk (?lay None None) = Some pk"
    using assms(3) by (auto simp: preimage_setup_def Let_def split: option.splits)
  have "\<exists>x y. d = digest_from_inputs F x y" if "verify_proof H vk [d] zkp" for zkp
  proof -
    have "satisfies F [d] (E vk [d] zkp) (?lay None None)" using assms(1) key(1) that unfolding plonk_knowledge_def by blast
    then have "d = digest_from_inputs F (E vk [d] zkp 0) (E vk [d] zkp 1)"
      by (auto simp: preimage_synthesize_def assign_advice_def empty_layouter_def digest_from_inputs_def Let_def)
    then show ?thesis by blast
  qed
  moreover have "\<exists>zkp. verify_proof H vk [digest_from_inputs F x y] zkp" for x y
  proof -
    have "good F [digest_from_inputs F x y] (?lay (Some x) (Some y))"
      by (auto simp: preimage_synthesize_def assign_advice_def empty_layouter_def digest_from_inputs_def Let_def
          expose_hash_def poseidon_gadget_def add_constr_def good_def cell_val_def nth_append)
    moreover have "constrs (?lay (Some x) (Some y)) = constrs (?lay None None)"
      by (simp add: preimage_synthesize_def assign_advice_def empty_layouter_def Let_def expose_hash_def
          poseidon_gadget_def add_constr_def)
    ultimately show ?thesis using assms(2) key unfolding plonk_complete_def by blast
  qed
  ultimately show ?thesis by (auto simp: Verifier_verify_def split: if_splits)
qed

section \<open>Lemmas: all layers\<close>

lemma setup_loop_keys:
  assumes "setup_loop F H m is = Some (pps, vps)"
  shows "length pps = length is \<and> length vps = length is \<and> (\<forall>n < length is.
    setup_layer F H (is ! n) (layer_w (layers m ! (is ! n))) (layer_b (layers m ! (is ! n))) = Some (pps ! n, vps ! n))"
  using assms
proof (induction "is" arbitrary: pps vps)
  case (Cons i "is")
  then obtain pp vp pps' vps' where s: "setup_layer F H i (layer_w (layers m ! i)) (layer_b (layers m ! i)) = Some (pp, vp)"
    "setup_loop F H m is = Some (pps', vps')" "pps = pp # pps'" "vps = vp # vps'"
    by (auto split: option.splits)
  then show ?case using Cons.IH [OF s(2)] by (auto simp: nth_Cons split: nat.split)
qed simp

lemma setup_layers:
  assumes "setup_loop F H m [0..<NUM_LAYERS] = Some (pps, vps)"
  shows "length pps = NUM_LAYERS" "length vps = NUM_LAYERS"
    "i < NUM_LAYERS \<Longrightarrow> setup_layer F H i (layer_w (layers m ! i)) (layer_b (layers m ! i)) = Some (pps ! i, vps ! i)"
  using setup_loop_keys [OF assms] by auto

lemma verify_loop_ok:
  "verify_loop F H va commits proofs sid wc is = Inr () \<longleftrightarrow> (\<forall>i \<in> set is. \<exists>xc yc.
    fp_from_repr F (commits ! i) = Some xc \<and> fp_from_repr F (commits ! Suc i) = Some yc \<and>
    LayerVerifier_verify H (va_params va ! i) xc yc i sid wc (proofs ! i) = Inr ())"
  by (induction "is") (auto simp: rbind_eq_Inr map_err_eq_Inr fp_from_bytes_def ok_or_eq_Inr)

lemma verify_layers_ok:
  "verify_layers F H va commits proofs sid wc = Inr () \<longleftrightarrow>
    length commits = NUM_LAYERS + 1 \<and> length proofs = NUM_LAYERS \<and> wc = va_weight_commit va \<and>
    (\<forall>i < NUM_LAYERS. \<exists>xc yc.
      fp_from_repr F (commits ! i) = Some xc \<and> fp_from_repr F (commits ! Suc i) = Some yc \<and>
      LayerVerifier_verify H (va_params va ! i) xc yc i sid wc (proofs ! i) = Inr ())"
  by (auto simp: verify_layers_def verify_loop_ok)

lemma model_layer_ok: "model_ok m \<Longrightarrow> i < NUM_LAYERS \<Longrightarrow> layer_ok (layers m ! i)"
  by (simp add: model_ok_def list_all_length)

text \<open>Inputs of the layers that fit together are the activations of a run.\<close>

lemma chained_inputs_run:
  assumes "model_ok m" "\<And>i. Suc i < NUM_LAYERS \<Longrightarrow> xs (Suc i) = layer_apply (layers m ! i) (xs i)"
  shows "i < NUM_LAYERS \<Longrightarrow> xs i = activations (Model_run m (xs 0)) ! i"
proof (induction i)
  case 0
  then show ?case by (simp add: Model_run_def)
next
  case (Suc i)
  then have "xs (Suc i) = layer_apply (layers m ! i) (activations (Model_run m (xs 0)) ! i)"
    using assms(2) [of i] by simp
  then show ?case using Model_run_step [OF assms(1), of i "xs 0"] Suc.prems by simp
qed

text \<open>What the client's verifier has been shown.\<close>

lemma verify_layers_sound:
  fixes F :: "('f::comm_ring_1) fp_lib"
  assumes "plonk_knowledge F H E" "model_ok m" "setup_loop F H m [0..<NUM_LAYERS] = Some (pps, va_params va)"
    and "verify_layers F H va commits proofs sid wc = Inr ()"
  obtains c :: "nat \<Rightarrow> 'f" where "map (fp_from_repr F) commits = map (\<lambda>i. Some (c i)) [0..<NUM_LAYERS + 1]"
    "\<And>i. i < NUM_LAYERS \<Longrightarrow> vec8 (extracted E (va_params va ! i) (c i) (c (Suc i)) i sid wc (proofs ! i))"
    "\<And>i. i < NUM_LAYERS \<Longrightarrow> c i = poseidon F (extracted E (va_params va ! i) (c i) (c (Suc i)) i sid wc (proofs ! i))"
    "\<And>i. i < NUM_LAYERS \<Longrightarrow> c (Suc i) = poseidon F (layer_apply (layers m ! i)
      (extracted E (va_params va ! i) (c i) (c (Suc i)) i sid wc (proofs ! i)))"
proof -
  note ok = assms(4) [unfolded verify_layers_ok]
  define c where "c i = the (fp_from_repr F (commits ! i))" for i
  have c: "fp_from_repr F (commits ! i) = Some (c i)" "fp_from_repr F (commits ! Suc i) = Some (c (Suc i))"
    "LayerVerifier_verify H (va_params va ! i) (c i) (c (Suc i)) i sid wc (proofs ! i) = Inr ()"
    if "i < NUM_LAYERS" for i
    using ok that by (auto simp: c_def)
  have all: "fp_from_repr F (commits ! i) = Some (c i)" if "i < NUM_LAYERS + 1" for i
    using c(1) [of i] c(2) [of "i - 1"] that by (cases i) (auto simp: NUM_LAYERS_def)
  have len: "length commits = NUM_LAYERS + 1" using ok by simp
  then have eq: "map (fp_from_repr F) commits = map (\<lambda>i. Some (c i)) [0..<NUM_LAYERS + 1]"
    using all by (intro nth_equalityI) (auto simp del: upt_Suc)
  note s = layer_proof_sound [OF assms(1) model_layer_ok [OF assms(2)] setup_layers(3) [OF assms(3)] c(3)]
  show thesis by (rule that [of c]) (use eq s in blast)+
qed

lemma prove_loop_complete:
  fixes F :: "('f::comm_ring_1) fp_lib"
  assumes "plonk_complete F H" "model_ok m" "setup_loop F H m [0..<NUM_LAYERS] = Some (pps, vps)" "vec8 input"
    and "\<forall>i \<in> set is. i < NUM_LAYERS"
  defines "act \<equiv> activations (Model_run m input)"
  shows "\<exists>zkps. prove_loop F H \<lparr>pa_model = m, pa_params = pps\<rparr> (Model_run m input) sid wc coins is = Some zkps \<and>
    length zkps = length is \<and> (\<forall>n < length is. LayerVerifier_verify H (vps ! (is ! n)) (poseidon F (act ! (is ! n)))
      (poseidon F (act ! Suc (is ! n))) (is ! n) sid wc (zkps ! n) = Inr ())"
  using assms(5)
proof (induction "is")
  case (Cons i "is")
  then obtain zkps where rest: "prove_loop F H \<lparr>pa_model = m, pa_params = pps\<rparr> (Model_run m input) sid wc coins is = Some zkps"
    "length zkps = length is" "\<forall>n < length is. LayerVerifier_verify H (vps ! (is ! n)) (poseidon F (act ! (is ! n)))
      (poseidon F (act ! Suc (is ! n))) (is ! n) sid wc (zkps ! n) = Inr ()" by auto
  have i: "i < NUM_LAYERS" using Cons.prems by simp
  have vec: "vec8 (act ! i)" using Model_run_shape [OF assms(2,4)] i by (simp add: act_def list_all_length)
  have step: "act ! Suc i = layer_apply (layers m ! i) (act ! i)" unfolding act_def by (rule Model_run_step [OF assms(2) i])
  obtain zkp where zkp: "LayerProver_prove F H (pps ! i) (act ! i) (act ! Suc i) (poseidon F (act ! i)) (poseidon F (act ! Suc i))
      (layer_w (layers m ! i)) (layer_b (layers m ! i)) i sid wc (coins i) = Some zkp"
    "LayerVerifier_verify H (vps ! i) (poseidon F (act ! i)) (poseidon F (act ! Suc i)) i sid wc zkp = Inr ()"
    using layer_proof_complete [OF assms(1) model_layer_ok [OF assms(2) i] setup_layers(3) [OF assms(3) i] vec step] by blast
  have "prove_loop F H \<lparr>pa_model = m, pa_params = pps\<rparr> (Model_run m input) sid wc coins (i # is) = Some (zkp # zkps)"
    using rest(1) zkp(1) i setup_layers(1) [OF assms(3)] Model_run_shape(1) [OF assms(2,4)] assms(2)
    by (simp add: vector_hash_native_def act_def model_ok_def)
  then show ?case using rest(2,3) zkp(2) by (auto simp: nth_Cons split: nat.split)
qed simp

lemma commit_all_vec8: "list_all vec8 vs \<Longrightarrow> commit_all F vs = Some (map (poseidon F) vs)"
  by (induction vs) (auto simp: vector_commit_native_def vec8_def)

lemma demo_stack_parts:
  fixes L :: "('f::comm_ring_1) session_lib"
  assumes "demo_stack P L H coins gen = Some (st, pool, va)"
  obtains m pps where "Model_from_seed P (sl_fp L) (replicate 32 0) = Some m"
    "setup_loop (sl_fp L) H m [0..<NUM_LAYERS] = Some (pps, va_params va)" "va_weight_commit va = weight_commit m"
    "as_model st = m" "as_engine st = mock_engine"
    "as_identity st = fst (TeeIdentity_random P gen (weight_commit m))"
    "as_layer_prover st = Some (\<lambda>trace sid wc.
      case prove_trace (sl_fp L) H \<lparr>pa_model = m, pa_params = pps\<rparr> coins trace sid wc of
        Some zkps \<Rightarrow> Inr zkps | None \<Rightarrow> Inl ''proof creation'')"
proof -
  let ?F = "sl_fp L"
  obtain m pps st0 nonces gen' where m: "Model_from_seed P ?F (replicate 32 0) = Some m"
    "setup_loop ?F H m [0..<NUM_LAYERS] = Some (pps, va_params va)" "initial_state P m gen = (st0, pool, nonces, gen')"
    "va_weight_commit va = weight_commit m" "st = st0\<lparr>as_layer_prover := Some (\<lambda>trace sid wc.
      case prove_trace ?F H \<lparr>pa_model = m, pa_params = pps\<rparr> coins trace sid wc of
        Some zkps \<Rightarrow> Inr zkps | None \<Rightarrow> Inl ''proof creation'')\<rparr>"
    using assms by (auto simp: demo_stack_def Let_def split: option.splits prod.splits)
  show thesis
    by (rule that [OF m(1,2,4)]) (use initial_state_fields [OF m(3)] m(5) in simp_all)
qed

text \<open>The prover of the demo satisfies its verifier, for every run of the model.\<close>

lemma demo_layers_complete:
  fixes L :: "('f::comm_ring_1) session_lib"
  assumes "plonk_complete (sl_fp L) H" "\<forall>x. fp_from_repr (sl_fp L) (fp_to_repr (sl_fp L) x) = Some x"
    and "demo_stack P L H coins gen = Some (st, pool, va)"
  shows "layers_complete L st (Some (verify_layers (sl_fp L) H va))"
proof -
  let ?F = "sl_fp L"
  obtain m pps where m: "Model_from_seed P ?F (replicate 32 0) = Some m"
    "setup_loop ?F H m [0..<NUM_LAYERS] = Some (pps, va_params va)" "va_weight_commit va = weight_commit m"
    "as_model st = m" "as_identity st = fst (TeeIdentity_random P gen (weight_commit m))"
    "as_layer_prover st = Some (\<lambda>trace sid wc.
      case prove_trace ?F H \<lparr>pa_model = m, pa_params = pps\<rparr> coins trace sid wc of
        Some zkps \<Rightarrow> Inr zkps | None \<Rightarrow> Inl ''proof creation'')"
    by (rule demo_stack_parts [OF assms(3)]) (rule that)
  have ok: "model_ok m" by (rule Model_from_seed_ok [OF m(1)])
  have wc: "tee_weight_commit (as_identity st) = weight_commit m"
    by (simp add: m(5) TeeIdentity_random_commit)
  have "verify_layers ?F H va (tc_bytes tc) (layer_proofs st (Model_run m input) sid) sid (weight_commit m) = Inr ()"
    if v: "vec8 input" and tc: "Trace_commits ?F (Model_run m input) = Some tc" for input tc sid
  proof -
    let ?act = "activations (Model_run m input)"
    obtain zkps where zkps: "prove_loop ?F H \<lparr>pa_model = m, pa_params = pps\<rparr> (Model_run m input) sid (weight_commit m) coins
        [0..<NUM_LAYERS] = Some zkps" "length zkps = NUM_LAYERS"
      "\<And>i. i < NUM_LAYERS \<Longrightarrow> LayerVerifier_verify H (va_params va ! i) (poseidon ?F (?act ! i)) (poseidon ?F (?act ! Suc i))
        i sid (weight_commit m) (zkps ! i) = Inr ()"
      using prove_loop_complete [OF assms(1) ok m(2) v, of "[0..<NUM_LAYERS]" sid "weight_commit m" coins] by auto
    have proofs: "layer_proofs st (Model_run m input) sid = zkps"
      unfolding layer_proofs_def wc by (simp add: m(6) prove_trace_def zkps(1))
    have "tc_bytes tc = map (\<lambda>v. fp_to_repr ?F (poseidon ?F v)) ?act"
      using tc commit_all_vec8 [OF Model_run_shape(2) [OF ok v], of ?F]
      by (auto simp: Trace_commits_def comp_def)
    then show ?thesis
      unfolding verify_layers_ok proofs using zkps(2,3) assms(2) m(3) Model_run_shape(1) [OF ok v] by simp
  qed
  then show ?thesis by (simp add: layers_complete_def wc m(4))
qed

text \<open>What the client checked of an envelope when it had a layer verifier.\<close>

lemma finalize_checked:
  assumes "finalize P L ts w = (Inr rec, w')" "layer_verifier (tks_session ts) = Some v"
  obtains env :: ReceiptEnvelope and commits where "signed_receipt env = rec"
    "receipt_verify P (receipt_bytes L) rec (tee_receipt_pk (tks_session ts)) = Inr ()"
    "decode_commits (sl_text L) (hex_error L) (activation_commits_hex (sr_receipt rec)) = Inr commits"
    "v commits (zk_layer_proofs env) (r_session (sr_receipt rec)) (expected_weight_commit (tks_session ts)) = Inr ()"
proof -
  obtain env where env: "check_envelope P L (tks_session ts) env = Inr rec"
    using assms(1) by (auto simp: finalize_def sbind_def slift_def split: prod.splits sum.splits)
  with assms(2) obtain commits where "signed_receipt env = rec"
    "receipt_verify P (receipt_bytes L) rec (tee_receipt_pk (tks_session ts)) = Inr ()"
    "decode_commits (sl_text L) (hex_error L) (activation_commits_hex (sr_receipt rec)) = Inr commits"
    "v commits (zk_layer_proofs env) (r_session (sr_receipt rec)) (expected_weight_commit (tks_session ts)) = Inr ()"
    by (auto simp: check_envelope_def Let_def rbind_eq_Inr split: if_splits)
  then show thesis by (rule that)
qed

section \<open>Properties\<close>

text \<open>
  C35. Which commitments can be proved to the client.  With keys for the layers of a
  model, there are layer proofs that the client's verifier accepts for a list of
  activation commitments iff the list has one more entry than the model has layers
  and each two neighbours are the commitments of an input of that layer and of its
  output.  In particular the commitments of a run on any input pass, for any
  session: nothing ties them to the prompt.
\<close>

theorem layer_proofs_exact:
  fixes F :: "('f::comm_ring_1) fp_lib"
  assumes "plonk_knowledge F H E" "plonk_complete F H" "model_ok m"
    and "setup_loop F H m [0..<NUM_LAYERS] = Some (pps, vps)"
  shows "(\<exists>proofs. verify_layers F H \<lparr>va_params = vps, va_weight_commit = wc\<rparr> commits proofs sid wc = Inr ()) \<longleftrightarrow>
    length commits = NUM_LAYERS + 1 \<and> (\<exists>xs. \<forall>i < NUM_LAYERS. vec8 (xs i) \<and>
      fp_from_repr F (commits ! i) = Some (poseidon F (xs i)) \<and>
      fp_from_repr F (commits ! Suc i) = Some (poseidon F (layer_apply (layers m ! i) (xs i))))"
    (is "?accepted \<longleftrightarrow> ?linked")
proof
  let ?va = "\<lparr>va_params = vps, va_weight_commit = wc\<rparr>"
  assume ?accepted
  then obtain proofs where ok: "verify_layers F H ?va commits proofs sid wc = Inr ()" by blast
  have "\<exists>x. vec8 x \<and> fp_from_repr F (commits ! i) = Some (poseidon F x) \<and>
      fp_from_repr F (commits ! Suc i) = Some (poseidon F (layer_apply (layers m ! i) x))" if i: "i < NUM_LAYERS" for i
  proof -
    obtain xc yc where c: "fp_from_repr F (commits ! i) = Some xc" "fp_from_repr F (commits ! Suc i) = Some yc"
      "LayerVerifier_verify H (vps ! i) xc yc i sid wc (proofs ! i) = Inr ()"
      using ok i unfolding verify_layers_ok by auto
    note s = layer_proof_sound [OF assms(1) model_layer_ok [OF assms(3) i] setup_layers(3) [OF assms(4) i] c(3)]
    show ?thesis using s c(1,2) by metis
  qed
  then show ?linked using ok choice [of "\<lambda>i x. i < NUM_LAYERS \<longrightarrow> _ i x"] unfolding verify_layers_ok by metis
next
  assume ?linked
  then obtain xs where xs: "length commits = NUM_LAYERS + 1" "\<And>i. i < NUM_LAYERS \<Longrightarrow> vec8 (xs i)"
    "\<And>i. i < NUM_LAYERS \<Longrightarrow> fp_from_repr F (commits ! i) = Some (poseidon F (xs i))"
    "\<And>i. i < NUM_LAYERS \<Longrightarrow> fp_from_repr F (commits ! Suc i) = Some (poseidon F (layer_apply (layers m ! i) (xs i)))"
    by blast
  have "\<exists>zkp. LayerVerifier_verify H (vps ! i) (poseidon F (xs i)) (poseidon F (layer_apply (layers m ! i) (xs i)))
      i sid wc zkp = Inr ()" if i: "i < NUM_LAYERS" for i
    using layer_proof_complete [OF assms(2) model_layer_ok [OF assms(3) i] setup_layers(3) [OF assms(4) i] xs(2) [OF i] refl]
    by blast
  then obtain zkp where zkp: "\<And>i. i < NUM_LAYERS \<Longrightarrow> LayerVerifier_verify H (vps ! i) (poseidon F (xs i))
      (poseidon F (layer_apply (layers m ! i) (xs i))) i sid wc (zkp i) = Inr ()" by metis
  have "verify_layers F H \<lparr>va_params = vps, va_weight_commit = wc\<rparr> commits (map zkp [0..<NUM_LAYERS]) sid wc = Inr ()"
    using xs zkp unfolding verify_layers_ok by simp
  then show ?accepted by blast
qed

text \<open>
  C5. What a receipt accepted with layer proofs says.  If the client finalizes a
  stream with the verifier of a model's layers, then the receipt is signed by the
  service's receipt key and its activation commitments are field elements; the
  inputs of the layers that the extractor reads from the proofs have these
  commitments; and either all commitments are those of the run of the model on the
  first of these inputs, or the extracted vectors are a collision of the hash.
\<close>

theorem accepted_receipt_is_a_run:
  fixes L :: "('f::comm_ring_1) session_lib"
  assumes "plonk_knowledge (sl_fp L) H E" "model_ok m"
    and "setup_loop (sl_fp L) H m [0..<NUM_LAYERS] = Some (pps, va_params va)"
    and "finalize P L ts w = (Inr rec, w')" "layer_verifier (tks_session ts) = Some (verify_layers (sl_fp L) H va)"
  defines "F \<equiv> sl_fp L" and "r \<equiv> sr_receipt rec" and "wc \<equiv> expected_weight_commit (tks_session ts)"
  shows "receipt_verify P (receipt_bytes L) rec (tee_receipt_pk (tks_session ts)) = Inr () \<and>
    (\<exists>commits c proofs. decode_commits (sl_text L) (hex_error L) (activation_commits_hex r) = Inr commits \<and>
      map (fp_from_repr F) commits = map (\<lambda>i. Some (c i)) [0..<NUM_LAYERS + 1] \<and>
      (let xs = (\<lambda>i. extracted E (va_params va ! i) (c i) (c (Suc i)) i (r_session r) wc (proofs ! i)) in
       (\<forall>i < NUM_LAYERS. vec8 (xs i) \<and> c i = poseidon F (xs i)) \<and>
       ((\<forall>i \<le> NUM_LAYERS. c i = poseidon F (activations (Model_run m (xs 0)) ! i)) \<or>
        (\<exists>i. Suc i < NUM_LAYERS \<and> xs (Suc i) \<noteq> layer_apply (layers m ! i) (xs i) \<and>
          poseidon F (xs (Suc i)) = poseidon F (layer_apply (layers m ! i) (xs i))))))"
proof -
  obtain env :: ReceiptEnvelope and commits where env:
    "receipt_verify P (receipt_bytes L) rec (tee_receipt_pk (tks_session ts)) = Inr ()"
    "decode_commits (sl_text L) (hex_error L) (activation_commits_hex r) = Inr commits"
    "verify_layers F H va commits (zk_layer_proofs env) (r_session r) wc = Inr ()"
    by (rule finalize_checked [OF assms(4,5), folded F_def r_def wc_def]) (rule that)
  define proofs where "proofs = zk_layer_proofs env"
  obtain c where c: "map (fp_from_repr F) commits = map (\<lambda>i. Some (c i)) [0..<NUM_LAYERS + 1]"
    "\<And>i. i < NUM_LAYERS \<Longrightarrow> vec8 (extracted E (va_params va ! i) (c i) (c (Suc i)) i (r_session r) wc (proofs ! i))"
    "\<And>i. i < NUM_LAYERS \<Longrightarrow> c i = poseidon F (extracted E (va_params va ! i) (c i) (c (Suc i)) i (r_session r) wc (proofs ! i))"
    "\<And>i. i < NUM_LAYERS \<Longrightarrow> c (Suc i) = poseidon F (layer_apply (layers m ! i)
      (extracted E (va_params va ! i) (c i) (c (Suc i)) i (r_session r) wc (proofs ! i)))"
    using verify_layers_sound [OF assms(1,2,3) env(3) [unfolded F_def], folded F_def proofs_def] by metis
  define xs where "xs i = extracted E (va_params va ! i) (c i) (c (Suc i)) i (r_session r) wc (proofs ! i)" for i
  note x = c(2-4) [folded xs_def]
  have run: "c i = poseidon F (activations (Model_run m (xs 0)) ! i)"
    if chain: "\<And>i. Suc i < NUM_LAYERS \<Longrightarrow> xs (Suc i) = layer_apply (layers m ! i) (xs i)" and i: "i \<le> NUM_LAYERS" for i
  proof (cases i)
    case 0
    then show ?thesis using x(2) [of 0] by (simp add: Model_run_def NUM_LAYERS_def)
  next
    case (Suc j)
    then have j: "j < NUM_LAYERS" using i by simp
    show ?thesis
      using x(3) [OF j] chained_inputs_run [OF assms(2) chain j] Model_run_step [OF assms(2) j, of "xs 0"] Suc by simp
  qed
  have "(\<forall>i \<le> NUM_LAYERS. c i = poseidon F (activations (Model_run m (xs 0)) ! i)) \<or>
      (\<exists>i. Suc i < NUM_LAYERS \<and> xs (Suc i) \<noteq> layer_apply (layers m ! i) (xs i) \<and>
        poseidon F (xs (Suc i)) = poseidon F (layer_apply (layers m ! i) (xs i)))"
    using run x(2,3) by (metis Suc_lessD)
  then show ?thesis
    using env(1,2) c(1) x(1,2) unfolding xs_def Let_def by blast
qed

text \<open>
  C8. A session with layer proofs succeeds.  Take the stack of the demo: the model of
  the zero seed, keys for each layer, a service that proves each layer of its run
  and a client that checks the proofs.  Under the assumptions of a session without
  proofs, and with a proof system that is complete, the handler returns without
  error, the client reads the texts of the engine and accepts the receipt.
\<close>

theorem demo_session_verifies:
  fixes P :: "'r prims" and L :: "('f::comm_ring_1) session_lib"
  assumes "prims_law P" "session_lib_law L" "plonk_complete (sl_fp L) H"
    and "\<forall>x. fp_from_repr (sl_fp L) (fp_to_repr (sl_fp L) x) = Some x"
    and "demo_stack P L H coins gen = Some (st, pool, va)" "evidence_small P L (as_identity st)"
    and "served P L N (as_identity st) base tls clock0"
    and "Core.now_unix clock0 = Inr t0" "Core.now_unix clock1 = Inr t1"
    and "Core.now_unix clock2 = Inr t2" "Core.now_unix clock3 = Inr t3"
    and "unat t1 \<le> unat t0 + 60" "unat t3 \<le> unat t2 + 60"
    and "utf8_valid prompt" "length prompt \<le> MAX_PLAINTEXT_PER_RECORD"
  shows "\<exists>hello wire sw c w1 ts w2 ts' w3 rec w4.
    handle_session P L st seed inst clock2 tenant (server_world [hello, wire] rs pool) = (Inr (), sw) \<and>
    connect_with P L N base (MockIssuer_verifying_key P (attest_issuer (as_identity st)))
      (ed25519_public P (as_receipt_key st)) (va_weight_commit va) tls (Some (verify_layers (sl_fp L) H va))
      clock1 clock3 (client_world (sent sw) rc) = (Inr c, w1) \<and>
    session_send P prompt c w1 = (Inr ts, w2) \<and> sent w2 = [hello, wire] \<and>
    read_all P ts w2 = ((None, map tc_text (mock_engine prompt)), ts', w3) \<and>
    finalize P L ts' w3 = (Inr rec, w4) \<and> incoming w4 = []"
proof -
  have laws: "sha2_law P" using assms(1) by (simp add: prims_law_def)
  obtain m where m: "Model_from_seed P (sl_fp L) (replicate 32 0) = Some m" "va_weight_commit va = weight_commit m"
    "as_engine st = mock_engine" "as_identity st = fst (TeeIdentity_random P gen (weight_commit m))"
    by (rule demo_stack_parts [OF assms(5)]) (rule that)
  have "length (weight_commit m) = 32" by (rule Model_weight_commit_length [OF m(1) laws])
  then have id: "identity_ok P (as_identity st)" "tee_weight_commit (as_identity st) = va_weight_commit va"
    using m(2,4) by (simp_all add: TeeIdentity_random_ok TeeIdentity_random_commit)
  have chunks: "\<forall>ch \<in> set (as_engine st prompt). utf8_valid (tc_text ch) \<and> length (tc_text ch) \<le> MAX_PLAINTEXT_PER_RECORD"
    using mock_engine_chunks [OF assms(14)] by (simp add: m(3))
  show ?thesis
    using session_runs [OF assms(1,2) id(1) assms(6-13) demo_layers_complete [OF assms(3-5)] assms(14,15) chunks,
        unfolded id(2) m(3), where seed = seed and inst = inst and tenant = tenant and rs = rs and pool = pool and rc = rc]
    by blast
qed

text \<open>A concrete proof system over bytes as the field: a proof is the list of the cells.\<close>

definition cells_at :: "bytes \<Rightarrow> nat \<Rightarrow> u8" where
  "cells_at b i = (if i < length b then b ! i else 0)"

definition model_plonk :: "u8 fp_lib \<Rightarrow> (u8, u8 constr list, u8 constr list, unit) plonk_lib" where
  "model_plonk F = \<lparr>keygen_vk = (\<lambda>k lay. Some (constrs lay)), keygen_pk = (\<lambda>k vk lay. Some vk),
    create_proof = (\<lambda>pk lay inst coins. Some (map (\<lambda>v. case v of Some x \<Rightarrow> x | None \<Rightarrow> 0) (advice lay))),
    verify_proof = (\<lambda>vk inst zkp. list_all (holds F inst (cells_at zkp)) vk)\<rparr>"

definition byte_fp :: "u8 fp_lib" where
  "byte_fp = \<lparr>fp_from_repr = (\<lambda>b. Some (b ! 0)), fp_to_repr = (\<lambda>x. x # replicate 31 0), poseidon = sum_list\<rparr>"

definition byte_session_lib :: "u8 session_lib" where
  "byte_session_lib = \<lparr>sl_hello = sl_hello model_session_lib, sl_evidence = sl_evidence model_session_lib,
    sl_text = sl_text model_session_lib, sl_fp = byte_fp, hex_error = hex_error model_session_lib,
    bundle_to_bytes = bundle_to_bytes model_session_lib, bundle_from_bytes = bundle_from_bytes model_session_lib,
    receipt_bytes = receipt_bytes model_session_lib, envelope_to_bytes = envelope_to_bytes model_session_lib,
    envelope_from_bytes = envelope_from_bytes model_session_lib\<rparr>"

lemma model_plonk_knowledge: "plonk_knowledge F (model_plonk F) (\<lambda>vk inst. cells_at)"
  by (auto simp: plonk_knowledge_def model_plonk_def satisfies_def)

lemma model_plonk_complete: "plonk_complete F (model_plonk F)"
proof -
  have "holds F inst (cells_at (map (\<lambda>v. case v of Some x \<Rightarrow> x | None \<Rightarrow> 0) (advice lay))) c"
    if "good F inst lay" "c \<in> set (constrs lay)" for inst lay c
  proof -
    have "set (cells_of c) \<subseteq> {..<length (advice lay)}" "holds F inst (cell_val lay) c"
      using that by (auto simp: good_def)
    then show ?thesis
      by (subst holds_cong [where t = "cell_val lay"]) (auto simp: cells_at_def cell_val_def split: option.splits)
  qed
  then show ?thesis by (auto simp: plonk_complete_def model_plonk_def list_all_iff)
qed

lemma byte_session_lib_same:
  "sl_text byte_session_lib = sl_text model_session_lib" "sl_evidence byte_session_lib = sl_evidence model_session_lib"
  "bundle_to_bytes byte_session_lib = bundle_to_bytes model_session_lib"
  by (simp_all add: byte_session_lib_def)

lemma byte_session_lib_law: "session_lib_law byte_session_lib"
  using model_session_lib_law by (simp add: session_lib_law_def byte_session_lib_def byte_fp_def)

lemma byte_fp_roundtrip: "\<forall>x. fp_from_repr (sl_fp byte_session_lib) (fp_to_repr (sl_fp byte_session_lib) x) = Some x"
  by (simp add: byte_session_lib_def byte_fp_def)

lemma model_plonk_setup: "\<exists>pps vps. setup_loop F (model_plonk F) m is = Some (pps, vps)"
proof (induction "is")
  case (Cons i "is")
  then show ?case by (auto simp: setup_layer_def model_plonk_def Let_def)
qed simp

lemma demo_starts:
  "\<exists>st pool va. demo_stack model_prims byte_session_lib (model_plonk byte_fp) (\<lambda>_. ()) 0 = Some (st, pool, va)"
proof -
  have F: "sl_fp byte_session_lib = byte_fp" by (simp add: byte_session_lib_def)
  have "fp_read_law byte_fp" by (simp add: fp_read_law_def byte_fp_def)
  then obtain m where m: "Model_from_seed model_prims byte_fp (replicate 32 0) = Some m"
    using Model_from_seed_total model_prims_law unfolding prims_law_def by blast
  obtain pps vps where s: "setup_loop byte_fp (model_plonk byte_fp) m [0..<NUM_LAYERS] = Some (pps, vps)"
    using model_plonk_setup by blast
  obtain st pool nonces gen where i: "initial_state model_prims m 0 = (st, pool, nonces, gen)" by (rule prod_cases4)
  show ?thesis by (simp add: demo_stack_def F m s i)
qed

theorem layer_proofs_exact_witness:
  "\<exists>m pps vps commits proofs. model_ok m \<and>
    setup_loop byte_fp (model_plonk byte_fp) m [0..<NUM_LAYERS] = Some (pps, vps) \<and>
    verify_layers byte_fp (model_plonk byte_fp) \<lparr>va_params = vps, va_weight_commit = [7]\<rparr> commits proofs
      (replicate 16 1) [7] = Inr ()"
proof -
  define m :: "u8 Model" where
    "m = \<lparr>layers = replicate 8 \<lparr>layer_w = replicate 8 (replicate 8 2), layer_b = replicate 8 5\<rparr>, weight_commit = []\<rparr>"
  have m: "model_ok m" by (simp add: m_def model_ok_def layer_ok_def vec8_def VEC_DIM_def NUM_LAYERS_def list_all_iff)
  have v: "vec8 (replicate 8 (1 :: u8))" by (simp add: vec8_def VEC_DIM_def)
  obtain pps vps where s: "setup_loop byte_fp (model_plonk byte_fp) m [0..<NUM_LAYERS] = Some (pps, vps)"
    using model_plonk_setup by blast
  let ?act = "activations (Model_run m (replicate 8 1))" and ?c = "\<lambda>v. fp_to_repr byte_fp (poseidon byte_fp v)"
  have "length (map ?c ?act) = NUM_LAYERS + 1 \<and> (\<forall>i < NUM_LAYERS. vec8 (?act ! i) \<and>
      fp_from_repr byte_fp (map ?c ?act ! i) = Some (poseidon byte_fp (?act ! i)) \<and>
      fp_from_repr byte_fp (map ?c ?act ! Suc i) = Some (poseidon byte_fp (layer_apply (layers m ! i) (?act ! i))))"
    using Model_run_shape [OF m v] Model_run_step [OF m, of _ "replicate 8 1"]
    by (auto simp: byte_fp_def list_all_length)
  then have "\<exists>proofs. verify_layers byte_fp (model_plonk byte_fp) \<lparr>va_params = vps, va_weight_commit = [7]\<rparr>
      (map ?c ?act) proofs (replicate 16 1) [7] = Inr ()"
    unfolding layer_proofs_exact [OF model_plonk_knowledge model_plonk_complete m s] by blast
  then show ?thesis using m s by blast
qed

theorem accepted_receipt_is_a_run_witness:
  "\<exists>(ts :: TokenStream) w rec w' m pps vps. model_ok m \<and>
    setup_loop byte_fp (model_plonk byte_fp) m [0..<NUM_LAYERS] = Some (pps, vps) \<and>
    finalize model_prims byte_session_lib ts w = (Inr rec, w') \<and>
    receipt_verify model_prims (receipt_bytes byte_session_lib) rec (tee_receipt_pk (tks_session ts)) = Inr () \<and>
    (\<exists>commits (c :: nat \<Rightarrow> u8). decode_commits (sl_text byte_session_lib) (hex_error byte_session_lib)
        (activation_commits_hex (sr_receipt rec)) = Inr commits \<and>
      map (fp_from_repr byte_fp) commits = map (\<lambda>i. Some (c i)) [0..<NUM_LAYERS + 1])"
proof -
  let ?P = model_prims and ?L = byte_session_lib and ?H = "model_plonk byte_fp"
  have F: "sl_fp ?L = byte_fp" by (simp add: byte_session_lib_def)
  obtain st pool va where d: "demo_stack ?P ?L ?H (\<lambda>_. ()) 0 = Some (st, pool, va)" using demo_starts by blast
  obtain m pps where m: "Model_from_seed ?P byte_fp (replicate 32 0) = Some m"
    "setup_loop byte_fp ?H m [0..<NUM_LAYERS] = Some (pps, va_params va)"
    "as_identity st = fst (TeeIdentity_random ?P 0 (weight_commit m))"
    by (rule demo_stack_parts [OF d, unfolded F]) (rule that)
  have ok: "model_ok m" by (rule Model_from_seed_ok [OF m(1)])
  have "length (weight_commit m) = 32"
    by (rule Model_weight_commit_length [OF m(1)]) (use model_prims_law in \<open>simp add: prims_law_def\<close>)
  then have wc: "length (tee_weight_commit (as_identity st)) = 32" by (simp add: m(3) TeeIdentity_random_commit)
  have lv: "layers_complete ?L st (Some (verify_layers byte_fp ?H va))"
    using demo_layers_complete [OF _ byte_fp_roundtrip d] model_plonk_complete [of byte_fp] by (simp add: F)
  have fl: "all_flushed (server_world [] (5 :: nat) pool)" by (simp add: all_flushed_def server_world_def)
  obtain ss :: TeeSession and s :: Session where "True" by blast
  define ts where "ts = \<lparr>tks_session = s\<lparr>tee_receipt_pk := ed25519_public ?P (as_receipt_key st),
    expected_weight_commit := tee_weight_commit (as_identity st),
    layer_verifier := Some (verify_layers byte_fp ?H va)\<rparr>, ended = True\<rparr>"
  obtain env rec where "\<forall>ts (cw :: nat world) es. tee_receipt_pk (tks_session ts) = ed25519_public ?P (as_receipt_key st) \<longrightarrow>
      expected_weight_commit (tks_session ts) = tee_weight_commit (as_identity st) \<longrightarrow>
      layer_verifier (tks_session ts) = Some (verify_layers byte_fp ?H va) \<longrightarrow> incoming cw = WsBinary env # es \<longrightarrow>
      finalize ?P ?L ts cw = (Inr rec, cw\<lparr>incoming := es\<rparr>)"
    by (rule receipt_accepted [OF model_prims_law byte_session_lib_law wc lv fl, of "TenantId []" "replicate 16 1" 5 1 "[]" ss])
      (rule that)
  then obtain w' where fin: "finalize ?P ?L ts (client_world [env] 0) = (Inr rec, w')"
    by (auto simp: ts_def client_world_def)
  have "layer_verifier (tks_session ts) = Some (verify_layers (sl_fp ?L) ?H va)" by (simp add: ts_def F)
  from accepted_receipt_is_a_run [OF _ ok _ fin this, unfolded F, OF model_plonk_knowledge m(2)]
  show ?thesis using ok m(2) fin by blast
qed

lemma byte_served: "served model_prims byte_session_lib (sample_net i) i ''http://h'' None 0"
proof -
  have "attest model_prims byte_session_lib = attest model_prims model_session_lib"
    by (intro ext) (simp only: attest_def byte_session_lib_same)
  then show ?thesis using sample_served [of i] by (simp add: served_def byte_session_lib_def)
qed

theorem demo_session_verifies_witness:
  "\<exists>st pool va hello wire sw c w1 ts w2 ts' w3 rec w4.
    demo_stack model_prims byte_session_lib (model_plonk byte_fp) (\<lambda>_. ()) 0 = Some (st, pool, va) \<and>
    handle_session model_prims byte_session_lib st 1 0 0 (TenantId ''t'') (server_world [hello, wire] 5 pool) = (Inr (), sw) \<and>
    connect_with model_prims byte_session_lib (sample_net (as_identity st)) ''http://h''
      (MockIssuer_verifying_key model_prims (attest_issuer (as_identity st)))
      (ed25519_public model_prims (as_receipt_key st)) (va_weight_commit va) None
      (Some (verify_layers byte_fp (model_plonk byte_fp) va)) 0 0 (client_world (sent sw) 3) = (Inr c, w1) \<and>
    session_send model_prims (str_bytes ''hi'') c w1 = (Inr ts, w2) \<and>
    read_all model_prims ts w2 = ((None, map tc_text (mock_engine (str_bytes ''hi''))), ts', w3) \<and>
    finalize model_prims byte_session_lib ts' w3 = (Inr rec, w4)"
proof -
  have F: "sl_fp byte_session_lib = byte_fp" by (simp add: byte_session_lib_def)
  have complete: "plonk_complete (sl_fp byte_session_lib) (model_plonk byte_fp)" unfolding F by (rule model_plonk_complete)
  obtain st pool va where d: "demo_stack model_prims byte_session_lib (model_plonk byte_fp) (\<lambda>_. ()) 0 = Some (st, pool, va)"
    using demo_starts by blast
  have now: "Core.now_unix 0 = Inr 0" by (simp add: Core.now_unix_def)
  have bound: "unat (0 :: u64) \<le> unat (0 :: u64) + 60" by simp
  have prompt: "utf8_valid (str_bytes ''hi'')" "length (str_bytes ''hi'') \<le> MAX_PLAINTEXT_PER_RECORD"
    by (simp_all add: str_bytes_def MAX_PLAINTEXT_PER_RECORD_def)
  have small: "evidence_small model_prims byte_session_lib (as_identity st)"
    using sample_evidence_small [of "as_identity st"] by (simp add: evidence_small_def byte_session_lib_def)
  show ?thesis
    using demo_session_verifies [OF model_prims_law byte_session_lib_law complete byte_fp_roundtrip d small byte_served
        now now now now bound bound prompt, where seed = 1 and inst = 0 and tenant = "TenantId ''t''" and rs = 5 and rc = 3]
      d unfolding F by blast
qed

end
