(* ===== verification/Spec2Isabelle.thy ===== *)
theory Spec2Isabelle
  imports Session_Token Overlay KvMatrix Mpc Threshold Llm Phala Relay Browser Py_Session Zk_Proofs
begin

text \<open>
  Verification of ULLM, an end-to-end encrypted and attested stack for inference
  with language models.

  \<^bold>\<open>The program.\<close>  A client (\<open>crates/ullm-client\<close>, with bindings for the browser in
  \<open>bindings/ts\<close> and for Python in \<open>bindings/python\<close>) opens a session with a service
  that runs in a trusted execution environment (\<open>crates/ullm-tee\<close>), through a
  gateway that relays ciphertext, limits rates and keeps a transparency log
  (\<open>crates/ullm-gateway\<close>, \<open>crates/ullm-transparency\<close>).  The client fetches an
  attested pre-key bundle, runs a hybrid handshake (\<open>crates/ullm-handshake\<close>), sends a
  prompt in encrypted frames (\<open>crates/ullm-wire\<close>), reads the answer across key
  updates, and checks a signed receipt (\<open>crates/ullm-receipts\<close>), optionally with a
  proof for each layer of the model (\<open>crates/ullm-zk\<close>).  Afterwards the tools under
  \<open>tools/\<close> audit the log and the receipts.  Federation, onion routing, two-party
  evaluation, threshold signatures and the cloak of the key-value cache are crates
  of their own.

  \<^bold>\<open>Conventions.\<close>  Machine integers are words of their width, byte strings are lists of
  8-bit words, a \<open>struct\<close> is a record, an \<open>enum\<close> a datatype.  \<open>Result\<close> is a sum whose
  left values are the errors of the source, with \<open>rbind\<close> for the operator \<open>?\<close>; a panic
  is \<open>None\<close>.  State is passed explicitly, or by the state-and-error monad \<open>smonad\<close>
  where the source threads a connection through many calls.  Definitions keep the
  name of the source, with a prefix where two crates use one name.  Third-party
  crates are records of functions, arguments of the definitions that call them;
  their documented behaviour is a named law (\<open>prims_law\<close>, \<open>session_lib_law\<close>,
  \<open>plonk_complete\<close>, \<open>frost_law\<close> and so on), and each law is shown to hold for a concrete
  instance, on which the witnesses of the properties compute.  Cryptographic laws
  are functional (decryption inverts encryption, a made signature verifies, only
  sealed boxes open); where a property needs a hash without collisions, it is
  stated as an alternative: the conclusion, or two different strings with one hash.
\<close>

text \<open>
  \<^bold>\<open>Foundations.\<close>
  \<open>Prelude\<close> holds the types, the result type, the monad and the shared lemmas;
  \<open>Rust_Text\<close> what is used of Rust's strings; \<open>Core\<close> and \<open>Shutdown\<close> the crate \<open>ullm-core\<close>
  (errors, identifiers, clock; address check and the signal broadcaster);
  \<open>Primitives\<close> and \<open>Codecs\<close> the parameters for cryptography and text formats;
  \<open>F64\<close> binary64 arithmetic with its rounding, for the rate limiter;
  \<open>Lru\<close> the recency index shared by the three bounded tables, with the locales
  \<open>ordered_set\<close> and \<open>lru_index\<close>, interpreted on the ordered list that stands for
  \<open>BTreeSet\<close> and used for each table.

  \<^bold>\<open>Channel.\<close>
  \<open>Crypto\<close> (\<open>ullm-crypto\<close>: key derivation, AEAD, sealing, key exchange, ratchet),
  \<open>Frame\<close>, \<open>Control\<close> and \<open>Replay\<close> (\<open>ullm-wire\<close>), \<open>Handshake\<close> (\<open>ullm-handshake\<close>),
  \<open>Tls\<close> and \<open>Tls_Server\<close> (\<open>ullm-tls\<close>).  Shown: frames and control messages decode to
  exactly what was encoded, the bitmap window refines the set of accepted numbers,
  both sides of a handshake derive the same keys, and a pinned certificate is
  accepted for its names.

  \<^bold>\<open>Attestation.\<close>
  \<open>Quotes\<close> (parsers of TDX, SNP and NVIDIA evidence), \<open>Attest\<close> (verifiers, with the
  locale \<open>attestation_verifier\<close> interpreted on the mock and the hardware verifier),
  \<open>Tee_Identity\<close> (bundles of \<open>identity.rs\<close> and their check in \<open>attest_check.rs\<close>),
  \<open>Federation\<close> and \<open>Phala\<close>.  Shown: what evidence is accepted, what a bundle binds, and
  when k of n slots suffice.

  \<^bold>\<open>Service and clients.\<close>
  \<open>Nonce_Registry\<close>, \<open>KvCloak\<close>, \<open>Tenant_Pool\<close>, \<open>Inference\<close>, \<open>Receipts\<close>, \<open>Ws\<close> (the socket),
  \<open>Tee_Service\<close> (\<open>service.rs\<close>: \<open>handle_session\<close> whole), \<open>Tee_Server\<close> (routers and
  \<open>bin/server.rs\<close>), \<open>Client_Session\<close> (\<open>ullm-client\<close>), \<open>Wasm_Session\<close> and \<open>Browser\<close>
  (\<open>bindings/ts\<close>), \<open>Py_Session\<close> (\<open>bindings/python\<close>), \<open>Llm\<close> (\<open>ullm-llm\<close>).  \<open>Streaming\<close> is the
  simulation between the two ends of a stream, \<open>End_To_End\<close> runs a session from the
  request for a bundle to the receipt, and \<open>Browser\<close> and \<open>Py_Session\<close> do so for the
  bindings.  Shown: sessions over a network that delivers succeed at both ends with
  the answer of the engine; replayed nonces are refused.

  \<^bold>\<open>Gateway and log.\<close>
  \<open>Merkle\<close>, \<open>Sth\<close>, \<open>Log\<close> (\<open>ullm-transparency\<close>), \<open>Rate_Limit\<close>, \<open>Session_Token\<close>, \<open>Gateway\<close>
  (handlers of \<open>proxy.rs\<close>), \<open>Relay\<close> (its WebSocket relay as a step relation) and
  \<open>Gateway_Server\<close> (\<open>bin/server.rs\<close>, and the life of a gateway over crashes and
  restarts as an inductive predicate).  Shown: proofs and roots bind the log, the
  file survives crashes, heads are never contradicted later, and rates are bounded.

  \<^bold>\<open>Verifiable model.\<close>
  \<open>Fp_Model\<close> (\<open>ullm-model\<close>), \<open>Zk_Layer\<close> (the constraints of \<open>ullm-zk\<close>), \<open>Zk_Proofs\<close> (keys,
  proofs and the adapters of \<open>ullm-demo\<close>), \<open>Mpc\<close> (\<open>ullm-mpc\<close>).  Shown: which commitments
  can be proved, and what an accepted receipt says about the computation.

  \<^bold>\<open>Audit tools.\<close>
  \<open>Cli\<close>, \<open>Log_Auditor\<close> (\<open>ullm-log-auditor\<close>), \<open>Watcher\<close> and \<open>Watcher_Cli\<close> (\<open>ullm-watcher\<close>).
  Shown: what each exit code establishes, and that honest services and gateways
  are not accused.

  \<^bold>\<open>Further crates.\<close>
  \<open>Overlay\<close> (\<open>ullm-overlay\<close>), \<open>KvMatrix\<close> (matrix cloak and shared service of
  \<open>ullm-kvcloak\<close>), \<open>Threshold\<close> (\<open>ullm-threshold\<close>).
\<close>

text \<open>
  \<^bold>\<open>Termination.\<close>  No definition takes fuel.  Loops are structural or have a termination
  proof: the readers of a stream on the messages still to come, the tree loops on
  the size of a level, the scan of the log on the bytes left.  Two loops may run
  forever, the splitter of the echo engine and the routing of onion packets; they are
  partial functions with value \<open>None\<close> then, and it is shown when they return.

  \<^bold>\<open>Bounds.\<close>  Sizes in hypotheses are those of the program: a prompt fits a record, the
  clocks of client and service differ by at most the time to live of evidence, a log
  has fewer than \<open>2 ^ 64\<close> entries, a browser session makes fewer than \<open>2 ^ 32\<close> calls,
  the limits of a rate limiter are below \<open>2 ^ 53\<close>.

  \<^bold>\<open>Not modelled.\<close>  The runtimes behind axum, tokio and rustls, logging, and zeroing of
  memory, which have no value in the model; the guard that aborts the inference task
  when a session ends early (\<open>service.rs\<close>); the two routers of \<open>proxy.rs\<close>, which
  register the modelled handlers; loading and evaluation of a candle model
  (\<open>ullm-llm/real.rs\<close>), a parameter; the internals of halo2, FROST and the
  cryptographic crates, parameters with laws; what \<open>ullm-demo\<close> prints, the script
  \<open>ullm-phase4-demo\<close>, and the benchmarks of \<open>ullm-bench\<close>.  Soundness of the proof system
  is assumed without its negligible error, and timing and side channels are outside
  the model.
\<close>

end
